(* ===== verification/Prelude.thy ===== *)
theory Prelude
  imports Main "HOL-Library.Word" "HOL-Library.Multiset"
begin

text \<open>
  Shared vocabulary of the development: Rust's unsigned integers as words with the checked,
  saturating and panicking operators, results with an error value and their sequencing (the
  \<open>?\<close> operator), slices of byte strings, and the generic lemmas on natural numbers, words
  and lists that the component theories use.
\<close>

section \<open>Machine integers\<close>

type_synonym u8 = "8 word"
type_synonym u32 = "32 word"
type_synonym u64 = "64 word"
type_synonym u128 = "128 word"
type_synonym bytes = "u8 list"

named_theorems unat_simps \<comment> \<open>facts that move a goal on words to natural numbers\<close>
named_theorems result_simps \<comment> \<open>facts that invert a successful computation\<close>

declare word_le_nat_alt [unat_simps] word_less_nat_alt [unat_simps]

text \<open>\<open>checked_add\<close>, \<open>checked_sub\<close>, \<open>checked_mul\<close>, \<open>saturating_add\<close> and
  \<open>saturating_sub\<close> of Rust's unsigned integers.\<close>

definition checked_add :: "'a::len word \<Rightarrow> 'a word \<Rightarrow> 'a word option" where
  "checked_add a b = (if unat a + unat b < 2 ^ LENGTH('a) then Some (a + b) else None)"

definition checked_sub :: "'a::len word \<Rightarrow> 'a word \<Rightarrow> 'a word option" where
  "checked_sub a b = (if b \<le> a then Some (a - b) else None)"

definition checked_mul :: "'a::len word \<Rightarrow> 'a word \<Rightarrow> 'a word option" where
  "checked_mul a b = (if unat a * unat b < 2 ^ LENGTH('a) then Some (a * b) else None)"

definition saturating_add :: "'a::len word \<Rightarrow> 'a word \<Rightarrow> 'a word" where
  "saturating_add a b = (if unat a + unat b < 2 ^ LENGTH('a) then a + b else - 1)"

definition saturating_sub :: "'a::len word \<Rightarrow> 'a word \<Rightarrow> 'a word" where
  "saturating_sub a b = (if b \<le> a then a - b else 0)"

lemma checked_add_Some [unat_simps, result_simps]:
  "checked_add a b = Some c \<longleftrightarrow> unat c = unat a + unat b"
  unfolding checked_add_def
  by (metis option.discI option.inject unat_add_lem unsigned_less word_unat_eq_iff)

lemma checked_sub_Some [unat_simps, result_simps]:
  "checked_sub a b = Some c \<longleftrightarrow> unat a = unat b + unat c"
  unfolding checked_sub_def
  by (smt (verit) diff_add_inverse le_add1 le_add_diff_inverse option.discI option.inject
      unat_sub word_le_nat_alt word_unat_eq_iff)

lemma checked_mul_Some [unat_simps, result_simps]:
  "checked_mul a b = Some c \<longleftrightarrow> unat c = unat a * unat b"
  unfolding checked_mul_def
  by (metis option.discI option.inject unat_mult_lem unsigned_less word_unat_eq_iff)

lemma checked_add_None [unat_simps]:
  "checked_add a b = None \<longleftrightarrow> 2 ^ LENGTH('a) \<le> unat a + unat b"
  for a b :: "'a::len word"
  by (simp add: checked_add_def not_less)

lemma checked_sub_None [unat_simps]: "checked_sub a b = None \<longleftrightarrow> unat a < unat b"
  by (simp add: checked_sub_def word_le_nat_alt not_le)

lemma unat_saturating_sub [unat_simps, simp]: "unat (saturating_sub a b) = unat a - unat b"
  by (simp add: saturating_sub_def unat_sub word_le_nat_alt)

lemma unat_saturating_add [unat_simps, simp]:
  "unat (saturating_add a b) = min (unat a + unat b) (2 ^ LENGTH('a) - 1)"
  for a b :: "'a::len word"
proof (cases "unat a + unat b < 2 ^ LENGTH('a)")
  case True
  then show ?thesis
    using unat_add_lem [of a b] by (simp add: saturating_add_def)
next
  case False
  then show ?thesis
    by (simp add: saturating_add_def unsigned_minus_1_eq_mask mask_eq_exp_minus_1)
qed

lemma unat_min [unat_simps, simp]: "unat (min a b) = min (unat a) (unat b)"
  by (simp add: min_def word_le_nat_alt)

lemma unat_max [unat_simps, simp]: "unat (max a b) = max (unat a) (unat b)"
  by (simp add: max_def word_le_nat_alt)

lemma unat_diff_le: "b \<le> a \<Longrightarrow> unat (a - b) = unat a - unat b"
  by (simp add: unat_sub)

lemma unat_add_le: "unat a + unat b < 2 ^ LENGTH('a) \<Longrightarrow> unat (a + b) = unat a + unat b"
  for a b :: "'a::len word"
  by (simp add: unat_add_lem [symmetric])

lemma unat_ucast_up:
  "LENGTH('a) \<le> LENGTH('b) \<Longrightarrow> unat (ucast (x :: 'a::len word) :: 'b::len word) = unat x"
  by (simp add: unsigned_ucast_eq take_bit_nat_eq_self_iff)
    (meson less_le_trans one_le_numeral power_increasing unsigned_less)

lemma unat_of_nat_small: "n < 2 ^ LENGTH('a) \<Longrightarrow> unat (of_nat n :: 'a::len word) = n"
  by (simp add: unsigned_of_nat take_bit_nat_eq_self_iff)

lemma ucast_via_nat: "ucast x = (of_nat (unat x) :: 'b::len word)"
  by simp

lemma unat_eqD: "unat a = unat b \<Longrightarrow> a = b"
  by (simp add: word_unat_eq_iff)

lemma ex_unat_eq:
  "(\<exists>c::'a::len word. unat c = k \<and> Q c) \<longleftrightarrow> k < 2 ^ LENGTH('a) \<and> Q (word_of_nat k)"
  by (metis unat_of_nat_small unsigned_less unat_eqD)

lemma unat_u64_less: "unat (x::u64) < 18446744073709551616"
  using unsigned_less [of x] by simp

lemma unat_u32_less: "unat (x::u32) < 4294967296"
  using unsigned_less [of x] by simp

section \<open>Results\<close>

text \<open>
  A fallible computation is a value of \<open>'e + 'a\<close>, with \<open>Inl\<close> for the error.
  \<open>bindR m f\<close> is \<open>f(m?)\<close>; \<open>require c e\<close> is \<open>if !c { return Err(e) }\<close>;
  \<open>ok_or\<close> is Rust's method, also used for \<open>expect\<close>, \<open>unwrap\<close> and for the plain
  arithmetic operators (built with overflow checks), whose failure is a panic;
  \<open>all_ok\<close> runs a sequence of checks, each followed by \<open>?\<close>.
\<close>

definition bindR :: "'e + 'a \<Rightarrow> ('a \<Rightarrow> 'e + 'b) \<Rightarrow> 'e + 'b" where
  "bindR m f = (case m of Inl e \<Rightarrow> Inl e | Inr x \<Rightarrow> f x)"

definition require :: "bool \<Rightarrow> 'e \<Rightarrow> 'e + unit" where
  "require c e = (if c then Inr () else Inl e)"

definition ok_or :: "'a option \<Rightarrow> 'e \<Rightarrow> 'e + 'a" where
  "ok_or m e = (case m of None \<Rightarrow> Inl e | Some x \<Rightarrow> Inr x)"

fun all_ok :: "('e + unit) list \<Rightarrow> 'e + unit" where
  "all_ok [] = Inr ()"
| "all_ok (m # ms) = bindR m (\<lambda>_. all_ok ms)"

lemma bindR_simps [simp]: "bindR (Inl e) f = Inl e" "bindR (Inr x) f = f x"
  by (simp_all add: bindR_def)

lemma bindR_Inr [result_simps]:
  "bindR m f = Inr y \<longleftrightarrow> (\<exists>x. m = Inr x \<and> f x = Inr y)"
  by (cases m) simp_all

lemma bindR_Inl: "bindR m f = Inl e \<longleftrightarrow> m = Inl e \<or> (\<exists>x. m = Inr x \<and> f x = Inl e)"
  by (cases m) simp_all

lemma bindR_assoc: "bindR (bindR m f) g = bindR m (\<lambda>x. bindR (f x) g)"
  by (cases m) simp_all

lemma require_Inr [result_simps, simp]: "require c e = Inr u \<longleftrightarrow> c"
  by (simp add: require_def)

lemma require_Inl [simp]: "require c e = Inl e' \<longleftrightarrow> \<not> c \<and> e = e'"
  by (auto simp: require_def)

lemma require_eval [simp]: "require True e = Inr ()" "require False e = Inl e"
  by (simp_all add: require_def)

lemma ok_or_Inr [result_simps]: "ok_or m e = Inr x \<longleftrightarrow> m = Some x"
  by (cases m) (simp_all add: ok_or_def)

lemma ok_or_Inl: "ok_or m e = Inl e' \<longleftrightarrow> m = None \<and> e = e'"
  by (cases m) (auto simp: ok_or_def)

lemma ok_or_eval [simp]: "ok_or None e = Inl e" "ok_or (Some x) e = Inr x"
  by (simp_all add: ok_or_def)

lemma all_ok_Inr [result_simps]: "all_ok ms = Inr u \<longleftrightarrow> (\<forall>m \<in> set ms. m = Inr ())"
  by (induction ms) (auto simp: bindR_Inr)

lemma all_ok_Inl_mem: "all_ok ms = Inl e \<Longrightarrow> Inl e \<in> set ms"
  by (induction ms) (auto simp: bindR_Inl)

section \<open>Slices\<close>

text \<open>\<open>&data[a..b]\<close>: \<open>None\<close> where Rust panics. \<open>overwrite\<close> writes a byte_slice back.\<close>

definition byte_slice :: "'a list \<Rightarrow> nat \<Rightarrow> nat \<Rightarrow> 'a list option" where
  "byte_slice xs a b = (if a \<le> b \<and> b \<le> length xs then Some (take (b - a) (drop a xs)) else None)"

definition overwrite :: "'a list \<Rightarrow> nat \<Rightarrow> 'a list \<Rightarrow> 'a list" where
  "overwrite xs a ys = take a xs @ ys @ drop (a + length ys) xs"

lemma length_overwrite [simp]:
  "a + length ys \<le> length xs \<Longrightarrow> length (overwrite xs a ys) = length xs"
  by (simp add: overwrite_def)

lemma byte_slice_length: "byte_slice xs a b = Some ys \<Longrightarrow> length ys = b - a"
  by (auto simp: byte_slice_def split: if_splits)

lemma overwrite_nth:
  assumes "a + length ys \<le> length xs" and "i < length xs"
  shows "overwrite xs a ys ! i = (if a \<le> i \<and> i < a + length ys then ys ! (i - a) else xs ! i)"
  using assms by (auto simp: overwrite_def nth_append min_def)

lemma byte_slice_write_same:
  "a + length ys \<le> length xs \<Longrightarrow> a + length ys \<le> b \<Longrightarrow> b \<le> length xs \<Longrightarrow>
   byte_slice (overwrite xs a ys) a b = Some (ys @ take (b - a - length ys) (drop (a + length ys) xs))"
  by (simp add: byte_slice_def) (simp add: overwrite_def)

lemma byte_slice_write_other:
  assumes "a + length ys \<le> length xs" and "d \<le> a \<or> a + length ys \<le> c"
  shows "byte_slice (overwrite xs a ys) c d = byte_slice xs c d"
proof (cases "c \<le> d \<and> d \<le> length xs")
  case True
  then have "take (d - c) (drop c (overwrite xs a ys)) = take (d - c) (drop c xs)"
    using assms by (auto intro!: nth_equalityI simp: overwrite_nth)
  with True assms show ?thesis by (simp add: byte_slice_def)
next
  case False
  with assms show ?thesis by (auto simp: byte_slice_def)
qed

section \<open>Sums and removals in lists\<close>

text \<open>The order-breaking removal: the last element takes the place of the removed one.\<close>

definition swap_remove :: "'a list \<Rightarrow> nat \<Rightarrow> 'a list" where
  "swap_remove xs i = (if i = length xs - 1 then butlast xs else (butlast xs)[i := last xs])"

lemma length_swap_remove [simp]: "length (swap_remove xs i) = length xs - 1"
  by (simp add: swap_remove_def)

lemma swap_remove_nth:
  "i < length xs \<Longrightarrow> j < length xs - 1 \<Longrightarrow>
   swap_remove xs i ! j = (if j = i then last xs else xs ! j)"
  by (auto simp: swap_remove_def nth_butlast)

lemma mset_swap_remove:
  assumes "i < length xs"
  shows "mset (swap_remove xs i) = mset xs - {# xs ! i #}"
proof -
  from assms obtain ys z where xs: "xs = ys @ [z]"
    by (cases xs rule: rev_cases) auto
  show ?thesis
  proof (cases "i = length ys")
    case True
    with xs show ?thesis by (simp add: swap_remove_def)
  next
    case False
    with assms xs have "i < length ys" by simp
    with False xs show ?thesis
      by (simp add: swap_remove_def mset_update nth_append)
  qed
qed

lemma set_swap_remove: "i < length xs \<Longrightarrow> set (swap_remove xs i) \<subseteq> set xs"
  by (metis in_diffD mset_swap_remove set_mset_mset subsetI)

lemma sum_list_swap_remove:
  fixes f :: "'a \<Rightarrow> nat"
  assumes "i < length xs"
  shows "sum_list (map f (swap_remove xs i)) + f (xs ! i) = sum_list (map f xs)"
proof -
  have sum: "sum_list (map f ys) = sum_mset (image_mset f (mset ys))" for ys
    by (metis mset_map sum_mset_sum_list)
  have "xs ! i \<in># mset xs" using assms by simp
  then have "sum_mset (image_mset f (mset xs))
      = f (xs ! i) + sum_mset (image_mset f (mset xs - {# xs ! i #}))"
    by (metis image_mset_add_mset insert_DiffM sum_mset.add_mset)
  then show ?thesis by (simp add: sum mset_swap_remove [OF assms])
qed

lemma sum_list_update_nat:
  fixes f :: "'a \<Rightarrow> nat"
  assumes "i < length xs"
  shows "sum_list (map f (xs[i := x])) + f (xs ! i) = sum_list (map f xs) + f x"
  using assms by (induction xs arbitrary: i) (auto split: nat.splits)

lemma nth_le_sum_list:
  fixes f :: "'a \<Rightarrow> nat"
  shows "i < length xs \<Longrightarrow> f (xs ! i) \<le> sum_list (map f xs)"
  by (rule member_le_sum_list) (auto)

section \<open>Rounded proportions\<close>

lemma mult_div_le: "(a * n div d) * d \<le> a * (n::nat)"
  by (simp add: div_times_less_eq_dividend)

lemma mult_div_mono: "a \<le> b \<Longrightarrow> a * n div d \<le> b * n div (d::nat)"
  by (simp add: div_le_mono)

lemma mult_div_le_self: "n \<le> d \<Longrightarrow> a * n div d \<le> (a::nat)"
  by (metis div_le_mono div_mult_self_is_m le_0_eq mult_le_mono2 nonzero_mult_div_cancel_right
      div_by_0 zero_le not_gr_zero)

lemma div_superadd: "a div d + b div d \<le> (a + b) div (d::nat)"
  by (metis div_add1_eq le_add1)

end
