(* ===== verification/Solana.thy ===== *)
theory Solana
  imports Prelude
begin

text \<open>
  What the program sees of the chain it runs on: addresses, the accounts with their lamports,
  owners and contents, the sysvars, the instructions it sends to other programs, and the
  \<open>runtime\<close> record of everything it calls that is not part of the repository (address
  derivation, cross-program invocation, the codecs that Borsh derives, rent). That outside code
  is a parameter of every definition that uses it; the locale \<open>marinade_runtime\<close> lists the documented
  behaviour that the theorems rely on.
  The theory also holds the errors (\<open>error.rs\<close>) and the argument checks (\<open>checks.rs\<close>).
\<close>

section \<open>Addresses\<close>

text \<open>A \<open>Pubkey\<close> is an array of 32 bytes; here the number those bytes spell, big endian.\<close>

type_synonym pubkey = "256 word"

definition pubkey_new_from_array :: "nat list \<Rightarrow> pubkey" where
  "pubkey_new_from_array bs = of_nat (foldl (\<lambda>acc b. 256 * acc + b) 0 bs)"

definition pubkey_to_bytes :: "pubkey \<Rightarrow> bytes" where
  "pubkey_to_bytes k = map (\<lambda>i. ucast (drop_bit (8 * i) k)) (rev [0..<32])"

definition pubkey_default :: pubkey where
  "pubkey_default = 0"

definition ID :: pubkey where
  "ID = pubkey_new_from_array
     [5, 69, 227, 101, 190, 242, 113, 173, 117, 53, 3, 103, 86, 93, 164, 13, 163, 54, 220, 28, 135,
      155, 177, 84, 138, 122, 252, 197, 90, 169, 57, 30]"

section \<open>Errors\<close>

datatype common_error =
    WrongReserveOwner | NonEmptyReserveData | InvalidInitialReserveLamports
  | ZeroValidatorChunkSize | TooBigValidatorChunkSize | ZeroCreditChunkSize | TooBigCreditChunkSize
  | TooLowCreditFee | InvalidMintAuthority | MintHasInitialSupply | InvalidOwnerFeeState
  | InvalidProgramId | UnexpectedAccount | CalculationFailure | AccountWithLockup
  | NumberTooLow | NumberTooHigh | FeeTooHigh | FeesWrongWayRound | LiquidityTargetTooLow
  | TicketNotDue | TicketNotReady | WrongBeneficiary | InsufficientLiquidity | InvalidValidator

text \<open>
  \<open>Common\<close> is a \<open>CommonError\<close> converted by \<open>into()\<close>; \<open>Panic\<close> stands for a panic
  (a failed \<open>expect\<close>, \<open>unwrap\<close>, \<open>assert\<close>, an index out of range or an arithmetic
  overflow), which aborts the transaction as an error does; \<open>Constraint\<close> is a rejection by
  the account constraints of the \<open>Accounts\<close> structs; \<open>External\<close> is an error returned by
  an invoked program.
\<close>

datatype program_error =
    Custom nat | InvalidArgument | InvalidInstructionData | InvalidAccountData
  | AccountDataTooSmall | InsufficientFunds | AccountAlreadyInitialized | BorshIoError
  | Common common_error | Panic | Constraint | External nat

type_synonym 'a result = "program_error + 'a"

text \<open>The plain operators of the code, built with overflow checks: they panic.\<close>

abbreviation padd :: "'a::len word \<Rightarrow> 'a word \<Rightarrow> 'a word result" where
  "padd a b \<equiv> ok_or (checked_add a b) Panic"

abbreviation psub :: "'a::len word \<Rightarrow> 'a word \<Rightarrow> 'a word result" where
  "psub a b \<equiv> ok_or (checked_sub a b) Panic"

abbreviation pmul :: "'a::len word \<Rightarrow> 'a word \<Rightarrow> 'a word result" where
  "pmul a b \<equiv> ok_or (checked_mul a b) Panic"

section \<open>Accounts\<close>

record token_account =
  tk_mint :: pubkey
  tk_owner :: pubkey
  tk_amount :: u64
  tk_delegate :: "pubkey option"
  tk_delegated_amount :: u64

record mint =
  mt_supply :: u64
  mt_authority :: "pubkey option"
  mt_freeze :: "pubkey option"

record lockup =
  lk_unix_timestamp :: int
  lk_epoch :: u64
  lk_custodian :: pubkey

record stake_meta =
  rent_exempt_reserve :: u64
  staker :: pubkey
  withdrawer :: pubkey
  meta_lockup :: lockup

record delegation =
  voter_pubkey :: pubkey
  delegated_stake :: u64
  activation_epoch :: u64
  deactivation_epoch :: u64

datatype stake_state =
    StakeUninitialized | StakeInitialized stake_meta | StakeDelegated stake_meta delegation
  | StakeRewardsPool

fun stake_delegation :: "stake_state \<Rightarrow> delegation option" where
  "stake_delegation (StakeDelegated _ d) = Some d"
| "stake_delegation _ = None"

fun stake_meta_of :: "stake_state \<Rightarrow> stake_meta option" where
  "stake_meta_of (StakeInitialized m) = Some m"
| "stake_meta_of (StakeDelegated m _) = Some m"
| "stake_meta_of _ = None"

text \<open>\<open>TicketAccountData\<close>, the program's own account of a delayed unstake.\<close>

record ticket =
  state_address :: pubkey
  beneficiary :: pubkey
  lamports_amount :: u64
  created_epoch :: u64

text \<open>
  The accounts, by address: lamports, owner program and contents. The contents are seen through
  the parsers the program uses (SPL token accounts and mints, stake states, tickets); \<open>None\<close>
  where the bytes do not parse. \<open>acc_data\<close> are the raw bytes.
\<close>

record world =
  acc_lamports :: "pubkey \<Rightarrow> u64"
  acc_owner :: "pubkey \<Rightarrow> pubkey"
  acc_data :: "pubkey \<Rightarrow> bytes"
  acc_token :: "pubkey \<Rightarrow> token_account option"
  acc_mint :: "pubkey \<Rightarrow> mint option"
  acc_stake :: "pubkey \<Rightarrow> stake_state option"
  acc_ticket :: "pubkey \<Rightarrow> ticket option"

definition token_amount :: "world \<Rightarrow> pubkey \<Rightarrow> u64" where
  "token_amount w k = (case acc_token w k of None \<Rightarrow> 0 | Some a \<Rightarrow> tk_amount a)"

definition mint_supply :: "world \<Rightarrow> pubkey \<Rightarrow> u64" where
  "mint_supply w k = (case acc_mint w k of None \<Rightarrow> 0 | Some m \<Rightarrow> mt_supply m)"

text \<open>A \<open>CpiAccount\<close> field of an \<open>Accounts\<close> struct: parsed once, before the handler.\<close>

definition load_token :: "world \<Rightarrow> pubkey \<Rightarrow> token_account result" where
  "load_token w k = ok_or (acc_token w k) Constraint"

definition load_mint :: "world \<Rightarrow> pubkey \<Rightarrow> mint result" where
  "load_mint w k = ok_or (acc_mint w k) Constraint"

definition load_stake :: "world \<Rightarrow> pubkey \<Rightarrow> stake_state result" where
  "load_stake w k = ok_or (acc_stake w k) Constraint"

text \<open>The \<open>Clock\<close> sysvar; timestamps are \<open>i64\<close>, kept as integers with a range check.\<close>

record clock =
  slot :: u64
  epoch_start_timestamp :: int
  epoch :: u64
  unix_timestamp :: int

text \<open>The parts of Anchor's \<open>Context\<close> the program looks at.\<close>

record call_context =
  cx_program_id :: pubkey
  cx_remaining :: "pubkey list"
  cx_signer :: "pubkey \<Rightarrow> bool"
  cx_writable :: "pubkey \<Rightarrow> bool"
  cx_clock :: clock

section \<open>Instructions sent to other programs\<close>

datatype cpi =
    SystemTransfer pubkey pubkey u64
  | SystemCreateAccount pubkey pubkey u64 u64 pubkey
  | TokenTransfer pubkey pubkey pubkey u64
  | TokenMintTo pubkey pubkey pubkey u64
  | TokenBurn pubkey pubkey pubkey u64
  | StakeInitialize pubkey pubkey pubkey
  | StakeDelegate pubkey pubkey pubkey
  | StakeDeactivate pubkey pubkey
  | StakeSplit pubkey pubkey u64 pubkey
  | StakeMerge pubkey pubkey pubkey
  | StakeWithdraw pubkey pubkey pubkey u64
  | StakeAuthorizeStaker pubkey pubkey pubkey
  | StakeAuthorizeWithdrawer pubkey pubkey pubkey
  | StakeClearLockup pubkey pubkey

type_synonym seeds = "bytes list"

section \<open>List entries of the program\<close>

record stake_record =
  stake_account :: pubkey
  last_update_delegated_lamports :: u64
  last_update_epoch :: u64
  is_emergency_unstaking :: u8

record validator_record =
  validator_account :: pubkey
  active_balance :: u64
  score :: u32
  vr_last_stake_delta_epoch :: u64
  duplication_flag_bump_seed :: u8

section \<open>The runtime\<close>

text \<open>
  Everything the program calls that is not in the repository. \<open>rt_invoke\<close> is
  \<open>invoke\<close>/\<open>invoke_signed\<close> (and the SPL wrappers built on them) with the signer seeds;
  the four codec fields are the derived Borsh serialisers of the two record types.
\<close>

record runtime =
  rt_system_program :: pubkey
  rt_spl_token :: pubkey
  rt_stake_program :: pubkey
  rt_stake_config :: pubkey
  rt_stake_history :: pubkey
  rt_create_program_address :: "seeds \<Rightarrow> pubkey \<Rightarrow> pubkey option"
  rt_find_program_address :: "seeds \<Rightarrow> pubkey \<Rightarrow> pubkey \<times> u8"
  rt_create_with_seed :: "pubkey \<Rightarrow> string \<Rightarrow> pubkey \<Rightarrow> pubkey option"
  rt_invoke :: "cpi \<Rightarrow> seeds list \<Rightarrow> world \<Rightarrow> world result"
  rt_minimum_balance :: "nat \<Rightarrow> u64"
  rt_is_exempt :: "u64 \<Rightarrow> nat \<Rightarrow> bool"
  rt_last_slot_in_epoch :: "u64 \<Rightarrow> u64"
  rt_lockup_in_force :: "lockup \<Rightarrow> clock \<Rightarrow> bool"
  rt_token_account_len :: nat
  rt_stake_state_size :: nat
  rt_ser_stake :: "stake_record \<Rightarrow> bytes"
  rt_de_stake :: "bytes \<Rightarrow> stake_record option"
  rt_ser_validator :: "validator_record \<Rightarrow> bytes"
  rt_de_validator :: "bytes \<Rightarrow> validator_record option"

section \<open>Checks\<close>

definition check_min_amount :: "u64 \<Rightarrow> u64 \<Rightarrow> unit result" where
  "check_min_amount amount min_amount = require (amount \<ge> min_amount) (Common NumberTooLow)"

definition check_address :: "pubkey \<Rightarrow> pubkey \<Rightarrow> unit result" where
  "check_address actual_address reference_address =
     require (actual_address = reference_address) InvalidArgument"

definition check_owner_program :: "world \<Rightarrow> pubkey \<Rightarrow> pubkey \<Rightarrow> unit result" where
  "check_owner_program w account owner_program =
     require (acc_owner w account = owner_program) InvalidArgument"

definition check_mint_authority :: "mint \<Rightarrow> pubkey \<Rightarrow> unit result" where
  "check_mint_authority m mint_authority =
     require (mt_authority m = Some mint_authority) InvalidAccountData"

definition check_freeze_authority :: "mint \<Rightarrow> unit result" where
  "check_freeze_authority m = require (mt_freeze m = None) InvalidAccountData"

definition check_mint_empty :: "mint \<Rightarrow> unit result" where
  "check_mint_empty m = require (mt_supply m = 0) InvalidArgument"

definition check_token_mint :: "token_account \<Rightarrow> pubkey \<Rightarrow> unit result" where
  "check_token_mint token mint_key = require (tk_mint token = mint_key) InvalidAccountData"

definition check_token_owner :: "token_account \<Rightarrow> pubkey \<Rightarrow> unit result" where
  "check_token_owner token owner_key = require (tk_owner token = owner_key) InvalidAccountData"

lemmas check_defs = check_min_amount_def check_address_def check_owner_program_def
  check_mint_authority_def check_freeze_authority_def check_mint_empty_def check_token_mint_def
  check_token_owner_def

lemma check_Inr [result_simps]:
  "check_min_amount a m = Inr u \<longleftrightarrow> m \<le> a"
  "check_address x y = Inr u \<longleftrightarrow> x = y"
  "check_owner_program w k p = Inr u \<longleftrightarrow> acc_owner w k = p"
  "check_mint_authority mt p = Inr u \<longleftrightarrow> mt_authority mt = Some p"
  "check_freeze_authority mt = Inr u \<longleftrightarrow> mt_freeze mt = None"
  "check_mint_empty mt = Inr u \<longleftrightarrow> mt_supply mt = 0"
  "check_token_mint tk p = Inr u \<longleftrightarrow> tk_mint tk = p"
  "check_token_owner tk p = Inr u \<longleftrightarrow> tk_owner tk = p"
  by (simp_all add: check_defs)

text \<open>
  \<open>check_context\<close> of \<open>lib.rs\<close>, and the \<open>signer\<close> and \<open>mut\<close> attributes of an
  \<open>Accounts\<close> struct: the accounts that must have signed and that must be writable.
\<close>

definition check_context :: "call_context \<Rightarrow> unit result" where
  "check_context cx = all_ok
     [require (cx_program_id cx = ID) (Common InvalidProgramId),
      require (cx_remaining cx = []) (Common UnexpectedAccount)]"

definition check_attributes :: "call_context \<Rightarrow> pubkey list \<Rightarrow> pubkey list \<Rightarrow> unit result" where
  "check_attributes cx signers muts =
     require (list_all (cx_signer cx) signers \<and> list_all (cx_writable cx) muts) Constraint"

lemma check_context_Inr [result_simps]:
  "check_context cx = Inr u \<longleftrightarrow> cx_program_id cx = ID \<and> cx_remaining cx = []"
  by (auto simp: check_context_def result_simps)

lemma check_attributes_Inr [result_simps]:
  "check_attributes cx ss ms = Inr u \<longleftrightarrow>
     (\<forall>k \<in> set ss. cx_signer cx k) \<and> (\<forall>k \<in> set ms. cx_writable cx k)"
  by (simp add: check_attributes_def list_all_iff)

end
