(* ===== verification/Calc.thy ===== *)
theory Calc
  imports Solana
begin

text \<open>
  The common calculations (\<open>calc.rs\<close>) and the fees (\<open>Fee\<close> of \<open>lib.rs\<close>). The code
  computes in \<open>u128\<close> and narrows; the lemmas show that the products never overflow, what the
  narrowing accepts, and the rounding facts the economic properties rest on. A
  \<open>CommonError\<close> result is written as the \<open>ProgramError\<close> that \<open>?\<close> makes of it.
\<close>

section \<open>Proportions\<close>

definition proportional :: "u64 \<Rightarrow> u64 \<Rightarrow> u64 \<Rightarrow> u64 result" where
  "proportional amount numerator denominator =
     (if denominator = 0 then Inr amount
      else let q = (ucast amount :: u128) * ucast numerator div ucast denominator
           in if unat q < 2 ^ 64 then Inr (ucast q) else Inl (Common CalculationFailure))"

definition value_from_shares :: "u64 \<Rightarrow> u64 \<Rightarrow> u64 \<Rightarrow> u64 result" where
  "value_from_shares shares total_value total_shares = proportional shares total_value total_shares"

definition shares_from_value :: "u64 \<Rightarrow> u64 \<Rightarrow> u64 \<Rightarrow> u64 result" where
  "shares_from_value amount_value total_value total_shares =
     (if total_shares = 0 then Inr amount_value
      else proportional amount_value total_shares total_value)"

text \<open>The same on natural numbers: rounding down, and the identity for a zero denominator.\<close>

definition prop_floor :: "nat \<Rightarrow> nat \<Rightarrow> nat \<Rightarrow> nat" where
  "prop_floor a n d = (if d = 0 then a else a * n div d)"

definition shares_floor :: "nat \<Rightarrow> nat \<Rightarrow> nat \<Rightarrow> nat" where
  "shares_floor v T S = (if S = 0 then v else prop_floor v S T)"

lemma unat_ucast_u128 [simp]: "unat (ucast (x::u64) :: u128) = unat x"
  by (simp add: unat_ucast_up)

lemma u128_product_exact: "unat ((ucast (a::u64) :: u128) * ucast (b::u64)) = unat a * unat b"
proof -
  have "unat a * unat b < 2 ^ 64 * 2 ^ 64"
    using unsigned_less [of a] unsigned_less [of b] by (intro mult_strict_mono) auto
  then have "unat (ucast a :: u128) * unat (ucast b :: u128) < 2 ^ LENGTH(128)"
    by simp
  then have "unat ((ucast a :: u128) * ucast b) = unat (ucast a :: u128) * unat (ucast b :: u128)"
    by (rule unat_mult_lem [THEN iffD1])
  then show ?thesis
    by simp
qed

lemma proportional_nat:
  "proportional a n d =
     (if prop_floor (unat a) (unat n) (unat d) < 2 ^ 64
      then Inr (word_of_nat (prop_floor (unat a) (unat n) (unat d)))
      else Inl (Common CalculationFailure))"
proof (cases "d = 0")
  case True
  with unsigned_less [of a] show ?thesis by (simp add: proportional_def prop_floor_def)
next
  case False
  define q where "q = (ucast a :: u128) * ucast n div ucast d"
  have q: "unat q = unat a * unat n div unat d"
    by (simp add: q_def unat_div u128_product_exact)
  have "(ucast q :: u64) = word_of_nat (unat q)"
    by (rule ucast_via_nat)
  with False q show ?thesis
    by (simp add: proportional_def prop_floor_def unat_eq_zero flip: q_def)
qed

lemma proportional_Inr [result_simps]:
  "proportional a n d = Inr r \<longleftrightarrow> unat r = prop_floor (unat a) (unat n) (unat d)"
proof -
  let ?p = "prop_floor (unat a) (unat n) (unat d)"
  show ?thesis
  proof (cases "?p < 2 ^ 64")
    case True
    then show ?thesis
      by (simp add: proportional_nat word_unat_eq_iff unat_of_nat_small eq_commute)
  next
    case False
    with unat_u64_less [of r] show ?thesis
      by (auto simp: proportional_nat)
  qed
qed

lemma proportional_Inl:
  "proportional a n d = Inl e \<longleftrightarrow>
     e = Common CalculationFailure \<and> 2 ^ 64 \<le> prop_floor (unat a) (unat n) (unat d)"
  by (auto simp: proportional_nat)

lemma value_from_shares_Inr [result_simps]:
  "value_from_shares a t s = Inr r \<longleftrightarrow> unat r = prop_floor (unat a) (unat t) (unat s)"
  by (simp add: value_from_shares_def result_simps)

lemma shares_from_value_Inr [result_simps]:
  "shares_from_value v t s = Inr r \<longleftrightarrow> unat r = shares_floor (unat v) (unat t) (unat s)"
  by (cases "s = 0")
    (auto simp: shares_from_value_def shares_floor_def unat_eq_zero result_simps dest: unat_eqD)

text \<open>
  \<open>proportional\<close> returns \<open>amount * numerator / denominator\<close> rounded down (the amount
  itself for a zero denominator), computed without any overflow of the intermediate product, and
  reports \<open>CalculationFailure\<close> exactly when that quotient does not fit in 64 bits.
\<close>
lemma proportional_correct:
  "proportional amount numerator denominator =
     (if denominator = 0 then Inr amount
      else if unat amount * unat numerator div unat denominator < 2 ^ 64
      then Inr (word_of_nat (unat amount * unat numerator div unat denominator))
      else Inl (Common CalculationFailure))"
  using unat_u64_less [of amount] by (simp add: proportional_nat prop_floor_def unat_eq_zero)

section \<open>Rounding\<close>

lemma prop_floor_mult: "0 < d \<Longrightarrow> prop_floor a n d * d \<le> a * n"
  by (simp add: prop_floor_def mult_div_le)

lemma prop_floor_le: "n \<le> d \<Longrightarrow> prop_floor a n d \<le> a"
  by (simp add: prop_floor_def mult_div_le_self)

lemma prop_floor_mono: "a \<le> b \<Longrightarrow> prop_floor a n d \<le> prop_floor b n d"
  by (simp add: prop_floor_def mult_div_mono)

lemma prop_floor_mono2: "n \<le> m \<Longrightarrow> prop_floor a n d \<le> prop_floor a m d"
  by (simp add: prop_floor_def div_le_mono)

lemma prop_floor_superadd: "prop_floor a n d + prop_floor b n d \<le> prop_floor (a + b) n d"
  by (simp add: prop_floor_def add_mult_distrib div_superadd)

lemma prop_floor_0 [simp]: "prop_floor 0 n d = 0"
  by (simp add: prop_floor_def)

lemma prop_floor_full: "0 < d \<Longrightarrow> prop_floor d n d = n"
  by (simp add: prop_floor_def)

text \<open>
  The share price is \<open>T / S\<close> for a total value \<open>T\<close> and a supply \<open>S\<close>. Minting the
  shares of a deposit, or burning shares for their value, never lowers it.
\<close>

lemma shares_floor_mult: "0 < S \<Longrightarrow> shares_floor v T S * T \<le> v * S"
  by (simp add: shares_floor_def prop_floor_def mult_div_le)

lemma mint_keeps_price:
  assumes "0 < S"
  shows "T * (S + shares_floor v T S) \<le> (T + v) * S"
  using shares_floor_mult [OF assms, of v T] by (simp add: algebra_simps)

lemma burn_keeps_price:
  assumes "0 < S" and "m \<le> S"
  shows "T * (S - m) \<le> (T - prop_floor m T S) * S"
proof -
  have v: "prop_floor m T S * S \<le> m * T" using assms(1) by (rule prop_floor_mult)
  have "T * (S - m) = T * S - m * T" by (simp add: diff_mult_distrib2 mult.commute)
  also have "\<dots> \<le> T * S - prop_floor m T S * S" using v by simp
  finally show ?thesis by (simp add: diff_mult_distrib)
qed

lemma prop_floor_of_shares: "prop_floor (shares_floor v T S) T S \<le> v"
proof (cases "S = 0")
  case True
  then show ?thesis by (simp add: prop_floor_def shares_floor_def)
next
  case False
  then have "shares_floor v T S * T div S \<le> v * S div S"
    by (intro div_le_mono shares_floor_mult) simp
  with False show ?thesis by (simp add: prop_floor_def)
qed

text \<open>
  An order filled first by a sale of \<open>s\<close> existing shares at their value rounded down (or at the
  full amount when they fill it), then by newly minted shares, is worth at most what was paid.
\<close>

lemma sale_and_mint_no_gain:
  assumes "s \<le> shares_floor v T S"
    and l: "l = (if shares_floor v T S = s then v else prop_floor s T S)"
  shows "l \<le> v" and "prop_floor (s + shares_floor (v - l) T S) T S \<le> v"
proof -
  show le: "l \<le> v"
    using prop_floor_of_shares [of v T S] prop_floor_mono [OF assms(1), of T S] l
    by (auto split: if_splits)
  show "prop_floor (s + shares_floor (v - l) T S) T S \<le> v"
  proof (cases "S = 0 \<or> shares_floor v T S = s")
    case True
    then show ?thesis
      using le l assms(1) prop_floor_of_shares [of v T S]
      by (auto simp: prop_floor_def shares_floor_def split: if_splits)
  next
    case False
    then have S: "0 < S" and l': "l = s * T div S" using l by (auto simp: prop_floor_def)
    have "s * T < (l + 1) * S"
      using div_mult_mod_eq [of "s * T" S] mod_less_divisor [OF S, of "s * T"] l'
      by (metis add.commute add_less_cancel_left mult.commute mult_Suc_right Suc_eq_plus1)
    moreover have "shares_floor (v - l) T S * T \<le> (v - l) * S" by (rule shares_floor_mult [OF S])
    ultimately have "(s + shares_floor (v - l) T S) * T < (l + 1) * S + (v - l) * S"
      by (simp add: add_mult_distrib)
    also have "\<dots> = (v + 1) * S" using le by (simp flip: add_mult_distrib)
    finally show ?thesis
      using S by (simp add: prop_floor_def div_less_iff_less_mult flip: less_Suc_eq_le)
  qed
qed

text \<open>Shares bought and sold back at once return at most what was paid.\<close>

lemma buy_sell_no_gain:
  assumes "0 < S \<or> T = 0"
  shows "prop_floor (shares_floor v T S) (T + v) (S + shares_floor v T S) \<le> v"
proof (cases "S = 0")
  case True
  with assms show ?thesis by (simp add: shares_floor_def prop_floor_def)
next
  case False
  define m where "m = shares_floor v T S"
  have "m * T \<le> v * S" using False shares_floor_mult [of S v T] by (simp add: m_def)
  then have "m * (T + v) \<le> v * (S + m)" by (simp add: algebra_simps)
  then have "m * (T + v) div (S + m) \<le> v * (S + m) div (S + m)" by (rule div_le_mono)
  with False show ?thesis by (simp add: prop_floor_def flip: m_def)
qed

section \<open>Fees\<close>

record fee =
  basis_points :: u32

definition from_basis_points :: "u32 \<Rightarrow> fee" where
  "from_basis_points bp = \<lparr>basis_points = bp\<rparr>"

definition MAX_REWARD_FEE :: u32 where
  "MAX_REWARD_FEE = 1000"

definition fee_check_max :: "fee \<Rightarrow> u32 \<Rightarrow> unit result" where
  "fee_check_max f max_basis_points =
     (if basis_points f > max_basis_points then Inl (Common FeeTooHigh) else Inr ())"

definition fee_check :: "fee \<Rightarrow> unit result" where
  "fee_check f = fee_check_max f 10000"

definition fee_apply :: "fee \<Rightarrow> u64 \<Rightarrow> u64" where
  "fee_apply f amount = ucast ((ucast amount :: u128) * ucast (basis_points f) div 10000)"

lemma fee_check_max_Inr [result_simps]:
  "fee_check_max f m = Inr u \<longleftrightarrow> basis_points f \<le> m"
  by (auto simp: fee_check_max_def)

lemma fee_check_Inr [result_simps]: "fee_check f = Inr u \<longleftrightarrow> basis_points f \<le> 10000"
  by (simp add: fee_check_def result_simps)

lemma fee_product_exact:
  "unat ((ucast (a::u64) :: u128) * ucast (b::u32)) = unat a * unat b"
proof -
  have "(ucast b :: u128) = ucast (ucast b :: u64)"
    by (simp add: ucast_up_ucast is_up_def source_size_def target_size_def)
  then show ?thesis by (simp add: u128_product_exact unat_ucast_up)
qed

lemma unat_fee_apply:
  assumes "basis_points f \<le> 10000"
  shows "unat (fee_apply f a) = unat a * unat (basis_points f) div 10000"
proof -
  define q where "q = (ucast a :: u128) * ucast (basis_points f) div 10000"
  have q: "unat q = unat a * unat (basis_points f) div 10000"
    by (simp add: q_def unat_div fee_product_exact)
  have "unat (basis_points f) \<le> 10000"
    using assms by (simp add: word_le_nat_alt)
  then have "unat q \<le> unat a"
    unfolding q by (rule mult_div_le_self)
  then have "unat (ucast q :: u64) = unat q"
    unfolding ucast_via_nat by (intro unat_of_nat_small) (use unat_u64_less [of a] in simp)
  with q show ?thesis by (simp add: fee_apply_def flip: q_def)
qed

text \<open>
  A fee that passes \<open>check\<close> takes exactly \<open>amount * basis_points / 10000\<close> rounded down:
  neither the \<open>u128\<close> product nor the final narrowing loses anything, and the fee is at most
  the amount (so the code's \<open>amount - fee\<close> cannot underflow).
\<close>
lemma fee_apply_bounds:
  assumes "fee_check f = Inr ()"
  shows "unat (fee_apply f amount) = unat amount * unat (basis_points f) div 10000
    \<and> fee_apply f amount \<le> amount"
  using assms by (simp add: unat_fee_apply word_le_nat_alt mult_div_le_self result_simps)

lemma fee_apply_bounds_witness:
  "fee_check \<lparr>basis_points = 300\<rparr> = Inr () \<and> unat (fee_apply \<lparr>basis_points = 300\<rparr> 1000) = 30
   \<and> fee_apply \<lparr>basis_points = 300\<rparr> 1000 \<le> 1000"
proof -
  have h: "fee_check \<lparr>basis_points = 300\<rparr> = Inr ()" by (simp add: result_simps)
  show ?thesis using h fee_apply_bounds [OF h, of 1000] by simp
qed

lemma fee_apply_le: "basis_points f \<le> 10000 \<Longrightarrow> unat (fee_apply f a) \<le> unat a"
  by (simp add: unat_fee_apply mult_div_le_self word_le_nat_alt)

end
