(* ===== verification/RecordList.thy ===== *)
theory RecordList
  imports Calc
begin

text \<open>
  The packed list of fixed-size records in an account's bytes (\<open>list.rs\<close>): the header
  \<open>List\<close>, its operations on the bytes, and their correctness. \<open>list_rep\<close> relates a header
  and the bytes to the abstract list of records; each operation refines the obvious one
  on lists (\<open>push\<close> appends, \<open>set\<close> updates, \<open>remove\<close> moves the last record into the hole).
  The locale \<open>codec\<close> is the interface to the derived Borsh serialisers.
\<close>

section \<open>The header and its operations\<close>

record list_header =
  account :: pubkey
  item_size :: u32
  count :: u32
  new_account :: pubkey
  copied_count :: u32

text \<open>\<open>init_account\<close>; \<open>assert_eq!(self.count, 0)\<close> is the first \<open>require\<close>.\<close>

definition init_account :: "list_header \<Rightarrow> bytes \<Rightarrow> bytes \<Rightarrow> bytes result" where
  "init_account l discriminator data =
     bindR (all_ok
       [require (count l = 0) Panic,
        require (\<not> length data < 8) AccountDataTooSmall,
        require (take 8 data = replicate 8 0) AccountAlreadyInitialized]) (\<lambda>_.
     Inr (overwrite data 0 discriminator))"

definition list_new :: "bytes \<Rightarrow> u32 \<Rightarrow> pubkey \<Rightarrow> bytes \<Rightarrow> (list_header \<times> bytes) result" where
  "list_new discriminator sz acc data =
     (let l = \<lparr>account = acc, item_size = sz, count = 0, new_account = pubkey_default,
               copied_count = 0\<rparr>
      in bindR (init_account l discriminator data) (\<lambda>data'. Inr (l, data')))"

definition bytes_for :: "u32 \<Rightarrow> u32 \<Rightarrow> u32 result" where
  "bytes_for sz cnt = bindR (pmul cnt sz) (\<lambda>n. padd 8 n)"

definition capacity_of :: "u32 \<Rightarrow> nat \<Rightarrow> u32 result" where
  "capacity_of sz account_len =
     bindR (psub (word_of_nat account_len :: u32) 8) (\<lambda>n.
     bindR (require (sz \<noteq> 0) Panic) (\<lambda>_. Inr (n div sz)))"

definition is_changing_account :: "list_header \<Rightarrow> bool" where
  "is_changing_account l = (new_account l \<noteq> pubkey_default)"

definition capacity :: "list_header \<Rightarrow> nat \<Rightarrow> u32 result" where
  "capacity l account_len =
     bindR (require (8 \<le> account_len) AccountDataTooSmall) (\<lambda>_.
     bindR (require (account_len - 8 < 2 ^ 32) (Common CalculationFailure)) (\<lambda>_.
     Inr (if item_size l = 0 then - 1 else word_of_nat (account_len - 8) div item_size l)))"

text \<open>
  \<open>8 + (index * self.item_size()) as usize\<close>: the product is a checked \<open>u32\<close> product,
  the sum a \<open>usize\<close> of 64 bits.
\<close>

definition item_start :: "list_header \<Rightarrow> u32 \<Rightarrow> nat result" where
  "item_start l index = bindR (pmul index (item_size l)) (\<lambda>n. Inr (8 + unat n))"

definition list_get ::
  "(bytes \<Rightarrow> 'a option) \<Rightarrow> list_header \<Rightarrow> bytes \<Rightarrow> u32 \<Rightarrow> 'a result" where
  "list_get de l data index =
     bindR (require (\<not> index \<ge> count l) InvalidArgument) (\<lambda>_.
     bindR (item_start l index) (\<lambda>start.
     bindR (ok_or (byte_slice data start (start + unat (item_size l))) Panic) (\<lambda>item.
     ok_or (de item) BorshIoError)))"

text \<open>
  \<open>item.serialize(&mut Cursor::new(&mut data[start..start + item_size]))\<close>: the bytes of the
  item replace the beginning of the slot; a slot that is too short is a write error.
\<close>

definition write_item ::
  "('a \<Rightarrow> bytes) \<Rightarrow> list_header \<Rightarrow> bytes \<Rightarrow> u32 \<Rightarrow> 'a \<Rightarrow> bytes result" where
  "write_item ser l data index item =
     bindR (item_start l index) (\<lambda>start.
     bindR (require (start + unat (item_size l) \<le> length data) Panic) (\<lambda>_.
     bindR (require (length (ser item) \<le> unat (item_size l)) BorshIoError) (\<lambda>_.
     Inr (overwrite data start (ser item)))))"

definition list_set ::
  "('a \<Rightarrow> bytes) \<Rightarrow> list_header \<Rightarrow> bytes \<Rightarrow> u32 \<Rightarrow> 'a \<Rightarrow> bytes result" where
  "list_set ser l data index item =
     bindR (require (new_account l = pubkey_default) InvalidAccountData) (\<lambda>_.
     bindR (require (\<not> index \<ge> count l) InvalidArgument) (\<lambda>_.
     write_item ser l data index item))"

definition list_push ::
  "('a \<Rightarrow> bytes) \<Rightarrow> list_header \<Rightarrow> bytes \<Rightarrow> 'a \<Rightarrow> (list_header \<times> bytes) result" where
  "list_push ser l data item =
     bindR (require (new_account l = pubkey_default) InvalidAccountData) (\<lambda>_.
     bindR (capacity l (length data)) (\<lambda>cap.
     bindR (require (\<not> count l \<ge> cap) AccountDataTooSmall) (\<lambda>_.
     bindR (write_item ser l data (count l) item) (\<lambda>data'.
     bindR (padd (count l) 1) (\<lambda>c.
     Inr (l\<lparr>count := c\<rparr>, data'))))))"

text \<open>\<open>data.copy_within(src..src + n, dest)\<close>, which panics out of range.\<close>

definition copy_within :: "bytes \<Rightarrow> nat \<Rightarrow> nat \<Rightarrow> nat \<Rightarrow> bytes result" where
  "copy_within data src n dest =
     bindR (ok_or (byte_slice data src (src + n)) Panic) (\<lambda>chunk.
     bindR (require (dest + n \<le> length data) Panic) (\<lambda>_.
     Inr (overwrite data dest chunk)))"

definition list_remove :: "list_header \<Rightarrow> bytes \<Rightarrow> u32 \<Rightarrow> (list_header \<times> bytes) result" where
  "list_remove l data index =
     bindR (require (new_account l = pubkey_default) InvalidAccountData) (\<lambda>_.
     bindR (require (\<not> index \<ge> count l) InvalidArgument) (\<lambda>_.
     bindR (psub (count l) 1) (\<lambda>c.
     let l' = l\<lparr>count := c\<rparr> in
     if index = c then Inr (l', data)
     else bindR (item_start l' index) (\<lambda>start.
          bindR (item_start l' c) (\<lambda>last_item_start.
          bindR (copy_within data last_item_start (unat (item_size l)) start) (\<lambda>data'.
          Inr (l', data')))))))"

section \<open>The abstract list\<close>

definition item_slot :: "list_header \<Rightarrow> bytes \<Rightarrow> nat \<Rightarrow> bytes" where
  "item_slot l data i = take (unat (item_size l)) (drop (8 + i * unat (item_size l)) data)"

text \<open>
  \<open>list_rep de n l data xs\<close>: the header and the bytes hold the records \<open>xs\<close>. The slots fit in
  the account, whose size is below 4 GiB (Solana allows 10 MiB), and \<open>n\<close> bytes of each slot are
  used; no change of account is in progress.
\<close>

definition list_rep ::
  "(bytes \<Rightarrow> 'a option) \<Rightarrow> nat \<Rightarrow> list_header \<Rightarrow> bytes \<Rightarrow> 'a list \<Rightarrow> bool" where
  "list_rep de n l data xs \<longleftrightarrow>
     new_account l = pubkey_default \<and> 0 < n \<and> n \<le> unat (item_size l) \<and>
     unat (count l) = length xs \<and> 8 + length xs * unat (item_size l) \<le> length data \<and>
     length data < 2 ^ 32 \<and> (\<forall>i < length xs. de (item_slot l data i) = Some (xs ! i))"

lemma item_start_Inr [result_simps]:
  "item_start l i = Inr s \<longleftrightarrow>
     unat i * unat (item_size l) < 2 ^ 32 \<and> s = 8 + unat i * unat (item_size l)"
proof -
  have "(\<exists>n::u32. unat n = k) \<longleftrightarrow> k < 2 ^ 32" for k
    using unat_of_nat_small [where 'a = 32] unat_u32_less by auto
  then show ?thesis
    by (auto simp: item_start_def result_simps)
qed

lemma slots_disjoint: "i \<noteq> j \<Longrightarrow> i * sz + sz \<le> j * sz \<or> j * sz + sz \<le> (i * sz :: nat)"
proof -
  assume "i \<noteq> j"
  then have "Suc i \<le> j \<or> Suc j \<le> i" by arith
  then have "Suc i * sz \<le> j * sz \<or> Suc j * sz \<le> i * sz" using mult_le_mono1 by blast
  then show ?thesis by (simp add: add.commute)
qed

lemma slot_bounds:
  assumes "i < k" and "8 + k * sz \<le> len"
  shows "8 + i * sz + sz \<le> (len::nat)"
proof -
  have "Suc i * sz \<le> k * sz" using assms(1) by (intro mult_le_mono1) simp
  with assms(2) show ?thesis by simp
qed

lemma byte_slice_slot:
  "8 + i * unat (item_size l) + unat (item_size l) \<le> length data \<Longrightarrow>
   byte_slice data (8 + i * unat (item_size l)) (8 + i * unat (item_size l) + unat (item_size l))
     = Some (item_slot l data i)"
  by (simp add: byte_slice_def item_slot_def)

lemma item_slot_overwrite:
  assumes "8 + i * unat (item_size l) + unat (item_size l) \<le> length data"
    and "8 + j * unat (item_size l) + unat (item_size l) \<le> length data"
    and "length ys \<le> unat (item_size l)"
  shows "item_slot l (overwrite data (8 + i * unat (item_size l)) ys) j =
    (if j = i then ys @ drop (length ys) (item_slot l data i) else item_slot l data j)"
proof (cases "j = i")
  case True
  with assms show ?thesis
    by (simp add: item_slot_def overwrite_def drop_take add.commute)
next
  case False
  then have "i * unat (item_size l) + unat (item_size l) \<le> j * unat (item_size l) \<or>
             j * unat (item_size l) + unat (item_size l) \<le> i * unat (item_size l)"
    using slots_disjoint by blast
  with assms have "byte_slice (overwrite data (8 + i * unat (item_size l)) ys)
        (8 + j * unat (item_size l)) (8 + j * unat (item_size l) + unat (item_size l))
      = byte_slice data (8 + j * unat (item_size l)) (8 + j * unat (item_size l) + unat (item_size l))"
    by (intro byte_slice_write_other) auto
  with False assms show ?thesis
    by (simp add: byte_slice_slot)
qed

lemma item_slot_count [simp]: "item_slot (l\<lparr>count := c\<rparr>) = item_slot l"
  by (simp add: item_slot_def fun_eq_iff)

lemma list_rep_count: "list_rep de n l data xs \<Longrightarrow> unat (count l) = length xs"
  by (simp add: list_rep_def)

lemma list_rep_nth:
  "list_rep de n l data xs \<Longrightarrow> i < length xs \<Longrightarrow> de (item_slot l data i) = Some (xs ! i)"
  by (simp add: list_rep_def)

lemma list_rep_slot:
  assumes "list_rep de n l data xs" and "i < length xs"
  shows "8 + i * unat (item_size l) + unat (item_size l) \<le> length data"
    and "i * unat (item_size l) < 2 ^ 32"
proof -
  from assms show b: "8 + i * unat (item_size l) + unat (item_size l) \<le> length data"
    by (intro slot_bounds [of i "length xs"]) (auto simp: list_rep_def)
  from assms(1) have "length data < 2 ^ 32" by (simp add: list_rep_def)
  with b show "i * unat (item_size l) < 2 ^ 32" by linarith
qed

section \<open>The interface to the serialisers, and the refinement\<close>

text \<open>
  \<open>codec\<close> is what the list needs of a record type: every value takes \<open>n\<close> bytes and is
  read back from the beginning of a slot that starts with them.
\<close>

locale codec =
  fixes ser :: "'a \<Rightarrow> bytes" and de :: "bytes \<Rightarrow> 'a option" and n :: nat
  assumes ser_length: "length (ser x) = n"
    and de_ser: "de (ser x @ rest) = Some x"
    and codec_pos: "0 < n"
begin

lemma get_ok:
  assumes rep: "list_rep de n l data xs" and i: "unat i < length xs"
  shows "list_get de l data i = Inr (xs ! unat i)"
proof -
  note b = list_rep_slot [OF rep i]
  have "item_start l i = Inr (8 + unat i * unat (item_size l))"
    using b by (simp add: item_start_Inr)
  then show ?thesis
    using b i list_rep_nth [OF rep i]
    by (simp add: list_get_def byte_slice_slot word_le_nat_alt list_rep_count [OF rep])
qed

lemma get_out_of_bounds:
  assumes rep: "list_rep de n l data xs" and i: "length xs \<le> unat i"
  shows "list_get de l data i = Inl InvalidArgument"
  using i by (simp add: list_get_def word_le_nat_alt list_rep_count [OF rep])

lemma get_iff:
  assumes "list_rep de n l data xs"
  shows "list_get de l data i = Inr x \<longleftrightarrow> unat i < length xs \<and> x = xs ! unat i"
  using get_ok [OF assms] get_out_of_bounds [OF assms] by (cases "unat i < length xs") auto

text \<open>Writing slot \<open>k\<close>, inside the account, changes that record alone.\<close>

lemma write_item_ok:
  assumes rep: "list_rep de n l data xs"
    and k: "8 + unat k * unat (item_size l) + unat (item_size l) \<le> length data"
  obtains data' where "write_item ser l data k x = Inr data'" "length data' = length data"
    "de (item_slot l data' (unat k)) = Some x"
    "\<And>j. j < length xs \<Longrightarrow> j \<noteq> unat k \<Longrightarrow> de (item_slot l data' j) = Some (xs ! j)"
proof -
  let ?d = "overwrite data (8 + unat k * unat (item_size l)) (ser x)"
  have n: "length (ser x) \<le> unat (item_size l)" and len: "length data < 2 ^ 32"
    using rep by (auto simp: list_rep_def ser_length)
  have "item_start l k = Inr (8 + unat k * unat (item_size l))"
    using k len by (simp add: item_start_Inr)
  then have w: "write_item ser l data k x = Inr ?d"
    using k n by (simp add: write_item_def)
  have "item_slot l ?d j = (if j = unat k then ser x @ drop (length (ser x)) (item_slot l data j)
      else item_slot l data j)" if "j = unat k \<or> j < length xs" for j
    using that k n list_rep_slot(1) [OF rep] by (subst item_slot_overwrite) auto
  then show ?thesis
    using that [OF w] k n list_rep_nth [OF rep] by (auto simp: de_ser)
qed

lemma set_ok:
  assumes rep: "list_rep de n l data xs" and i: "unat i < length xs"
  obtains data' where "list_set ser l data i x = Inr data'"
    "list_rep de n l data' (xs[unat i := x])" "length data' = length data"
proof -
  obtain data' where w: "write_item ser l data i x = Inr data'" and len: "length data' = length data"
    and new: "de (item_slot l data' (unat i)) = Some x"
    and old: "\<And>j. j < length xs \<Longrightarrow> j \<noteq> unat i \<Longrightarrow> de (item_slot l data' j) = Some (xs ! j)"
    using write_item_ok [OF rep list_rep_slot(1) [OF rep i]] by blast
  have "list_set ser l data i x = Inr data'"
    using rep i w by (simp add: list_set_def list_rep_def word_le_nat_alt)
  moreover have "list_rep de n l data' (xs[unat i := x])"
    using rep len new old i by (auto simp: list_rep_def nth_list_update)
  ultimately show ?thesis using that len by blast
qed

lemma set_out_of_bounds:
  "list_rep de n l data xs \<Longrightarrow> length xs \<le> unat i \<Longrightarrow> list_set ser l data i x = Inl InvalidArgument"
  by (simp add: list_set_def list_rep_def word_le_nat_alt)

lemma capacity_nat:
  assumes "list_rep de n l data xs"
  obtains c where "capacity l (length data) = Inr c"
    "unat c = (length data - 8) div unat (item_size l)"
proof -
  have sz: "item_size l \<noteq> 0" and len: "8 \<le> length data" "length data - 8 < 2 ^ 32"
    using assms by (auto simp: list_rep_def)
  then have "capacity l (length data) = Inr (word_of_nat (length data - 8) div item_size l)"
    by (simp add: capacity_def)
  moreover have "unat (word_of_nat (length data - 8) div item_size l)
      = (length data - 8) div unat (item_size l)"
    using len by (simp add: unat_div unat_of_nat_small del: of_nat_diff)
  ultimately show ?thesis using that by blast
qed

lemma full_iff:
  assumes "list_rep de n l data xs"
  shows "(length data - 8) div unat (item_size l) \<le> length xs \<longleftrightarrow>
    length data < 8 + (length xs + 1) * unat (item_size l)"
proof -
  have sz: "0 < unat (item_size l)" and len: "8 \<le> length data"
    using assms by (auto simp: list_rep_def)
  have "(length data - 8) div unat (item_size l) \<le> length xs \<longleftrightarrow>
      (length data - 8) div unat (item_size l) < Suc (length xs)" by auto
  also have "\<dots> \<longleftrightarrow> length data - 8 < Suc (length xs) * unat (item_size l)"
    using sz by (rule div_less_iff_less_mult)
  finally show ?thesis using len by auto
qed

lemma push_ok:
  assumes rep: "list_rep de n l data xs"
    and room: "8 + (length xs + 1) * unat (item_size l) \<le> length data"
  obtains l' data' where "list_push ser l data x = Inr (l', data')"
    "list_rep de n l' data' (xs @ [x])" "length data' = length data"
    "item_size l' = item_size l" "account l' = account l"
proof -
  obtain c where c: "capacity l (length data) = Inr c"
    "unat c = (length data - 8) div unat (item_size l)"
    using capacity_nat [OF rep] by blast
  have cnt: "unat (count l) = length xs" and new: "new_account l = pubkey_default"
    using rep by (auto simp: list_rep_def)
  have less: "count l < c"
    using full_iff [OF rep] room c(2) cnt by (simp add: word_less_nat_alt not_le [symmetric])
  obtain data' where w: "write_item ser l data (count l) x = Inr data'"
    and len: "length data' = length data"
    and item: "de (item_slot l data' (unat (count l))) = Some x"
    and old: "\<And>j. j < length xs \<Longrightarrow> j \<noteq> unat (count l) \<Longrightarrow> de (item_slot l data' j) = Some (xs ! j)"
    using write_item_ok [OF rep, of "count l" x] room cnt by (auto simp: add.commute)
  have suc: "checked_add (count l) 1 = Some (count l + 1)"
    using less unat_u32_less [of c] by (auto simp: checked_add_def word_less_nat_alt)
  then have unat_suc: "unat (count l + 1) = length xs + 1"
    using cnt by (simp only: checked_add_Some) simp
  have "list_push ser l data x = Inr (l\<lparr>count := count l + 1\<rparr>, data')"
    using new c less w suc by (simp add: list_push_def not_le)
  moreover have "list_rep de n (l\<lparr>count := count l + 1\<rparr>) data' (xs @ [x])"
    using rep len item old cnt unat_suc room
    by (auto simp: list_rep_def nth_append less_Suc_eq add.commute)
  ultimately show ?thesis using that len by simp
qed

lemma push_full:
  assumes rep: "list_rep de n l data xs"
    and full: "length data < 8 + (length xs + 1) * unat (item_size l)"
  shows "list_push ser l data x = Inl AccountDataTooSmall"
proof -
  obtain c where c: "capacity l (length data) = Inr c"
    "unat c = (length data - 8) div unat (item_size l)"
    using capacity_nat [OF rep] by blast
  have "c \<le> count l"
    using full_iff [OF rep] full c(2) rep by (simp add: word_le_nat_alt list_rep_def)
  then show ?thesis
    using rep c(1) by (simp add: list_push_def list_rep_def)
qed

lemma item_slot_length:
  "list_rep de n l data xs \<Longrightarrow> i < length xs \<Longrightarrow>
   length (item_slot l data i) = unat (item_size l)"
  using list_rep_slot(1) [of de n l data xs i] by (simp add: item_slot_def)

lemma remove_ok:
  assumes rep: "list_rep de n l data xs" and i: "unat i < length xs"
  obtains l' data' where "list_remove l data i = Inr (l', data')"
    "list_rep de n l' data' (swap_remove xs (unat i))" "length data' = length data"
    "item_size l' = item_size l" "account l' = account l"
proof -
  let ?sz = "unat (item_size l)" and ?m = "length xs - 1" and ?i = "unat i"
  have cnt: "unat (count l) = length xs" and new: "new_account l = pubkey_default"
    using rep by (auto simp: list_rep_def)
  define c where "c = count l - 1"
  have one: "1 \<le> count l" using i cnt by (simp add: word_le_nat_alt)
  then have c: "checked_sub (count l) 1 = Some c" "unat c = ?m"
    using cnt by (simp_all add: checked_sub_def c_def unat_sub)
  let ?l = "l\<lparr>count := c\<rparr>"
  have inb: "\<not> count l \<le> i" using i cnt by (simp add: word_le_nat_alt)
  have m: "?m < length xs" using i by auto
  have room: "8 + ?m * ?sz \<le> length data" using list_rep_slot(1) [OF rep m] by simp
  have last: "last xs = xs ! ?m" using i by (intro last_conv_nth) auto
  show ?thesis
  proof (cases "i = c")
    case True
    have "list_rep de n ?l data (swap_remove xs ?i)"
      using rep m c(2) True i room
      by (auto simp: list_rep_def swap_remove_def nth_butlast)
    moreover have "list_remove l data i = Inr (?l, data)"
      using new inb c(1) True by (simp add: list_remove_def Let_def)
    ultimately show ?thesis using that by simp
  next
    case False
    then have ne: "?i \<noteq> ?m" using c(2) by (metis word_unat_eq_iff)
    with i have im: "?i < ?m" by linarith
    let ?chunk = "item_slot l data ?m" and ?d = "overwrite data (8 + ?i * ?sz) (item_slot l data ?m)"
    note bi = list_rep_slot [OF rep i] and bm = list_rep_slot [OF rep m]
    have len: "length ?chunk = ?sz" using item_slot_length [OF rep m] .
    have "copy_within data (8 + ?m * ?sz) ?sz (8 + ?i * ?sz) = Inr ?d"
      using bi bm by (simp add: copy_within_def byte_slice_slot)
    moreover have "item_start ?l i = Inr (8 + ?i * ?sz)" "item_start ?l c = Inr (8 + ?m * ?sz)"
      using bi bm c(2) by (simp_all add: item_start_Inr)
    ultimately have run: "list_remove l data i = Inr (?l, ?d)"
      using new inb c(1) False by (simp add: list_remove_def Let_def)
    have slot: "item_slot l ?d j = (if j = ?i then ?chunk else item_slot l data j)"
      if "j < length xs" for j
      using bi(1) list_rep_slot(1) [OF rep that] len item_slot_length [OF rep i]
      by (subst item_slot_overwrite) auto
    have "list_rep de n ?l ?d (swap_remove xs ?i)"
      using rep m c(2) bi(1) len im room
      by (auto simp: list_rep_def slot swap_remove_nth last simp del: One_nat_def)
    then show ?thesis using that run bi(1) len by simp
  qed
qed

lemma remove_out_of_bounds:
  "list_rep de n l data xs \<Longrightarrow> length xs \<le> unat i \<Longrightarrow> list_remove l data i = Inl InvalidArgument"
  by (simp add: list_remove_def list_rep_def word_le_nat_alt)

lemma new_ok:
  assumes "length disc = 8" and "n \<le> unat sz" and "8 \<le> length data" and "length data < 2 ^ 32"
    and "take 8 data = replicate 8 0"
  obtains l data' where "list_new disc sz acc data = Inr (l, data')" "list_rep de n l data' []"
    "take 8 data' = disc" "length data' = length data" "item_size l = sz" "account l = acc"
proof -
  let ?l = "\<lparr>account = acc, item_size = sz, count = 0, new_account = pubkey_default,
             copied_count = 0\<rparr>"
  have "list_new disc sz acc data = Inr (?l, overwrite data 0 disc)"
    using assms by (simp add: list_new_def init_account_def)
  moreover have "list_rep de n ?l (overwrite data 0 disc) []"
    using assms codec_pos by (simp add: list_rep_def)
  ultimately show ?thesis using that assms by (simp add: overwrite_def)
qed

end

section \<open>The list as a store of records\<close>

text \<open>
  What the rest of the program relies on: operations on a header and bytes that act on the
  abstract list of records. The client facts are about sums over the records, which is what the
  handlers keep.
\<close>

locale record_store =
  fixes rep :: "'s \<Rightarrow> bytes \<Rightarrow> 'a list \<Rightarrow> bool"
    and get :: "'s \<Rightarrow> bytes \<Rightarrow> u32 \<Rightarrow> 'a result"
    and put :: "'s \<Rightarrow> bytes \<Rightarrow> u32 \<Rightarrow> 'a \<Rightarrow> bytes result"
    and push :: "'s \<Rightarrow> bytes \<Rightarrow> 'a \<Rightarrow> ('s \<times> bytes) result"
    and remove :: "'s \<Rightarrow> bytes \<Rightarrow> u32 \<Rightarrow> ('s \<times> bytes) result"
  assumes get_Inr: "rep l d xs \<Longrightarrow> get l d i = Inr x \<longleftrightarrow> unat i < length xs \<and> x = xs ! unat i"
    and put_Inr: "rep l d xs \<Longrightarrow> put l d i x = Inr d' \<Longrightarrow> unat i < length xs \<and> rep l d' (xs[unat i := x])"
    and put_total: "rep l d xs \<Longrightarrow> unat i < length xs \<Longrightarrow> \<exists>d'. put l d i x = Inr d'"
    and push_Inr: "rep l d xs \<Longrightarrow> push l d x = Inr (l', d') \<Longrightarrow> rep l' d' (xs @ [x])"
    and remove_Inr: "rep l d xs \<Longrightarrow> remove l d i = Inr (l', d') \<Longrightarrow>
      unat i < length xs \<and> rep l' d' (swap_remove xs (unat i))"
begin

lemma put_keeps_others:
  assumes "rep l d xs" "put l d i x = Inr d'" "get l d' j = Inr y"
  shows "y = (if j = i then x else xs ! unat j)"
proof -
  from assms(1,2) have i: "unat i < length xs" and rep': "rep l d' (xs[unat i := x])"
    using put_Inr by blast+
  with assms(3) have "unat j < length xs" "y = xs[unat i := x] ! unat j"
    using get_Inr [OF rep'] by auto
  then show ?thesis using i by (auto simp: nth_list_update word_unat_eq_iff)
qed

lemma put_sum:
  fixes f :: "'a \<Rightarrow> nat"
  assumes "rep l d xs" "put l d i x = Inr d'"
  shows "sum_list (map f (xs[unat i := x])) + f (xs ! unat i) = sum_list (map f xs) + f x"
  using put_Inr [OF assms] by (intro sum_list_update_nat) simp

lemma remove_sum:
  fixes f :: "'a \<Rightarrow> nat"
  assumes "rep l d xs" "remove l d i = Inr (l', d')"
  shows "sum_list (map f (swap_remove xs (unat i))) + f (xs ! unat i) = sum_list (map f xs)"
  using remove_Inr [OF assms] by (intro sum_list_swap_remove) simp

end

sublocale codec \<subseteq> store: record_store "list_rep de n" "list_get de" "list_set ser"
  "list_push ser" list_remove
proof
  fix l d and xs :: "'a list" and i x d'
  assume rep: "list_rep de n l d xs"
  show "list_get de l d i = Inr x \<longleftrightarrow> unat i < length xs \<and> x = xs ! unat i"
    by (rule get_iff [OF rep])
  show "\<exists>d'. list_set ser l d i x = Inr d'" if "unat i < length xs"
    using set_ok [OF rep that] by blast
  show "unat i < length xs \<and> list_rep de n l d' (xs[unat i := x])" if "list_set ser l d i x = Inr d'"
  proof (cases "unat i < length xs")
    case True
    then obtain d2 where "list_set ser l d i x = Inr d2" "list_rep de n l d2 (xs[unat i := x])"
      using set_ok [OF rep] by blast
    with True that show ?thesis by simp
  next
    case False
    with that set_out_of_bounds [OF rep] show ?thesis by simp
  qed
next
  fix l d and xs :: "'a list" and x l' d'
  assume rep: "list_rep de n l d xs" and run: "list_push ser l d x = Inr (l', d')"
  then have room: "8 + (length xs + 1) * unat (item_size l) \<le> length d"
    using push_full [OF rep] by (metis not_less sum.distinct(1))
  obtain l2 d2 where "list_push ser l d x = Inr (l2, d2)" "list_rep de n l2 d2 (xs @ [x])"
    using push_ok [OF rep room] by blast
  with run show "list_rep de n l' d' (xs @ [x])" by simp
next
  fix l d and xs :: "'a list" and i l' d'
  assume rep: "list_rep de n l d xs" and run: "list_remove l d i = Inr (l', d')"
  then have i: "unat i < length xs"
    using remove_out_of_bounds [OF rep] by (metis not_less sum.distinct(1))
  obtain l2 d2 where "list_remove l d i = Inr (l2, d2)"
    "list_rep de n l2 d2 (swap_remove xs (unat i))"
    using remove_ok [OF rep i] by blast
  with run i show "unat i < length xs \<and> list_rep de n l' d' (swap_remove xs (unat i))" by simp
qed

section \<open>Properties\<close>

text \<open>
  \<open>List::push\<close> appends the record to the list that the account holds when another slot fits
  in the account, without changing its size, and fails with \<open>AccountDataTooSmall\<close> exactly when
  no further slot fits.
\<close>
lemma list_push_refines:
  assumes "codec ser de n" and "list_rep de n l data xs"
  shows "if 8 + (length xs + 1) * unat (item_size l) \<le> length data
    then \<exists>l' data'. list_push ser l data x = Inr (l', data') \<and> list_rep de n l' data' (xs @ [x])
           \<and> length data' = length data \<and> account l' = account l
    else list_push ser l data x = Inl AccountDataTooSmall"
proof (cases "8 + (length xs + 1) * unat (item_size l) \<le> length data")
  case True
  then obtain l' data' where "list_push ser l data x = Inr (l', data')"
    "list_rep de n l' data' (xs @ [x])" "length data' = length data" "account l' = account l"
    using codec.push_ok [OF assms] by blast
  with True show ?thesis by auto
next
  case False
  then show ?thesis using codec.push_full [OF assms] by simp
qed

text \<open>
  \<open>List::set\<close> replaces the record at a valid index and no other, so that \<open>List::get\<close> at any
  index returns the updated list's record; both fail with \<open>InvalidArgument\<close> beyond the count.
\<close>
lemma list_set_refines:
  assumes "codec ser de n" and "list_rep de n l data xs"
  shows "if unat i < length xs
    then \<exists>data'. list_set ser l data i x = Inr data' \<and> list_rep de n l data' (xs[unat i := x]) \<and>
           (\<forall>j. list_get de l data' j =
              (if unat j < length xs then Inr (xs[unat i := x] ! unat j) else Inl InvalidArgument))
    else list_set ser l data i x = Inl InvalidArgument \<and> list_get de l data i = Inl InvalidArgument"
proof (cases "unat i < length xs")
  case True
  then obtain data' where "list_set ser l data i x = Inr data'"
    and rep: "list_rep de n l data' (xs[unat i := x])"
    using codec.set_ok [OF assms] by blast
  with True codec.get_ok [OF assms(1) rep] codec.get_out_of_bounds [OF assms(1) rep]
  show ?thesis by simp
next
  case False
  then show ?thesis
    using codec.set_out_of_bounds [OF assms] codec.get_out_of_bounds [OF assms] by simp
qed

text \<open>
  C26. \<open>List::remove\<close> removes the record at a valid index by moving the last record into its
  place: the list afterwards holds every other record once, one record less, in bytes of the same
  length. Beyond the count it fails with \<open>InvalidArgument\<close>.
\<close>
theorem list_remove_refines:
  assumes "codec ser de n" and "list_rep de n l data xs"
  shows "if unat i < length xs
    then \<exists>l' data'. list_remove l data i = Inr (l', data')
           \<and> list_rep de n l' data' (swap_remove xs (unat i))
           \<and> mset (swap_remove xs (unat i)) = mset xs - {# xs ! unat i #}
           \<and> length data' = length data
    else list_remove l data i = Inl InvalidArgument"
proof (cases "unat i < length xs")
  case True
  then obtain l' data' where "list_remove l data i = Inr (l', data')"
    "list_rep de n l' data' (swap_remove xs (unat i))" "length data' = length data"
    using codec.remove_ok [OF assms] by blast
  with True mset_swap_remove [OF True] show ?thesis by auto
next
  case False
  then show ?thesis using codec.remove_out_of_bounds [OF assms] by simp
qed

end
