(* ===== verification/StakeSystem.thy ===== *)
theory StakeSystem
  imports RecordList
begin

text \<open>
  The stake system (\<open>stake_system.rs\<close>): the list of the stake accounts under control and the
  totals and limits of the stake delta, with the program addresses that own the stakes.
\<close>

definition ascii :: "string \<Rightarrow> bytes" where
  "ascii s = map of_char s"

section \<open>Records\<close>

definition stake_record_default :: stake_record where
  "stake_record_default = \<lparr>stake_account = pubkey_default, last_update_delegated_lamports = 0,
     last_update_epoch = 0, is_emergency_unstaking = 0\<rparr>"

definition STAKE_DISCRIMINATOR :: bytes where
  "STAKE_DISCRIMINATOR = ascii ''staker__''"

definition stake_record_new :: "pubkey \<Rightarrow> u64 \<Rightarrow> clock \<Rightarrow> stake_record" where
  "stake_record_new acc delegated_lamports ck =
     \<lparr>stake_account = acc, last_update_delegated_lamports = delegated_lamports,
      last_update_epoch = epoch ck, is_emergency_unstaking = 0\<rparr>"

record stake_system =
  stake_list :: list_header
  delayed_unstake_cooling_down :: u64
  stake_deposit_bump_seed :: u8
  stake_withdraw_bump_seed :: u8
  slots_for_stake_delta :: u64
  last_stake_delta_epoch :: u64
  min_stake :: u64
  extra_stake_delta_runs :: u32

section \<open>Operations\<close>

definition STAKE_WITHDRAW_SEED :: bytes where
  "STAKE_WITHDRAW_SEED = ascii ''withdraw''"

definition STAKE_DEPOSIT_SEED :: bytes where
  "STAKE_DEPOSIT_SEED = ascii ''deposit''"

text \<open>\<open>StakeRecord::default().try_to_vec().unwrap().len()\<close>\<close>

definition stake_record_len :: "runtime \<Rightarrow> nat" where
  "stake_record_len rt = length (rt_ser_stake rt stake_record_default)"

definition stake_bytes_for_list :: "runtime \<Rightarrow> u32 \<Rightarrow> u32 \<Rightarrow> u32 result" where
  "stake_bytes_for_list rt cnt additional_record_space =
     bindR (padd (word_of_nat (stake_record_len rt)) additional_record_space) (\<lambda>sz.
     bytes_for sz cnt)"

definition find_stake_withdraw_authority :: "runtime \<Rightarrow> pubkey \<Rightarrow> pubkey \<times> u8" where
  "find_stake_withdraw_authority rt st =
     rt_find_program_address rt [pubkey_to_bytes st, STAKE_WITHDRAW_SEED] ID"

definition find_stake_deposit_authority :: "runtime \<Rightarrow> pubkey \<Rightarrow> pubkey \<times> u8" where
  "find_stake_deposit_authority rt st =
     rt_find_program_address rt [pubkey_to_bytes st, STAKE_DEPOSIT_SEED] ID"

definition stake_system_new ::
  "runtime \<Rightarrow> pubkey \<Rightarrow> pubkey \<Rightarrow> bytes \<Rightarrow> u64 \<Rightarrow> u64 \<Rightarrow> u32 \<Rightarrow> u32 \<Rightarrow> (stake_system \<times> bytes) result"
where
  "stake_system_new rt st list_account list_data slots_delta min_st extra_runs extra_space =
     bindR (padd (word_of_nat (stake_record_len rt)) extra_space) (\<lambda>sz.
     bindR (list_new STAKE_DISCRIMINATOR sz list_account list_data) (\<lambda>(l, data').
     Inr (\<lparr>stake_list = l, delayed_unstake_cooling_down = 0,
           stake_deposit_bump_seed = snd (find_stake_deposit_authority rt st),
           stake_withdraw_bump_seed = snd (find_stake_withdraw_authority rt st),
           slots_for_stake_delta = slots_delta, last_stake_delta_epoch = - 1,
           min_stake = min_st, extra_stake_delta_runs = extra_runs\<rparr>, data')))"

definition stake_count :: "stake_system \<Rightarrow> u32" where
  "stake_count ss = count (stake_list ss)"

definition stake_add ::
  "runtime \<Rightarrow> stake_system \<Rightarrow> bytes \<Rightarrow> pubkey \<Rightarrow> u64 \<Rightarrow> clock \<Rightarrow> (stake_system \<times> bytes) result" where
  "stake_add rt ss data acc delegated_lamports ck =
     bindR (list_push (rt_ser_stake rt) (stake_list ss) data
              (stake_record_new acc delegated_lamports ck)) (\<lambda>(l, data').
     Inr (ss\<lparr>stake_list := l\<rparr>, data'))"

definition stake_get :: "runtime \<Rightarrow> stake_system \<Rightarrow> bytes \<Rightarrow> u32 \<Rightarrow> stake_record result" where
  "stake_get rt ss data index = list_get (rt_de_stake rt) (stake_list ss) data index"

definition stake_set ::
  "runtime \<Rightarrow> stake_system \<Rightarrow> bytes \<Rightarrow> u32 \<Rightarrow> stake_record \<Rightarrow> bytes result" where
  "stake_set rt ss data index r = list_set (rt_ser_stake rt) (stake_list ss) data index r"

definition stake_remove :: "stake_system \<Rightarrow> bytes \<Rightarrow> u32 \<Rightarrow> (stake_system \<times> bytes) result" where
  "stake_remove ss data index =
     bindR (list_remove (stake_list ss) data index) (\<lambda>(l, data').
     Inr (ss\<lparr>stake_list := l\<rparr>, data'))"

definition check_stake_list :: "stake_system \<Rightarrow> world \<Rightarrow> pubkey \<Rightarrow> unit result" where
  "check_stake_list ss w key =
     bindR (check_address key (account (stake_list ss))) (\<lambda>_.
     bindR (ok_or (byte_slice (acc_data w key) 0 8) Panic) (\<lambda>disc.
     require (disc = STAKE_DISCRIMINATOR) InvalidAccountData))"

text \<open>\<open>StakeSystemHelpers\<close>: the addresses derived from the state account and the bump seeds.\<close>

definition stake_withdraw_seeds :: "pubkey \<Rightarrow> stake_system \<Rightarrow> seeds" where
  "stake_withdraw_seeds key ss =
     [pubkey_to_bytes key, STAKE_WITHDRAW_SEED, [stake_withdraw_bump_seed ss]]"

definition stake_withdraw_authority :: "runtime \<Rightarrow> pubkey \<Rightarrow> stake_system \<Rightarrow> pubkey result" where
  "stake_withdraw_authority rt key ss =
     ok_or (rt_create_program_address rt (stake_withdraw_seeds key ss) ID) Panic"

definition check_stake_withdraw_authority ::
  "runtime \<Rightarrow> pubkey \<Rightarrow> stake_system \<Rightarrow> pubkey \<Rightarrow> unit result" where
  "check_stake_withdraw_authority rt key ss authority =
     bindR (stake_withdraw_authority rt key ss) (\<lambda>a. check_address authority a)"

definition stake_deposit_seeds :: "pubkey \<Rightarrow> stake_system \<Rightarrow> seeds" where
  "stake_deposit_seeds key ss =
     [pubkey_to_bytes key, STAKE_DEPOSIT_SEED, [stake_deposit_bump_seed ss]]"

definition stake_deposit_authority :: "runtime \<Rightarrow> pubkey \<Rightarrow> stake_system \<Rightarrow> pubkey result" where
  "stake_deposit_authority rt key ss =
     ok_or (rt_create_program_address rt (stake_deposit_seeds key ss) ID) Panic"

definition check_stake_deposit_authority ::
  "runtime \<Rightarrow> pubkey \<Rightarrow> stake_system \<Rightarrow> pubkey \<Rightarrow> unit result" where
  "check_stake_deposit_authority rt key ss authority =
     bindR (stake_deposit_authority rt key ss) (\<lambda>a. check_address authority a)"

section \<open>Facts\<close>

lemma check_stake_list_Inr [result_simps]:
  "check_stake_list ss w key = Inr u \<longleftrightarrow> key = account (stake_list ss)
     \<and> byte_slice (acc_data w key) 0 8 = Some STAKE_DISCRIMINATOR"
  by (auto simp: check_stake_list_def result_simps)

lemma stake_add_Inr:
  "stake_add rt ss data k n ck = Inr (ss', data') \<longleftrightarrow>
     (\<exists>l. list_push (rt_ser_stake rt) (stake_list ss) data (stake_record_new k n ck) = Inr (l, data')
        \<and> ss' = ss\<lparr>stake_list := l\<rparr>)"
  by (auto simp: stake_add_def result_simps)

lemma stake_remove_Inr:
  "stake_remove ss data i = Inr (ss', data') \<longleftrightarrow>
     (\<exists>l. list_remove (stake_list ss) data i = Inr (l, data') \<and> ss' = ss\<lparr>stake_list := l\<rparr>)"
  by (auto simp: stake_remove_def result_simps)

lemma stake_authority_list [simp]:
  "stake_withdraw_seeds key (ss\<lparr>stake_list := l\<rparr>) = stake_withdraw_seeds key ss"
  "stake_deposit_seeds key (ss\<lparr>stake_list := l\<rparr>) = stake_deposit_seeds key ss"
  by (simp_all add: stake_withdraw_seeds_def stake_deposit_seeds_def)

end
