(* ===== verification/ValidatorSystem.thy ===== *)
theory ValidatorSystem
  imports StakeSystem
begin

text \<open>
  The validator system (\<open>validator_system.rs\<close>): the list of validators with their scores and
  active balances, the two totals, and the stake target of a validator.
\<close>

section \<open>Records\<close>

definition validator_record_default :: validator_record where
  "validator_record_default = \<lparr>validator_account = pubkey_default, active_balance = 0, score = 0,
     vr_last_stake_delta_epoch = 0, duplication_flag_bump_seed = 0\<rparr>"

definition VALIDATOR_DISCRIMINATOR :: bytes where
  "VALIDATOR_DISCRIMINATOR = ascii ''validatr''"

definition DUPLICATE_FLAG_SEED :: bytes where
  "DUPLICATE_FLAG_SEED = ascii ''unique_validator''"

definition find_duplication_flag :: "runtime \<Rightarrow> pubkey \<Rightarrow> pubkey \<Rightarrow> pubkey \<times> u8" where
  "find_duplication_flag rt st validator_acc =
     rt_find_program_address rt
       [pubkey_to_bytes st, DUPLICATE_FLAG_SEED, pubkey_to_bytes validator_acc] ID"

definition duplication_flag_seeds :: "pubkey \<Rightarrow> validator_record \<Rightarrow> seeds" where
  "duplication_flag_seeds st v =
     [pubkey_to_bytes st, DUPLICATE_FLAG_SEED, pubkey_to_bytes (validator_account v),
      [duplication_flag_bump_seed v]]"

definition duplication_flag_address :: "runtime \<Rightarrow> pubkey \<Rightarrow> validator_record \<Rightarrow> pubkey result" where
  "duplication_flag_address rt st v =
     ok_or (rt_create_program_address rt (duplication_flag_seeds st v) ID) Panic"

definition validator_record_new ::
  "runtime \<Rightarrow> pubkey \<Rightarrow> u32 \<Rightarrow> pubkey \<Rightarrow> pubkey \<Rightarrow> validator_record result" where
  "validator_record_new rt validator_acc sc st flag_address =
     (let (actual_duplication_flag, bump_seed) = find_duplication_flag rt st validator_acc
      in bindR (require (flag_address = actual_duplication_flag) InvalidArgument) (\<lambda>_.
         Inr \<lparr>validator_account = validator_acc, active_balance = 0, score = sc,
              vr_last_stake_delta_epoch = - 1, duplication_flag_bump_seed = bump_seed\<rparr>))"

record validator_system =
  validator_list :: list_header
  manager_authority :: pubkey
  total_validator_score :: u32
  total_active_balance :: u64
  auto_add_validator_enabled :: u8

section \<open>Operations\<close>

definition validator_record_len :: "runtime \<Rightarrow> nat" where
  "validator_record_len rt = length (rt_ser_validator rt validator_record_default)"

definition validator_bytes_for_list :: "runtime \<Rightarrow> u32 \<Rightarrow> u32 \<Rightarrow> u32 result" where
  "validator_bytes_for_list rt cnt additional_record_space =
     bindR (padd (word_of_nat (validator_record_len rt)) additional_record_space) (\<lambda>sz.
     bytes_for sz cnt)"

definition validator_system_new ::
  "runtime \<Rightarrow> pubkey \<Rightarrow> bytes \<Rightarrow> pubkey \<Rightarrow> u32 \<Rightarrow> (validator_system \<times> bytes) result" where
  "validator_system_new rt list_account list_data manager extra_space =
     bindR (padd (word_of_nat (validator_record_len rt)) extra_space) (\<lambda>sz.
     bindR (list_new VALIDATOR_DISCRIMINATOR sz list_account list_data) (\<lambda>(l, data').
     Inr (\<lparr>validator_list = l, manager_authority = manager, total_validator_score = 0,
           total_active_balance = 0, auto_add_validator_enabled = 0\<rparr>, data')))"

definition validator_count :: "validator_system \<Rightarrow> u32" where
  "validator_count vs = count (validator_list vs)"

definition validator_add_with_balance ::
  "runtime \<Rightarrow> validator_system \<Rightarrow> bytes \<Rightarrow> pubkey \<Rightarrow> u32 \<Rightarrow> u64 \<Rightarrow> pubkey \<Rightarrow> pubkey
    \<Rightarrow> (validator_system \<times> bytes) result" where
  "validator_add_with_balance rt vs data validator_acc sc balance st flag_address =
     bindR (validator_record_new rt validator_acc sc st flag_address) (\<lambda>v.
     bindR (list_push (rt_ser_validator rt) (validator_list vs) data (v\<lparr>active_balance := balance\<rparr>))
       (\<lambda>(l, data').
     bindR (padd (total_validator_score vs) sc) (\<lambda>total.
     Inr (vs\<lparr>validator_list := l, total_validator_score := total\<rparr>, data'))))"

definition validator_add ::
  "runtime \<Rightarrow> validator_system \<Rightarrow> bytes \<Rightarrow> pubkey \<Rightarrow> u32 \<Rightarrow> pubkey \<Rightarrow> pubkey
    \<Rightarrow> (validator_system \<times> bytes) result" where
  "validator_add rt vs data validator_acc sc st flag_address =
     bindR (validator_record_new rt validator_acc sc st flag_address) (\<lambda>v.
     bindR (list_push (rt_ser_validator rt) (validator_list vs) data v) (\<lambda>(l, data').
     bindR (padd (total_validator_score vs) sc) (\<lambda>total.
     Inr (vs\<lparr>validator_list := l, total_validator_score := total\<rparr>, data'))))"

definition validator_remove ::
  "validator_system \<Rightarrow> bytes \<Rightarrow> u32 \<Rightarrow> validator_record \<Rightarrow> (validator_system \<times> bytes) result" where
  "validator_remove vs data index r =
     bindR (require (\<not> active_balance r > 0) InvalidInstructionData) (\<lambda>_.
     let vs' = vs\<lparr>total_validator_score := saturating_sub (total_validator_score vs) (score r)\<rparr> in
     bindR (list_remove (validator_list vs') data index) (\<lambda>(l, data').
     Inr (vs'\<lparr>validator_list := l\<rparr>, data')))"

definition validator_get ::
  "runtime \<Rightarrow> validator_system \<Rightarrow> bytes \<Rightarrow> u32 \<Rightarrow> validator_record result" where
  "validator_get rt vs data index = list_get (rt_de_validator rt) (validator_list vs) data index"

definition validator_set ::
  "runtime \<Rightarrow> validator_system \<Rightarrow> bytes \<Rightarrow> u32 \<Rightarrow> validator_record \<Rightarrow> bytes result" where
  "validator_set rt vs data index r =
     list_set (rt_ser_validator rt) (validator_list vs) data index r"

definition validator_stake_target ::
  "validator_system \<Rightarrow> validator_record \<Rightarrow> u64 \<Rightarrow> u64 result" where
  "validator_stake_target vs v total_stake_target =
     (if total_validator_score vs = 0 then Inr 0
      else proportional total_stake_target (ucast (score v)) (ucast (total_validator_score vs)))"

definition check_validator_list :: "validator_system \<Rightarrow> world \<Rightarrow> pubkey \<Rightarrow> unit result" where
  "check_validator_list vs w key =
     bindR (check_address key (account (validator_list vs))) (\<lambda>_.
     bindR (ok_or (byte_slice (acc_data w key) 0 8) Panic) (\<lambda>disc.
     require (disc = VALIDATOR_DISCRIMINATOR) InvalidAccountData))"

definition check_validator_manager_authority :: "validator_system \<Rightarrow> pubkey \<Rightarrow> unit result" where
  "check_validator_manager_authority vs key = check_address key (manager_authority vs)"

section \<open>Facts\<close>

lemma check_validator_list_Inr [result_simps]:
  "check_validator_list vs w key = Inr u \<longleftrightarrow> key = account (validator_list vs)
     \<and> byte_slice (acc_data w key) 0 8 = Some VALIDATOR_DISCRIMINATOR"
  by (auto simp: check_validator_list_def result_simps)

lemma check_validator_manager_authority_Inr [result_simps]:
  "check_validator_manager_authority vs key = Inr u \<longleftrightarrow> key = manager_authority vs"
  by (simp add: check_validator_manager_authority_def result_simps)

lemma validator_stake_target_Inr:
  "validator_stake_target vs v t = Inr r \<Longrightarrow>
     unat r = (if total_validator_score vs = 0 then 0
               else unat t * unat (score v) div unat (total_validator_score vs))"
  by (auto simp: validator_stake_target_def result_simps prop_floor_def unat_ucast_up unat_eq_zero
      split: if_splits)

text \<open>
  No validator's stake target exceeds the total to distribute, as long as its score is
  part of the total score; it is the proportional share rounded down, and never fails.
\<close>
lemma validator_stake_target_bound:
  assumes "score v \<le> total_validator_score vs"
  shows "\<exists>r. validator_stake_target vs v amount = Inr r \<and> r \<le> amount
    \<and> unat r = unat amount * unat (score v) div unat (total_validator_score vs)"
proof -
  let ?q = "unat amount * unat (score v) div unat (total_validator_score vs)"
  have le: "?q \<le> unat amount"
    using assms by (simp add: mult_div_le_self word_le_nat_alt)
  then have "unat (word_of_nat ?q :: u64) = ?q"
    using unat_u64_less [of amount] by (intro unat_of_nat_small) simp
  with le have "word_of_nat ?q \<le> amount" "unat (word_of_nat ?q :: u64) = ?q"
    by (simp_all add: word_le_nat_alt)
  moreover have "validator_stake_target vs v amount = Inr (word_of_nat ?q)"
    using le unat_u64_less [of amount]
    by (auto simp: validator_stake_target_def proportional_nat prop_floor_def unat_ucast_up
        unat_eq_zero)
  ultimately show ?thesis by blast
qed

definition example_validators :: validator_system where
  "example_validators = \<lparr>validator_list = \<lparr>account = 2, item_size = 53, count = 0,
     new_account = 0, copied_count = 0\<rparr>, manager_authority = 8, total_validator_score = 30,
     total_active_balance = 900, auto_add_validator_enabled = 0\<rparr>"

lemma validator_stake_target_bound_witness:
  "(10::u32) \<le> total_validator_score example_validators \<and>
   (\<exists>r. validator_stake_target example_validators (validator_record_default\<lparr>score := 10\<rparr>) 1000 = Inr r
      \<and> unat r = 333)"
  using validator_stake_target_bound [of "validator_record_default\<lparr>score := 10\<rparr>"
      example_validators 1000]
  by (auto simp: example_validators_def)

end
