(* ===== verification/LiqPool.thy ===== *)
theory LiqPool
  imports ValidatorSystem
begin

text \<open>
  The SOL/mSOL liquidity pool (\<open>liq_pool.rs\<close>): its parameters, the linear unstake fee, the
  virtual LP supply and the cap, with the addresses of its legs.
\<close>

section \<open>State and operations\<close>

record liq_pool =
  lp_mint :: pubkey
  lp_mint_authority_bump_seed :: u8
  sol_leg_bump_seed :: u8
  msol_leg_authority_bump_seed :: u8
  msol_leg :: pubkey
  lp_liquidity_target :: u64
  lp_max_fee :: fee
  lp_min_fee :: fee
  treasury_cut :: fee
  lp_supply :: u64
  lent_from_sol_leg :: u64
  liquidity_sol_cap :: u64

definition LP_MINT_AUTHORITY_SEED :: bytes where
  "LP_MINT_AUTHORITY_SEED = ascii ''liq_mint''"

definition SOL_LEG_SEED :: bytes where
  "SOL_LEG_SEED = ascii ''liq_sol''"

definition MSOL_LEG_AUTHORITY_SEED :: bytes where
  "MSOL_LEG_AUTHORITY_SEED = ascii ''liq_st_sol_authority''"

definition MSOL_LEG_SEED :: string where
  "MSOL_LEG_SEED = ''liq_st_sol''"

definition find_lp_mint_authority :: "runtime \<Rightarrow> pubkey \<Rightarrow> pubkey \<times> u8" where
  "find_lp_mint_authority rt st =
     rt_find_program_address rt [pubkey_to_bytes st, LP_MINT_AUTHORITY_SEED] ID"

definition find_sol_leg_address :: "runtime \<Rightarrow> pubkey \<Rightarrow> pubkey \<times> u8" where
  "find_sol_leg_address rt st = rt_find_program_address rt [pubkey_to_bytes st, SOL_LEG_SEED] ID"

definition find_msol_leg_authority :: "runtime \<Rightarrow> pubkey \<Rightarrow> pubkey \<times> u8" where
  "find_msol_leg_authority rt st =
     rt_find_program_address rt [pubkey_to_bytes st, MSOL_LEG_AUTHORITY_SEED] ID"

definition default_msol_leg_address :: "runtime \<Rightarrow> pubkey \<Rightarrow> pubkey result" where
  "default_msol_leg_address rt st =
     ok_or (rt_create_with_seed rt st MSOL_LEG_SEED (rt_spl_token rt)) Panic"

definition check_lp_mint :: "liq_pool \<Rightarrow> pubkey \<Rightarrow> unit result" where
  "check_lp_mint lp key = check_address key (lp_mint lp)"

definition check_liq_pool_msol_leg :: "liq_pool \<Rightarrow> pubkey \<Rightarrow> unit result" where
  "check_liq_pool_msol_leg lp key = check_address key (msol_leg lp)"

definition lp_delta :: "liq_pool \<Rightarrow> u32" where
  "lp_delta lp = saturating_sub (basis_points (lp_max_fee lp)) (basis_points (lp_min_fee lp))"

definition linear_fee :: "liq_pool \<Rightarrow> u64 \<Rightarrow> fee result" where
  "linear_fee lp amount =
     (if amount \<ge> lp_liquidity_target lp then Inr (lp_min_fee lp)
      else bindR (case proportional (ucast (lp_delta lp)) amount (lp_liquidity_target lp) of
                    Inl _ \<Rightarrow> Inl Panic | Inr p \<Rightarrow> Inr p) (\<lambda>p.
           bindR (psub (basis_points (lp_max_fee lp)) (ucast p)) (\<lambda>bp.
           Inr \<lparr>basis_points = bp\<rparr>)))"

definition on_lp_mint :: "liq_pool \<Rightarrow> u64 \<Rightarrow> liq_pool result" where
  "on_lp_mint lp amount =
     bindR (ok_or (checked_add (lp_supply lp) amount) Panic) (\<lambda>s. Inr (lp\<lparr>lp_supply := s\<rparr>))"

definition on_lp_burn :: "liq_pool \<Rightarrow> u64 \<Rightarrow> liq_pool" where
  "on_lp_burn lp amount = lp\<lparr>lp_supply := saturating_sub (lp_supply lp) amount\<rparr>"

definition check_liquidity_cap :: "liq_pool \<Rightarrow> u64 \<Rightarrow> u64 \<Rightarrow> unit result" where
  "check_liquidity_cap lp transfering_lamports sol_leg_balance =
     bindR (ok_or (checked_add sol_leg_balance transfering_lamports) InvalidArgument)
       (\<lambda>result_amount.
     require (\<not> result_amount > liquidity_sol_cap lp) (Custom 3782))"

text \<open>\<open>LiqPoolHelpers\<close>.\<close>

definition lp_mint_authority_seeds :: "pubkey \<Rightarrow> liq_pool \<Rightarrow> seeds" where
  "lp_mint_authority_seeds key lp =
     [pubkey_to_bytes key, LP_MINT_AUTHORITY_SEED, [lp_mint_authority_bump_seed lp]]"

definition lp_mint_authority :: "runtime \<Rightarrow> pubkey \<Rightarrow> liq_pool \<Rightarrow> pubkey result" where
  "lp_mint_authority rt key lp =
     ok_or (rt_create_program_address rt (lp_mint_authority_seeds key lp) ID) Panic"

definition liq_pool_sol_leg_seeds :: "pubkey \<Rightarrow> liq_pool \<Rightarrow> seeds" where
  "liq_pool_sol_leg_seeds key lp = [pubkey_to_bytes key, SOL_LEG_SEED, [sol_leg_bump_seed lp]]"

definition liq_pool_sol_leg_address :: "runtime \<Rightarrow> pubkey \<Rightarrow> liq_pool \<Rightarrow> pubkey result" where
  "liq_pool_sol_leg_address rt key lp =
     ok_or (rt_create_program_address rt (liq_pool_sol_leg_seeds key lp) ID) Panic"

definition liq_pool_msol_leg_authority_seeds :: "pubkey \<Rightarrow> liq_pool \<Rightarrow> seeds" where
  "liq_pool_msol_leg_authority_seeds key lp =
     [pubkey_to_bytes key, MSOL_LEG_AUTHORITY_SEED, [msol_leg_authority_bump_seed lp]]"

definition liq_pool_msol_leg_authority :: "runtime \<Rightarrow> pubkey \<Rightarrow> liq_pool \<Rightarrow> pubkey result" where
  "liq_pool_msol_leg_authority rt key lp =
     ok_or (rt_create_program_address rt (liq_pool_msol_leg_authority_seeds key lp) ID) Panic"

definition check_lp_mint_authority :: "runtime \<Rightarrow> pubkey \<Rightarrow> liq_pool \<Rightarrow> pubkey \<Rightarrow> unit result" where
  "check_lp_mint_authority rt key lp authority =
     bindR (lp_mint_authority rt key lp) (\<lambda>a. check_address authority a)"

definition check_liq_pool_sol_leg_pda :: "runtime \<Rightarrow> pubkey \<Rightarrow> liq_pool \<Rightarrow> pubkey \<Rightarrow> unit result" where
  "check_liq_pool_sol_leg_pda rt key lp leg =
     bindR (liq_pool_sol_leg_address rt key lp) (\<lambda>a. check_address leg a)"

definition check_liq_pool_msol_leg_authority ::
  "runtime \<Rightarrow> pubkey \<Rightarrow> liq_pool \<Rightarrow> pubkey \<Rightarrow> unit result" where
  "check_liq_pool_msol_leg_authority rt key lp authority =
     bindR (liq_pool_msol_leg_authority rt key lp) (\<lambda>a. check_address authority a)"

section \<open>Facts\<close>

lemma liq_pool_checks_Inr [result_simps]:
  "check_lp_mint lp key = Inr u \<longleftrightarrow> key = lp_mint lp"
  "check_liq_pool_msol_leg lp key = Inr u \<longleftrightarrow> key = msol_leg lp"
  "check_lp_mint_authority rt k lp a = Inr u \<longleftrightarrow> lp_mint_authority rt k lp = Inr a"
  "check_liq_pool_sol_leg_pda rt k lp a = Inr u \<longleftrightarrow> liq_pool_sol_leg_address rt k lp = Inr a"
  "check_liq_pool_msol_leg_authority rt k lp a = Inr u \<longleftrightarrow> liq_pool_msol_leg_authority rt k lp = Inr a"
  by (auto simp: check_lp_mint_def check_liq_pool_msol_leg_def check_lp_mint_authority_def
      check_liq_pool_sol_leg_pda_def check_liq_pool_msol_leg_authority_def result_simps)

lemma check_liquidity_cap_Inr [result_simps]:
  "check_liquidity_cap lp n bal = Inr u \<longleftrightarrow> unat bal + unat n \<le> unat (liquidity_sol_cap lp)"
proof -
  have "(\<exists>r::u64. unat r = unat bal + unat n \<and> r \<le> liquidity_sol_cap lp) \<longleftrightarrow>
      unat bal + unat n \<le> unat (liquidity_sol_cap lp)"
    using unat_of_nat_small [where 'a = 64, of "unat bal + unat n"] unat_u64_less [of "liquidity_sol_cap lp"]
    by (auto simp: word_le_nat_alt intro!: exI [of _ "word_of_nat (unat bal + unat n)"])
  then show ?thesis
    by (auto simp: check_liquidity_cap_def result_simps not_less)
qed

definition fees_ordered :: "liq_pool \<Rightarrow> bool" where
  "fees_ordered lp \<longleftrightarrow> basis_points (lp_min_fee lp) \<le> basis_points (lp_max_fee lp)"

text \<open>The fee in basis points, on natural numbers.\<close>

definition linear_fee_bp :: "liq_pool \<Rightarrow> nat \<Rightarrow> nat" where
  "linear_fee_bp lp x =
     (let mx = unat (basis_points (lp_max_fee lp)); mn = unat (basis_points (lp_min_fee lp));
          t = unat (lp_liquidity_target lp)
      in if x \<ge> t then mn else mx - (mx - mn) * x div t)"

lemma linear_fee_nat:
  "\<exists>f. linear_fee lp x = Inr f \<and> unat (basis_points f) = linear_fee_bp lp (unat x)"
proof (cases "x \<ge> lp_liquidity_target lp")
  case True
  then show ?thesis
    by (simp add: linear_fee_def linear_fee_bp_def word_le_nat_alt Let_def)
next
  case False
  let ?mx = "unat (basis_points (lp_max_fee lp))" and ?mn = "unat (basis_points (lp_min_fee lp))"
  let ?t = "unat (lp_liquidity_target lp)"
  define q where "q = (?mx - ?mn) * unat x div ?t"
  from False have xt: "unat x < ?t" by (simp add: word_le_nat_alt)
  then have q: "q \<le> ?mx - ?mn" unfolding q_def by (intro mult_div_le_self) simp
  have mx: "?mx < 4294967296" by (rule unat_u32_less)
  have "prop_floor (unat (ucast (lp_delta lp) :: u64)) (unat x) ?t = q"
    using xt by (simp add: prop_floor_def q_def lp_delta_def unat_ucast_up)
  with q mx have p: "proportional (ucast (lp_delta lp)) x (lp_liquidity_target lp)
      = Inr (word_of_nat q)"
    by (simp add: proportional_nat)
  have "unat (word_of_nat q :: u64) = q" using q mx by (intro unat_of_nat_small) simp
  then have u: "unat (ucast (word_of_nat q :: u64) :: u32) = q"
    unfolding ucast_via_nat using q mx by (simp add: unat_of_nat_small)
  then have "(ucast (word_of_nat q :: u64) :: u32) \<le> basis_points (lp_max_fee lp)"
    using q by (simp add: word_le_nat_alt)
  then show ?thesis
    using False p u xt by (simp add: linear_fee_def linear_fee_bp_def checked_sub_def unat_sub
        q_def word_le_nat_alt Let_def)
qed

lemma linear_fee_bp_range:
  assumes "fees_ordered lp"
  shows "unat (basis_points (lp_min_fee lp)) \<le> linear_fee_bp lp x
    \<and> linear_fee_bp lp x \<le> unat (basis_points (lp_max_fee lp))"
proof (cases "x \<ge> unat (lp_liquidity_target lp)")
  case False
  then have "(unat (basis_points (lp_max_fee lp)) - unat (basis_points (lp_min_fee lp))) * x
      div unat (lp_liquidity_target lp)
    \<le> unat (basis_points (lp_max_fee lp)) - unat (basis_points (lp_min_fee lp))"
    by (intro mult_div_le_self) simp
  with assms False show ?thesis
    by (auto simp: linear_fee_bp_def Let_def fees_ordered_def word_le_nat_alt)
qed (use assms in \<open>simp add: linear_fee_bp_def fees_ordered_def word_le_nat_alt\<close>)

lemma linear_fee_range:
  assumes "fees_ordered lp" and "linear_fee lp x = Inr f"
  shows "basis_points (lp_min_fee lp) \<le> basis_points f \<and> basis_points f \<le> basis_points (lp_max_fee lp)"
  using linear_fee_nat [of lp x] linear_fee_bp_range [OF assms(1), of "unat x"] assms(2)
  by (auto simp: word_le_nat_alt)

text \<open>
  The unstake fee is total and linear: it never panics whatever the parameters; with ordered
  fees it stays between the minimum and the maximum, is the maximum at zero liquidity and the
  minimum from the target on, and more liquidity never raises it.
\<close>
lemma linear_fee_correct:
  assumes "fees_ordered lp"
  shows "\<exists>f. linear_fee lp amount = Inr f
    \<and> basis_points (lp_min_fee lp) \<le> basis_points f \<and> basis_points f \<le> basis_points (lp_max_fee lp)
    \<and> (lp_liquidity_target lp \<le> amount \<longrightarrow> f = lp_min_fee lp)
    \<and> (amount = 0 \<and> 0 < lp_liquidity_target lp \<longrightarrow> f = lp_max_fee lp)
    \<and> (\<forall>g more. amount \<le> more \<and> linear_fee lp more = Inr g \<longrightarrow> basis_points g \<le> basis_points f)"
proof -
  let ?mx = "unat (basis_points (lp_max_fee lp))" and ?mn = "unat (basis_points (lp_min_fee lp))"
  let ?t = "unat (lp_liquidity_target lp)"
  have ord: "?mn \<le> ?mx" using assms by (simp add: fees_ordered_def word_le_nat_alt)
  have le: "(?mx - ?mn) * y div ?t \<le> ?mx - ?mn" if "y < ?t" for y
    using that by (intro mult_div_le_self) simp
  have mono: "linear_fee_bp lp z \<le> linear_fee_bp lp y" if "y \<le> z" for y z
    using that ord le [of y] div_le_mono [of "(?mx - ?mn) * y" "(?mx - ?mn) * z" ?t]
    by (auto simp: linear_fee_bp_def Let_def)
  have rng: "?mn \<le> linear_fee_bp lp y \<and> linear_fee_bp lp y \<le> ?mx" for y
    by (rule linear_fee_bp_range [OF assms])
  obtain f where f: "linear_fee lp amount = Inr f" "unat (basis_points f) = linear_fee_bp lp (unat amount)"
    using linear_fee_nat by blast
  have "basis_points g \<le> basis_points f" if "amount \<le> more" "linear_fee lp more = Inr g" for g more
    using that f mono [of "unat amount" "unat more"] linear_fee_nat [of lp more]
    by (auto simp: word_le_nat_alt)
  moreover have "f = lp_max_fee lp" if "amount = 0 \<and> 0 < lp_liquidity_target lp"
    using that f(2) by (auto simp: linear_fee_bp_def Let_def word_less_nat_alt
        intro!: fee.equality dest: unat_eqD)
  moreover have "f = lp_min_fee lp" if "lp_liquidity_target lp \<le> amount"
    using that f(1) by (simp add: linear_fee_def)
  ultimately show ?thesis
    using f rng [of "unat amount"] by (auto simp: word_le_nat_alt)
qed

definition example_pool :: liq_pool where
  "example_pool = \<lparr>lp_mint = 40, lp_mint_authority_bump_seed = 1, sol_leg_bump_seed = 1,
     msol_leg_authority_bump_seed = 1, msol_leg = 43, lp_liquidity_target = 10000,
     lp_max_fee = \<lparr>basis_points = 300\<rparr>, lp_min_fee = \<lparr>basis_points = 30\<rparr>,
     treasury_cut = \<lparr>basis_points = 2500\<rparr>, lp_supply = 5000, lent_from_sol_leg = 0,
     liquidity_sol_cap = 100000000\<rparr>"

lemma linear_fee_correct_witness:
  "fees_ordered example_pool \<and> (\<exists>f. linear_fee example_pool 5000 = Inr f
     \<and> 30 \<le> basis_points f \<and> basis_points f \<le> 300)"
proof -
  have h: "fees_ordered example_pool" by (simp add: fees_ordered_def example_pool_def)
  show ?thesis
    using h linear_fee_correct [OF h, of 5000] by (auto simp: example_pool_def)
qed

end
