(* ===== verification/MarinadeState.thy ===== *)
theory MarinadeState
  imports LiqPool
begin

text \<open>
  The main account (\<open>state.rs\<close>): the \<open>State\<close> record, the value of the mSOL supply, the
  staking cap, the stake delta in \<open>i128\<close>, and the virtual balances the handlers keep.
\<close>

section \<open>The state\<close>

record state =
  msol_mint :: pubkey
  admin_authority :: pubkey
  operational_sol_account :: pubkey
  treasury_msol_account :: pubkey
  reserve_bump_seed :: u8
  msol_mint_authority_bump_seed :: u8
  rent_exempt_for_token_acc :: u64
  reward_fee :: fee
  stake_system :: stake_system
  validator_system :: validator_system
  liq_pool :: liq_pool
  available_reserve_balance :: u64
  msol_supply :: u64
  msol_price :: u64
  circulating_ticket_count :: u64
  circulating_ticket_balance :: u64
  lent_from_reserve :: u64
  min_deposit :: u64
  min_withdraw :: u64
  staking_sol_cap :: u64
  emergency_cooling_down :: u64

definition PRICE_DENOMINATOR :: u64 where
  "PRICE_DENOMINATOR = 0x100000000"

definition RESERVE_SEED :: bytes where
  "RESERVE_SEED = ascii ''reserve''"

definition MSOL_MINT_AUTHORITY_SEED :: bytes where
  "MSOL_MINT_AUTHORITY_SEED = ascii ''st_mint''"

definition STAKE_LIST_SEED :: string where
  "STAKE_LIST_SEED = ''stake_list''"

definition VALIDATOR_LIST_SEED :: string where
  "VALIDATOR_LIST_SEED = ''validator_list''"

section \<open>Addresses\<close>

definition find_msol_mint_authority :: "runtime \<Rightarrow> pubkey \<Rightarrow> pubkey \<times> u8" where
  "find_msol_mint_authority rt key =
     rt_find_program_address rt [pubkey_to_bytes key, MSOL_MINT_AUTHORITY_SEED] ID"

definition find_reserve_address :: "runtime \<Rightarrow> pubkey \<Rightarrow> pubkey \<times> u8" where
  "find_reserve_address rt key =
     rt_find_program_address rt [pubkey_to_bytes key, RESERVE_SEED] ID"

definition default_stake_list_address :: "runtime \<Rightarrow> pubkey \<Rightarrow> pubkey result" where
  "default_stake_list_address rt key = ok_or (rt_create_with_seed rt key STAKE_LIST_SEED ID) Panic"

definition default_validator_list_address :: "runtime \<Rightarrow> pubkey \<Rightarrow> pubkey result" where
  "default_validator_list_address rt key =
     ok_or (rt_create_with_seed rt key VALIDATOR_LIST_SEED ID) Panic"

text \<open>\<open>StateHelpers\<close>.\<close>

definition msol_mint_authority_seeds :: "pubkey \<Rightarrow> state \<Rightarrow> seeds" where
  "msol_mint_authority_seeds key st =
     [pubkey_to_bytes key, MSOL_MINT_AUTHORITY_SEED, [msol_mint_authority_bump_seed st]]"

definition msol_mint_authority :: "runtime \<Rightarrow> pubkey \<Rightarrow> state \<Rightarrow> pubkey result" where
  "msol_mint_authority rt key st =
     ok_or (rt_create_program_address rt (msol_mint_authority_seeds key st) ID) Panic"

definition reserve_seeds :: "pubkey \<Rightarrow> state \<Rightarrow> seeds" where
  "reserve_seeds key st = [pubkey_to_bytes key, RESERVE_SEED, [reserve_bump_seed st]]"

definition reserve_address :: "runtime \<Rightarrow> pubkey \<Rightarrow> state \<Rightarrow> pubkey result" where
  "reserve_address rt key st =
     ok_or (rt_create_program_address rt (reserve_seeds key st) ID) Panic"

definition check_reserve_address :: "runtime \<Rightarrow> pubkey \<Rightarrow> state \<Rightarrow> pubkey \<Rightarrow> unit result" where
  "check_reserve_address rt key st reserve =
     bindR (reserve_address rt key st) (\<lambda>a. check_address reserve a)"

definition check_msol_mint_authority :: "runtime \<Rightarrow> pubkey \<Rightarrow> state \<Rightarrow> pubkey \<Rightarrow> unit result" where
  "check_msol_mint_authority rt key st authority =
     bindR (msol_mint_authority rt key st) (\<lambda>a. check_address authority a)"

section \<open>Checks\<close>

definition check_admin_authority :: "state \<Rightarrow> pubkey \<Rightarrow> unit result" where
  "check_admin_authority st key = check_address key (admin_authority st)"

definition check_operational_sol_account :: "state \<Rightarrow> pubkey \<Rightarrow> unit result" where
  "check_operational_sol_account st key = check_address key (operational_sol_account st)"

definition check_msol_mint :: "state \<Rightarrow> pubkey \<Rightarrow> unit result" where
  "check_msol_mint st key = check_address key (msol_mint st)"

definition check_treasury_msol_account ::
  "runtime \<Rightarrow> state \<Rightarrow> world \<Rightarrow> pubkey \<Rightarrow> bool result" where
  "check_treasury_msol_account rt st w key =
     bindR (check_address key (treasury_msol_account st)) (\<lambda>_.
     if acc_owner w key \<noteq> rt_spl_token rt then Inr False
     else case acc_token w key of
            Some token \<Rightarrow> Inr (tk_mint token = msol_mint st)
          | None \<Rightarrow> Inr False)"

section \<open>Value of the supply\<close>

definition total_cooling_down :: "state \<Rightarrow> u64 result" where
  "total_cooling_down st =
     ok_or (checked_add (delayed_unstake_cooling_down (stake_system st)) (emergency_cooling_down st))
       Panic"

definition total_lamports_under_control :: "state \<Rightarrow> u64 result" where
  "total_lamports_under_control st =
     bindR (total_cooling_down st) (\<lambda>c.
     bindR (ok_or (checked_add (total_active_balance (validator_system st)) c) Panic) (\<lambda>s.
     ok_or (checked_add s (available_reserve_balance st)) Panic))"

definition check_staking_cap :: "state \<Rightarrow> u64 \<Rightarrow> unit result" where
  "check_staking_cap st transfering_lamports =
     bindR (total_lamports_under_control st) (\<lambda>t.
     bindR (ok_or (checked_add t transfering_lamports) InvalidArgument) (\<lambda>result_amount.
     require (\<not> result_amount > staking_sol_cap st) (Custom 3782)))"

definition total_virtual_staked_lamports :: "state \<Rightarrow> u64 result" where
  "total_virtual_staked_lamports st =
     bindR (total_lamports_under_control st) (\<lambda>t.
     Inr (saturating_sub t (circulating_ticket_balance st)))"

definition calc_msol_from_lamports :: "state \<Rightarrow> u64 \<Rightarrow> u64 result" where
  "calc_msol_from_lamports st stake_lamports =
     bindR (total_virtual_staked_lamports st) (\<lambda>t.
     shares_from_value stake_lamports t (msol_supply st))"

definition calc_lamports_from_msol_amount :: "state \<Rightarrow> u64 \<Rightarrow> u64 result" where
  "calc_lamports_from_msol_amount st msol_amount =
     bindR (total_virtual_staked_lamports st) (\<lambda>t.
     value_from_shares msol_amount t (msol_supply st))"

section \<open>The stake delta\<close>

text \<open>An \<open>i128\<close> operation: the exact result, or a panic out of range.\<close>

definition i128 :: "int \<Rightarrow> int result" where
  "i128 n = (if - (2 ^ 127) \<le> n \<and> n < 2 ^ 127 then Inr n else Inl Panic)"

definition stake_delta :: "state \<Rightarrow> u64 \<Rightarrow> int result" where
  "stake_delta st reserve_balance =
     bindR (i128 (uint (saturating_sub reserve_balance (rent_exempt_for_token_acc st))
                  + uint (delayed_unstake_cooling_down (stake_system st)))) (\<lambda>s.
     bindR (i128 (s - uint (circulating_ticket_balance st))) (\<lambda>raw.
     if raw \<ge> 0 then Inr raw
     else bindR (i128 (raw + uint (emergency_cooling_down st))) (\<lambda>with_emergency.
          Inr (min with_emergency 0))))"

section \<open>Virtual balances\<close>

definition on_transfer_to_reserve :: "state \<Rightarrow> u64 \<Rightarrow> state result" where
  "on_transfer_to_reserve st amount =
     bindR (ok_or (checked_add (available_reserve_balance st) amount) Panic) (\<lambda>b.
     Inr (st\<lparr>available_reserve_balance := b\<rparr>))"

definition on_transfer_from_reserve :: "state \<Rightarrow> u64 \<Rightarrow> state" where
  "on_transfer_from_reserve st amount =
     st\<lparr>available_reserve_balance := saturating_sub (available_reserve_balance st) amount\<rparr>"

definition on_msol_mint :: "state \<Rightarrow> u64 \<Rightarrow> state result" where
  "on_msol_mint st amount =
     bindR (ok_or (checked_add (msol_supply st) amount) Panic) (\<lambda>s. Inr (st\<lparr>msol_supply := s\<rparr>))"

definition on_msol_burn :: "state \<Rightarrow> u64 \<Rightarrow> state" where
  "on_msol_burn st amount = st\<lparr>msol_supply := saturating_sub (msol_supply st) amount\<rparr>"

section \<open>Facts\<close>

lemma state_checks_Inr [result_simps]:
  "check_admin_authority st key = Inr u \<longleftrightarrow> key = admin_authority st"
  "check_operational_sol_account st key = Inr u \<longleftrightarrow> key = operational_sol_account st"
  "check_msol_mint st key = Inr u \<longleftrightarrow> key = msol_mint st"
  "check_reserve_address rt k st a = Inr u \<longleftrightarrow> reserve_address rt k st = Inr a"
  "check_msol_mint_authority rt k st a = Inr u \<longleftrightarrow> msol_mint_authority rt k st = Inr a"
  by (auto simp: check_admin_authority_def check_operational_sol_account_def check_msol_mint_def
      check_reserve_address_def check_msol_mint_authority_def result_simps)

lemma check_treasury_msol_account_Inr [result_simps]:
  "check_treasury_msol_account rt st w key = Inr b \<longleftrightarrow> key = treasury_msol_account st \<and>
     b = (acc_owner w key = rt_spl_token rt \<and>
          (\<exists>t. acc_token w key = Some t \<and> tk_mint t = msol_mint st))"
  by (auto simp: check_treasury_msol_account_def result_simps split: if_splits option.splits)

text \<open>The value under control and the value of the mSOL supply, as natural numbers.\<close>

definition under_control :: "state \<Rightarrow> nat" where
  "under_control st = unat (total_active_balance (validator_system st))
     + unat (delayed_unstake_cooling_down (stake_system st)) + unat (emergency_cooling_down st)
     + unat (available_reserve_balance st)"

definition virtual_staked :: "state \<Rightarrow> nat" where
  "virtual_staked st = under_control st - unat (circulating_ticket_balance st)"

lemma total_lamports_under_control_Inr [result_simps]:
  "total_lamports_under_control st = Inr t \<longleftrightarrow> unat t = under_control st"
proof -
  have "under_control st = unat t \<Longrightarrow>
      unat (delayed_unstake_cooling_down (stake_system st)) + unat (emergency_cooling_down st) < 2 ^ 64
      \<and> unat (total_active_balance (validator_system st)) + (unat (delayed_unstake_cooling_down
        (stake_system st)) + unat (emergency_cooling_down st)) < 2 ^ 64"
    using unat_u64_less [of t] by (simp add: under_control_def)
  then show ?thesis
    by (auto simp: total_lamports_under_control_def total_cooling_down_def result_simps ex_unat_eq
        under_control_def unat_of_nat_small simp del: of_nat_add)
qed

lemma total_virtual_staked_lamports_Inr [result_simps]:
  "total_virtual_staked_lamports st = Inr v \<longleftrightarrow>
     under_control st < 2 ^ 64 \<and> unat v = virtual_staked st"
proof -
  have "v = saturating_sub (word_of_nat (under_control st)) (circulating_ticket_balance st) \<longleftrightarrow>
      unat v = virtual_staked st" if "under_control st < 2 ^ 64"
    using that by (simp add: word_unat_eq_iff virtual_staked_def unat_of_nat_small)
  then show ?thesis
    by (auto simp: total_virtual_staked_lamports_def result_simps ex_unat_eq)
qed

lemma calc_msol_from_lamports_Inr:
  "calc_msol_from_lamports st n = Inr m \<longleftrightarrow> under_control st < 2 ^ 64 \<and>
     unat m = shares_floor (unat n) (virtual_staked st) (unat (msol_supply st))"
proof -
  have "virtual_staked st < 2 ^ 64" if "under_control st < 2 ^ 64"
    using that by (simp add: virtual_staked_def)
  then show ?thesis
    by (auto simp: calc_msol_from_lamports_def result_simps ex_unat_eq unat_of_nat_small)
qed

lemma calc_lamports_from_msol_amount_Inr:
  "calc_lamports_from_msol_amount st m = Inr n \<longleftrightarrow> under_control st < 2 ^ 64 \<and>
     unat n = prop_floor (unat m) (virtual_staked st) (unat (msol_supply st))"
proof -
  have "virtual_staked st < 2 ^ 64" if "under_control st < 2 ^ 64"
    using that by (simp add: virtual_staked_def)
  then show ?thesis
    by (auto simp: calc_lamports_from_msol_amount_def result_simps ex_unat_eq unat_of_nat_small)
qed

text \<open>The price of the shares and of the value of a state, in exact arithmetic rounded down.\<close>

definition msol_for :: "state \<Rightarrow> nat \<Rightarrow> nat" where
  "msol_for st n = shares_floor n (virtual_staked st) (unat (msol_supply st))"

definition lamports_for :: "state \<Rightarrow> nat \<Rightarrow> nat" where
  "lamports_for st m = prop_floor m (virtual_staked st) (unat (msol_supply st))"

lemma calc_msol_Inr [result_simps]: "calc_msol_from_lamports st n = Inr m \<longleftrightarrow>
    under_control st < 2 ^ 64 \<and> unat m = msol_for st (unat n)"
  by (simp add: calc_msol_from_lamports_Inr msol_for_def)

lemma calc_lamports_Inr [result_simps]: "calc_lamports_from_msol_amount st m = Inr n \<longleftrightarrow>
    under_control st < 2 ^ 64 \<and> unat n = lamports_for st (unat m)"
  by (simp add: calc_lamports_from_msol_amount_Inr lamports_for_def)

lemma check_staking_cap_Inr [result_simps]:
  "check_staking_cap st n = Inr u \<longleftrightarrow> under_control st + unat n \<le> unat (staking_sol_cap st)"
proof -
  have cap: "unat (staking_sol_cap st) < 18446744073709551616" by (rule unat_u64_less)
  show ?thesis
  proof (cases "under_control st + unat n < 2 ^ 64")
    case True
    then show ?thesis
      by (auto simp: check_staking_cap_def result_simps ex_unat_eq unat_of_nat_small not_less
          word_le_nat_alt simp del: of_nat_add)
  next
    case False
    with cap show ?thesis
      by (auto simp: check_staking_cap_def result_simps ex_unat_eq unat_of_nat_small)
  qed
qed

lemma on_transfer_to_reserve_Inr [result_simps]:
  "on_transfer_to_reserve st n = Inr st' \<longleftrightarrow>
     unat (available_reserve_balance st) + unat n < 2 ^ 64
     \<and> st' = st\<lparr>available_reserve_balance := available_reserve_balance st + n\<rparr>"
  by (auto simp: on_transfer_to_reserve_def bindR_Inr ok_or_Inr checked_add_def split: if_splits)

lemma on_msol_mint_Inr [result_simps]:
  "on_msol_mint st n = Inr st' \<longleftrightarrow> unat (msol_supply st) + unat n < 2 ^ 64
     \<and> st' = st\<lparr>msol_supply := msol_supply st + n\<rparr>"
  by (auto simp: on_msol_mint_def bindR_Inr ok_or_Inr checked_add_def split: if_splits)

text \<open>The stake delta as an integer, from the natural numbers behind the balances.\<close>

definition delta_spec :: "state \<Rightarrow> nat \<Rightarrow> int" where
  "delta_spec st reserve =
     (let raw = int (reserve - unat (rent_exempt_for_token_acc st))
                + int (unat (delayed_unstake_cooling_down (stake_system st)))
                - int (unat (circulating_ticket_balance st))
      in if raw \<ge> 0 then raw else min 0 (raw + int (unat (emergency_cooling_down st))))"

lemma i128_delta:
  assumes "0 \<le> a" "a < 2 ^ 64" "0 \<le> b" "b < 2 ^ 64" "0 \<le> c" "c < 2 ^ 64" "0 \<le> e" "e < 2 ^ 64"
  shows "bindR (i128 (a + b)) (\<lambda>s. bindR (i128 (s - c)) (\<lambda>raw.
      if raw \<ge> 0 then Inr raw else bindR (i128 (raw + e)) (\<lambda>we. Inr (min we 0))))
    = Inr (if a + b - c \<ge> 0 then a + b - c else min 0 (a + b - c + e))"
proof -
  have "i128 (a + b) = Inr (a + b)" "i128 (a + b - c) = Inr (a + b - c)"
    "i128 (a + b - c + e) = Inr (a + b - c + e)"
    using assms by (simp_all add: i128_def)
  then show ?thesis by (simp add: min.commute)
qed

lemma stake_delta_eq:
  "stake_delta st reserve_balance = Inr (delta_spec st (unat reserve_balance))"
proof -
  have bound: "0 \<le> uint x \<and> uint x < 18446744073709551616" for x :: u64
    using unat_u64_less [of x] by (simp add: uint_nat del: of_nat_unat)
  have sub: "int (unat reserve_balance - unat (rent_exempt_for_token_acc st))
      = uint (saturating_sub reserve_balance (rent_exempt_for_token_acc st))"
    by (simp flip: unat_saturating_sub)
  show ?thesis
    using bound [of "saturating_sub reserve_balance (rent_exempt_for_token_acc st)"]
      bound [of "delayed_unstake_cooling_down (stake_system st)"]
      bound [of "circulating_ticket_balance st"] bound [of "emergency_cooling_down st"]
    by (simp add: stake_delta_def i128_delta delta_spec_def Let_def sub)
qed

text \<open>
  The stake delta never panics: the \<open>i128\<close> arithmetic cannot overflow. It is positive exactly
  when the free reserve and the delayed unstakes exceed the outstanding tickets, by that excess;
  emergency cooling-down stakes only reduce the amount to unstake and never make it positive.
\<close>
lemma stake_delta_correct:
  "stake_delta st reserve_balance = Inr (delta_spec st (unat reserve_balance))
   \<and> (let free = unat reserve_balance - unat (rent_exempt_for_token_acc st)
                 + unat (delayed_unstake_cooling_down (stake_system st));
          due = unat (circulating_ticket_balance st)
      in (0 < delta_spec st (unat reserve_balance) \<longleftrightarrow> due < free)
       \<and> (due < free \<longrightarrow> delta_spec st (unat reserve_balance) = int (free - due))
       \<and> (delta_spec st (unat reserve_balance) < 0 \<longleftrightarrow>
            free + unat (emergency_cooling_down st) < due))"
  using stake_delta_eq
  by (auto simp: delta_spec_def Let_def simp del: of_nat_unat)

end
