(* ===== verification/Borsh.thy ===== *)
theory Borsh
  imports RecordList
begin

text \<open>
  A concrete runtime for the record codecs: Borsh's documented layout of the two record
  structs (fields in declaration order, integers little endian, arrays as they are), proved to be
  a \<open>codec\<close>. The witnesses of the development evaluate on it.
\<close>

section \<open>Integers\<close>

fun le_bytes :: "nat \<Rightarrow> nat \<Rightarrow> bytes" where
  "le_bytes 0 x = []"
| "le_bytes (Suc k) x = word_of_nat (x mod 256) # le_bytes k (x div 256)"

fun le_value :: "bytes \<Rightarrow> nat" where
  "le_value [] = 0"
| "le_value (b # bs) = unat b + 256 * le_value bs"

lemma length_le_bytes [simp]: "length (le_bytes k x) = k"
  by (induction k arbitrary: x) simp_all

lemma le_value_le_bytes: "le_value (le_bytes k x) = x mod 256 ^ k"
proof (induction k arbitrary: x)
  case 0
  then show ?case by simp
next
  case (Suc k)
  have "unat (word_of_nat (x mod 256) :: u8) = x mod 256"
    by (rule unat_of_nat_small) simp
  with Suc show ?case by (simp add: mod_mult2_eq)
qed

definition field :: "nat \<Rightarrow> nat \<Rightarrow> bytes \<Rightarrow> nat" where
  "field off k bs = le_value (take k (drop off bs))"

lemma le_value_word:
  "2 ^ LENGTH('a) \<le> (256::nat) ^ k \<Longrightarrow>
   (word_of_nat (le_value (le_bytes k (unat (x::'a::len word)))) :: 'a word) = x"
proof -
  assume k: "2 ^ LENGTH('a) \<le> (256::nat) ^ k"
  have "unat x < 2 ^ LENGTH('a)" by (rule unsigned_less)
  then have "unat x < 256 ^ k" using k by (rule less_le_trans)
  then have "unat x mod 256 ^ k = unat x" by (rule mod_less)
  then show ?thesis by (simp add: le_value_le_bytes)
qed

lemma u8_of_mod [simp]: "word_of_nat (unat (b::u8) mod 256) = b"
proof -
  have "unat b < 2 ^ LENGTH(8)" by (rule unsigned_less)
  then show ?thesis by simp
qed

section \<open>The two records\<close>

definition borsh_stake :: "stake_record \<Rightarrow> bytes" where
  "borsh_stake r = le_bytes 32 (unat (stake_account r))
     @ le_bytes 8 (unat (last_update_delegated_lamports r))
     @ le_bytes 8 (unat (last_update_epoch r)) @ le_bytes 1 (unat (is_emergency_unstaking r))"

definition unborsh_stake :: "bytes \<Rightarrow> stake_record option" where
  "unborsh_stake bs = (if length bs < 49 then None
     else Some \<lparr>stake_account = word_of_nat (field 0 32 bs),
                last_update_delegated_lamports = word_of_nat (field 32 8 bs),
                last_update_epoch = word_of_nat (field 40 8 bs),
                is_emergency_unstaking = word_of_nat (field 48 1 bs)\<rparr>)"

definition borsh_validator :: "validator_record \<Rightarrow> bytes" where
  "borsh_validator r = le_bytes 32 (unat (validator_account r))
     @ le_bytes 8 (unat (active_balance r)) @ le_bytes 4 (unat (score r))
     @ le_bytes 8 (unat (vr_last_stake_delta_epoch r))
     @ le_bytes 1 (unat (duplication_flag_bump_seed r))"

definition unborsh_validator :: "bytes \<Rightarrow> validator_record option" where
  "unborsh_validator bs = (if length bs < 53 then None
     else Some \<lparr>validator_account = word_of_nat (field 0 32 bs),
                active_balance = word_of_nat (field 32 8 bs),
                score = word_of_nat (field 40 4 bs),
                vr_last_stake_delta_epoch = word_of_nat (field 44 8 bs),
                duplication_flag_bump_seed = word_of_nat (field 52 1 bs)\<rparr>)"

lemma unborsh_borsh_stake: "unborsh_stake (borsh_stake r @ rest) = Some r"
  by (cases r) (simp add: unborsh_stake_def borsh_stake_def field_def le_value_word)

lemma unborsh_borsh_validator: "unborsh_validator (borsh_validator r @ rest) = Some r"
  by (cases r) (simp add: unborsh_validator_def borsh_validator_def field_def le_value_word)

interpretation stake_codec: codec borsh_stake unborsh_stake 49
  by unfold_locales (simp_all add: unborsh_borsh_stake, simp add: borsh_stake_def)

interpretation validator_codec: codec borsh_validator unborsh_validator 53
  by unfold_locales (simp_all add: unborsh_borsh_validator, simp add: borsh_validator_def)

section \<open>Witnesses for the list\<close>

text \<open>An account with two stake records and room for a third.\<close>

definition example_record :: "nat \<Rightarrow> stake_record" where
  "example_record k = \<lparr>stake_account = word_of_nat k, last_update_delegated_lamports = 5,
     last_update_epoch = 7, is_emergency_unstaking = 0\<rparr>"

definition example_header :: list_header where
  "example_header = \<lparr>account = 1, item_size = 49, count = 2, new_account = 0, copied_count = 0\<rparr>"

definition example_bytes :: bytes where
  "example_bytes = replicate 8 0 @ borsh_stake (example_record 3) @ borsh_stake (example_record 4)
     @ replicate 49 0"

lemma unborsh_borsh_stake_exact [simp]: "unborsh_stake (borsh_stake r) = Some r"
  using unborsh_borsh_stake [of r "[]"] by simp

lemma example_rep:
  "list_rep unborsh_stake 49 example_header example_bytes [example_record 3, example_record 4]"
proof -
  have i: "i = 0 \<or> i = 1" if "i < Suc (Suc 0)" for i using that by auto
  show ?thesis
    by (auto simp: list_rep_def example_header_def example_bytes_def item_slot_def
        stake_codec.ser_length pubkey_default_def dest!: i)
qed

lemma list_push_refines_witness:
  "codec borsh_stake unborsh_stake 49 \<and>
   (\<exists>l' data'. list_push borsh_stake example_header example_bytes (example_record 9) = Inr (l', data')
      \<and> list_rep unborsh_stake 49 l' data' [example_record 3, example_record 4, example_record 9])"
  using list_push_refines [OF stake_codec.codec_axioms example_rep, of "example_record 9"]
    stake_codec.codec_axioms
  by (auto simp: example_header_def example_bytes_def stake_codec.ser_length)

lemma list_set_refines_witness:
  "\<exists>data'. list_set borsh_stake example_header example_bytes 1 (example_record 9) = Inr data'
     \<and> list_get unborsh_stake example_header data' 1 = Inr (example_record 9)
     \<and> list_get unborsh_stake example_header data' 0 = Inr (example_record 3)"
  using list_set_refines [OF stake_codec.codec_axioms example_rep, of 1 "example_record 9"]
  by auto

lemma list_remove_refines_witness:
  "\<exists>l' data'. list_remove example_header example_bytes 0 = Inr (l', data')
     \<and> list_rep unborsh_stake 49 l' data' [example_record 4]"
  using list_remove_refines [OF stake_codec.codec_axioms example_rep, of 0]
  by (auto simp: swap_remove_def)

end
