(* ===== verification/Runtime.thy ===== *)
theory Runtime
  imports MarinadeState Borsh
begin

text \<open>
  The interface to the code outside the repository: the locale \<open>marinade_runtime\<close> states the
  documented behaviour of the record codecs, of program-derived addresses, and of the system,
  SPL token and stake programs on the balances the program reads. The executable reference runtime
  \<open>ref_rt\<close> satisfies it; the witnesses run on \<open>ref_rt\<close>.
\<close>

section \<open>Moving balances\<close>

definition move_u64 :: "'k \<Rightarrow> 'k \<Rightarrow> u64 \<Rightarrow> ('k \<Rightarrow> u64) \<Rightarrow> ('k \<Rightarrow> u64)" where
  "move_u64 a b n m = (let m1 = m(a := m a - n) in m1(b := m1 b + n))"

text \<open>A move is allowed when the source has the amount and the target does not overflow.\<close>

definition can_move :: "'k \<Rightarrow> 'k \<Rightarrow> u64 \<Rightarrow> ('k \<Rightarrow> u64) \<Rightarrow> bool" where
  "can_move a b n m \<longleftrightarrow> n \<le> m a \<and> (a \<noteq> b \<longrightarrow> unat (m b) + unat n < 2 ^ 64)"

lemma move_other [simp]: "k \<noteq> a \<Longrightarrow> k \<noteq> b \<Longrightarrow> move_u64 a b n m k = m k"
  by (simp add: move_u64_def)

lemma move_same [simp]: "move_u64 a a n m = m"
  by (simp add: move_u64_def)

lemma move_zero [simp]: "move_u64 a b 0 m = m" "can_move a b 0 m"
  using unat_u64_less [of "m b"] by (auto simp: move_u64_def can_move_def)

lemma move_source: "can_move a b n m \<Longrightarrow> a \<noteq> b \<Longrightarrow> unat (move_u64 a b n m a) + unat n = unat (m a)"
  by (simp add: move_u64_def can_move_def unat_sub word_le_nat_alt)

lemma move_target: "can_move a b n m \<Longrightarrow> a \<noteq> b \<Longrightarrow> unat (move_u64 a b n m b) = unat (m b) + unat n"
  by (simp add: move_u64_def can_move_def unat_add_le)

lemma can_move_le: "can_move a b n m \<Longrightarrow> unat n \<le> unat (m a)"
  by (simp add: can_move_def word_le_nat_alt)

lemma view_simps [simp]:
  "token_amount (w\<lparr>acc_lamports := x\<rparr>) = token_amount w"
  "mint_supply (w\<lparr>acc_lamports := x\<rparr>) = mint_supply w"
  "token_amount (w\<lparr>acc_data := y\<rparr>) = token_amount w"
  "mint_supply (w\<lparr>acc_data := y\<rparr>) = mint_supply w"
  "token_amount (w\<lparr>acc_ticket := z\<rparr>) = token_amount w"
  "mint_supply (w\<lparr>acc_ticket := z\<rparr>) = mint_supply w"
  by (simp_all add: token_amount_def mint_supply_def fun_eq_iff)

lemma views_cong:
  "acc_token w' = acc_token w \<Longrightarrow> token_amount w' = token_amount w"
  "acc_mint w' = acc_mint w \<Longrightarrow> mint_supply w' = mint_supply w"
  by (simp_all add: token_amount_def mint_supply_def fun_eq_iff)

lemma word_gt_0_unat: "0 < (x::'a::len word) \<longleftrightarrow> 0 < unat x"
  by (simp add: word_less_nat_alt)

section \<open>The contract\<close>

text \<open>\<open>tokens_only\<close>: only token accounts and mints changed.\<close>

definition tokens_only :: "world \<Rightarrow> world \<Rightarrow> bool" where
  "tokens_only w w' \<longleftrightarrow> acc_lamports w' = acc_lamports w \<and> acc_owner w' = acc_owner w
     \<and> acc_stake w' = acc_stake w \<and> acc_ticket w' = acc_ticket w"

text \<open>\<open>stakes_only s\<close>: no token account, mint or ticket changed, and no stake other than \<open>s\<close>.\<close>

definition stakes_only :: "pubkey set \<Rightarrow> world \<Rightarrow> world \<Rightarrow> bool" where
  "stakes_only s w w' \<longleftrightarrow> acc_token w' = acc_token w \<and> acc_mint w' = acc_mint w
     \<and> acc_ticket w' = acc_ticket w
     \<and> (\<forall>k. k \<notin> s \<longrightarrow> acc_stake w' k = acc_stake w k \<and> acc_owner w' k = acc_owner w k
          \<and> acc_data w' k = acc_data w k)"

locale marinade_runtime =
  stakes: codec "rt_ser_stake rt" "rt_de_stake rt" "stake_record_len rt" +
  validators: codec "rt_ser_validator rt" "rt_de_validator rt" "validator_record_len rt"
  for rt :: runtime +
  assumes find_create: "rt_find_program_address rt ss p = (a, b) \<Longrightarrow>
      rt_create_program_address rt (ss @ [[b]]) p = Some a"
    and system_transfer: "rt_invoke rt (SystemTransfer f t n) sg w = Inr w' \<Longrightarrow>
      can_move f t n (acc_lamports w)
      \<and> w' = w\<lparr>acc_lamports := move_u64 f t n (acc_lamports w)\<rparr>"
    and create_account: "rt_invoke rt (SystemCreateAccount f k n sp own) sg w = Inr w' \<Longrightarrow>
      can_move f k n (acc_lamports w) \<and> acc_lamports w' = move_u64 f k n (acc_lamports w)
      \<and> acc_owner w' k = own \<and> acc_token w' = acc_token w \<and> acc_mint w' = acc_mint w
      \<and> acc_ticket w' = acc_ticket w
      \<and> (\<forall>j. j \<noteq> k \<longrightarrow> acc_stake w' j = acc_stake w j \<and> acc_owner w' j = acc_owner w j
          \<and> acc_data w' j = acc_data w j)"
    and token_transfer: "rt_invoke rt (TokenTransfer f t auth n) sg w = Inr w' \<Longrightarrow>
      can_move f t n (token_amount w) \<and> token_amount w' = move_u64 f t n (token_amount w)
      \<and> mint_supply w' = mint_supply w \<and> tokens_only w w'"
    and token_mint_to: "rt_invoke rt (TokenMintTo m t auth n) sg w = Inr w' \<Longrightarrow>
      unat (mint_supply w m) + unat n < 2 ^ 64 \<and> unat (token_amount w t) + unat n < 2 ^ 64
      \<and> mint_supply w' = (mint_supply w)(m := mint_supply w m + n)
      \<and> token_amount w' = (token_amount w)(t := token_amount w t + n) \<and> tokens_only w w'"
    and token_burn: "rt_invoke rt (TokenBurn m f auth n) sg w = Inr w' \<Longrightarrow>
      n \<le> mint_supply w m \<and> n \<le> token_amount w f
      \<and> mint_supply w' = (mint_supply w)(m := mint_supply w m - n)
      \<and> token_amount w' = (token_amount w)(f := token_amount w f - n) \<and> tokens_only w w'"
    and stake_withdraw: "rt_invoke rt (StakeWithdraw s auth t n) sg w = Inr w' \<Longrightarrow>
      can_move s t n (acc_lamports w) \<and> acc_lamports w' = move_u64 s t n (acc_lamports w)
      \<and> stakes_only {s} w w'"
    and stake_split: "rt_invoke rt (StakeSplit s auth n t) sg w = Inr w' \<Longrightarrow>
      can_move s t n (acc_lamports w) \<and> acc_lamports w' = move_u64 s t n (acc_lamports w)
      \<and> stakes_only {s, t} w w'"
    and stake_merge: "rt_invoke rt (StakeMerge d s auth) sg w = Inr w' \<Longrightarrow>
      can_move s d (acc_lamports w s) (acc_lamports w)
      \<and> acc_lamports w' = move_u64 s d (acc_lamports w s) (acc_lamports w)
      \<and> stakes_only {d, s} w w'"
    and stake_admin: "rt_invoke rt ix sg w = Inr w' \<Longrightarrow>
      ix \<in> {StakeInitialize s x y, StakeDelegate s x y, StakeDeactivate s x,
            StakeAuthorizeStaker s x y, StakeAuthorizeWithdrawer s x y, StakeClearLockup s x} \<Longrightarrow>
      acc_lamports w' = acc_lamports w \<and> stakes_only {s} w w'"
    and program_accounts: "rt_invoke rt ix sg w = Inr w' \<Longrightarrow> acc_owner w k = ID \<Longrightarrow>
      acc_owner w' k = ID \<and> acc_data w' k = acc_data w k \<and> acc_ticket w' k = acc_ticket w k"
begin

lemma invoke_keeps_data:
  "rt_invoke rt ix sg w = Inr w' \<Longrightarrow> acc_owner w k = ID \<Longrightarrow> acc_data w' k = acc_data w k"
  using program_accounts by blast

lemma invoke_keeps_owner:
  "rt_invoke rt ix sg w = Inr w' \<Longrightarrow> acc_owner w k = ID \<Longrightarrow> acc_owner w' k = ID"
  using program_accounts by blast

text \<open>The addresses that \<open>initialize\<close> finds are the ones that the later checks derive.\<close>

lemma derived_reserve:
  "find_reserve_address rt key = (a, b) \<Longrightarrow> reserve_bump_seed st = b \<Longrightarrow>
   reserve_address rt key st = Inr a"
  using find_create by (force simp: find_reserve_address_def reserve_address_def reserve_seeds_def)

lemma derived_msol_mint_authority:
  "find_msol_mint_authority rt key = (a, b) \<Longrightarrow> msol_mint_authority_bump_seed st = b \<Longrightarrow>
   msol_mint_authority rt key st = Inr a"
  using find_create
  by (force simp: find_msol_mint_authority_def msol_mint_authority_def msol_mint_authority_seeds_def)

lemma derived_sol_leg:
  "find_sol_leg_address rt key = (a, b) \<Longrightarrow> sol_leg_bump_seed lp = b \<Longrightarrow>
   liq_pool_sol_leg_address rt key lp = Inr a"
  using find_create
  by (force simp: find_sol_leg_address_def liq_pool_sol_leg_address_def liq_pool_sol_leg_seeds_def)

lemma derived_lp_mint_authority:
  "find_lp_mint_authority rt key = (a, b) \<Longrightarrow> lp_mint_authority_bump_seed lp = b \<Longrightarrow>
   lp_mint_authority rt key lp = Inr a"
  using find_create
  by (force simp: find_lp_mint_authority_def lp_mint_authority_def lp_mint_authority_seeds_def)

lemma derived_msol_leg_authority:
  "find_msol_leg_authority rt key = (a, b) \<Longrightarrow> msol_leg_authority_bump_seed lp = b \<Longrightarrow>
   liq_pool_msol_leg_authority rt key lp = Inr a"
  using find_create
  by (force simp: find_msol_leg_authority_def liq_pool_msol_leg_authority_def
      liq_pool_msol_leg_authority_seeds_def)

lemma derived_stake_authorities:
  "find_stake_withdraw_authority rt key = (a, b) \<Longrightarrow> stake_withdraw_bump_seed ss = b \<Longrightarrow>
   stake_withdraw_authority rt key ss = Inr a"
  "find_stake_deposit_authority rt key = (a', b') \<Longrightarrow> stake_deposit_bump_seed ss = b' \<Longrightarrow>
   stake_deposit_authority rt key ss = Inr a'"
  using find_create
  by (force simp: find_stake_withdraw_authority_def stake_withdraw_authority_def
      stake_withdraw_seeds_def find_stake_deposit_authority_def stake_deposit_authority_def
      stake_deposit_seeds_def)+

end

end
