(* ===== verification/RefRuntime.thy ===== *)
theory RefRuntime
  imports Runtime
begin

text \<open>
  A reference runtime: executable, simplified programs that satisfy the contract
  \<open>marinade_runtime\<close>. No theorem about the program depends on it; it shows that the contract can
  hold and runs the concrete inputs of the witnesses. The current epoch of its stake program is 100.
\<close>

section \<open>The programs\<close>

definition ref_address :: "seeds \<Rightarrow> pubkey" where
  "ref_address ss = word_of_nat (1000 + sum_list (map unat (concat ss)))"

definition ref_minimum_balance :: "nat \<Rightarrow> u64" where
  "ref_minimum_balance n = word_of_nat ((128 + n) * 6960)"

text \<open>Spending from a token account: by its owner, or by its delegate within the allowance.\<close>

definition ref_spend :: "token_account \<Rightarrow> pubkey \<Rightarrow> u64 \<Rightarrow> token_account option" where
  "ref_spend a auth n =
     (if n > tk_amount a then None
      else if tk_owner a = auth then Some (a\<lparr>tk_amount := tk_amount a - n\<rparr>)
      else if tk_delegate a = Some auth \<and> n \<le> tk_delegated_amount a
      then Some (a\<lparr>tk_amount := tk_amount a - n, tk_delegated_amount := tk_delegated_amount a - n\<rparr>)
      else None)"

definition ref_token_transfer :: "pubkey \<Rightarrow> pubkey \<Rightarrow> pubkey \<Rightarrow> u64 \<Rightarrow> world \<Rightarrow> world option" where
  "ref_token_transfer f t auth n w =
     (case (acc_token w f, acc_token w t) of
        (Some a, Some b) \<Rightarrow>
          (if tk_mint a \<noteq> tk_mint b \<or> \<not> can_move f t n (token_amount w) then None
           else case ref_spend a auth n of
                  None \<Rightarrow> None
                | Some a' \<Rightarrow> Some (if f = t then w
                    else w\<lparr>acc_token := (acc_token w)
                           (f \<mapsto> a', t \<mapsto> b\<lparr>tk_amount := tk_amount b + n\<rparr>)\<rparr>))
      | _ \<Rightarrow> None)"

definition ref_mint_to :: "pubkey \<Rightarrow> pubkey \<Rightarrow> pubkey \<Rightarrow> u64 \<Rightarrow> world \<Rightarrow> world option" where
  "ref_mint_to m t auth n w =
     (case (acc_mint w m, acc_token w t) of
        (Some mt, Some b) \<Rightarrow>
          (if mt_authority mt = Some auth \<and> tk_mint b = m \<and> unat (mt_supply mt) + unat n < 2 ^ 64
              \<and> unat (tk_amount b) + unat n < 2 ^ 64
           then Some (w\<lparr>acc_mint := (acc_mint w)(m \<mapsto> mt\<lparr>mt_supply := mt_supply mt + n\<rparr>),
                        acc_token := (acc_token w)(t \<mapsto> b\<lparr>tk_amount := tk_amount b + n\<rparr>)\<rparr>)
           else None)
      | _ \<Rightarrow> None)"

definition ref_burn :: "pubkey \<Rightarrow> pubkey \<Rightarrow> pubkey \<Rightarrow> u64 \<Rightarrow> world \<Rightarrow> world option" where
  "ref_burn m f auth n w =
     (case (acc_mint w m, acc_token w f) of
        (Some mt, Some a) \<Rightarrow>
          (if tk_mint a = m \<and> n \<le> mt_supply mt
           then map_option (\<lambda>a'. w\<lparr>acc_mint := (acc_mint w)(m \<mapsto> mt\<lparr>mt_supply := mt_supply mt - n\<rparr>),
                                   acc_token := (acc_token w)(f \<mapsto> a')\<rparr>) (ref_spend a auth n)
           else None)
      | _ \<Rightarrow> None)"

definition no_lockup :: lockup where
  "no_lockup = \<lparr>lk_unix_timestamp = 0, lk_epoch = 0, lk_custodian = 0\<rparr>"

definition put_stake :: "pubkey \<Rightarrow> stake_state \<Rightarrow> world \<Rightarrow> world" where
  "put_stake s x w = w\<lparr>acc_stake := (acc_stake w)(s \<mapsto> x)\<rparr>"

definition put_meta :: "pubkey \<Rightarrow> (stake_meta \<Rightarrow> stake_meta) \<Rightarrow> world \<Rightarrow> world option" where
  "put_meta s f w =
     (case acc_stake w s of
        Some (StakeInitialized m) \<Rightarrow> Some (put_stake s (StakeInitialized (f m)) w)
      | Some (StakeDelegated m d) \<Rightarrow> Some (put_stake s (StakeDelegated (f m) d) w)
      | _ \<Rightarrow> None)"

definition move_lamports :: "pubkey \<Rightarrow> pubkey \<Rightarrow> u64 \<Rightarrow> world \<Rightarrow> world option" where
  "move_lamports a b n w =
     (if can_move a b n (acc_lamports w)
      then Some (w\<lparr>acc_lamports := move_u64 a b n (acc_lamports w)\<rparr>) else None)"

definition ref_delegate :: "pubkey \<Rightarrow> pubkey \<Rightarrow> pubkey \<Rightarrow> world \<Rightarrow> world option" where
  "ref_delegate s vote auth w =
     (case acc_stake w s of
        Some (StakeInitialized m) \<Rightarrow>
          (if staker m = auth
           then Some (put_stake s (StakeDelegated m
                  \<lparr>voter_pubkey = vote,
                   delegated_stake = saturating_sub (acc_lamports w s) (rent_exempt_reserve m),
                   activation_epoch = 100, deactivation_epoch = - 1\<rparr>) w)
           else None)
      | _ \<Rightarrow> None)"

definition ref_deactivate :: "pubkey \<Rightarrow> pubkey \<Rightarrow> world \<Rightarrow> world option" where
  "ref_deactivate s auth w =
     (case acc_stake w s of
        Some (StakeDelegated m d) \<Rightarrow>
          (if staker m = auth \<and> deactivation_epoch d = - 1
           then Some (put_stake s (StakeDelegated m (d\<lparr>deactivation_epoch := 100\<rparr>)) w) else None)
      | _ \<Rightarrow> None)"

definition ref_split :: "pubkey \<Rightarrow> pubkey \<Rightarrow> u64 \<Rightarrow> pubkey \<Rightarrow> world \<Rightarrow> world option" where
  "ref_split s auth n t w =
     (case (acc_stake w s, acc_stake w t) of
        (Some (StakeDelegated m d), Some StakeUninitialized) \<Rightarrow>
          (if staker m = auth \<and> s \<noteq> t \<and> n < delegated_stake d
           then map_option
             (\<lambda>w. put_stake s (StakeDelegated m (d\<lparr>delegated_stake := delegated_stake d - n\<rparr>))
               (put_stake t (StakeDelegated m (d\<lparr>delegated_stake :=
                  saturating_sub (acc_lamports w t) (rent_exempt_reserve m)\<rparr>)) w))
             (move_lamports s t n w)
           else None)
      | _ \<Rightarrow> None)"

definition ref_merge :: "pubkey \<Rightarrow> pubkey \<Rightarrow> pubkey \<Rightarrow> world \<Rightarrow> world option" where
  "ref_merge d s auth w =
     (case (acc_stake w d, acc_stake w s) of
        (Some (StakeDelegated m x), Some (StakeDelegated m' y)) \<Rightarrow>
          (if staker m = auth \<and> staker m' = auth \<and> s \<noteq> d \<and> voter_pubkey x = voter_pubkey y
           then map_option
             (\<lambda>w. put_stake d (StakeDelegated m (x\<lparr>delegated_stake := delegated_stake x
                     + delegated_stake y + rent_exempt_reserve m'\<rparr>))
                  (put_stake s StakeUninitialized w))
             (move_lamports s d (acc_lamports w s) w)
           else None)
      | _ \<Rightarrow> None)"

definition ref_withdraw :: "pubkey \<Rightarrow> pubkey \<Rightarrow> pubkey \<Rightarrow> u64 \<Rightarrow> world \<Rightarrow> world option" where
  "ref_withdraw s auth t n w =
     (case acc_stake w s of
        Some x \<Rightarrow> (case stake_meta_of x of
                     Some m \<Rightarrow> (if withdrawer m = auth then move_lamports s t n w else None)
                   | None \<Rightarrow> None)
      | None \<Rightarrow> None)"

fun ref_step :: "cpi \<Rightarrow> world \<Rightarrow> world option" where
  "ref_step (SystemTransfer f t n) w = move_lamports f t n w"
| "ref_step (SystemCreateAccount f k n sp own) w =
     (if acc_owner w k = 0 \<and> acc_lamports w k = 0
      then map_option (\<lambda>w. w\<lparr>acc_owner := (acc_owner w)(k := own),
                            acc_data := (acc_data w)(k := replicate (unat sp) 0)\<rparr>)
             (move_lamports f k n w)
      else None)"
| "ref_step (TokenTransfer f t auth n) w = ref_token_transfer f t auth n w"
| "ref_step (TokenMintTo m t auth n) w = ref_mint_to m t auth n w"
| "ref_step (TokenBurn m f auth n) w = ref_burn m f auth n w"
| "ref_step (StakeInitialize s st wd) w =
     (if acc_stake w s = Some StakeUninitialized
      then Some (put_stake s (StakeInitialized \<lparr>rent_exempt_reserve = ref_minimum_balance 200,
                  staker = st, withdrawer = wd, meta_lockup = no_lockup\<rparr>) w)
      else None)"
| "ref_step (StakeDelegate s vote auth) w = ref_delegate s vote auth w"
| "ref_step (StakeDeactivate s auth) w = ref_deactivate s auth w"
| "ref_step (StakeSplit s auth n t) w = ref_split s auth n t w"
| "ref_step (StakeMerge d s auth) w = ref_merge d s auth w"
| "ref_step (StakeWithdraw s auth t n) w = ref_withdraw s auth t n w"
| "ref_step (StakeAuthorizeStaker s auth new) w = put_meta s (\<lambda>m. m\<lparr>staker := new\<rparr>) w"
| "ref_step (StakeAuthorizeWithdrawer s auth new) w = put_meta s (\<lambda>m. m\<lparr>withdrawer := new\<rparr>) w"
| "ref_step (StakeClearLockup s auth) w = put_meta s (\<lambda>m. m\<lparr>meta_lockup := no_lockup\<rparr>) w"

definition ref_rt :: runtime where
  "ref_rt = \<lparr>rt_system_program = 0, rt_spl_token = 6, rt_stake_program = 7, rt_stake_config = 8,
     rt_stake_history = 9,
     rt_create_program_address = \<lambda>ss p. Some (ref_address ss),
     rt_find_program_address = \<lambda>ss p. (ref_address (ss @ [[255]]), 255),
     rt_create_with_seed = \<lambda>k s p. Some (ref_address [pubkey_to_bytes k, ascii s]),
     rt_invoke = \<lambda>ix sg w. ok_or (ref_step ix w) (External 1),
     rt_minimum_balance = ref_minimum_balance,
     rt_is_exempt = \<lambda>n sz. ref_minimum_balance sz \<le> n,
     rt_last_slot_in_epoch = \<lambda>e. e * 432000 + 431999,
     rt_lockup_in_force = \<lambda>lk ck. unix_timestamp ck < lk_unix_timestamp lk \<or> epoch ck < lk_epoch lk,
     rt_token_account_len = 165, rt_stake_state_size = 200,
     rt_ser_stake = borsh_stake, rt_de_stake = unborsh_stake,
     rt_ser_validator = borsh_validator, rt_de_validator = unborsh_validator\<rparr>"

section \<open>The contract holds\<close>

lemma ref_invoke: "rt_invoke ref_rt ix sg w = Inr w' \<longleftrightarrow> ref_step ix w = Some w'"
  by (simp add: ref_rt_def ok_or_Inr)

lemma move_lamports_Some:
  "move_lamports a b n w = Some w' \<longleftrightarrow> can_move a b n (acc_lamports w) \<and>
     w' = w\<lparr>acc_lamports := move_u64 a b n (acc_lamports w)\<rparr>"
  by (auto simp: move_lamports_def)

lemma put_stake_other [simp]:
  "acc_lamports (put_stake s x w) = acc_lamports w" "acc_token (put_stake s x w) = acc_token w"
  "acc_mint (put_stake s x w) = acc_mint w" "acc_ticket (put_stake s x w) = acc_ticket w"
  "acc_owner (put_stake s x w) = acc_owner w" "acc_data (put_stake s x w) = acc_data w"
  "acc_stake (put_stake s x w) = (acc_stake w)(s \<mapsto> x)"
  by (simp_all add: put_stake_def)

lemma ref_spend_Some:
  "ref_spend a auth n = Some a' \<Longrightarrow> n \<le> tk_amount a \<and> tk_amount a' = tk_amount a - n"
  by (auto simp: ref_spend_def split: if_splits)

lemmas token_views = token_amount_def mint_supply_def tokens_only_def fun_eq_iff

lemma ref_token_transfer_Some:
  assumes "ref_token_transfer f t auth n w = Some w'"
  shows "can_move f t n (token_amount w) \<and> token_amount w' = move_u64 f t n (token_amount w)
    \<and> mint_supply w' = mint_supply w \<and> tokens_only w w'"
  using assms
  by (auto simp: ref_token_transfer_def move_u64_def token_views dest!: ref_spend_Some
      split: option.splits if_splits)

lemma ref_mint_to_Some:
  assumes "ref_mint_to m t auth n w = Some w'"
  shows "unat (mint_supply w m) + unat n < 2 ^ 64 \<and> unat (token_amount w t) + unat n < 2 ^ 64
    \<and> mint_supply w' = (mint_supply w)(m := mint_supply w m + n)
    \<and> token_amount w' = (token_amount w)(t := token_amount w t + n) \<and> tokens_only w w'"
  using assms by (auto simp: ref_mint_to_def token_views split: option.splits if_splits)

lemma ref_burn_Some:
  assumes "ref_burn m f auth n w = Some w'"
  shows "n \<le> mint_supply w m \<and> n \<le> token_amount w f
    \<and> mint_supply w' = (mint_supply w)(m := mint_supply w m - n)
    \<and> token_amount w' = (token_amount w)(f := token_amount w f - n) \<and> tokens_only w w'"
  using assms
  by (auto simp: ref_burn_def token_views dest!: ref_spend_Some split: option.splits if_splits)

lemmas ref_stake_defs = ref_delegate_def ref_deactivate_def ref_split_def ref_merge_def
  ref_withdraw_def put_meta_def stakes_only_def move_lamports_Some

lemma ref_admin_Some:
  assumes "ref_step ix w = Some w'"
    and "ix \<in> {StakeInitialize s x y, StakeDelegate s x y, StakeDeactivate s x,
            StakeAuthorizeStaker s x y, StakeAuthorizeWithdrawer s x y, StakeClearLockup s x}"
  shows "acc_lamports w' = acc_lamports w \<and> stakes_only {s} w w'"
  using assms
  by (auto simp: ref_stake_defs split: option.splits stake_state.splits if_splits)

lemma ID_not_system [simp]: "ID \<noteq> 0"
  by (simp add: ID_def pubkey_new_from_array_def)

lemma ref_keeps_program_accounts:
  assumes "ref_step ix w = Some w'" and "acc_owner w k = ID"
  shows "acc_owner w' k = ID \<and> acc_data w' k = acc_data w k \<and> acc_ticket w' k = acc_ticket w k"
  using assms
  by (cases ix) (auto simp: ref_stake_defs ref_token_transfer_def ref_mint_to_def ref_burn_def
      split: option.splits stake_state.splits if_splits prod.splits)

lemma record_lengths [simp]:
  "stake_record_len ref_rt = 49" "validator_record_len ref_rt = 53"
  by (simp_all add: stake_record_len_def validator_record_len_def ref_rt_def
      stake_codec.ser_length validator_codec.ser_length)

lemma ref_codecs [simp]:
  "rt_ser_stake ref_rt = borsh_stake" "rt_de_stake ref_rt = unborsh_stake"
  "rt_ser_validator ref_rt = borsh_validator" "rt_de_validator ref_rt = unborsh_validator"
  by (simp_all add: ref_rt_def)

interpretation ref: marinade_runtime ref_rt
proof (unfold_locales, goal_cases)
  case (7 ss p a b)
  then show ?case by (auto simp: ref_rt_def)
next
  case (9 f k n sp own sg w w')
  then show ?case by (auto simp: ref_invoke move_lamports_Some split: if_splits)
next
  case (10 f t auth n sg w w')
  then show ?case by (simp add: ref_invoke ref_token_transfer_Some)
next
  case (11 m t auth n sg w w')
  then show ?case using ref_mint_to_Some by (simp add: ref_invoke)
next
  case (12 m f auth n sg w w')
  then show ?case by (simp add: ref_invoke ref_burn_Some)
next
  case (16 ix sg w w' s x y)
  then show ?case by (intro ref_admin_Some) (simp_all add: ref_invoke)
next
  case (17 ix sg w w' k)
  then show ?case by (intro ref_keeps_program_accounts) (simp_all add: ref_invoke)
qed (auto simp: ref_invoke ref_stake_defs stake_codec.ser_length stake_codec.de_ser
    validator_codec.ser_length validator_codec.de_ser
    split: option.splits stake_state.splits if_splits)

end
