(* ===== verification/Examples.thy ===== *)
theory Examples
  imports RefRuntime
begin

text \<open>
  A small deployment on the reference runtime, on which the witnesses run the instructions: the
  state account is at address 1, mSOL is worth two lamports, the pool holds 200 mSOL.
\<close>

definition ex_key :: pubkey where "ex_key = 1"
definition ex_reserve :: pubkey where "ex_reserve = fst (find_reserve_address ref_rt ex_key)"
definition ex_mint_auth :: pubkey where "ex_mint_auth = fst (find_msol_mint_authority ref_rt ex_key)"
definition ex_sol_leg :: pubkey where "ex_sol_leg = fst (find_sol_leg_address ref_rt ex_key)"
definition ex_lp_auth :: pubkey where "ex_lp_auth = fst (find_lp_mint_authority ref_rt ex_key)"
definition ex_leg_auth :: pubkey where "ex_leg_auth = fst (find_msol_leg_authority ref_rt ex_key)"
definition ex_withdraw_auth :: pubkey where
  "ex_withdraw_auth = fst (find_stake_withdraw_authority ref_rt ex_key)"
definition ex_deposit_auth :: pubkey where
  "ex_deposit_auth = fst (find_stake_deposit_authority ref_rt ex_key)"

definition ex_pool :: liq_pool where
  "ex_pool = \<lparr>lp_mint = 12, lp_mint_authority_bump_seed = 255, sol_leg_bump_seed = 255,
     msol_leg_authority_bump_seed = 255, msol_leg = 11, lp_liquidity_target = 100000000000,
     lp_max_fee = from_basis_points 300, lp_min_fee = from_basis_points 30,
     treasury_cut = from_basis_points 2500, lp_supply = 5000, lent_from_sol_leg = 0,
     liquidity_sol_cap = - 1\<rparr>"

definition ex_stakes :: "stake_record list" where
  "ex_stakes = [\<lparr>stake_account = 60, last_update_delegated_lamports = 600000,
                last_update_epoch = 99, is_emergency_unstaking = 0\<rparr>,
               \<lparr>stake_account = 61, last_update_delegated_lamports = 400000,
                last_update_epoch = 100, is_emergency_unstaking = 0\<rparr>,
               \<lparr>stake_account = 62, last_update_delegated_lamports = 200000,
                last_update_epoch = 99, is_emergency_unstaking = 0\<rparr>]"

definition ex_validators :: "validator_record list" where
  "ex_validators = [\<lparr>validator_account = 50, active_balance = 1000000, score = 30,
                    vr_last_stake_delta_epoch = 98, duplication_flag_bump_seed = 255\<rparr>,
                   \<lparr>validator_account = 51, active_balance = 0, score = 10,
                    vr_last_stake_delta_epoch = 98, duplication_flag_bump_seed = 255\<rparr>]"

definition ex_stake_data :: bytes where
  "ex_stake_data = STAKE_DISCRIMINATOR @ concat (map borsh_stake ex_stakes) @ replicate 98 0"

definition ex_validator_data :: bytes where
  "ex_validator_data = VALIDATOR_DISCRIMINATOR @ concat (map borsh_validator ex_validators)
     @ replicate 53 0"

definition ex_state :: state where
  "ex_state = \<lparr>msol_mint = 10, admin_authority = 30, operational_sol_account = 14,
     treasury_msol_account = 13, reserve_bump_seed = 255, msol_mint_authority_bump_seed = 255,
     rent_exempt_for_token_acc = 2039280, reward_fee = from_basis_points 200,
     stake_system = \<lparr>stake_list = \<lparr>account = 20, item_size = 49, count = 3, new_account = 0,
         copied_count = 0\<rparr>, delayed_unstake_cooling_down = 200000, stake_deposit_bump_seed = 255,
       stake_withdraw_bump_seed = 255, slots_for_stake_delta = 24000, last_stake_delta_epoch = 99,
       min_stake = 1000, extra_stake_delta_runs = 0\<rparr>,
     validator_system = \<lparr>validator_list = \<lparr>account = 21, item_size = 53, count = 2,
         new_account = 0, copied_count = 0\<rparr>, manager_authority = 31, total_validator_score = 40,
       total_active_balance = 1000000, auto_add_validator_enabled = 1\<rparr>,
     liq_pool = ex_pool, available_reserve_balance = 300000, msol_supply = 700000,
     msol_price = 8589934592, circulating_ticket_count = 1, circulating_ticket_balance = 100000,
     lent_from_reserve = 0, min_deposit = 1, min_withdraw = 1, staking_sol_cap = - 1,
     emergency_cooling_down = 0\<rparr>"

definition ex_clock :: clock where
  "ex_clock = \<lparr>slot = 43631000, epoch_start_timestamp = 1000000, epoch = 100,
     unix_timestamp = 1002000\<rparr>"

definition ex_cx :: call_context where
  "ex_cx = \<lparr>cx_program_id = ID, cx_remaining = [], cx_signer = (\<lambda>k. k < 1000),
     cx_writable = (\<lambda>_. True), cx_clock = ex_clock\<rparr>"

definition ex_token :: "pubkey \<Rightarrow> pubkey \<Rightarrow> u64 \<Rightarrow> token_account" where
  "ex_token m own n = \<lparr>tk_mint = m, tk_owner = own, tk_amount = n, tk_delegate = None,
     tk_delegated_amount = 0\<rparr>"

definition ex_meta :: stake_meta where
  "ex_meta = \<lparr>rent_exempt_reserve = 2282880, staker = ex_deposit_auth,
     withdrawer = ex_withdraw_auth, meta_lockup = no_lockup\<rparr>"

definition ex_delegation :: "pubkey \<Rightarrow> u64 \<Rightarrow> u64 \<Rightarrow> delegation" where
  "ex_delegation v n de = \<lparr>voter_pubkey = v, delegated_stake = n, activation_epoch = 90,
     deactivation_epoch = de\<rparr>"

definition ex_world :: world where
  "ex_world = \<lparr>acc_lamports = (\<lambda>_. 0)(ex_reserve := 2339280, ex_sol_leg := 20002039280,
       40 := 30000000000, 43 := 1500000, 44 := 1503360, 45 := 100000000, 50 := 1000, 60 := 2283880 + 610000, 61 := 2682880,
       62 := 2482880, 63 := 2282880, 64 := 2282880 + 1000000),
     acc_owner = (\<lambda>_. 0)(10 := 6, 11 := 6, 12 := 6, 13 := 6, 41 := 6, 42 := 6, 20 := ID, 21 := ID,
       43 := ID, 44 := ID, 60 := 7, 61 := 7, 62 := 7, 63 := 7, 64 := 7),
     acc_data = (\<lambda>_. [])(20 := ex_stake_data, 21 := ex_validator_data, 44 := replicate 88 0),
     acc_token = Map.empty(11 \<mapsto> ex_token 10 ex_leg_auth 200, 13 \<mapsto> ex_token 10 15 0,
       41 \<mapsto> ex_token 10 40 5000, 42 \<mapsto> ex_token 12 40 3000),
     acc_mint = Map.empty(10 \<mapsto> \<lparr>mt_supply = 700000, mt_authority = Some ex_mint_auth,
         mt_freeze = None\<rparr>,
       12 \<mapsto> \<lparr>mt_supply = 5000, mt_authority = Some ex_lp_auth, mt_freeze = None\<rparr>),
     acc_stake = Map.empty(60 \<mapsto> StakeDelegated ex_meta (ex_delegation 50 610000 (- 1)),
       61 \<mapsto> StakeDelegated ex_meta (ex_delegation 50 400000 (- 1)),
       62 \<mapsto> StakeDelegated ex_meta (ex_delegation 50 200000 98),
       63 \<mapsto> StakeUninitialized,
       64 \<mapsto> StakeDelegated (ex_meta\<lparr>staker := 40, withdrawer := 40\<rparr>)
              (ex_delegation 51 1000000 (- 1))),
     acc_ticket = Map.empty(43 \<mapsto> \<lparr>state_address = ex_key, beneficiary = 40,
       lamports_amount = 100000, created_epoch = 97\<rparr>)\<rparr>"

section \<open>Its addresses\<close>

lemma key_bytes [simp]: "pubkey_to_bytes ex_key =
    [0, 0, 0, 0, 0, 0, 0, 0, 0, 0, 0, 0, 0, 0, 0, 0, 0, 0, 0, 0, 0, 0, 0, 0, 0, 0, 0, 0, 0, 0, 0, 1]"
  by (simp add: pubkey_to_bytes_def ex_key_def upt_rec drop_bit_eq_div)

lemmas ex_address_defs = ref_rt_def ref_address_def ascii_def of_char_def
  ex_reserve_def find_reserve_address_def RESERVE_SEED_def
  ex_mint_auth_def find_msol_mint_authority_def MSOL_MINT_AUTHORITY_SEED_def
  ex_sol_leg_def find_sol_leg_address_def SOL_LEG_SEED_def
  ex_lp_auth_def find_lp_mint_authority_def LP_MINT_AUTHORITY_SEED_def
  ex_leg_auth_def find_msol_leg_authority_def MSOL_LEG_AUTHORITY_SEED_def
  ex_withdraw_auth_def find_stake_withdraw_authority_def STAKE_WITHDRAW_SEED_def
  ex_deposit_auth_def find_stake_deposit_authority_def STAKE_DEPOSIT_SEED_def

lemma ex_addresses [simp]:
  "ex_reserve = 2020"
  "ex_mint_auth = 2022"
  "ex_sol_leg = 2011"
  "ex_lp_auth = 2117"
  "ex_leg_auth = 3433"
  "ex_withdraw_auth = 2130"
  "ex_deposit_auth = 2016"
  by (simp_all add: ex_address_defs)

lemma ex_derived [simp]:
  "reserve_address ref_rt ex_key ex_state = Inr ex_reserve"
  "msol_mint_authority ref_rt ex_key ex_state = Inr ex_mint_auth"
  "liq_pool_sol_leg_address ref_rt ex_key ex_pool = Inr ex_sol_leg"
  "lp_mint_authority ref_rt ex_key ex_pool = Inr ex_lp_auth"
  "liq_pool_msol_leg_authority ref_rt ex_key ex_pool = Inr ex_leg_auth"
  "stake_withdraw_authority ref_rt ex_key (stake_system ex_state) = Inr ex_withdraw_auth"
  "stake_deposit_authority ref_rt ex_key (stake_system ex_state) = Inr ex_deposit_auth"
  by (simp_all add: ex_address_defs ex_state_def ex_pool_def reserve_address_def reserve_seeds_def
      msol_mint_authority_def msol_mint_authority_seeds_def liq_pool_sol_leg_address_def
      liq_pool_sol_leg_seeds_def lp_mint_authority_def lp_mint_authority_seeds_def
      liq_pool_msol_leg_authority_def liq_pool_msol_leg_authority_seeds_def
      stake_withdraw_authority_def stake_withdraw_seeds_def stake_deposit_authority_def
      stake_deposit_seeds_def)

section \<open>Evaluation\<close>

lemma ref_rt_sel [simp]:
  "rt_system_program ref_rt = 0" "rt_spl_token ref_rt = 6" "rt_stake_program ref_rt = 7"
  "rt_stake_config ref_rt = 8" "rt_stake_history ref_rt = 9"
  "rt_invoke ref_rt ix sg w = ok_or (ref_step ix w) (External 1)"
  "rt_minimum_balance ref_rt = ref_minimum_balance"
  "rt_is_exempt ref_rt n sz = (ref_minimum_balance sz \<le> n)"
  "rt_last_slot_in_epoch ref_rt e = e * 432000 + 431999"
  "rt_lockup_in_force ref_rt lk ck = (unix_timestamp ck < lk_unix_timestamp lk \<or> epoch ck < lk_epoch lk)"
  "rt_token_account_len ref_rt = 165" "rt_stake_state_size ref_rt = 200"
  by (simp_all add: ref_rt_def)

lemma ex_state_sel [simp]:
  "msol_mint ex_state = 10"
  "admin_authority ex_state = 30"
  "operational_sol_account ex_state = 14"
  "treasury_msol_account ex_state = 13"
  "reserve_bump_seed ex_state = 255"
  "msol_mint_authority_bump_seed ex_state = 255"
  "rent_exempt_for_token_acc ex_state = 2039280"
  "reward_fee ex_state = from_basis_points 200"
  "stake_list (stake_system ex_state) = \<lparr>account = 20, item_size = 49, count = 3, new_account = 0, copied_count = 0\<rparr>"
  "delayed_unstake_cooling_down (stake_system ex_state) = 200000"
  "stake_deposit_bump_seed (stake_system ex_state) = 255"
  "stake_withdraw_bump_seed (stake_system ex_state) = 255"
  "slots_for_stake_delta (stake_system ex_state) = 24000"
  "last_stake_delta_epoch (stake_system ex_state) = 99"
  "min_stake (stake_system ex_state) = 1000"
  "extra_stake_delta_runs (stake_system ex_state) = 0"
  "validator_list (validator_system ex_state) = \<lparr>account = 21, item_size = 53, count = 2, new_account = 0, copied_count = 0\<rparr>"
  "manager_authority (validator_system ex_state) = 31"
  "total_validator_score (validator_system ex_state) = 40"
  "total_active_balance (validator_system ex_state) = 1000000"
  "auto_add_validator_enabled (validator_system ex_state) = 1"
  "liq_pool ex_state = ex_pool"
  "available_reserve_balance ex_state = 300000"
  "msol_supply ex_state = 700000"
  "msol_price ex_state = 8589934592"
  "circulating_ticket_count ex_state = 1"
  "circulating_ticket_balance ex_state = 100000"
  "lent_from_reserve ex_state = 0"
  "min_deposit ex_state = 1"
  "min_withdraw ex_state = 1"
  "staking_sol_cap ex_state = - 1"
  "emergency_cooling_down ex_state = 0"
  by (simp_all add: ex_state_def)

lemma ex_pool_sel [simp]:
  "lp_mint ex_pool = 12" "msol_leg ex_pool = 11" "lp_liquidity_target ex_pool = 100000000000"
  "lp_max_fee ex_pool = from_basis_points 300" "lp_min_fee ex_pool = from_basis_points 30"
  "treasury_cut ex_pool = from_basis_points 2500" "lp_supply ex_pool = 5000"
  "lent_from_sol_leg ex_pool = 0" "liquidity_sol_cap ex_pool = - 1"
  by (simp_all add: ex_pool_def)

lemma ex_cx_sel [simp]:
  "cx_program_id ex_cx = ID" "cx_remaining ex_cx = []" "cx_signer ex_cx k = (k < 1000)"
  "cx_writable ex_cx k" "cx_clock ex_cx = ex_clock"
  by (simp_all add: ex_cx_def)

lemma ex_clock_sel [simp]:
  "slot ex_clock = 43631000" "epoch_start_timestamp ex_clock = 1000000" "epoch ex_clock = 100"
  "unix_timestamp ex_clock = 1002000"
  by (simp_all add: ex_clock_def)

text \<open>Rewriting a run: the results are unfolded and the arithmetic is on numerals.\<close>

named_theorems run_simps

lemma checked_run [run_simps]:
  "checked_add a b = (if unat a + unat b < 2 ^ LENGTH('a) then Some (a + b) else None)"
  "checked_sub a b = (if b \<le> a then Some (a - b) else None)"
  "checked_mul a b = (if unat a * unat b < 2 ^ LENGTH('a) then Some (a * b) else None)"
  for a b :: "'a::len word"
  by (simp_all add: checked_add_def checked_sub_def checked_mul_def)

lemmas more_run_simps [run_simps] = check_defs load_token_def load_mint_def load_stake_def
  proportional_nat prop_floor_def shares_from_value_def value_from_shares_def
  total_cooling_down_def total_lamports_under_control_def total_virtual_staked_lamports_def
  calc_msol_from_lamports_def calc_lamports_from_msol_amount_def check_staking_cap_def
  on_transfer_to_reserve_def on_transfer_from_reserve_def on_msol_mint_def on_msol_burn_def
  saturating_sub_def saturating_add_def check_context_def check_attributes_def
  check_msol_mint_def check_reserve_address_def check_msol_mint_authority_def
  check_liq_pool_sol_leg_pda_def check_liq_pool_msol_leg_def move_lamports_def can_move_def
  move_u64_def ref_token_transfer_def ref_mint_to_def ref_burn_def ref_spend_def token_amount_def
  mint_supply_def Let_def min_def

lemma stake_delta_correct_witness:
  "stake_delta ex_state 2339280 = Inr 400000
   \<and> unat (circulating_ticket_balance ex_state)
       < 2339280 - 2039280 + unat (delayed_unstake_cooling_down (stake_system ex_state))"
  using stake_delta_correct [of ex_state 2339280] by (simp add: delta_spec_def Let_def)

end
