(* ===== verification/Validators.thy ===== *)
theory Validators
  imports Examples
begin

text \<open>
  The management of the validator list: \<open>add_validator\<close>, \<open>remove_validator\<close>,
  \<open>set_validator_score\<close> and \<open>config_validator_system\<close> (\<open>validator_system/*.rs\<close>). The list
  that the account holds, its two totals and the duplication flags are related by
  \<open>validators_held\<close> and \<open>flags_held\<close>, which every operation keeps; \<open>stakes_held\<close> is
  the same relation for the stake list.
\<close>

section \<open>The invariant\<close>

definition validators_rep ::
  "runtime \<Rightarrow> validator_system \<Rightarrow> bytes \<Rightarrow> validator_record list \<Rightarrow> bool" where
  "validators_rep rt vs d xs \<longleftrightarrow>
     list_rep (rt_de_validator rt) (validator_record_len rt) (validator_list vs) d xs
     \<and> unat (total_validator_score vs) = sum_list (map (unat \<circ> score) xs)
     \<and> unat (total_active_balance vs) = sum_list (map (unat \<circ> active_balance) xs)"

definition validators_held :: "runtime \<Rightarrow> state \<Rightarrow> world \<Rightarrow> validator_record list \<Rightarrow> bool" where
  "validators_held rt st w xs \<longleftrightarrow>
     (let vs = validator_system st; k = account (validator_list vs) in
      acc_owner w k = ID \<and> validators_rep rt vs (acc_data w k) xs)"

definition stakes_held :: "runtime \<Rightarrow> state \<Rightarrow> world \<Rightarrow> stake_record list \<Rightarrow> bool" where
  "stakes_held rt st w ys \<longleftrightarrow>
     (let ss = stake_system st; k = account (stake_list ss) in
      acc_owner w k = ID
      \<and> list_rep (rt_de_stake rt) (stake_record_len rt) (stake_list ss) (acc_data w k) ys)"

text \<open>No validator is listed twice, and the flag account of each one has been created.\<close>

definition flags_held :: "runtime \<Rightarrow> pubkey \<Rightarrow> world \<Rightarrow> validator_record list \<Rightarrow> bool" where
  "flags_held rt key w xs \<longleftrightarrow> distinct (map validator_account xs)
     \<and> (\<forall>v \<in> set xs. acc_owner w (fst (find_duplication_flag rt key (validator_account v))) = ID)"

definition put_data :: "pubkey \<Rightarrow> bytes \<Rightarrow> world \<Rightarrow> world" where
  "put_data k d w = w\<lparr>acc_data := (acc_data w)(k := d)\<rparr>"

section \<open>Adding\<close>

record add_validator_accounts =
  av_manager_authority :: pubkey
  av_validator_list :: pubkey
  av_validator_vote :: pubkey
  av_duplication_flag :: pubkey
  av_rent_payer :: pubkey
  av_system_program :: pubkey

definition add_validator_checks ::
  "runtime \<Rightarrow> add_validator_accounts \<Rightarrow> state \<Rightarrow> world \<Rightarrow> unit result" where
  "add_validator_checks rt ac st w = all_ok
     [check_validator_manager_authority (validator_system st) (av_manager_authority ac),
      check_validator_list (validator_system st) w (av_validator_list ac),
      check_owner_program w (av_duplication_flag ac) (rt_system_program rt),
      check_owner_program w (av_rent_payer ac) (rt_system_program rt),
      require (rt_is_exempt rt (acc_lamports w (av_rent_payer ac)) 0) InsufficientFunds,
      check_address (av_system_program ac) (rt_system_program rt)]"

definition add_validator_process ::
  "runtime \<Rightarrow> pubkey \<Rightarrow> add_validator_accounts \<Rightarrow> u32 \<Rightarrow> state \<Rightarrow> world \<Rightarrow> (state \<times> world) result" where
  "add_validator_process rt key ac sc st w =
     bindR (add_validator_checks rt ac st w) (\<lambda>_.
     bindR (validator_add rt (validator_system st) (acc_data w (av_validator_list ac))
              (av_validator_vote ac) sc key (av_duplication_flag ac)) (\<lambda>(vs, data).
     let w1 = put_data (av_validator_list ac) data w in
     bindR (psub (validator_count vs) 1) (\<lambda>i.
     bindR (validator_get rt vs data i) (\<lambda>v.
     bindR (rt_invoke rt (SystemCreateAccount (av_rent_payer ac) (av_duplication_flag ac)
              (rt_minimum_balance rt 0) 0 ID) [duplication_flag_seeds key v] w1) (\<lambda>w2.
     Inr (st\<lparr>validator_system := vs\<rparr>, w2))))))"

definition add_validator ::
  "runtime \<Rightarrow> call_context \<Rightarrow> pubkey \<Rightarrow> add_validator_accounts \<Rightarrow> u32 \<Rightarrow> state \<Rightarrow> world
    \<Rightarrow> (state \<times> world) result" where
  "add_validator rt cx key ac sc st w =
     bindR (check_attributes cx [av_manager_authority ac, av_rent_payer ac]
              [key, av_validator_list ac, av_duplication_flag ac, av_rent_payer ac]) (\<lambda>_.
     bindR (check_context cx) (\<lambda>_.
     add_validator_process rt key ac sc st w))"

section \<open>Removing\<close>

record remove_validator_accounts =
  rv_manager_authority :: pubkey
  rv_validator_list :: pubkey
  rv_duplication_flag :: pubkey
  rv_operational_sol_account :: pubkey

definition remove_validator_checks :: "remove_validator_accounts \<Rightarrow> state \<Rightarrow> world \<Rightarrow> unit result" where
  "remove_validator_checks ac st w = all_ok
     [check_validator_manager_authority (validator_system st) (rv_manager_authority ac),
      check_validator_list (validator_system st) w (rv_validator_list ac),
      check_operational_sol_account st (rv_operational_sol_account ac)]"

definition remove_validator_process ::
  "runtime \<Rightarrow> pubkey \<Rightarrow> remove_validator_accounts \<Rightarrow> u32 \<Rightarrow> pubkey \<Rightarrow> state \<Rightarrow> world
    \<Rightarrow> (state \<times> world) result" where
  "remove_validator_process rt key ac index vote st w =
     bindR (remove_validator_checks ac st w) (\<lambda>_.
     bindR (validator_get rt (validator_system st) (acc_data w (rv_validator_list ac)) index) (\<lambda>v.
     bindR (require (validator_account v = vote) InvalidArgument) (\<lambda>_.
     bindR (duplication_flag_address rt key v) (\<lambda>flag.
     bindR (require (rv_duplication_flag ac = flag) InvalidArgument) (\<lambda>_.
     bindR (validator_remove (validator_system st) (acc_data w (rv_validator_list ac)) index v)
       (\<lambda>(vs, data).
     let w1 = put_data (rv_validator_list ac) data w;
         rent_return = acc_lamports w (rv_duplication_flag ac);
         lam = (acc_lamports w)(rv_duplication_flag ac := 0) in
     bindR (padd (lam (rv_operational_sol_account ac)) rent_return) (\<lambda>n.
     Inr (st\<lparr>validator_system := vs\<rparr>,
          w1\<lparr>acc_lamports := lam(rv_operational_sol_account ac := n)\<rparr>))))))))"

definition remove_validator ::
  "runtime \<Rightarrow> call_context \<Rightarrow> pubkey \<Rightarrow> remove_validator_accounts \<Rightarrow> u32 \<Rightarrow> pubkey \<Rightarrow> state \<Rightarrow> world
    \<Rightarrow> (state \<times> world) result" where
  "remove_validator rt cx key ac index vote st w =
     bindR (check_attributes cx [rv_manager_authority ac]
              [key, rv_validator_list ac, rv_duplication_flag ac, rv_operational_sol_account ac])
       (\<lambda>_.
     bindR (check_context cx) (\<lambda>_.
     remove_validator_process rt key ac index vote st w))"

section \<open>Scores and settings\<close>

definition set_validator_score_checks ::
  "validator_system \<Rightarrow> pubkey \<Rightarrow> pubkey \<Rightarrow> world \<Rightarrow> unit result" where
  "set_validator_score_checks vs manager vlist w = all_ok
     [check_validator_manager_authority vs manager, check_validator_list vs w vlist]"

definition set_validator_score_process ::
  "runtime \<Rightarrow> pubkey \<Rightarrow> pubkey \<Rightarrow> u32 \<Rightarrow> pubkey \<Rightarrow> u32 \<Rightarrow> state \<Rightarrow> world \<Rightarrow> (state \<times> world) result" where
  "set_validator_score_process rt manager vlist index vote sc st w =
     (let vs = validator_system st in
     bindR (set_validator_score_checks vs manager vlist w) (\<lambda>_.
     bindR (validator_get rt vs (acc_data w vlist) index) (\<lambda>v.
     bindR (require (validator_account v = vote) InvalidArgument) (\<lambda>_.
     bindR (ok_or (checked_sub (total_validator_score vs) (score v)) (Common CalculationFailure))
       (\<lambda>t1.
     bindR (ok_or (checked_add t1 sc) (Common CalculationFailure)) (\<lambda>t2.
     let vs2 = vs\<lparr>total_validator_score := t2\<rparr> in
     bindR (validator_set rt vs2 (acc_data w vlist) index (v\<lparr>score := sc\<rparr>)) (\<lambda>data.
     Inr (st\<lparr>validator_system := vs2\<rparr>, put_data vlist data w))))))))"

definition set_validator_score ::
  "runtime \<Rightarrow> call_context \<Rightarrow> pubkey \<Rightarrow> pubkey \<Rightarrow> pubkey \<Rightarrow> u32 \<Rightarrow> pubkey \<Rightarrow> u32 \<Rightarrow> state \<Rightarrow> world
    \<Rightarrow> (state \<times> world) result" where
  "set_validator_score rt cx key manager vlist index vote sc st w =
     bindR (check_attributes cx [manager] [key, vlist]) (\<lambda>_.
     bindR (check_context cx) (\<lambda>_.
     set_validator_score_process rt manager vlist index vote sc st w))"

definition config_validator_system ::
  "call_context \<Rightarrow> pubkey \<Rightarrow> pubkey \<Rightarrow> u32 \<Rightarrow> state \<Rightarrow> world \<Rightarrow> (state \<times> world) result" where
  "config_validator_system cx key manager extra_runs st w =
     bindR (check_attributes cx [manager] [key]) (\<lambda>_.
     bindR (check_context cx) (\<lambda>_.
     bindR (check_validator_manager_authority (validator_system st) manager) (\<lambda>_.
     Inr (st\<lparr>stake_system := (stake_system st)\<lparr>extra_stake_delta_runs := extra_runs\<rparr>\<rparr>, w))))"

section \<open>Facts\<close>

lemma put_data_simps [simp]:
  "acc_lamports (put_data k d w) = acc_lamports w" "acc_owner (put_data k d w) = acc_owner w"
  "acc_data (put_data k d w) = (acc_data w)(k := d)" "acc_token (put_data k d w) = acc_token w"
  "acc_mint (put_data k d w) = acc_mint w" "acc_stake (put_data k d w) = acc_stake w"
  "acc_ticket (put_data k d w) = acc_ticket w" "token_amount (put_data k d w) = token_amount w"
  "mint_supply (put_data k d w) = mint_supply w"
  by (simp_all add: put_data_def)

lemma validators_rep_list:
  "validators_rep rt vs d xs \<Longrightarrow>
   list_rep (rt_de_validator rt) (validator_record_len rt) (validator_list vs) d xs"
  by (simp add: validators_rep_def)

lemma flags_held_map:
  "map validator_account ys = map validator_account xs \<Longrightarrow> flags_held rt key w xs \<Longrightarrow> flags_held rt key w ys"
proof -
  assume eq: "map validator_account ys = map validator_account xs" and "flags_held rt key w xs"
  then have "distinct (map validator_account ys)"
    "\<forall>a \<in> set (map validator_account ys). acc_owner w (fst (find_duplication_flag rt key a)) = ID"
    by (auto simp: flags_held_def)
  then show ?thesis by (simp add: flags_held_def)
qed

lemma distinct_map_swap_remove:
  "i < length xs \<Longrightarrow> distinct (map f xs) \<Longrightarrow> distinct (map f (swap_remove xs i))"
proof -
  assume i: "i < length xs" and d: "distinct (map f xs)"
  have "mset (map f (swap_remove xs i)) = mset (map f xs) - {# f (xs ! i) #}"
    using i by (simp add: mset_swap_remove image_mset_Diff)
  also have "\<dots> = mset (remove1 (f (xs ! i)) (map f xs))" by simp
  finally show ?thesis using d by (metis distinct_remove1 mset_eq_imp_distinct_iff)
qed

lemma flags_held_swap_remove:
  "i < length xs \<Longrightarrow> flags_held rt key w xs \<Longrightarrow> flags_held rt key w (swap_remove xs i)"
  using set_swap_remove [of i xs] by (auto simp: flags_held_def distinct_map_swap_remove)

context marinade_runtime
begin

lemma validator_add_effect:
  assumes rep: "validators_rep rt vs d xs"
    and run: "validator_add rt vs d vote sc key flag = Inr (vs', d')"
  obtains v where "v = \<lparr>validator_account = vote, active_balance = 0, score = sc,
      vr_last_stake_delta_epoch = - 1,
      duplication_flag_bump_seed = snd (find_duplication_flag rt key vote)\<rparr>"
    and "flag = fst (find_duplication_flag rt key vote)"
    and "validators_rep rt vs' d' (xs @ [v])"
    and "manager_authority vs' = manager_authority vs"
    and "account (validator_list vs') = account (validator_list vs)"
proof -
  obtain a b where f: "find_duplication_flag rt key vote = (a, b)" by fastforce
  let ?v = "\<lparr>validator_account = vote, active_balance = 0, score = sc,
      vr_last_stake_delta_epoch = - 1, duplication_flag_bump_seed = b\<rparr>"
  from run f obtain l t where flag: "flag = a"
    and push: "list_push (rt_ser_validator rt) (validator_list vs) d ?v = Inr (l, d')"
    and t: "unat t = unat (total_validator_score vs) + unat sc"
    and vs': "vs' = vs\<lparr>validator_list := l, total_validator_score := t\<rparr>"
    by (auto simp: validator_add_def validator_record_new_def result_simps)
  note lrep = validators_rep_list [OF rep]
  have acct: "account l = account (validator_list vs)"
    using push by (auto simp: list_push_def result_simps)
  have "validators_rep rt vs' d' (xs @ [?v])"
    using rep t validators.store.push_Inr [OF lrep push] by (simp add: validators_rep_def vs')
  then show ?thesis using that f flag vs' acct by simp
qed

lemma add_validator_effect:
  assumes run: "add_validator rt cx key ac sc st w = Inr (st', w')"
    and held: "validators_held rt st w xs"
    and flag_owner: "rt_system_program rt \<noteq> ID"
  obtains v where "v = \<lparr>validator_account = av_validator_vote ac, active_balance = 0, score = sc,
      vr_last_stake_delta_epoch = - 1,
      duplication_flag_bump_seed = snd (find_duplication_flag rt key (av_validator_vote ac))\<rparr>"
    and "validators_held rt st' w' (xs @ [v])"
    and "flags_held rt key w xs \<Longrightarrow> flags_held rt key w' (xs @ [v])"
    and "av_manager_authority ac = manager_authority (validator_system st)"
    and "cx_signer cx (av_manager_authority ac)"
    and "\<exists>vs. st' = st\<lparr>validator_system := vs\<rparr> \<and> manager_authority vs = manager_authority (validator_system st)"
proof -
  from run obtain vs data seeds w2 where
    sign: "cx_signer cx (av_manager_authority ac)"
    and chk: "add_validator_checks rt ac st w = Inr ()"
    and add: "validator_add rt (validator_system st) (acc_data w (av_validator_list ac))
      (av_validator_vote ac) sc key (av_duplication_flag ac) = Inr (vs, data)"
    and inv: "rt_invoke rt (SystemCreateAccount (av_rent_payer ac) (av_duplication_flag ac)
      (rt_minimum_balance rt 0) 0 ID) seeds (put_data (av_validator_list ac) data w) = Inr w2"
    and st': "st' = st\<lparr>validator_system := vs\<rparr>" and w': "w' = w2"
    by (auto simp: add_validator_def add_validator_process_def bindR_Inr check_attributes_Inr)
  let ?k = "account (validator_list (validator_system st))" and ?vote = "av_validator_vote ac"
  have c: "av_manager_authority ac = manager_authority (validator_system st)"
    "av_validator_list ac = ?k" "acc_owner w (av_duplication_flag ac) = rt_system_program rt"
    using chk by (auto simp: add_validator_checks_def result_simps)
  have own: "acc_owner w ?k = ID"
    and rep: "validators_rep rt (validator_system st) (acc_data w (av_validator_list ac)) xs"
    using held c(2) by (auto simp: validators_held_def Let_def)
  from validator_add_effect [OF rep add] obtain v where
    v: "v = \<lparr>validator_account = ?vote, active_balance = 0, score = sc,
      vr_last_stake_delta_epoch = - 1,
      duplication_flag_bump_seed = snd (find_duplication_flag rt key ?vote)\<rparr>"
    and flag: "av_duplication_flag ac = fst (find_duplication_flag rt key ?vote)"
    and rep': "validators_rep rt vs data (xs @ [v])"
    and man: "manager_authority vs = manager_authority (validator_system st)"
    and acct: "account (validator_list vs) = ?k"
    by metis
  have keep: "acc_owner w2 k = ID" "acc_data w2 k = (if k = ?k then data else acc_data w k)"
    if "acc_owner w k = ID" for k
    using invoke_keeps_owner [OF inv] invoke_keeps_data [OF inv] that c(2) by auto
  have new: "acc_owner w2 (av_duplication_flag ac) = ID" using create_account [OF inv] by blast
  have flags: "flags_held rt key w' (xs @ [v])" if "flags_held rt key w xs"
  proof -
    have "?vote \<notin> validator_account ` set xs"
      using that flag c(3) flag_owner by (auto simp: flags_held_def)
    then show ?thesis using that keep(1) new by (auto simp: flags_held_def v flag w')
  qed
  show ?thesis
    by (rule that [OF v _ flags c(1) sign])
      (use rep' own keep acct man st' in \<open>auto simp: validators_held_def w' Let_def\<close>)
qed

lemma validator_get_eq:
  assumes "validators_rep rt vs d xs"
  shows "validator_get rt vs d i =
    (if unat i < length xs then Inr (xs ! unat i) else Inl InvalidArgument)"
  using validators.get_ok [OF validators_rep_list [OF assms]]
    validators.get_out_of_bounds [OF validators_rep_list [OF assms]]
  by (simp add: validator_get_def)

lemma validator_remove_effect:
  assumes rep: "validators_rep rt vs d xs" and get: "validator_get rt vs d i = Inr v"
    and run: "validator_remove vs d i v = Inr (vs', d')"
  shows "unat i < length xs" and "v = xs ! unat i" and "active_balance v = 0"
    and "validators_rep rt vs' d' (swap_remove xs (unat i))"
    and "manager_authority vs' = manager_authority vs"
    and "account (validator_list vs') = account (validator_list vs)"
proof -
  note lrep = validators_rep_list [OF rep]
  show i: "unat i < length xs" and v: "v = xs ! unat i"
    using get validators.store.get_Inr [OF lrep] by (auto simp: validator_get_def)
  from run obtain l where bal: "active_balance v = 0"
    and rem: "list_remove (validator_list vs) d i = Inr (l, d')"
    and vs': "vs' = vs\<lparr>total_validator_score := saturating_sub (total_validator_score vs) (score v),
        validator_list := l\<rparr>"
    by (auto simp: validator_remove_def bindR_Inr word_neq_0_conv [symmetric])
  show "active_balance v = 0" by (rule bal)
  show "manager_authority vs' = manager_authority vs" by (simp add: vs')
  show "account (validator_list vs') = account (validator_list vs)"
    using rem by (auto simp: vs' list_remove_def result_simps Let_def split: if_splits)
  have sums: "sum_list (map f (swap_remove xs (unat i))) + f v = sum_list (map f xs)"
    for f :: "validator_record \<Rightarrow> nat"
    using sum_list_swap_remove [OF i, of f] by (simp add: v)
  show "validators_rep rt vs' d' (swap_remove xs (unat i))"
    using validators.store.remove_Inr [OF lrep rem] rep sums [of "unat \<circ> score"]
      sums [of "unat \<circ> active_balance"] bal
    by (simp add: validators_rep_def vs')
qed

lemma remove_validator_effect:
  assumes run: "remove_validator rt cx key ac index vote st w = Inr (st', w')"
    and held: "validators_held rt st w xs"
  obtains vs where "unat index < length xs" and "validator_account (xs ! unat index) = vote"
    and "active_balance (xs ! unat index) = 0"
    and "st' = st\<lparr>validator_system := vs\<rparr>"
    and "manager_authority vs = manager_authority (validator_system st)"
    and "validators_held rt st' w' (swap_remove xs (unat index))"
    and "acc_owner w' = acc_owner w"
    and "rv_manager_authority ac = manager_authority (validator_system st)"
    and "cx_signer cx (rv_manager_authority ac)"
    and "rv_operational_sol_account ac = operational_sol_account st"
    and "duplication_flag_address rt key (xs ! unat index) = Inr (rv_duplication_flag ac)"
    and "rv_duplication_flag ac \<noteq> operational_sol_account st \<Longrightarrow>
      acc_lamports w' (rv_duplication_flag ac) = 0 \<and>
      unat (acc_lamports w' (operational_sol_account st))
        = unat (acc_lamports w (operational_sol_account st)) + unat (acc_lamports w (rv_duplication_flag ac))"
proof -
  let ?vs = "validator_system st" and ?k = "rv_validator_list ac" and ?f = "rv_duplication_flag ac"
  from run obtain v vs data n where
    sign: "cx_signer cx (rv_manager_authority ac)"
    and chk: "remove_validator_checks ac st w = Inr ()"
    and get: "validator_get rt ?vs (acc_data w ?k) index = Inr v"
    and vote: "validator_account v = vote"
    and flag: "duplication_flag_address rt key v = Inr ?f"
    and rem: "validator_remove ?vs (acc_data w ?k) index v = Inr (vs, data)"
    and n: "padd (((acc_lamports w)(?f := 0)) (rv_operational_sol_account ac)) (acc_lamports w ?f)
        = Inr n"
    and st': "st' = st\<lparr>validator_system := vs\<rparr>"
    and w': "w' = (put_data ?k data w)\<lparr>acc_lamports :=
        (acc_lamports w)(?f := 0, rv_operational_sol_account ac := n)\<rparr>"
    by (auto simp: remove_validator_def remove_validator_process_def bindR_Inr
        check_attributes_Inr Let_def)
  have c: "rv_manager_authority ac = manager_authority ?vs" "?k = account (validator_list ?vs)"
      "rv_operational_sol_account ac = operational_sol_account st"
    using chk by (simp_all add: remove_validator_checks_def result_simps)
  have n': "unat n = unat (((acc_lamports w)(?f := 0)) (operational_sol_account st))
        + unat (acc_lamports w ?f)"
    using n c(3) by (simp add: result_simps)
  have rep: "validators_rep rt ?vs (acc_data w ?k) xs" and own: "acc_owner w ?k = ID"
    using held c(2) by (auto simp: validators_held_def Let_def)
  note e = validator_remove_effect [OF rep get rem]
  show ?thesis
  proof (rule that [OF e(1) _ _ st' e(5)])
    show "validators_held rt st' w' (swap_remove xs (unat index))"
      using e(4,6) own c(2) by (simp add: validators_held_def st' w' Let_def)
  qed (use e vote flag c sign n' in \<open>auto simp: w'\<close>)
qed

lemma set_validator_score_effect:
  assumes run: "set_validator_score rt cx key manager vlist index vote sc st w = Inr (st', w')"
    and held: "validators_held rt st w xs"
  obtains t where "unat index < length xs" and "validator_account (xs ! unat index) = vote"
    and "st' = st\<lparr>validator_system := (validator_system st)\<lparr>total_validator_score := t\<rparr>\<rparr>"
    and "unat t + unat (score (xs ! unat index)) = unat (total_validator_score (validator_system st)) + unat sc"
    and "validators_held rt st' w' (xs[unat index := (xs ! unat index)\<lparr>score := sc\<rparr>])"
    and "acc_owner w' = acc_owner w" and "acc_lamports w' = acc_lamports w"
    and "manager = manager_authority (validator_system st)" and "cx_signer cx manager"
proof -
  let ?vs = "validator_system st" and ?i = "unat index"
  from run obtain v t1 t2 data where
    sign: "cx_signer cx manager"
    and chk: "set_validator_score_checks ?vs manager vlist w = Inr ()"
    and get: "validator_get rt ?vs (acc_data w vlist) index = Inr v"
    and vote: "validator_account v = vote"
    and t1: "checked_sub (total_validator_score ?vs) (score v) = Some t1"
    and t2: "checked_add t1 sc = Some t2"
    and set: "validator_set rt (?vs\<lparr>total_validator_score := t2\<rparr>) (acc_data w vlist) index
        (v\<lparr>score := sc\<rparr>) = Inr data"
    and st': "st' = st\<lparr>validator_system := ?vs\<lparr>total_validator_score := t2\<rparr>\<rparr>"
    and w': "w' = put_data vlist data w"
    by (auto simp: set_validator_score_def set_validator_score_process_def bindR_Inr ok_or_Inr
        check_attributes_Inr Let_def)
  have c: "manager = manager_authority ?vs" "vlist = account (validator_list ?vs)"
    using chk by (simp_all add: set_validator_score_checks_def result_simps)
  have rep: "validators_rep rt ?vs (acc_data w vlist) xs" and own: "acc_owner w vlist = ID"
    using held c(2) by (auto simp: validators_held_def Let_def)
  note lrep = validators_rep_list [OF rep]
  have i: "?i < length xs" and v: "v = xs ! ?i"
    using get validators.store.get_Inr [OF lrep] by (auto simp: validator_get_def)
  have lrep': "list_rep (rt_de_validator rt) (validator_record_len rt) (validator_list ?vs) data
      (xs[?i := v\<lparr>score := sc\<rparr>])"
    using validators.store.put_Inr [OF lrep] set by (auto simp: validator_set_def)
  have sums: "sum_list (map f (xs[?i := v\<lparr>score := sc\<rparr>])) + f v
      = sum_list (map f xs) + f (v\<lparr>score := sc\<rparr>)" for f :: "validator_record \<Rightarrow> nat"
    using sum_list_update_nat [OF i, of f] by (simp add: v)
  have "validators_rep rt (validator_system st') data (xs[?i := v\<lparr>score := sc\<rparr>])"
    using lrep' rep sums [of "unat \<circ> score"] sums [of "unat \<circ> active_balance"] t1 t2
    by (simp add: validators_rep_def st' result_simps)
  then have "validators_held rt st' w' (xs[?i := v\<lparr>score := sc\<rparr>])"
    using own c(2) by (simp add: validators_held_def st' w' Let_def)
  then show ?thesis
    using that [OF i _ st'] vote v t1 t2 c sign by (simp add: w' result_simps)
qed

end

section \<open>Properties\<close>

text \<open>
  Adding a validator, which only the manager can, appends a record with the given score and
  no stake to the list, keeps both totals equal to the sums over the list, and never lists a vote
  account twice.
\<close>
lemma add_validator_keeps:
  assumes "marinade_runtime rt" and "rt_system_program rt \<noteq> ID"
    and "add_validator rt cx key ac sc st w = Inr (st', w')"
    and "validators_held rt st w xs" and "flags_held rt key w xs"
  shows "\<exists>v. validators_held rt st' w' (xs @ [v]) \<and> flags_held rt key w' (xs @ [v])
    \<and> validator_account v = av_validator_vote ac \<and> active_balance v = 0 \<and> score v = sc
    \<and> av_validator_vote ac \<notin> validator_account ` set xs
    \<and> cx_signer cx (manager_authority (validator_system st))"
proof (rule marinade_runtime.add_validator_effect [OF assms(1,3,4,2)], goal_cases)
  case (1 v)
  then have "flags_held rt key w' (xs @ [v])" using assms(5) by blast
  then show ?case using 1 by (intro exI [of _ v]) (auto simp: flags_held_def)
qed

text \<open>
  Removing a validator, which only the manager can, takes exactly the named validator off the
  list, only when no stake is recorded for it, keeps both totals equal to the sums over the list,
  and returns the rent of its flag account to the operational account.
\<close>
lemma remove_validator_keeps:
  assumes "marinade_runtime rt"
    and "remove_validator rt cx key ac index vote st w = Inr (st', w')"
    and "validators_held rt st w xs" and "flags_held rt key w xs"
    and "rv_duplication_flag ac \<noteq> operational_sol_account st"
  shows "unat index < length xs \<and> validator_account (xs ! unat index) = vote
    \<and> active_balance (xs ! unat index) = 0
    \<and> validators_held rt st' w' (swap_remove xs (unat index))
    \<and> mset (swap_remove xs (unat index)) = mset xs - {# xs ! unat index #}
    \<and> flags_held rt key w' (swap_remove xs (unat index))
    \<and> cx_signer cx (manager_authority (validator_system st))
    \<and> acc_lamports w' (rv_duplication_flag ac) = 0
    \<and> unat (acc_lamports w' (operational_sol_account st))
        = unat (acc_lamports w (operational_sol_account st))
          + unat (acc_lamports w (rv_duplication_flag ac))"
proof (rule marinade_runtime.remove_validator_effect [OF assms(1,2,3)], goal_cases)
  case (1 vs)
  have "flags_held rt key w (swap_remove xs (unat index))"
    by (rule flags_held_swap_remove [OF 1(1) assms(4)])
  then have "flags_held rt key w' (swap_remove xs (unat index))"
    using 1(7) by (simp add: flags_held_def)
  then show ?case using 1 assms(5) by (simp add: mset_swap_remove)
qed

text \<open>
  What removing a validator refuses: an index beyond the list, an index that holds another
  vote account, and a validator with recorded stake each fail with their own error, and the
  caller's state is not changed.
\<close>
lemma remove_validator_errors:
  assumes "marinade_runtime rt" and "validators_held rt st w xs"
    and "check_attributes cx [rv_manager_authority ac]
      [key, rv_validator_list ac, rv_duplication_flag ac, rv_operational_sol_account ac] = Inr ()"
    and "check_context cx = Inr ()" and "remove_validator_checks ac st w = Inr ()"
  shows "(unat index \<ge> length xs \<longrightarrow>
      remove_validator rt cx key ac index vote st w = Inl InvalidArgument)
    \<and> (unat index < length xs \<and> validator_account (xs ! unat index) \<noteq> vote \<longrightarrow>
      remove_validator rt cx key ac index vote st w = Inl InvalidArgument)
    \<and> (unat index < length xs \<and> validator_account (xs ! unat index) = vote
       \<and> duplication_flag_address rt key (xs ! unat index) = Inr (rv_duplication_flag ac)
       \<and> active_balance (xs ! unat index) \<noteq> 0 \<longrightarrow>
      remove_validator rt cx key ac index vote st w = Inl InvalidInstructionData)"
proof -
  let ?vs = "validator_system st"
  have k: "rv_validator_list ac = account (validator_list ?vs)"
    using assms(5) by (simp add: remove_validator_checks_def result_simps)
  then have "validators_rep rt ?vs (acc_data w (rv_validator_list ac)) xs"
    using assms(2) by (simp add: validators_held_def Let_def)
  then have get: "validator_get rt ?vs (acc_data w (rv_validator_list ac)) index =
      (if unat index < length xs then Inr (xs ! unat index) else Inl InvalidArgument)"
    using marinade_runtime.validator_get_eq [OF assms(1)] by simp
  show ?thesis
    using assms(3-5) by (simp add: remove_validator_def remove_validator_process_def get
        validator_remove_def word_neq_0_conv)
qed

text \<open>
  Setting a score, which only the manager can, changes the score of the named validator and
  nothing else of the list, and keeps the total score equal to the sum of the scores.
\<close>
lemma set_validator_score_keeps:
  assumes "marinade_runtime rt"
    and "set_validator_score rt cx key manager vlist index vote sc st w = Inr (st', w')"
    and "validators_held rt st w xs" and "flags_held rt key w xs"
  shows "unat index < length xs \<and> validator_account (xs ! unat index) = vote
    \<and> validators_held rt st' w' (xs[unat index := (xs ! unat index)\<lparr>score := sc\<rparr>])
    \<and> flags_held rt key w' (xs[unat index := (xs ! unat index)\<lparr>score := sc\<rparr>])
    \<and> cx_signer cx (manager_authority (validator_system st))"
proof (rule marinade_runtime.set_validator_score_effect [OF assms(1,2,3)], goal_cases)
  case (1 t)
  have "map validator_account (xs[unat index := (xs ! unat index)\<lparr>score := sc\<rparr>])
      = map validator_account xs"
    by (simp add: map_update list_update_same_conv 1(1))
  then have "flags_held rt key w (xs[unat index := (xs ! unat index)\<lparr>score := sc\<rparr>])"
    by (rule flags_held_map [OF _ assms(4)])
  then show ?case using 1 by (simp add: flags_held_def)
qed

section \<open>Runs\<close>

definition ex_flag :: "pubkey \<Rightarrow> pubkey" where
  "ex_flag vote = fst (find_duplication_flag ref_rt ex_key vote)"

definition ex_world_flags :: world where
  "ex_world_flags = ex_world\<lparr>acc_owner := (acc_owner ex_world)(ex_flag 50 := ID, ex_flag 51 := ID),
     acc_lamports := (acc_lamports ex_world)(ex_flag 51 := 890880)\<rparr>"

lemma pubkey_to_bytes_small:
  assumes "k < 256"
  shows "pubkey_to_bytes k = replicate 31 0 @ [ucast k]"
proof -
  have "drop_bit (8 * i) k = 0" if "0 < i" for i
  proof -
    have "(256::nat) ^ 1 \<le> 256 ^ i" using that by (intro power_increasing) auto
    moreover have "(256::nat) ^ i = 2 ^ (8 * i)" by (simp add: power_mult)
    ultimately have "unat k < 2 ^ (8 * i)" using assms by (simp add: word_less_nat_alt)
    then have "unat (drop_bit (8 * i) k) = 0" by (simp add: unat_drop_bit_eq) (simp add: drop_bit_eq_div)
    then show ?thesis by (simp add: unat_eq_zero)
  qed
  then have "ucast (drop_bit (8 * i) k) = (if i = 0 then ucast k else 0 :: u8)" for i
    by simp
  then have "pubkey_to_bytes k = map (\<lambda>i. if i = 0 then ucast k else 0) (rev [0..<32])"
    by (simp only: pubkey_to_bytes_def)
  then show ?thesis by (simp add: upt_rec) (simp add: numeral_eq_Suc)
qed

lemma ex_flags [simp]: "ex_flag 50 = 3030" "ex_flag 51 = 3031" "ex_flag 52 = 3032"
  by (simp_all add: ex_flag_def find_duplication_flag_def ref_rt_def ref_address_def
      DUPLICATE_FLAG_SEED_def ascii_def of_char_def pubkey_to_bytes_small
      sum_list_replicate)

lemma ex_find_flag [simp]:
  "find_duplication_flag ref_rt ex_key 50 = (3030, 255)"
  "find_duplication_flag ref_rt ex_key 51 = (3031, 255)"
  "find_duplication_flag ref_rt ex_key 52 = (3032, 255)"
  using ex_flags by (simp_all add: ex_flag_def prod_eq_iff) (simp_all add: find_duplication_flag_def ref_rt_def)

lemma ex_validators_rep:
  "list_rep unborsh_validator 53 \<lparr>account = 21, item_size = 53, count = 2, new_account = 0,
     copied_count = 0\<rparr> ex_validator_data ex_validators"
proof -
  have i: "i = 0 \<or> i = 1" if "i < Suc (Suc 0)" for i using that by auto
  show ?thesis
    by (auto simp: list_rep_def ex_validator_data_def item_slot_def ex_validators_def
        validator_codec.ser_length pubkey_default_def VALIDATOR_DISCRIMINATOR_def ascii_def
        unborsh_borsh_validator [of _ "[]", simplified] dest!: i)
qed

lemma ex_validators_held:
  "validators_held ref_rt ex_state ex_world_flags ex_validators"
  "flags_held ref_rt ex_key ex_world_flags ex_validators"
proof -
  show "validators_held ref_rt ex_state ex_world_flags ex_validators"
    using ex_validators_rep
    by (simp add: validators_held_def validators_rep_def ex_world_flags_def ex_world_def
        ex_validators_def)
  show "flags_held ref_rt ex_key ex_world_flags ex_validators"
    by (simp add: flags_held_def ex_world_flags_def ex_validators_def)
qed

definition ex_add_validator :: add_validator_accounts where
  "ex_add_validator = \<lparr>av_manager_authority = 31, av_validator_list = 21, av_validator_vote = 52,
     av_duplication_flag = 3032, av_rent_payer = 40, av_system_program = 0\<rparr>"

definition ex_remove_validator :: remove_validator_accounts where
  "ex_remove_validator = \<lparr>rv_manager_authority = 31, rv_validator_list = 21,
     rv_duplication_flag = 3031, rv_operational_sol_account = 14\<rparr>"

lemma ex_validator_disc: "byte_slice ex_validator_data 0 8 = Some VALIDATOR_DISCRIMINATOR"
  by (simp add: byte_slice_def ex_validator_data_def VALIDATOR_DISCRIMINATOR_def ascii_def
      ex_validators_def validator_codec.ser_length)

lemma ex_validator_list_ok: "check_validator_list (validator_system ex_state) ex_world_flags 21 = Inr ()"
  using ex_validator_disc by (simp add: check_validator_list_Inr ex_world_flags_def ex_world_def)

lemma ex_add_validator_runs:
  obtains st' w' where
    "add_validator ref_rt ex_cx ex_key ex_add_validator 10 ex_state ex_world_flags = Inr (st', w')"
proof -
  let ?l = "\<lparr>account = 21, item_size = 53, count = 2, new_account = 0, copied_count = 0\<rparr>"
  have room: "8 + (length ex_validators + 1) * unat (item_size ?l) \<le> length ex_validator_data"
    by (simp add: ex_validator_data_def ex_validators_def VALIDATOR_DISCRIMINATOR_def ascii_def
        validator_codec.ser_length)
  let ?v = "\<lparr>validator_account = 52, active_balance = 0, score = 10,
      vr_last_stake_delta_epoch = - 1, duplication_flag_bump_seed = 255\<rparr>"
  obtain l d where push: "list_push borsh_validator ?l ex_validator_data ?v = Inr (l, d)"
    and rep: "list_rep unborsh_validator 53 l d (ex_validators @ [?v])"
    by (rule validator_codec.push_ok [OF ex_validators_rep room])
  have cnt: "unat (count l) = 3" using list_rep_count [OF rep] by (simp add: ex_validators_def)
  then have cnt': "count l = 3" by (simp add: word_unat_eq_iff)
  have get: "list_get unborsh_validator l d 2 = Inr ?v"
    using validator_codec.get_ok [OF rep, of 2] by (simp add: ex_validators_def)
  have d: "acc_data ex_world_flags 21 = ex_validator_data"
    by (simp add: ex_world_flags_def ex_world_def)
  have "add_validator_checks ref_rt ex_add_validator ex_state ex_world_flags = Inr ()"
    using ex_validator_list_ok
    by (simp add: add_validator_checks_def ex_add_validator_def check_validator_manager_authority_def
        check_defs ex_world_flags_def ex_world_def ref_minimum_balance_def)
  then have "\<not> isl (add_validator ref_rt ex_cx ex_key ex_add_validator 10 ex_state ex_world_flags)"
    using push get cnt'
    by (simp add: add_validator_def add_validator_process_def run_simps ex_add_validator_def
        validator_add_def validator_record_new_def d validator_count_def validator_get_def
        ref_minimum_balance_def ex_world_flags_def ex_world_def)
  then show ?thesis using that
    by (cases "add_validator ref_rt ex_cx ex_key ex_add_validator 10 ex_state ex_world_flags") auto
qed

lemma add_validator_keeps_witness:
  "\<exists>st' w' v. add_validator ref_rt ex_cx ex_key ex_add_validator 10 ex_state ex_world_flags
      = Inr (st', w')
    \<and> validators_held ref_rt st' w' (ex_validators @ [v]) \<and> validator_account v = 52"
proof -
  obtain st' w' where
    r: "add_validator ref_rt ex_cx ex_key ex_add_validator 10 ex_state ex_world_flags = Inr (st', w')"
    by (rule ex_add_validator_runs)
  have s: "rt_system_program ref_rt \<noteq> ID" using ID_not_system by simp
  from add_validator_keeps [OF ref.marinade_runtime_axioms s r ex_validators_held] r
  show ?thesis by (auto simp: ex_add_validator_def)
qed

lemma ex_validator_get:
  "validator_get ref_rt (validator_system ex_state) ex_validator_data 1 = Inr (ex_validators ! 1)"
  using validator_codec.get_ok [OF ex_validators_rep, of 1]
  by (simp add: validator_get_def ex_validators_def)

lemma ex_remove_validator_checks:
  "remove_validator_checks ex_remove_validator ex_state ex_world_flags = Inr ()"
  using ex_validator_list_ok
  by (simp add: remove_validator_checks_def ex_remove_validator_def
      check_validator_manager_authority_def check_operational_sol_account_def check_defs)

lemma ex_remove_flag:
  "duplication_flag_address ref_rt ex_key (ex_validators ! 1) = Inr (rv_duplication_flag ex_remove_validator)"
  using ex_flags(2)
  by (simp add: duplication_flag_address_def duplication_flag_seeds_def ex_validators_def ref_rt_def
      ex_flag_def find_duplication_flag_def ex_remove_validator_def)

lemma remove_validator_keeps_witness:
  "\<exists>st' w'. remove_validator ref_rt ex_cx ex_key ex_remove_validator 1 51 ex_state ex_world_flags
      = Inr (st', w')
    \<and> validators_held ref_rt st' w' (swap_remove ex_validators 1)
    \<and> unat (acc_lamports w' 14) = 890880"
proof -
  have d: "acc_data ex_world_flags 21 = ex_validator_data"
    by (simp add: ex_world_flags_def ex_world_def)
  obtain l e where rem: "list_remove (validator_list (validator_system ex_state)) ex_validator_data 1
      = Inr (l, e)"
    by (rule validator_codec.remove_ok [OF ex_validators_rep, of 1]) (simp_all add: ex_validators_def)
  have v: "validator_account (ex_validators ! 1) = 51" "active_balance (ex_validators ! 1) = 0"
    by (simp_all add: ex_validators_def)
  have "\<not> isl (remove_validator ref_rt ex_cx ex_key ex_remove_validator 1 51 ex_state ex_world_flags)"
    using ex_remove_validator_checks ex_validator_get ex_remove_flag rem v
    by (simp add: remove_validator_def remove_validator_process_def run_simps
        ex_remove_validator_def d validator_remove_def ex_world_flags_def ex_world_def)
  then obtain st' w' where
    r: "remove_validator ref_rt ex_cx ex_key ex_remove_validator 1 51 ex_state ex_world_flags
      = Inr (st', w')"
    by (cases "remove_validator ref_rt ex_cx ex_key ex_remove_validator 1 51 ex_state ex_world_flags")
      auto
  have "rv_duplication_flag ex_remove_validator \<noteq> operational_sol_account ex_state"
    by (simp add: ex_remove_validator_def)
  from remove_validator_keeps [OF ref.marinade_runtime_axioms r ex_validators_held this] r
  show ?thesis
    by (simp add: ex_remove_validator_def) (simp add: ex_world_flags_def ex_world_def)
qed

lemma remove_validator_errors_witness:
  "remove_validator ref_rt ex_cx ex_key ex_remove_validator 1 50 ex_state ex_world_flags
     = Inl InvalidArgument
   \<and> remove_validator ref_rt ex_cx ex_key ex_remove_validator 2 50 ex_state ex_world_flags
     = Inl InvalidArgument"
proof -
  have a: "check_attributes ex_cx [rv_manager_authority ex_remove_validator]
      [ex_key, rv_validator_list ex_remove_validator, rv_duplication_flag ex_remove_validator,
       rv_operational_sol_account ex_remove_validator] = Inr ()"
    by (simp add: check_attributes_def ex_remove_validator_def)
  have c: "check_context ex_cx = Inr ()" by (simp add: check_context_def)
  from remove_validator_errors [OF ref.marinade_runtime_axioms ex_validators_held(1) a c
      ex_remove_validator_checks]
  show ?thesis by (simp add: ex_validators_def)
qed

lemma set_validator_score_keeps_witness:
  "\<exists>st' w'. set_validator_score ref_rt ex_cx ex_key 31 21 1 51 25 ex_state ex_world_flags
      = Inr (st', w')
    \<and> validators_held ref_rt st' w' (ex_validators[1 := (ex_validators ! 1)\<lparr>score := 25\<rparr>])"
proof -
  have d: "acc_data ex_world_flags 21 = ex_validator_data"
    by (simp add: ex_world_flags_def ex_world_def)
  let ?v = "(ex_validators ! 1)\<lparr>score := 25\<rparr>"
  obtain e where set: "list_set borsh_validator (validator_list (validator_system ex_state))
      ex_validator_data 1 ?v = Inr e"
    by (rule validator_codec.set_ok [OF ex_validators_rep, of 1 ?v]) (simp_all add: ex_validators_def)
  have v: "validator_account (ex_validators ! 1) = 51" "score (ex_validators ! 1) = 10"
    by (simp_all add: ex_validators_def)
  have "\<not> isl (set_validator_score ref_rt ex_cx ex_key 31 21 1 51 25 ex_state ex_world_flags)"
    using ex_validator_list_ok ex_validator_get set v
    by (simp add: set_validator_score_def set_validator_score_process_def run_simps
        set_validator_score_checks_def check_validator_manager_authority_def d validator_set_def)
  then obtain st' w' where
    r: "set_validator_score ref_rt ex_cx ex_key 31 21 1 51 25 ex_state ex_world_flags = Inr (st', w')"
    by (cases "set_validator_score ref_rt ex_cx ex_key 31 21 1 51 25 ex_state ex_world_flags") auto
  from set_validator_score_keeps [OF ref.marinade_runtime_axioms r ex_validators_held] r
  show ?thesis by simp
qed

end
