(* ===== verification/Holdings.thy ===== *)
theory Holdings
  imports Validators
begin

text \<open>
  How the two lists held by the program's accounts change: across the instructions sent to other
  programs, which cannot touch them, and by the list operations of the stake handlers.
\<close>

lemma discriminators_differ [simp]: "STAKE_DISCRIMINATOR \<noteq> VALIDATOR_DISCRIMINATOR"
  by (simp add: STAKE_DISCRIMINATOR_def VALIDATOR_DISCRIMINATOR_def ascii_def of_char_def)

lemma lists_apart:
  "check_validator_list vs w a = Inr u \<Longrightarrow> check_stake_list ss w b = Inr u' \<Longrightarrow> a \<noteq> b"
  by (auto simp: check_validator_list_Inr check_stake_list_Inr)

lemma validators_held_cong:
  assumes "validators_held rt st w xs" and "validator_system st' = validator_system st"
    and "\<And>k. k = account (validator_list (validator_system st)) \<Longrightarrow> acc_owner w k = ID \<Longrightarrow>
      acc_owner w' k = ID \<and> acc_data w' k = acc_data w k"
  shows "validators_held rt st' w' xs"
  using assms by (simp add: validators_held_def Let_def)

lemma stakes_held_cong:
  assumes "stakes_held rt st w ys" and "stake_list (stake_system st') = stake_list (stake_system st)"
    and "\<And>k. k = account (stake_list (stake_system st)) \<Longrightarrow> acc_owner w k = ID \<Longrightarrow>
      acc_owner w' k = ID \<and> acc_data w' k = acc_data w k"
  shows "stakes_held rt st' w' ys"
  using assms by (simp add: stakes_held_def Let_def)

lemma validators_held_D:
  assumes "validators_held rt st w xs" and "k = account (validator_list (validator_system st))"
  shows "acc_owner w k = ID" and "validators_rep rt (validator_system st) (acc_data w k) xs"
  using assms by (simp_all add: validators_held_def Let_def)

lemma stakes_held_D:
  assumes "stakes_held rt st w ys" and "k = account (stake_list (stake_system st))"
  shows "acc_owner w k = ID"
    and "list_rep (rt_de_stake rt) (stake_record_len rt) (stake_list (stake_system st))
           (acc_data w k) ys"
  using assms by (simp_all add: stakes_held_def Let_def)

lemma active_le_total:
  assumes "validators_held rt st w xs" and "i < length xs"
  shows "active_balance (xs ! i) \<le> total_active_balance (validator_system st)"
  using validators_held_D(2) [OF assms(1) refl] nth_le_sum_list [OF assms(2), of "unat \<circ> active_balance"]
  by (simp add: validators_rep_def word_le_nat_alt)

text \<open>The lists do not depend on the fields that the handlers update beside them.\<close>

lemma held_updates [simp]:
  "validators_held rt (st\<lparr>stake_system := ss\<rparr>) = validators_held rt st"
  "validators_held rt (st\<lparr>available_reserve_balance := a\<rparr>) = validators_held rt st"
  "validators_held rt (st\<lparr>emergency_cooling_down := a\<rparr>) = validators_held rt st"
  "validators_held rt (st\<lparr>msol_supply := a\<rparr>) = validators_held rt st"
  "validators_held rt (st\<lparr>msol_price := a\<rparr>) = validators_held rt st"
  "stakes_held rt (st\<lparr>validator_system := vs\<rparr>) = stakes_held rt st"
  "stakes_held rt (st\<lparr>available_reserve_balance := a\<rparr>) = stakes_held rt st"
  "stakes_held rt (st\<lparr>emergency_cooling_down := a\<rparr>) = stakes_held rt st"
  "stakes_held rt (st\<lparr>msol_supply := a\<rparr>) = stakes_held rt st"
  "stakes_held rt (st\<lparr>msol_price := a\<rparr>) = stakes_held rt st"
  by (simp_all add: validators_held_def stakes_held_def Let_def fun_eq_iff)

context marinade_runtime
begin

lemma invoke_validators_held:
  "rt_invoke rt ix sg w = Inr w' \<Longrightarrow> validators_held rt st w xs \<Longrightarrow> validators_held rt st w' xs"
  using invoke_keeps_data [of ix sg w w'] invoke_keeps_owner [of ix sg w w']
  by (elim validators_held_cong) auto

lemma invoke_stakes_held:
  "rt_invoke rt ix sg w = Inr w' \<Longrightarrow> stakes_held rt st w ys \<Longrightarrow> stakes_held rt st w' ys"
  using invoke_keeps_data [of ix sg w w'] invoke_keeps_owner [of ix sg w w']
  by (elim stakes_held_cong) auto

lemma stake_get_Inr:
  assumes "stakes_held rt st w ys" and "k = account (stake_list (stake_system st))"
  shows "stake_get rt (stake_system st) (acc_data w k) i = Inr r \<longleftrightarrow>
    unat i < length ys \<and> r = ys ! unat i"
  using stakes.store.get_Inr [OF stakes_held_D(2) [OF assms]] by (simp add: stake_get_def)

lemma validator_get_Inr:
  assumes "validators_held rt st w xs" and "k = account (validator_list (validator_system st))"
  shows "validator_get rt (validator_system st) (acc_data w k) i = Inr v \<longleftrightarrow>
    unat i < length xs \<and> v = xs ! unat i"
  using validators.store.get_Inr [OF validators_rep_list [OF validators_held_D(2) [OF assms]]]
  by (simp add: validator_get_def)

lemma stake_add_held:
  assumes "stakes_held rt st w ys" and "k = account (stake_list (stake_system st))"
    and "stake_add rt (stake_system st) (acc_data w k) s n ck = Inr (ss, d)"
  shows "stakes_held rt (st\<lparr>stake_system := ss\<rparr>) (put_data k d w) (ys @ [stake_record_new s n ck])"
    and "ss = (stake_system st)\<lparr>stake_list := stake_list ss\<rparr>"
    and "account (stake_list ss) = k"
proof -
  from assms(3) obtain l where
    push: "list_push (rt_ser_stake rt) (stake_list (stake_system st)) (acc_data w k)
      (stake_record_new s n ck) = Inr (l, d)"
    and ss: "ss = (stake_system st)\<lparr>stake_list := l\<rparr>"
    by (auto simp: stake_add_Inr)
  have acct: "account l = k"
    using push assms(2) by (auto simp: list_push_def bindR_Inr)
  show "stakes_held rt (st\<lparr>stake_system := ss\<rparr>) (put_data k d w) (ys @ [stake_record_new s n ck])"
    using stakes.store.push_Inr [OF stakes_held_D(2) [OF assms(1,2)] push]
      stakes_held_D(1) [OF assms(1,2)] acct
    by (simp add: stakes_held_def ss Let_def)
  show "ss = (stake_system st)\<lparr>stake_list := stake_list ss\<rparr>" "account (stake_list ss) = k"
    using acct by (simp_all add: ss)
qed

lemma stake_set_held:
  assumes "stakes_held rt st w ys" and "k = account (stake_list (stake_system st))"
    and "stake_set rt (stake_system st) (acc_data w k) i r = Inr d"
  shows "stakes_held rt st (put_data k d w) (ys[unat i := r])" and "unat i < length ys"
  using stakes.store.put_Inr [OF stakes_held_D(2) [OF assms(1,2)]] assms(3)
    stakes_held_D(1) [OF assms(1,2)] assms(2)
  by (auto simp: stakes_held_def Let_def stake_set_def)

lemma stake_remove_held:
  assumes "stakes_held rt st w ys" and "k = account (stake_list (stake_system st))"
    and "stake_remove (stake_system st) (acc_data w k) i = Inr (ss, d)"
  shows "stakes_held rt (st\<lparr>stake_system := ss\<rparr>) (put_data k d w) (swap_remove ys (unat i))"
    and "unat i < length ys" and "ss = (stake_system st)\<lparr>stake_list := stake_list ss\<rparr>"
    and "account (stake_list ss) = k"
proof -
  from assms(3) obtain l where
    rem: "list_remove (stake_list (stake_system st)) (acc_data w k) i = Inr (l, d)"
    and ss: "ss = (stake_system st)\<lparr>stake_list := l\<rparr>"
    by (auto simp: stake_remove_Inr)
  have acct: "account l = k"
    using rem assms(2) by (auto simp: list_remove_def result_simps Let_def split: if_splits)
  note r = stakes.store.remove_Inr [OF stakes_held_D(2) [OF assms(1,2)] rem]
  show "stakes_held rt (st\<lparr>stake_system := ss\<rparr>) (put_data k d w) (swap_remove ys (unat i))"
    using r stakes_held_D(1) [OF assms(1,2)] acct by (simp add: stakes_held_def ss Let_def)
  show "unat i < length ys" using r by simp
  show "ss = (stake_system st)\<lparr>stake_list := stake_list ss\<rparr>" "account (stake_list ss) = k"
    using acct by (simp_all add: ss)
qed

text \<open>A validator's record and the total change by the same amount.\<close>

lemma validator_set_held:
  assumes "validators_held rt st w xs" and "k = account (validator_list (validator_system st))"
    and "validator_set rt vs (acc_data w k) i v = Inr d"
    and "validator_list vs = validator_list (validator_system st)"
    and "total_validator_score vs = total_validator_score (validator_system st)"
    and "score v = score (xs ! unat i)"
    and "unat (total_active_balance vs) + unat (active_balance (xs ! unat i))
      = unat (total_active_balance (validator_system st)) + unat (active_balance v)"
  shows "validators_held rt (st\<lparr>validator_system := vs\<rparr>) (put_data k d w) (xs[unat i := v])"
    and "unat i < length xs"
proof -
  note rep = validators_held_D(2) [OF assms(1,2)]
  note put = validators.store.put_Inr [OF validators_rep_list [OF rep]]
  have set: "list_set (rt_ser_validator rt) (validator_list (validator_system st)) (acc_data w k) i v
      = Inr d"
    using assms(3,4) by (simp add: validator_set_def)
  show i: "unat i < length xs" using put [OF set] by simp
  have "sum_list (map f (xs[unat i := v])) + f (xs ! unat i) = sum_list (map f xs) + f v"
    for f :: "validator_record \<Rightarrow> nat"
    by (rule sum_list_update_nat [OF i])
  from this [of "unat \<circ> score"] this [of "unat \<circ> active_balance"]
  have "validators_rep rt vs d (xs[unat i := v])"
    using put [OF set] rep assms(4-7) by (simp add: validators_rep_def)
  then show "validators_held rt (st\<lparr>validator_system := vs\<rparr>) (put_data k d w) (xs[unat i := v])"
    using validators_held_D(1) [OF assms(1,2)] assms(2,4) by (simp add: validators_held_def Let_def)
qed

text \<open>Writing one list leaves the other.\<close>

lemma put_data_validators_held:
  "validators_held rt st w xs \<Longrightarrow> k \<noteq> account (validator_list (validator_system st)) \<Longrightarrow>
   validators_held rt st (put_data k d w) xs"
  by (elim validators_held_cong) auto

lemma put_data_stakes_held:
  "stakes_held rt st w ys \<Longrightarrow> k \<noteq> account (stake_list (stake_system st)) \<Longrightarrow>
   stakes_held rt st (put_data k d w) ys"
  by (elim stakes_held_cong) auto

end

section \<open>The lists of the example\<close>

abbreviation ex_stake_header :: list_header where
  "ex_stake_header \<equiv> \<lparr>account = 20, item_size = 49, count = 3, new_account = 0, copied_count = 0\<rparr>"

abbreviation ex_validator_header :: list_header where
  "ex_validator_header \<equiv> \<lparr>account = 21, item_size = 53, count = 2, new_account = 0, copied_count = 0\<rparr>"

lemma ex_stakes_rep: "list_rep unborsh_stake 49 ex_stake_header ex_stake_data ex_stakes"
proof -
  have slot: "unborsh_stake (item_slot ex_stake_header ex_stake_data i) = Some (ex_stakes ! i)"
    if "i < 3" for i
  proof -
    from that consider "i = 0" | "i = 1" | "i = 2" by linarith
    then show ?thesis
      by cases (simp_all add: ex_stake_data_def item_slot_def ex_stakes_def stake_codec.ser_length
          STAKE_DISCRIMINATOR_def ascii_def unborsh_borsh_stake [of _ "[]", simplified])
  qed
  have len: "length ex_stakes = 3" "length ex_stake_data = 253"
    by (simp_all add: ex_stakes_def ex_stake_data_def stake_codec.ser_length
        STAKE_DISCRIMINATOR_def ascii_def)
  show ?thesis
    unfolding list_rep_def len using slot by (simp add: pubkey_default_def)
qed

lemma ex_stake_disc: "byte_slice ex_stake_data 0 8 = Some STAKE_DISCRIMINATOR"
  by (simp add: byte_slice_def ex_stake_data_def STAKE_DISCRIMINATOR_def ascii_def
      ex_stakes_def stake_codec.ser_length)

lemma ex_held:
  "validators_held ref_rt ex_state ex_world ex_validators"
  "stakes_held ref_rt ex_state ex_world ex_stakes"
  using ex_validators_rep ex_stakes_rep
  by (simp_all add: validators_held_def validators_rep_def stakes_held_def ex_world_def
      ex_validators_def)

lemma ex_lists_ok:
  "acc_data w 21 = ex_validator_data \<Longrightarrow> check_validator_list (validator_system ex_state) w 21 = Inr ()"
  "acc_data w 20 = ex_stake_data \<Longrightarrow> check_stake_list (stake_system ex_state) w 20 = Inr ()"
  using ex_validator_disc ex_stake_disc
  by (simp_all add: check_validator_list_Inr check_stake_list_Inr)

text \<open>Pushing and setting on the example's bytes succeed.\<close>

lemma ex_stake_push:
  obtains l d where "list_push borsh_stake ex_stake_header ex_stake_data r = Inr (l, d)"
    "list_rep unborsh_stake 49 l d (ex_stakes @ [r])" "account l = 20" "count l = 4"
proof -
  have room: "8 + (length ex_stakes + 1) * unat (item_size ex_stake_header) \<le> length ex_stake_data"
    by (simp add: ex_stake_data_def ex_stakes_def stake_codec.ser_length STAKE_DISCRIMINATOR_def
        ascii_def)
  obtain l d where p: "list_push borsh_stake ex_stake_header ex_stake_data r = Inr (l, d)"
    and rep: "list_rep unborsh_stake 49 l d (ex_stakes @ [r])"
    and a: "account l = account ex_stake_header"
    by (rule stake_codec.push_ok [OF ex_stakes_rep room])
  have "unat (count l) = 4" using list_rep_count [OF rep] by (simp add: ex_stakes_def)
  then show ?thesis using that [OF p rep] a by (simp add: word_unat_eq_iff)
qed

lemma ex_validator_set_ok:
  assumes "unat i < 2"
  obtains d where "list_set borsh_validator ex_validator_header ex_validator_data i r = Inr d"
  by (rule validator_codec.set_ok [OF ex_validators_rep, of i r])
    (use assms in \<open>simp_all add: ex_validators_def\<close>)

lemma ex_stake_set_ok:
  assumes "unat i < 3"
  obtains d where "list_set borsh_stake ex_stake_header ex_stake_data i r = Inr d"
    "list_rep unborsh_stake 49 ex_stake_header d (ex_stakes[unat i := r])"
  by (rule stake_codec.set_ok [OF ex_stakes_rep, of i r])
    (use assms in \<open>simp_all add: ex_stakes_def\<close>)

lemma ex_get:
  "list_get unborsh_validator ex_validator_header ex_validator_data 0 = Inr (ex_validators ! 0)"
  "list_get unborsh_validator ex_validator_header ex_validator_data 1 = Inr (ex_validators ! 1)"
  "list_get unborsh_stake ex_stake_header ex_stake_data 0 = Inr (ex_stakes ! 0)"
  "list_get unborsh_stake ex_stake_header ex_stake_data 1 = Inr (ex_stakes ! 1)"
  "list_get unborsh_stake ex_stake_header ex_stake_data 2 = Inr (ex_stakes ! 2)"
  using validator_codec.get_ok [OF ex_validators_rep, of 0]
    validator_codec.get_ok [OF ex_validators_rep, of 1]
    stake_codec.get_ok [OF ex_stakes_rep, of 0] stake_codec.get_ok [OF ex_stakes_rep, of 1]
    stake_codec.get_ok [OF ex_stakes_rep, of 2]
  by (simp_all add: ex_validators_def ex_stakes_def)

text \<open>The same accounts with other records.\<close>

definition validator_bytes :: "validator_record \<Rightarrow> validator_record \<Rightarrow> bytes" where
  "validator_bytes a b = VALIDATOR_DISCRIMINATOR @ concat (map borsh_validator [a, b]) @ replicate 53 0"

definition stake_bytes :: "stake_record \<Rightarrow> stake_record \<Rightarrow> stake_record \<Rightarrow> bytes" where
  "stake_bytes a b c = STAKE_DISCRIMINATOR @ concat (map borsh_stake [a, b, c]) @ replicate 98 0"

lemma validator_bytes_rep:
  "list_rep unborsh_validator 53 ex_validator_header (validator_bytes a b) [a, b]"
proof -
  have i: "i = 0 \<or> i = 1" if "i < Suc (Suc 0)" for i using that by auto
  show ?thesis
    by (auto simp: list_rep_def validator_bytes_def item_slot_def
        validator_codec.ser_length pubkey_default_def VALIDATOR_DISCRIMINATOR_def ascii_def
        unborsh_borsh_validator [of _ "[]", simplified] dest!: i)
qed

lemma stake_bytes_rep: "list_rep unborsh_stake 49 ex_stake_header (stake_bytes a b c) [a, b, c]"
proof -
  have slot: "unborsh_stake (item_slot ex_stake_header (stake_bytes a b c) i) = Some ([a, b, c] ! i)"
    if "i < 3" for i
  proof -
    from that consider "i = 0" | "i = 1" | "i = 2" by linarith
    then show ?thesis
      by cases (simp_all add: stake_bytes_def item_slot_def stake_codec.ser_length
          STAKE_DISCRIMINATOR_def ascii_def unborsh_borsh_stake [of _ "[]", simplified])
  qed
  have "length (stake_bytes a b c) = 253"
    by (simp add: stake_bytes_def stake_codec.ser_length STAKE_DISCRIMINATOR_def ascii_def)
  with slot show ?thesis by (simp add: list_rep_def pubkey_default_def)
qed

lemma bytes_discriminators [simp]:
  "byte_slice (validator_bytes a b) 0 8 = Some VALIDATOR_DISCRIMINATOR"
  "byte_slice (stake_bytes r s t) 0 8 = Some STAKE_DISCRIMINATOR"
  by (simp_all add: byte_slice_def validator_bytes_def stake_bytes_def VALIDATOR_DISCRIMINATOR_def
      STAKE_DISCRIMINATOR_def ascii_def validator_codec.ser_length stake_codec.ser_length)

end
