(* ===== verification/StakeReserve.thy ===== *)
theory StakeReserve
  imports Holdings
begin

text \<open>
  Staking from the reserve (\<open>stake_system/stake_reserve.rs\<close>): at the end of an epoch anyone may
  move the positive part of the stake delta into a new stake account of a validator below its
  target.
\<close>

section \<open>The handler\<close>

record stake_reserve_accounts =
  sr_validator_list :: pubkey
  sr_stake_list :: pubkey
  sr_validator_vote :: pubkey
  sr_reserve_pda :: pubkey
  sr_stake_account :: pubkey
  sr_stake_deposit_authority :: pubkey
  sr_stake_history :: pubkey
  sr_stake_config :: pubkey
  sr_system_program :: pubkey
  sr_stake_program :: pubkey

definition check_stake_history :: "runtime \<Rightarrow> pubkey \<Rightarrow> unit result" where
  "check_stake_history rt k = require (k = rt_stake_history rt) InvalidArgument"

text \<open>\<open>u64::try_from(n).expect(..)\<close> of an \<open>i128\<close>.\<close>

definition u64_of :: "int \<Rightarrow> u64 result" where
  "u64_of n = (if 0 \<le> n \<and> n < 2 ^ 64 then Inr (word_of_int n) else Inl Panic)"

definition stake_reserve_checks ::
  "runtime \<Rightarrow> pubkey \<Rightarrow> stake_reserve_accounts \<Rightarrow> stake_state \<Rightarrow> state \<Rightarrow> world \<Rightarrow> unit result" where
  "stake_reserve_checks rt key ac stake st w = all_ok
     [check_validator_list (validator_system st) w (sr_validator_list ac),
      check_stake_list (stake_system st) w (sr_stake_list ac),
      check_reserve_address rt key st (sr_reserve_pda ac),
      check_stake_history rt (sr_stake_history ac),
      check_stake_deposit_authority rt key (stake_system st) (sr_stake_deposit_authority ac),
      check_owner_program w (sr_stake_account ac) (rt_stake_program rt),
      require (stake = StakeUninitialized) InvalidAccountData,
      require (acc_lamports w (sr_stake_account ac) = rt_minimum_balance rt (rt_stake_state_size rt))
        InvalidAccountData,
      check_address (sr_stake_config ac) (rt_stake_config rt),
      check_address (sr_system_program ac) (rt_system_program rt),
      check_address (sr_stake_program ac) (rt_stake_program rt)]"

text \<open>
  The first stake of an epoch for a validator marks it; a further one uses up one of the extra
  runs. \<open>None\<close>: no run is left, and the instruction ends without an error.
\<close>

definition stake_reserve_run ::
  "clock \<Rightarrow> state \<Rightarrow> validator_record \<Rightarrow> (state \<times> validator_record) option result" where
  "stake_reserve_run ck st v =
     (if vr_last_stake_delta_epoch v = epoch ck
      then if extra_stake_delta_runs (stake_system st) = 0 then Inr None
           else bindR (psub (extra_stake_delta_runs (stake_system st)) 1) (\<lambda>r.
                Inr (Some (st\<lparr>stake_system := (stake_system st)\<lparr>extra_stake_delta_runs := r\<rparr>\<rparr>, v)))
      else Inr (Some (st, v\<lparr>vr_last_stake_delta_epoch := epoch ck\<rparr>)))"

text \<open>The last \<open>slots_for_stake_delta\<close> slots of the epoch.\<close>

definition check_delta_window :: "runtime \<Rightarrow> clock \<Rightarrow> stake_system \<Rightarrow> unit result" where
  "check_delta_window rt ck ss =
     require (\<not> slot ck < saturating_sub (rt_last_slot_in_epoch rt (epoch ck))
                            (slots_for_stake_delta ss)) (Custom 332)"

definition stake_reserve_amount ::
  "stake_system \<Rightarrow> validator_record \<Rightarrow> u64 \<Rightarrow> u64 \<Rightarrow> u64 result" where
  "stake_reserve_amount ss v validator_target delta =
     (let t = min (max (saturating_sub validator_target (active_balance v)) (min_stake ss)) delta in
      bindR (psub delta t) (\<lambda>rest. Inr (if rest < min_stake ss then delta else t)))"

text \<open>The staking of \<open>n\<close> lamports: transfer, initialise, delegate, record.\<close>

definition stake_reserve_stake ::
  "runtime \<Rightarrow> pubkey \<Rightarrow> clock \<Rightarrow> stake_reserve_accounts \<Rightarrow> pubkey \<Rightarrow> pubkey \<Rightarrow> u32 \<Rightarrow> validator_record
    \<Rightarrow> u64 \<Rightarrow> state \<Rightarrow> world \<Rightarrow> (state \<times> world) result" where
  "stake_reserve_stake rt key ck ac staker_key withdrawer_key index v n st w =
     bindR (rt_invoke rt (SystemTransfer (sr_reserve_pda ac) (sr_stake_account ac) n)
              [reserve_seeds key st] w) (\<lambda>w1.
     let st1 = on_transfer_from_reserve st n in
     bindR (rt_invoke rt (StakeInitialize (sr_stake_account ac) staker_key withdrawer_key) [] w1)
       (\<lambda>w2.
     bindR (rt_invoke rt (StakeDelegate (sr_stake_account ac) (sr_validator_vote ac) staker_key)
              [stake_deposit_seeds key (stake_system st1)] w2) (\<lambda>w3.
     bindR (stake_add rt (stake_system st1) (acc_data w3 (sr_stake_list ac)) (sr_stake_account ac)
              n ck) (\<lambda>(ss, sdata).
     let w4 = put_data (sr_stake_list ac) sdata w3 in
     bindR (ok_or (checked_add (active_balance v) n) (Common CalculationFailure)) (\<lambda>b.
     let v1 = v\<lparr>active_balance := b, vr_last_stake_delta_epoch := epoch ck\<rparr>;
         st2 = st1\<lparr>stake_system := ss\<lparr>last_stake_delta_epoch := epoch ck\<rparr>\<rparr> in
     bindR (validator_set rt (validator_system st2) (acc_data w4 (sr_validator_list ac)) index v1)
       (\<lambda>vdata.
     bindR (ok_or (checked_add (total_active_balance (validator_system st2)) n)
              (Common CalculationFailure)) (\<lambda>t.
     Inr (st2\<lparr>validator_system := (validator_system st2)\<lparr>total_active_balance := t\<rparr>\<rparr>,
          put_data (sr_validator_list ac) vdata w4))))))))"

text \<open>With a positive delta: choose the amount for the given validator, and stake it.\<close>

definition stake_reserve_delta ::
  "runtime \<Rightarrow> pubkey \<Rightarrow> clock \<Rightarrow> stake_reserve_accounts \<Rightarrow> pubkey \<Rightarrow> pubkey \<Rightarrow> u32 \<Rightarrow> u64 \<Rightarrow> state
    \<Rightarrow> world \<Rightarrow> (state \<times> world) result" where
  "stake_reserve_delta rt key ck ac staker_key withdrawer_key index delta st w =
     (let total_stake_target = saturating_add (total_active_balance (validator_system st)) delta in
     bindR (validator_get rt (validator_system st) (acc_data w (sr_validator_list ac)) index) (\<lambda>v.
     bindR (check_address (sr_validator_vote ac) (validator_account v)) (\<lambda>_.
     bindR (stake_reserve_run ck st v) (\<lambda>run.
     case run of None \<Rightarrow> Inr (st, w) | Some (st1, v1) \<Rightarrow>
       bindR (check_delta_window rt ck (stake_system st1)) (\<lambda>_.
       bindR (validator_stake_target (validator_system st1) v1 total_stake_target) (\<lambda>target.
       if active_balance v1 \<ge> target then Inr (st1, w)
       else bindR (stake_reserve_amount (stake_system st1) v1 target delta) (\<lambda>n.
            stake_reserve_stake rt key ck ac staker_key withdrawer_key index v1 n st1 w)))))))"

definition stake_reserve_process ::
  "runtime \<Rightarrow> pubkey \<Rightarrow> clock \<Rightarrow> stake_reserve_accounts \<Rightarrow> stake_state \<Rightarrow> u32 \<Rightarrow> state \<Rightarrow> world
    \<Rightarrow> (state \<times> world) result" where
  "stake_reserve_process rt key ck ac stake index st w =
     bindR (stake_reserve_checks rt key ac stake st w) (\<lambda>_.
     bindR (stake_deposit_authority rt key (stake_system st)) (\<lambda>staker_key.
     bindR (stake_withdraw_authority rt key (stake_system st)) (\<lambda>withdrawer_key.
     bindR (stake_delta st (acc_lamports w (sr_reserve_pda ac))) (\<lambda>delta.
     if delta \<le> 0
     then if delta < 0 then bindR (u64_of (- delta)) (\<lambda>_. Inr (st, w)) else Inr (st, w)
     else bindR (u64_of delta) (\<lambda>d.
          stake_reserve_delta rt key ck ac staker_key withdrawer_key index d st w)))))"

definition stake_reserve ::
  "runtime \<Rightarrow> call_context \<Rightarrow> pubkey \<Rightarrow> stake_reserve_accounts \<Rightarrow> u32 \<Rightarrow> state \<Rightarrow> world
    \<Rightarrow> (state \<times> world) result" where
  "stake_reserve rt cx key ac index st w =
     bindR (check_attributes cx []
       [key, sr_validator_list ac, sr_stake_list ac, sr_validator_vote ac, sr_reserve_pda ac,
        sr_stake_account ac]) (\<lambda>_.
     bindR (load_stake w (sr_stake_account ac)) (\<lambda>stake.
     bindR (check_context cx) (\<lambda>_.
     stake_reserve_process rt key (cx_clock cx) ac stake index st w)))"

section \<open>Facts\<close>

lemma check_stake_authorities_Inr [result_simps]:
  "check_stake_deposit_authority rt key ss a = Inr u \<longleftrightarrow> stake_deposit_authority rt key ss = Inr a"
  "check_stake_withdraw_authority rt key ss a = Inr u \<longleftrightarrow> stake_withdraw_authority rt key ss = Inr a"
  by (auto simp: check_stake_deposit_authority_def check_stake_withdraw_authority_def result_simps)

lemma u64_of_Inr [result_simps]: "u64_of n = Inr x \<longleftrightarrow> n = int (unat x)"
proof -
  have "uint x < 2 ^ 64" "0 \<le> uint x" using uint_lt2p [of x] by simp_all
  then show ?thesis
    by (auto simp: u64_of_def uint_word_of_int take_bit_int_eq_self_iff word_of_int_uint
        simp flip: take_bit_eq_mod)
qed

lemma check_delta_window_Inr [result_simps]:
  "check_delta_window rt ck ss = Inr u \<longleftrightarrow>
     unat (rt_last_slot_in_epoch rt (epoch ck)) \<le> unat (slot ck) + unat (slots_for_stake_delta ss)"
  by (auto simp: check_delta_window_def word_less_nat_alt)

lemma stake_reserve_amount_Inr:
  assumes "stake_reserve_amount ss v target delta = Inr n"
    and "active_balance v < target" and "0 < delta"
  shows "0 < n" and "n \<le> delta"
    and "n = delta \<or> min_stake ss \<le> n \<and> unat n + unat (min_stake ss) \<le> unat delta"
proof -
  let ?t = "min (max (saturating_sub target (active_balance v)) (min_stake ss)) delta"
  have n: "n = (if delta - ?t < min_stake ss then delta else ?t)"
    using assms(1) by (auto simp: stake_reserve_amount_def Let_def bindR_Inr ok_or_Inr
        checked_sub_def split: if_splits)
  have "0 < ?t" using assms(2,3)
    by (simp add: word_less_nat_alt)
  then show "0 < n" "n \<le> delta" using assms(3) by (auto simp: n)
  have t: "unat ?t = min (max (unat target - unat (active_balance v)) (unat (min_stake ss))) (unat delta)"
    by simp
  have d: "unat (delta - ?t) = unat delta - unat ?t" by (intro unat_diff_le) simp
  show "n = delta \<or> min_stake ss \<le> n \<and> unat n + unat (min_stake ss) \<le> unat delta"
  proof (cases "delta - ?t < min_stake ss")
    case False
    then have "n = ?t" by (simp only: n if_False)
    moreover have "unat (min_stake ss) \<le> unat delta - unat ?t"
      using False d by (simp only: word_less_nat_alt not_less)
    moreover have "unat ?t \<le> unat delta" "unat (min_stake ss) \<le> unat ?t"
      using calculation(2) by (simp_all only: t)
    ultimately have "unat (min_stake ss) \<le> unat n" "unat n + unat (min_stake ss) \<le> unat delta"
      by (metis, metis add.commute le_diff_conv2)
    then show ?thesis by (simp add: word_le_nat_alt)
  qed (simp add: n)
qed

lemma stake_reserve_run_Inr:
  assumes "stake_reserve_run ck st v = Inr (Some (st1, v1))"
  shows "st1 = st \<or> 0 < extra_stake_delta_runs (stake_system st) \<and>
      st1 = st\<lparr>stake_system := (stake_system st)
        \<lparr>extra_stake_delta_runs := extra_stake_delta_runs (stake_system st) - 1\<rparr>\<rparr>"
    and "\<exists>x. st1 = st\<lparr>stake_system := (stake_system st)\<lparr>extra_stake_delta_runs := x\<rparr>\<rparr>"
    and "score v1 = score v" "active_balance v1 = active_balance v"
    and "validator_account v1 = validator_account v"
proof -
  from assms show d: "st1 = st \<or> 0 < extra_stake_delta_runs (stake_system st) \<and>
      st1 = st\<lparr>stake_system := (stake_system st)
        \<lparr>extra_stake_delta_runs := extra_stake_delta_runs (stake_system st) - 1\<rparr>\<rparr>"
    by (auto simp: stake_reserve_run_def bindR_Inr ok_or_Inr checked_sub_def word_neq_0_conv
        split: if_splits)
  then show "\<exists>x. st1 = st\<lparr>stake_system := (stake_system st)\<lparr>extra_stake_delta_runs := x\<rparr>\<rparr>"
  proof
    assume "st1 = st"
    then show ?thesis by (intro exI [of _ "extra_stake_delta_runs (stake_system st)"]) simp
  qed blast
qed (use assms in \<open>auto simp: stake_reserve_run_def bindR_Inr split: if_splits\<close>)

text \<open>What a staking run does to the lamports, the lists and the totals.\<close>

definition staked :: "runtime \<Rightarrow> clock \<Rightarrow> stake_reserve_accounts \<Rightarrow> u32 \<Rightarrow> u64 \<Rightarrow> state \<Rightarrow> world
    \<Rightarrow> validator_record list \<Rightarrow> stake_record list \<Rightarrow> state \<Rightarrow> world \<Rightarrow> bool" where
  "staked rt ck ac index n st w xs ys st' w' \<longleftrightarrow>
     can_move (sr_reserve_pda ac) (sr_stake_account ac) n (acc_lamports w)
     \<and> acc_lamports w' = move_u64 (sr_reserve_pda ac) (sr_stake_account ac) n (acc_lamports w)
     \<and> unat index < length xs
     \<and> (\<exists>v'. validators_held rt st' w' (xs[unat index := v']) \<and> score v' = score (xs ! unat index)
          \<and> validator_account v' = sr_validator_vote ac
          \<and> validator_account (xs ! unat index) = sr_validator_vote ac
          \<and> vr_last_stake_delta_epoch v' = epoch ck
          \<and> unat (active_balance v') = unat (active_balance (xs ! unat index)) + unat n)
     \<and> stakes_held rt st' w' (ys @ [stake_record_new (sr_stake_account ac) n ck])
     \<and> unat (total_active_balance (validator_system st'))
         = unat (total_active_balance (validator_system st)) + unat n
     \<and> available_reserve_balance st' = saturating_sub (available_reserve_balance st) n
     \<and> delayed_unstake_cooling_down (stake_system st') = delayed_unstake_cooling_down (stake_system st)
     \<and> emergency_cooling_down st' = emergency_cooling_down st
     \<and> circulating_ticket_balance st' = circulating_ticket_balance st
     \<and> msol_supply st' = msol_supply st
     \<and> token_amount w' = token_amount w \<and> mint_supply w' = mint_supply w"

context marinade_runtime
begin

lemma stake_reserve_stake_effect:
  assumes run: "stake_reserve_stake rt key ck ac sk wk index v n st w = Inr (st', w')"
    and vh: "validators_held rt st w xs" and sh: "stakes_held rt st w ys"
    and vl: "sr_validator_list ac = account (validator_list (validator_system st))"
    and sl: "sr_stake_list ac = account (stake_list (stake_system st))"
    and apart: "sr_validator_list ac \<noteq> sr_stake_list ac"
    and v: "score v = score (xs ! unat index)" "active_balance v = active_balance (xs ! unat index)"
      "validator_account v = sr_validator_vote ac"
      "validator_account (xs ! unat index) = sr_validator_vote ac"
  shows "staked rt ck ac index n st w xs ys st' w'"
proof -
  let ?r = "sr_reserve_pda ac" and ?s = "sr_stake_account ac"
  let ?v = "\<lambda>b. v\<lparr>active_balance := b, vr_last_stake_delta_epoch := epoch ck\<rparr>"
  from run obtain w1 w2 w3 ss sdata b vdata t where
    tr: "rt_invoke rt (SystemTransfer ?r ?s n) [reserve_seeds key st] w = Inr w1"
    and ini: "rt_invoke rt (StakeInitialize ?s sk wk) [] w1 = Inr w2"
    and del: "rt_invoke rt (StakeDelegate ?s (sr_validator_vote ac) sk)
        [stake_deposit_seeds key (stake_system (on_transfer_from_reserve st n))] w2 = Inr w3"
    and add: "stake_add rt (stake_system (on_transfer_from_reserve st n))
        (acc_data w3 (sr_stake_list ac)) ?s n ck = Inr (ss, sdata)"
    and b: "checked_add (active_balance v) n = Some b"
    and set: "validator_set rt (validator_system (on_transfer_from_reserve st n))
        (acc_data (put_data (sr_stake_list ac) sdata w3) (sr_validator_list ac)) index (?v b) = Inr vdata"
    and t: "checked_add (total_active_balance (validator_system (on_transfer_from_reserve st n))) n = Some t"
    and st': "st' = (on_transfer_from_reserve st n)\<lparr>
        stake_system := ss\<lparr>last_stake_delta_epoch := epoch ck\<rparr>,
        validator_system := (validator_system (on_transfer_from_reserve st n))
          \<lparr>total_active_balance := t\<rparr>\<rparr>"
    and w': "w' = put_data (sr_validator_list ac) vdata (put_data (sr_stake_list ac) sdata w3)"
    by (auto simp: stake_reserve_stake_def bindR_Inr ok_or_Inr Let_def simp del: put_data_simps)
  note sel = on_transfer_from_reserve_def
  have vh3: "validators_held rt st w3 xs" and sh3: "stakes_held rt st w3 ys"
    using invoke_validators_held [OF del] invoke_validators_held [OF ini]
      invoke_validators_held [OF tr] invoke_stakes_held [OF del] invoke_stakes_held [OF ini]
      invoke_stakes_held [OF tr] vh sh by blast+
  have add': "stake_add rt (stake_system st) (acc_data w3 (sr_stake_list ac)) ?s n ck = Inr (ss, sdata)"
    using add by (simp add: sel)
  note sadd = stake_add_held [OF sh3 sl add']
  have vh4: "validators_held rt st (put_data (sr_stake_list ac) sdata w3) xs"
    using put_data_validators_held [OF vh3] apart vl by simp
  have set': "validator_set rt ((validator_system st)\<lparr>total_active_balance := t\<rparr>)
      (acc_data (put_data (sr_stake_list ac) sdata w3) (sr_validator_list ac)) index (?v b) = Inr vdata"
    using set by (simp add: sel validator_set_def)
  have sums: "unat b = unat (active_balance v) + unat n"
    "unat t = unat (total_active_balance (validator_system st)) + unat n"
    using b t by (simp_all add: checked_add_Some sel)
  note vset = validator_set_held [OF vh4 vl set']
  have i: "unat index < length xs" and vh5:
    "validators_held rt (st\<lparr>validator_system := (validator_system st)\<lparr>total_active_balance := t\<rparr>\<rparr>) w'
      (xs[unat index := ?v b])"
    using vset v sums by (simp_all add: w')
  have "validators_held rt st' w' (xs[unat index := ?v b])"
    using vh5 by (rule validators_held_cong) (simp_all add: st' sel)
  moreover have "stakes_held rt st' w' (ys @ [stake_record_new ?s n ck])"
    using sadd(1) by (rule stakes_held_cong) (use sadd(3) apart in \<open>simp_all add: st' sel w'\<close>)
  moreover have "can_move ?r ?s n (acc_lamports w)"
    "acc_lamports w' = move_u64 ?r ?s n (acc_lamports w)"
    and tk: "acc_token w' = acc_token w" "acc_mint w' = acc_mint w"
    using system_transfer [OF tr] stake_admin [OF ini] stake_admin [OF del]
    by (simp_all add: stakes_only_def w')
  moreover have "token_amount w' = token_amount w" "mint_supply w' = mint_supply w"
    using tk by (simp_all add: token_amount_def mint_supply_def fun_eq_iff)
  moreover have "delayed_unstake_cooling_down ss = delayed_unstake_cooling_down (stake_system st)"
    by (subst sadd(2)) simp
  then have "delayed_unstake_cooling_down (stake_system st')
      = delayed_unstake_cooling_down (stake_system st)"
    by (simp add: st')
  moreover have "score (?v b) = score (xs ! unat index)" "validator_account (?v b) = sr_validator_vote ac"
    "vr_last_stake_delta_epoch (?v b) = epoch ck"
    "unat (active_balance (?v b)) = unat (active_balance (xs ! unat index)) + unat n"
    using v sums by simp_all
  moreover have "unat (total_active_balance (validator_system st'))
      = unat (total_active_balance (validator_system st)) + unat n"
    "available_reserve_balance st' = saturating_sub (available_reserve_balance st) n"
    "emergency_cooling_down st' = emergency_cooling_down st"
    "circulating_ticket_balance st' = circulating_ticket_balance st"
    "msol_supply st' = msol_supply st"
    using sums by (simp_all add: st' sel)
  ultimately show ?thesis
    unfolding staked_def using i v(4) by (intro conjI exI [of _ "?v b"])
qed

lemma stake_reserve_effect:
  assumes run: "stake_reserve rt cx key ac index st w = Inr (st', w')"
    and vh: "validators_held rt st w xs" and sh: "stakes_held rt st w ys"
  shows "w' = w \<and> (st' = st \<or> 0 < extra_stake_delta_runs (stake_system st) \<and>
      st' = st\<lparr>stake_system := (stake_system st)
        \<lparr>extra_stake_delta_runs := extra_stake_delta_runs (stake_system st) - 1\<rparr>\<rparr>)
    \<or> (\<exists>n. staked rt (cx_clock cx) ac index n st w xs ys st' w' \<and> 0 < n
        \<and> (let d = delta_spec st (unat (acc_lamports w (sr_reserve_pda ac))) in int (unat n) = d
             \<or> min_stake (stake_system st) \<le> n \<and> int (unat n) + int (unat (min_stake (stake_system st))) \<le> d)
        \<and> unat (rt_last_slot_in_epoch rt (epoch (cx_clock cx)))
            \<le> unat (slot (cx_clock cx)) + unat (slots_for_stake_delta (stake_system st))
        \<and> reserve_address rt key st = Inr (sr_reserve_pda ac))"
proof -
  let ?ck = "cx_clock cx" and ?r = "sr_reserve_pda ac"
  from run obtain stake where
    run1: "stake_reserve_process rt key ?ck ac stake index st w = Inr (st', w')"
    by (auto simp: stake_reserve_def bindR_Inr)
  then obtain sk wk delta where chk: "stake_reserve_checks rt key ac stake st w = Inr ()"
    and delta: "stake_delta st (acc_lamports w ?r) = Inr delta"
    and run2: "(if delta \<le> 0
      then if delta < 0 then bindR (u64_of (- delta)) (\<lambda>_. Inr (st, w)) else Inr (st, w)
      else bindR (u64_of delta) (\<lambda>d.
        stake_reserve_delta rt key ?ck ac sk wk index d st w)) = Inr (st', w')"
    by (auto simp: stake_reserve_process_def bindR_Inr)
  have cl: "check_validator_list (validator_system st) w (sr_validator_list ac) = Inr ()"
    "check_stake_list (stake_system st) w (sr_stake_list ac) = Inr ()"
    and ra: "reserve_address rt key st = Inr ?r"
    using chk by (simp_all add: stake_reserve_checks_def bindR_Inr state_checks_Inr)
  have vl: "sr_validator_list ac = account (validator_list (validator_system st))"
    and sl: "sr_stake_list ac = account (stake_list (stake_system st))"
    using cl by (simp_all add: check_validator_list_Inr check_stake_list_Inr)
  note apart = lists_apart [OF cl]
  have spec: "delta = delta_spec st (unat (acc_lamports w ?r))"
    using delta stake_delta_eq [of st "acc_lamports w ?r"] by simp
  show ?thesis
  proof (cases "delta \<le> 0")
    case True
    with run2 have "st' = st \<and> w' = w" by (auto simp: bindR_Inr split: if_splits)
    then show ?thesis by blast
  next
    case False
    with run2 obtain d where d: "delta = int (unat d)"
      and run3: "stake_reserve_delta rt key ?ck ac sk wk index d st w = Inr (st', w')"
      by (auto simp: bindR_Inr u64_of_Inr)
    from run3 obtain v where
      get: "validator_get rt (validator_system st) (acc_data w (sr_validator_list ac)) index = Inr v"
      and vote: "sr_validator_vote ac = validator_account v"
      and run4: "bindR (stake_reserve_run ?ck st v) (\<lambda>run.
        case run of None \<Rightarrow> Inr (st, w) | Some (st1, v1) \<Rightarrow>
          bindR (check_delta_window rt ?ck (stake_system st1)) (\<lambda>_.
          bindR (validator_stake_target (validator_system st1) v1
              (saturating_add (total_active_balance (validator_system st)) d)) (\<lambda>target.
          if active_balance v1 \<ge> target then Inr (st1, w)
          else bindR (stake_reserve_amount (stake_system st1) v1 target d) (\<lambda>n.
            stake_reserve_stake rt key ?ck ac sk wk index v1 n st1 w)))) = Inr (st', w')"
      by (auto simp: stake_reserve_delta_def bindR_Inr Let_def check_Inr)
    have v: "unat index < length xs" "v = xs ! unat index"
      using get validator_get_Inr [OF vh vl] by auto
    from run4 obtain st1 v1 where "st' = st \<and> w' = w \<or>
        stake_reserve_run ?ck st v = Inr (Some (st1, v1))"
      by (auto simp: bindR_Inr split: option.splits)
    then show ?thesis
    proof
      assume r: "stake_reserve_run ?ck st v = Inr (Some (st1, v1))"
      note run_effect = stake_reserve_run_Inr [OF r]
      from run_effect(2) obtain x where
        st1: "st1 = st\<lparr>stake_system := (stake_system st)\<lparr>extra_stake_delta_runs := x\<rparr>\<rparr>"
        by blast
      note x = run_effect(1) and v1 = run_effect(3-5)
      from run4 r obtain target where
        win: "check_delta_window rt ?ck (stake_system st1) = Inr ()"
        and run5: "(if active_balance v1 \<ge> target then Inr (st1, w)
          else bindR (stake_reserve_amount (stake_system st1) v1 target d) (\<lambda>n.
            stake_reserve_stake rt key ?ck ac sk wk index v1 n st1 w)) = Inr (st', w')"
        by (auto simp: bindR_Inr)
      show ?thesis
      proof (cases "active_balance v1 \<ge> target")
        case True
        with run5 have "st' = st1 \<and> w' = w" by simp
        with x show ?thesis by blast
      next
        case False
        with run5 obtain n where n: "stake_reserve_amount (stake_system st1) v1 target d = Inr n"
          and run6: "stake_reserve_stake rt key ?ck ac sk wk index v1 n st1 w = Inr (st', w')"
          by (auto simp: bindR_Inr)
        have lt: "active_balance v1 < target" using False by simp
        have "0 < d" using \<open>\<not> delta \<le> 0\<close> d by (simp add: word_gt_0_unat del: of_nat_unat)
        note amt = stake_reserve_amount_Inr [OF n lt this]
        have "staked rt ?ck ac index n st1 w xs ys st' w'"
          by (rule stake_reserve_stake_effect [OF run6])
            (use vh sh vl sl apart v v1 vote in \<open>simp_all add: st1 stakes_held_def Let_def\<close>)
        then have "staked rt ?ck ac index n st w xs ys st' w'"
          by (simp add: staked_def st1)
        moreover have "unat (rt_last_slot_in_epoch rt (epoch ?ck))
            \<le> unat (slot ?ck) + unat (slots_for_stake_delta (stake_system st))"
          using win by (simp add: check_delta_window_Inr st1)
        moreover have "0 < n" "int (unat n) = delta \<or> min_stake (stake_system st) \<le> n \<and>
            int (unat n) + int (unat (min_stake (stake_system st))) \<le> delta"
          using amt d by (auto simp: st1 simp del: of_nat_unat simp flip: of_nat_add)
        ultimately show ?thesis using ra by (auto simp: spec [symmetric] Let_def)
      qed
    qed simp
  qed
qed

end

section \<open>Properties\<close>

lemma staked_keeps_value:
  assumes "staked rt ck ac index n st w xs ys st' w'"
    and "n \<le> available_reserve_balance st"
  shows "virtual_staked st' = virtual_staked st"
  using assms by (simp add: staked_def virtual_staked_def under_control_def word_le_nat_alt)

text \<open>
  C15. A run of \<open>stake_reserve\<close> either stakes nothing (at most an extra run is used up), or it
  moves an amount out of the reserve into a new stake of the named validator: within the last
  slots of the epoch, at most the positive stake delta, all of it or at least the minimum stake
  leaving at least the minimum stake. Both lists and the totals then record it, and no token moves.
  The price of mSOL is the same provided that the recorded reserve covers the amount: the handler does not
  check that it does, and beyond it the price is not claimed.
\<close>
theorem stake_reserve_stakes:
  assumes "marinade_runtime rt"
    and "stake_reserve rt cx key ac index st w = Inr (st', w')"
    and "validators_held rt st w xs" and "stakes_held rt st w ys"
    and "sr_reserve_pda ac \<noteq> sr_stake_account ac"
  shows "w' = w \<and> (st' = st \<or> st' = st\<lparr>stake_system := (stake_system st)
        \<lparr>extra_stake_delta_runs := extra_stake_delta_runs (stake_system st) - 1\<rparr>\<rparr>)
    \<or> (\<exists>n v'. 0 < n
        \<and> (let d = delta_spec st (unat (acc_lamports w (sr_reserve_pda ac)));
               m = int (unat (min_stake (stake_system st)))
           in int (unat n) = d \<or> m \<le> int (unat n) \<and> m \<le> d - int (unat n))
        \<and> unat (rt_last_slot_in_epoch rt (epoch (cx_clock cx)))
            \<le> unat (slot (cx_clock cx)) + unat (slots_for_stake_delta (stake_system st))
        \<and> unat (acc_lamports w' (sr_reserve_pda ac)) + unat n
            = unat (acc_lamports w (sr_reserve_pda ac))
        \<and> unat (acc_lamports w' (sr_stake_account ac))
            = unat (acc_lamports w (sr_stake_account ac)) + unat n
        \<and> validator_account (xs ! unat index) = sr_validator_vote ac
        \<and> unat (active_balance v') = unat (active_balance (xs ! unat index)) + unat n
        \<and> validators_held rt st' w' (xs[unat index := v'])
        \<and> stakes_held rt st' w' (ys @ [stake_record_new (sr_stake_account ac) n (cx_clock cx)])
        \<and> token_amount w' = token_amount w \<and> mint_supply w' = mint_supply w
        \<and> (n \<le> available_reserve_balance st \<longrightarrow> virtual_staked st' = virtual_staked st)
        \<and> msol_supply st' = msol_supply st)"
  using marinade_runtime.stake_reserve_effect [OF assms(1-4)]
proof (elim disjE exE conjE, goal_cases)
  case (3 n)
  from 3(1) obtain v' where v': "validators_held rt st' w' (xs[unat index := v'])"
    "validator_account (xs ! unat index) = sr_validator_vote ac"
    "unat (active_balance v') = unat (active_balance (xs ! unat index)) + unat n"
    by (auto simp: staked_def)
  have m: "can_move (sr_reserve_pda ac) (sr_stake_account ac) n (acc_lamports w)"
    "acc_lamports w' = move_u64 (sr_reserve_pda ac) (sr_stake_account ac) n (acc_lamports w)"
    using 3(1) by (simp_all add: staked_def)
  show ?case
    using 3 v' staked_keeps_value [OF 3(1)] move_source [OF m(1) assms(5)] move_target [OF m(1) assms(5)]
    by (intro disjI2 exI [of _ n] exI [of _ v'])
      (auto simp: m(2) staked_def Let_def word_le_nat_alt simp del: of_nat_unat)
qed blast+

section \<open>Runs\<close>

definition ex_reserve_accounts :: stake_reserve_accounts where
  "ex_reserve_accounts = \<lparr>sr_validator_list = 21, sr_stake_list = 20, sr_validator_vote = 50,
     sr_reserve_pda = ex_reserve, sr_stake_account = 63,
     sr_stake_deposit_authority = ex_deposit_auth, sr_stake_history = 9, sr_stake_config = 8,
     sr_system_program = 0, sr_stake_program = 7\<rparr>"

lemma ex_reserve_checks:
  "stake_reserve_checks ref_rt ex_key ex_reserve_accounts StakeUninitialized ex_state ex_world = Inr ()"
  using ex_lists_ok [of ex_world]
  by (simp add: stake_reserve_checks_def ex_reserve_accounts_def check_stake_history_def
      check_stake_deposit_authority_def run_simps ex_world_def ref_minimum_balance_def)

lemma ex_reserve_delta: "stake_delta ex_state (acc_lamports ex_world ex_reserve) = Inr 400000"
  by (simp add: stake_delta_eq delta_spec_def ex_world_def)

lemma ex_reserve_delta_run:
  "stake_reserve_delta ref_rt ex_key ex_clock ex_reserve_accounts sk wk 0 400000 ex_state ex_world
    = stake_reserve_stake ref_rt ex_key ex_clock ex_reserve_accounts sk wk 0
        ((ex_validators ! 0)\<lparr>vr_last_stake_delta_epoch := 100\<rparr>) 50000 ex_state ex_world"
proof -
  have d: "acc_data ex_world 21 = ex_validator_data" by (simp add: ex_world_def)
  have v: "validator_account (ex_validators ! 0) = 50" "active_balance (ex_validators ! 0) = 1000000"
    "score (ex_validators ! 0) = 30" "vr_last_stake_delta_epoch (ex_validators ! 0) = 98"
    by (simp_all add: ex_validators_def)
  have t: "validator_stake_target (validator_system ex_state)
      ((ex_validators ! 0)\<lparr>vr_last_stake_delta_epoch := 100\<rparr>) 1400000 = Inr 1050000"
    by (simp add: validator_stake_target_def v run_simps)
  show ?thesis
    using t by (simp add: stake_reserve_delta_def ex_reserve_accounts_def validator_get_def d ex_get v
        check_address_def stake_reserve_run_def check_delta_window_def saturating_add_def
        saturating_sub_def stake_reserve_amount_def checked_sub_def max_def min_def
        del: ex_addresses)
qed

lemma ex_reserve_runs:
  obtains st' w' where
    "stake_reserve ref_rt ex_cx ex_key ex_reserve_accounts 0 ex_state ex_world = Inr (st', w')"
    "acc_lamports w' 63 = 2332880"
proof -
  let ?v = "(ex_validators ! 0)\<lparr>active_balance := 1050000, vr_last_stake_delta_epoch := 100\<rparr>"
  obtain l d where p: "list_push borsh_stake ex_stake_header ex_stake_data
      (stake_record_new 63 50000 ex_clock) = Inr (l, d)"
    by (rule ex_stake_push)
  obtain e where e: "list_set borsh_validator ex_validator_header ex_validator_data 0 ?v = Inr e"
    by (rule ex_validator_set_ok [of 0 ?v]) simp
  have v: "active_balance (ex_validators ! 0) = 1000000" by (simp add: ex_validators_def)
  have s: "acc_stake ex_world 63 = Some StakeUninitialized" by (simp add: ex_world_def)
  have sel: "sr_stake_account ex_reserve_accounts = 63" "sr_reserve_pda ex_reserve_accounts = ex_reserve"
    by (simp_all only: ex_reserve_accounts_def stake_reserve_accounts.simps)
  have "\<exists>st' w'. stake_reserve_stake ref_rt ex_key ex_clock ex_reserve_accounts ex_deposit_auth
      ex_withdraw_auth 0 ((ex_validators ! 0)\<lparr>vr_last_stake_delta_epoch := 100\<rparr>) 50000 ex_state ex_world
      = Inr (st', w') \<and> acc_lamports w' 63 = 2332880"
    using p e
    by (simp add: stake_reserve_stake_def ex_reserve_accounts_def run_simps ref_delegate_def
        stake_add_def validator_set_def v ex_world_def)
  then have "\<exists>st' w'. stake_reserve ref_rt ex_cx ex_key ex_reserve_accounts 0 ex_state ex_world
      = Inr (st', w') \<and> acc_lamports w' 63 = 2332880"
    using ex_reserve_delta
    by (simp add: stake_reserve_def stake_reserve_process_def ex_reserve_checks load_stake_def
        check_attributes_def check_context_def ex_reserve_delta_run u64_of_def s
        sel del: ex_addresses)
  then show ?thesis using that by blast
qed

lemma stake_reserve_stakes_witness:
  "\<exists>st' w'. stake_reserve ref_rt ex_cx ex_key ex_reserve_accounts 0 ex_state ex_world = Inr (st', w')
    \<and> (\<exists>(n::u64) v'. 0 < n \<and> validators_held ref_rt st' w' (ex_validators[0 := v'])
         \<and> unat (active_balance v') = 1000000 + unat n)"
proof -
  obtain st' w' where
    r: "stake_reserve ref_rt ex_cx ex_key ex_reserve_accounts 0 ex_state ex_world = Inr (st', w')"
    and l: "acc_lamports w' 63 = 2332880"
    by (rule ex_reserve_runs)
  have ne: "w' \<noteq> ex_world" using l by (auto simp: ex_world_def)
  have a: "sr_reserve_pda ex_reserve_accounts \<noteq> sr_stake_account ex_reserve_accounts"
    by (simp add: ex_reserve_accounts_def)
  have b: "unat (active_balance (ex_validators ! 0)) = 1000000" by (simp add: ex_validators_def)
  from stake_reserve_stakes [OF ref.marinade_runtime_axioms r ex_held a, unfolded unat_0 b] ne r
  show ?thesis by blast
qed

end
