(* ===== verification/EmergencyMerge.thy ===== *)
theory EmergencyMerge
  imports StakeReserve
begin

text \<open>
  Two more operations on recorded stakes: \<open>emergency_unstake\<close>
  (\<open>stake_system/emergency_unstake.rs\<close>), with which the manager leaves a validator of score zero,
  and \<open>merge_stakes\<close> (\<open>stake_system/merge.rs\<close>), with which anyone joins two stakes of a validator.
\<close>

section \<open>Emergency unstake\<close>

record emergency_unstake_accounts =
  eu_validator_manager_authority :: pubkey
  eu_validator_list :: pubkey
  eu_stake_list :: pubkey
  eu_stake_account :: pubkey
  eu_stake_deposit_authority :: pubkey
  eu_stake_program :: pubkey

definition emergency_unstake_checks ::
  "runtime \<Rightarrow> pubkey \<Rightarrow> emergency_unstake_accounts \<Rightarrow> state \<Rightarrow> world \<Rightarrow> unit result" where
  "emergency_unstake_checks rt key ac st w = all_ok
     [check_validator_manager_authority (validator_system st) (eu_validator_manager_authority ac),
      check_validator_list (validator_system st) w (eu_validator_list ac),
      check_stake_list (stake_system st) w (eu_stake_list ac),
      check_stake_deposit_authority rt key (stake_system st) (eu_stake_deposit_authority ac),
      check_owner_program w (eu_stake_account ac) (rt_stake_program rt),
      check_stake_deposit_authority rt key (stake_system st) (eu_stake_deposit_authority ac),
      check_address (eu_stake_program ac) (rt_stake_program rt)]"

definition emergency_unstake_process ::
  "runtime \<Rightarrow> pubkey \<Rightarrow> emergency_unstake_accounts \<Rightarrow> u32 \<Rightarrow> u32 \<Rightarrow> state \<Rightarrow> world
    \<Rightarrow> (state \<times> world) result" where
  "emergency_unstake_process rt key ac sindex vindex st w =
     bindR (emergency_unstake_checks rt key ac st w) (\<lambda>_.
     bindR (stake_get rt (stake_system st) (acc_data w (eu_stake_list ac)) sindex) (\<lambda>r.
     bindR (require (eu_stake_account ac = stake_account r) InvalidAccountData) (\<lambda>_.
     bindR (validator_get rt (validator_system st) (acc_data w (eu_validator_list ac)) vindex)
       (\<lambda>v.
     bindR (require (score v = 0) InvalidAccountData) (\<lambda>_.
     let amount = last_update_delegated_lamports r in
     bindR (rt_invoke rt (StakeDeactivate (eu_stake_account ac) (eu_stake_deposit_authority ac))
              [stake_deposit_seeds key (stake_system st)] w) (\<lambda>w1.
     let r1 = r\<lparr>is_emergency_unstaking := 1\<rparr>;
         v1 = v\<lparr>active_balance := saturating_sub (active_balance v) amount\<rparr>;
         vs = (validator_system st)\<lparr>total_active_balance :=
                saturating_sub (total_active_balance (validator_system st)) amount\<rparr> in
     bindR (padd (emergency_cooling_down st) amount) (\<lambda>c.
     let st1 = st\<lparr>validator_system := vs, emergency_cooling_down := c\<rparr> in
     bindR (stake_set rt (stake_system st1) (acc_data w1 (eu_stake_list ac)) sindex r1) (\<lambda>sdata.
     let w2 = put_data (eu_stake_list ac) sdata w1 in
     bindR (validator_set rt (validator_system st1) (acc_data w2 (eu_validator_list ac)) vindex v1)
       (\<lambda>vdata.
     Inr (st1, put_data (eu_validator_list ac) vdata w2))))))))))"

definition emergency_unstake ::
  "runtime \<Rightarrow> call_context \<Rightarrow> pubkey \<Rightarrow> emergency_unstake_accounts \<Rightarrow> u32 \<Rightarrow> u32 \<Rightarrow> state \<Rightarrow> world
    \<Rightarrow> (state \<times> world) result" where
  "emergency_unstake rt cx key ac sindex vindex st w =
     bindR (check_attributes cx [eu_validator_manager_authority ac]
       [key, eu_validator_list ac, eu_stake_list ac, eu_stake_account ac]) (\<lambda>_.
     bindR (load_stake w (eu_stake_account ac)) (\<lambda>_.
     bindR (check_context cx) (\<lambda>_.
     emergency_unstake_process rt key ac sindex vindex st w)))"

section \<open>Merging\<close>

record merge_stakes_accounts =
  ms_stake_list :: pubkey
  ms_validator_list :: pubkey
  ms_destination_stake :: pubkey
  ms_source_stake :: pubkey
  ms_stake_deposit_authority :: pubkey
  ms_stake_withdraw_authority :: pubkey
  ms_operational_sol_account :: pubkey
  ms_stake_program :: pubkey

definition merge_stakes_checks ::
  "runtime \<Rightarrow> pubkey \<Rightarrow> merge_stakes_accounts \<Rightarrow> state \<Rightarrow> world \<Rightarrow> unit result" where
  "merge_stakes_checks rt key ac st w = all_ok
     [check_stake_list (stake_system st) w (ms_stake_list ac),
      check_validator_list (validator_system st) w (ms_validator_list ac),
      check_owner_program w (ms_destination_stake ac) (rt_stake_program rt),
      check_owner_program w (ms_source_stake ac) (rt_stake_program rt),
      check_stake_deposit_authority rt key (stake_system st) (ms_stake_deposit_authority ac),
      check_stake_withdraw_authority rt key (stake_system st) (ms_stake_withdraw_authority ac),
      check_operational_sol_account st (ms_operational_sol_account ac),
      check_address (ms_stake_program ac) (rt_stake_program rt)]"

text \<open>
  The checks of the two stakes. A deactivating stake is only reported in the log, and the keys of
  the accounts are not compared with the records.
\<close>

definition merge_check_destination ::
  "stake_state \<Rightarrow> stake_record \<Rightarrow> validator_record \<Rightarrow> unit result" where
  "merge_check_destination dest info v =
     bindR (ok_or (stake_delegation dest) InvalidArgument) (\<lambda>d.
     bindR (require (last_update_delegated_lamports info = delegated_stake d) InvalidAccountData)
       (\<lambda>_.
     require (voter_pubkey d = validator_account v) InvalidArgument))"

definition merge_check_source ::
  "stake_state \<Rightarrow> u64 \<Rightarrow> stake_record \<Rightarrow> validator_record \<Rightarrow> unit result" where
  "merge_check_source source lamports info v =
     bindR (ok_or (stake_delegation source) InvalidArgument) (\<lambda>d.
     bindR (require (last_update_delegated_lamports info = delegated_stake d) InvalidAccountData)
       (\<lambda>_.
     bindR (ok_or (stake_meta_of source) Panic) (\<lambda>m.
     bindR (ok_or (checked_add (delegated_stake d) (rent_exempt_reserve m))
              (Common CalculationFailure)) (\<lambda>total.
     bindR (require (lamports = total) InvalidAccountData) (\<lambda>_.
     require (voter_pubkey d = validator_account v) InvalidArgument)))))"

text \<open>What the stake program added to the delegation, and the rent that is left to return.\<close>

definition merge_extra ::
  "stake_state \<Rightarrow> stake_state \<Rightarrow> stake_record \<Rightarrow> stake_record \<Rightarrow> (u64 \<times> u64 \<times> u64) result" where
  "merge_extra merged source dinfo sinfo =
     bindR (ok_or (stake_delegation merged) Panic) (\<lambda>d.
     bindR (ok_or (checked_sub (delegated_stake d) (last_update_delegated_lamports dinfo))
              (Common CalculationFailure)) (\<lambda>x.
     bindR (ok_or (checked_sub x (last_update_delegated_lamports sinfo))
              (Common CalculationFailure)) (\<lambda>extra.
     bindR (ok_or (stake_meta_of source) Panic) (\<lambda>m.
     bindR (ok_or (checked_sub (rent_exempt_reserve m) extra) (Common CalculationFailure))
       (\<lambda>returned.
     Inr (delegated_stake d, extra, returned))))))"

definition merge_stakes_process ::
  "runtime \<Rightarrow> pubkey \<Rightarrow> merge_stakes_accounts \<Rightarrow> stake_state \<Rightarrow> stake_state \<Rightarrow> u32 \<Rightarrow> u32 \<Rightarrow> u32
    \<Rightarrow> state \<Rightarrow> world \<Rightarrow> (state \<times> world) result" where
  "merge_stakes_process rt key ac dest source dindex sindex vindex st w =
     bindR (merge_stakes_checks rt key ac st w) (\<lambda>_.
     bindR (validator_get rt (validator_system st) (acc_data w (ms_validator_list ac)) vindex)
       (\<lambda>v.
     bindR (stake_get rt (stake_system st) (acc_data w (ms_stake_list ac)) dindex) (\<lambda>dinfo.
     bindR (merge_check_destination dest dinfo v) (\<lambda>_.
     bindR (stake_get rt (stake_system st) (acc_data w (ms_stake_list ac)) sindex) (\<lambda>sinfo.
     bindR (merge_check_source source (acc_lamports w (ms_source_stake ac)) sinfo v) (\<lambda>_.
     bindR (rt_invoke rt (StakeMerge (ms_destination_stake ac) (ms_source_stake ac)
              (ms_stake_deposit_authority ac)) [stake_deposit_seeds key (stake_system st)] w)
       (\<lambda>w1.
     bindR (ok_or (acc_stake w1 (ms_destination_stake ac)) BorshIoError) (\<lambda>merged.
     bindR (merge_extra merged source dinfo sinfo) (\<lambda>(stake, extra, returned).
     bindR (ok_or (checked_add (active_balance v) extra) (Common CalculationFailure)) (\<lambda>b.
     bindR (validator_set rt (validator_system st) (acc_data w1 (ms_validator_list ac)) vindex
              (v\<lparr>active_balance := b\<rparr>)) (\<lambda>vdata.
     let w2 = put_data (ms_validator_list ac) vdata w1 in
     bindR (ok_or (checked_add (total_active_balance (validator_system st)) extra)
              (Common CalculationFailure)) (\<lambda>t.
     let st1 = st\<lparr>validator_system := (validator_system st)\<lparr>total_active_balance := t\<rparr>\<rparr> in
     bindR (stake_set rt (stake_system st1) (acc_data w2 (ms_stake_list ac)) dindex
              (dinfo\<lparr>last_update_delegated_lamports := stake\<rparr>)) (\<lambda>sdata.
     let w3 = put_data (ms_stake_list ac) sdata w2 in
     bindR (stake_remove (stake_system st1) (acc_data w3 (ms_stake_list ac)) sindex)
       (\<lambda>(ss, sdata2).
     let w4 = put_data (ms_stake_list ac) sdata2 w3; st2 = st1\<lparr>stake_system := ss\<rparr> in
     if returned > 0
     then bindR (rt_invoke rt (StakeWithdraw (ms_destination_stake ac)
              (ms_stake_withdraw_authority ac) (ms_operational_sol_account ac) returned)
              [stake_withdraw_seeds key ss] w4) (\<lambda>w5. Inr (st2, w5))
     else Inr (st2, w4)))))))))))))))"

definition merge_stakes ::
  "runtime \<Rightarrow> call_context \<Rightarrow> pubkey \<Rightarrow> merge_stakes_accounts \<Rightarrow> u32 \<Rightarrow> u32 \<Rightarrow> u32 \<Rightarrow> state \<Rightarrow> world
    \<Rightarrow> (state \<times> world) result" where
  "merge_stakes rt cx key ac dindex sindex vindex st w =
     bindR (check_attributes cx []
       [key, ms_stake_list ac, ms_validator_list ac, ms_destination_stake ac, ms_source_stake ac,
        ms_operational_sol_account ac]) (\<lambda>_.
     bindR (load_stake w (ms_destination_stake ac)) (\<lambda>dest.
     bindR (load_stake w (ms_source_stake ac)) (\<lambda>source.
     bindR (check_context cx) (\<lambda>_.
     merge_stakes_process rt key ac dest source dindex sindex vindex st w))))"

section \<open>Facts\<close>

context marinade_runtime
begin

lemma emergency_unstake_effect:
  assumes run: "emergency_unstake rt cx key ac sindex vindex st w = Inr (st', w')"
    and vh: "validators_held rt st w xs" and sh: "stakes_held rt st w ys"
    and le: "last_update_delegated_lamports (ys ! unat sindex) \<le> active_balance (xs ! unat vindex)"
  obtains v r where "v = xs ! unat vindex" and "r = ys ! unat sindex"
    and "unat vindex < length xs" and "unat sindex < length ys"
    and "cx_signer cx (manager_authority (validator_system st))"
    and "score v = 0" and "stake_account r = eu_stake_account ac"
    and "validators_held rt st' w' (xs[unat vindex :=
      v\<lparr>active_balance := active_balance v - last_update_delegated_lamports r\<rparr>])"
    and "stakes_held rt st' w' (ys[unat sindex := r\<lparr>is_emergency_unstaking := 1\<rparr>])"
    and "unat (total_active_balance (validator_system st')) + unat (last_update_delegated_lamports r)
      = unat (total_active_balance (validator_system st))"
    and "unat (emergency_cooling_down st') = unat (emergency_cooling_down st)
      + unat (last_update_delegated_lamports r)"
    and "stake_system st' = stake_system st"
    and "available_reserve_balance st' = available_reserve_balance st"
    and "circulating_ticket_balance st' = circulating_ticket_balance st"
    and "msol_supply st' = msol_supply st"
proof -
  let ?vs = "validator_system st"
  let ?st1 = "\<lambda>r c. st\<lparr>validator_system := ?vs\<lparr>total_active_balance := saturating_sub
      (total_active_balance ?vs) (last_update_delegated_lamports r)\<rparr>, emergency_cooling_down := c\<rparr>"
  from run obtain r v w1 c sdata vdata where
    attr: "check_attributes cx [eu_validator_manager_authority ac]
       [key, eu_validator_list ac, eu_stake_list ac, eu_stake_account ac] = Inr ()"
    and chk: "emergency_unstake_checks rt key ac st w = Inr ()"
    and r: "stake_get rt (stake_system st) (acc_data w (eu_stake_list ac)) sindex = Inr r"
    and acct: "eu_stake_account ac = stake_account r"
    and v: "validator_get rt ?vs (acc_data w (eu_validator_list ac)) vindex = Inr v"
    and sc: "score v = 0"
    and inv: "rt_invoke rt (StakeDeactivate (eu_stake_account ac) (eu_stake_deposit_authority ac))
              [stake_deposit_seeds key (stake_system st)] w = Inr w1"
    and c: "checked_add (emergency_cooling_down st) (last_update_delegated_lamports r) = Some c"
    and sset: "stake_set rt (stake_system (?st1 r c)) (acc_data w1 (eu_stake_list ac)) sindex
        (r\<lparr>is_emergency_unstaking := 1\<rparr>) = Inr sdata"
    and vset: "validator_set rt (validator_system (?st1 r c))
        (acc_data (put_data (eu_stake_list ac) sdata w1) (eu_validator_list ac)) vindex
        (v\<lparr>active_balance := saturating_sub (active_balance v) (last_update_delegated_lamports r)\<rparr>)
        = Inr vdata"
    and st': "?st1 r c = st'"
    and w': "put_data (eu_validator_list ac) vdata (put_data (eu_stake_list ac) sdata w1) = w'"
    by (simp only: emergency_unstake_def emergency_unstake_process_def bindR_Inr ok_or_Inr
        require_Inr Let_def sum.inject prod.inject)
      (elim exE conjE, rule that, (assumption | simp)+)
  have sign: "cx_signer cx (eu_validator_manager_authority ac)"
    using attr by (simp add: check_attributes_Inr)
  note w' = w' [symmetric] and st' = st' [symmetric]
  have sset: "stake_set rt (stake_system st) (acc_data w1 (eu_stake_list ac)) sindex
        (r\<lparr>is_emergency_unstaking := 1\<rparr>) = Inr sdata" using sset by simp
  have vset: "validator_set rt (?vs\<lparr>total_active_balance := saturating_sub
          (total_active_balance ?vs) (last_update_delegated_lamports r)\<rparr>)
        (acc_data (put_data (eu_stake_list ac) sdata w1) (eu_validator_list ac)) vindex
        (v\<lparr>active_balance := saturating_sub (active_balance v) (last_update_delegated_lamports r)\<rparr>)
        = Inr vdata" using vset by simp
  have l: "check_validator_list ?vs w (eu_validator_list ac) = Inr ()"
    "check_stake_list (stake_system st) w (eu_stake_list ac) = Inr ()"
    and man: "eu_validator_manager_authority ac = manager_authority ?vs"
    using chk by (auto simp: emergency_unstake_checks_def bindR_Inr check_validator_manager_authority_Inr)
  have vl: "eu_validator_list ac = account (validator_list ?vs)"
    and sl: "eu_stake_list ac = account (stake_list (stake_system st))"
    using l by (simp_all add: check_validator_list_Inr check_stake_list_Inr)
  note apart = lists_apart [OF l]
  have r': "unat sindex < length ys" "r = ys ! unat sindex"
    using r stake_get_Inr [OF sh sl] by auto
  have v': "unat vindex < length xs" "v = xs ! unat vindex"
    using v validator_get_Inr [OF vh vl] by auto
  have le': "last_update_delegated_lamports r \<le> active_balance v" using le v' r' by simp
  have total: "active_balance v \<le> total_active_balance ?vs" using active_le_total [OF vh v'(1)] v' by simp
  have sh1: "stakes_held rt st (put_data (eu_stake_list ac) sdata w1)
      (ys[unat sindex := r\<lparr>is_emergency_unstaking := 1\<rparr>])"
    using stake_set_held [OF invoke_stakes_held [OF inv sh] sl sset] by blast
  have vh1: "validators_held rt st (put_data (eu_stake_list ac) sdata w1) xs"
    using put_data_validators_held [OF invoke_validators_held [OF inv vh]] apart vl by simp
  let ?v = "v\<lparr>active_balance := active_balance v - last_update_delegated_lamports r\<rparr>"
  have "saturating_sub (active_balance v) (last_update_delegated_lamports r)
      = active_balance v - last_update_delegated_lamports r"
    using le' by (simp add: saturating_sub_def)
  note vset' = vset [unfolded this]
  have vh2: "validators_held rt (st\<lparr>validator_system := ?vs\<lparr>total_active_balance := saturating_sub
      (total_active_balance ?vs) (last_update_delegated_lamports r)\<rparr>\<rparr>) w' (xs[unat vindex := ?v])"
    unfolding w'
    by (rule validator_set_held(1) [OF vh1 vl vset'])
      (use v' total le' in \<open>simp_all add: word_le_nat_alt unat_diff_le\<close>)
  have vh': "validators_held rt st' w' (xs[unat vindex := ?v])"
    using vh2 by (rule validators_held_cong) (simp_all add: st')
  have sh': "stakes_held rt st' w' (ys[unat sindex := r\<lparr>is_emergency_unstaking := 1\<rparr>])"
    using sh1 by (rule stakes_held_cong) (use apart sl in \<open>simp_all add: st' w'\<close>)
  show thesis
    by (rule that [OF v'(2) r'(2) v'(1) r'(1) _ sc _ vh' sh'])
      (use sign man acct total le' c in \<open>simp_all add: st' word_le_nat_alt checked_add_Some\<close>)
qed

lemma merge_stakes_trace:
  fixes ac st
  defines "vs \<equiv> validator_system st" and "ss \<equiv> stake_system st"
    and "k \<equiv> ms_validator_list ac" and "l \<equiv> ms_stake_list ac"
    and "st1 \<equiv> \<lambda>t. st\<lparr>validator_system := (validator_system st)\<lparr>total_active_balance := t\<rparr>\<rparr>"
  assumes run: "merge_stakes rt cx key ac dindex sindex vindex st w = Inr (st', w')"
  obtains source v dinfo sinfo w1 merged stake extra returned b vdata t sdata ss2 sdata2 where
    "acc_stake w (ms_source_stake ac) = Some source"
    and "merge_stakes_checks rt key ac st w = Inr ()"
    and "validator_get rt vs (acc_data w k) vindex = Inr v"
    and "stake_get rt ss (acc_data w l) dindex = Inr dinfo"
    and "stake_get rt ss (acc_data w l) sindex = Inr sinfo"
    and "rt_invoke rt (StakeMerge (ms_destination_stake ac) (ms_source_stake ac)
        (ms_stake_deposit_authority ac)) [stake_deposit_seeds key ss] w = Inr w1"
    and "merge_extra merged source dinfo sinfo = Inr (stake, extra, returned)"
    and "checked_add (active_balance v) extra = Some b"
    and "validator_set rt vs (acc_data w1 k) vindex (v\<lparr>active_balance := b\<rparr>) = Inr vdata"
    and "checked_add (total_active_balance vs) extra = Some t"
    and "stake_set rt (stake_system (st1 t)) (acc_data (put_data k vdata w1) l) dindex
        (dinfo\<lparr>last_update_delegated_lamports := stake\<rparr>) = Inr sdata"
    and "stake_remove (stake_system (st1 t))
        (acc_data (put_data l sdata (put_data k vdata w1)) l) sindex = Inr (ss2, sdata2)"
    and "(if returned > 0
     then bindR (rt_invoke rt (StakeWithdraw (ms_destination_stake ac)
              (ms_stake_withdraw_authority ac) (ms_operational_sol_account ac) returned)
              [stake_withdraw_seeds key ss2] (put_data l sdata2 (put_data l sdata (put_data k vdata w1))))
            (\<lambda>w5. Inr ((st1 t)\<lparr>stake_system := ss2\<rparr>, w5))
     else Inr ((st1 t)\<lparr>stake_system := ss2\<rparr>,
       put_data l sdata2 (put_data l sdata (put_data k vdata w1)))) = Inr (st', w')"
  using run
  by (simp only: merge_stakes_def merge_stakes_process_def bindR_Inr ok_or_Inr load_stake_def
      require_Inr Let_def split_paired_Ex prod.case)
    (elim exE conjE, rule that [unfolded vs_def ss_def k_def l_def st1_def], (assumption | simp)+)

lemma merge_stakes_effect:
  assumes run: "merge_stakes rt cx key ac dindex sindex vindex st w = Inr (st', w')"
    and vh: "validators_held rt st w xs" and sh: "stakes_held rt st w ys"
  obtains v' d' and extra returned :: u64 and source m where
    "unat vindex < length xs" and "unat dindex < length ys" and "unat sindex < length ys"
    and "acc_stake w (ms_source_stake ac) = Some source" and "stake_meta_of source = Some m"
    and "unat extra + unat returned = unat (rent_exempt_reserve m)"
    and "validators_held rt st' w' (xs[unat vindex := v'])"
    and "unat (active_balance v') = unat (active_balance (xs ! unat vindex)) + unat extra"
    and "stakes_held rt st' w' (swap_remove (ys[unat dindex := d']) (unat sindex))"
    and "stake_account d' = stake_account (ys ! unat dindex)"
    and "unat (last_update_delegated_lamports d')
      = unat (last_update_delegated_lamports (ys ! unat dindex))
        + unat (last_update_delegated_lamports (ys ! unat sindex)) + unat extra"
    and "unat (total_active_balance (validator_system st'))
      = unat (total_active_balance (validator_system st)) + unat extra"
    and "delayed_unstake_cooling_down (stake_system st') = delayed_unstake_cooling_down (stake_system st)"
    and "emergency_cooling_down st' = emergency_cooling_down st"
    and "available_reserve_balance st' = available_reserve_balance st"
    and "circulating_ticket_balance st' = circulating_ticket_balance st"
    and "msol_supply st' = msol_supply st"
    and "acc_token w' = acc_token w" and "acc_mint w' = acc_mint w"
proof -
  let ?vs = "validator_system st" and ?ss = "stake_system st"
  let ?k = "ms_validator_list ac" and ?l = "ms_stake_list ac"
  let ?st1 = "\<lambda>t. st\<lparr>validator_system := ?vs\<lparr>total_active_balance := t\<rparr>\<rparr>"
  from run obtain source v dinfo sinfo w1 merged stake extra returned b vdata t sdata ss sdata2
  where source: "acc_stake w (ms_source_stake ac) = Some source"
    and chk: "merge_stakes_checks rt key ac st w = Inr ()"
    and v: "validator_get rt ?vs (acc_data w ?k) vindex = Inr v"
    and d: "stake_get rt ?ss (acc_data w ?l) dindex = Inr dinfo"
    and s: "stake_get rt ?ss (acc_data w ?l) sindex = Inr sinfo"
    and inv: "rt_invoke rt (StakeMerge (ms_destination_stake ac) (ms_source_stake ac)
        (ms_stake_deposit_authority ac)) [stake_deposit_seeds key ?ss] w = Inr w1"
    and ex: "merge_extra merged source dinfo sinfo = Inr (stake, extra, returned)"
    and b: "checked_add (active_balance v) extra = Some b"
    and vset: "validator_set rt ?vs (acc_data w1 ?k) vindex (v\<lparr>active_balance := b\<rparr>) = Inr vdata"
    and t: "checked_add (total_active_balance ?vs) extra = Some t"
    and sset: "stake_set rt (stake_system (?st1 t)) (acc_data (put_data ?k vdata w1) ?l) dindex
        (dinfo\<lparr>last_update_delegated_lamports := stake\<rparr>) = Inr sdata"
    and rem: "stake_remove (stake_system (?st1 t))
        (acc_data (put_data ?l sdata (put_data ?k vdata w1)) ?l) sindex = Inr (ss, sdata2)"
    and fin: "(if returned > 0
     then bindR (rt_invoke rt (StakeWithdraw (ms_destination_stake ac)
              (ms_stake_withdraw_authority ac) (ms_operational_sol_account ac) returned)
              [stake_withdraw_seeds key ss] (put_data ?l sdata2 (put_data ?l sdata (put_data ?k vdata w1))))
            (\<lambda>w5. Inr ((?st1 t)\<lparr>stake_system := ss\<rparr>, w5))
     else Inr ((?st1 t)\<lparr>stake_system := ss\<rparr>,
       put_data ?l sdata2 (put_data ?l sdata (put_data ?k vdata w1)))) = Inr (st', w')"
    by (rule merge_stakes_trace) (rule that, assumption+)
  let ?w4 = "put_data ?l sdata2 (put_data ?l sdata (put_data ?k vdata w1))"
  have lists: "check_validator_list ?vs w ?k = Inr ()" "check_stake_list ?ss w ?l = Inr ()"
    using chk by (auto simp: merge_stakes_checks_def bindR_Inr)
  have vl: "?k = account (validator_list ?vs)" and sl: "?l = account (stake_list ?ss)"
    using lists by (simp_all add: check_validator_list_Inr check_stake_list_Inr)
  note apart = lists_apart [OF lists]
  have st': "st' = (?st1 t)\<lparr>stake_system := ss\<rparr>"
    and w4: "acc_token w' = acc_token ?w4 \<and> acc_mint w' = acc_mint ?w4
      \<and> (validators_held rt st'' ?w4 xs' \<longrightarrow> validators_held rt st'' w' xs')
      \<and> (stakes_held rt st'' ?w4 ys' \<longrightarrow> stakes_held rt st'' w' ys')" for st'' xs' ys'
    using fin stake_withdraw invoke_validators_held invoke_stakes_held
    by (auto simp: bindR_Inr stakes_only_def split: if_splits)
  have d': "unat dindex < length ys" "dinfo = ys ! unat dindex"
    and s': "unat sindex < length ys" "sinfo = ys ! unat sindex"
    using d s stake_get_Inr [OF sh sl] by auto
  have v': "unat vindex < length xs" "v = xs ! unat vindex"
    using v validator_get_Inr [OF vh vl] by auto
  from ex obtain m where m: "stake_meta_of source = Some m"
    and sums: "unat stake = unat (last_update_delegated_lamports dinfo)
        + unat (last_update_delegated_lamports sinfo) + unat extra"
      "unat (rent_exempt_reserve m) = unat extra + unat returned"
    by (auto simp: merge_extra_def bindR_Inr ok_or_Inr checked_sub_Some)
  let ?v = "v\<lparr>active_balance := b\<rparr>" and ?d = "dinfo\<lparr>last_update_delegated_lamports := stake\<rparr>"
  have bt: "unat b = unat (active_balance v) + unat extra"
    "unat t = unat (total_active_balance ?vs) + unat extra"
    using b t by (simp_all add: checked_add_Some)
  have vset': "validator_set rt (?vs\<lparr>total_active_balance := t\<rparr>) (acc_data w1 ?k) vindex ?v = Inr vdata"
    using vset by (simp add: validator_set_def)
  have vh2: "validators_held rt (?st1 t) (put_data ?k vdata w1) (xs[unat vindex := ?v])"
    by (rule validator_set_held(1) [OF invoke_validators_held [OF inv vh] vl vset'])
      (use v' bt in simp_all)
  have "validators_held rt (?st1 t) ?w4 (xs[unat vindex := ?v])"
    using vh2 apart vl put_data_validators_held by simp
  then have vh3: "validators_held rt st' w' (xs[unat vindex := ?v])"
    using w4 by (simp add: st')
  have sh1: "stakes_held rt (?st1 t) (put_data ?k vdata w1) ys"
    using put_data_stakes_held [OF invoke_stakes_held [OF inv sh]] apart sl by simp
  have sl1: "?l = account (stake_list (stake_system (?st1 t)))" using sl by simp
  have sh2: "stakes_held rt (?st1 t) (put_data ?l sdata (put_data ?k vdata w1)) (ys[unat dindex := ?d])"
    by (rule stake_set_held(1) [OF sh1 sl1 sset])
  note sh3 = stake_remove_held [OF sh2 sl1 rem]
  have sh4: "stakes_held rt st' w' (swap_remove (ys[unat dindex := ?d]) (unat sindex))"
    using sh3(1) w4 by (simp add: st')
  have "delayed_unstake_cooling_down ss = delayed_unstake_cooling_down ?ss"
    by (subst sh3(3)) simp
  then show thesis
    by (intro that [of source m extra returned ?v ?d, OF v'(1) d'(1) s'(1) source m _ vh3 _ sh4])
      (use sums bt d' s' v' w4 inv stake_merge [OF inv] in \<open>simp_all add: st' stakes_only_def\<close>)
qed

end

lemma sum_update_swap_remove:
  fixes f :: "'a \<Rightarrow> nat"
  assumes "i < length ys" and "j < length ys" and "i \<noteq> j" and "f d = f (ys ! i) + f (ys ! j) + k"
  shows "sum_list (map f (swap_remove (ys[i := d]) j)) = sum_list (map f ys) + k"
proof -
  have "sum_list (map f (ys[i := d])) + f (ys ! i) = sum_list (map f ys) + f d"
    by (rule sum_list_update_nat [OF assms(1)])
  moreover have "sum_list (map f (swap_remove (ys[i := d]) j)) + f (ys[i := d] ! j)
      = sum_list (map f (ys[i := d]))"
    by (rule sum_list_swap_remove) (simp add: assms(2))
  ultimately show ?thesis using assms(3,4) by simp
qed

section \<open>Properties\<close>

text \<open>
  C17. Only the validator manager runs an emergency unstake, and only against a validator of score
  zero. It marks the stake and moves exactly its recorded amount from the active balance of the
  named validator and the total to the emergency cooling-down balance: the lists stay exact and
  the price of mSOL does not change, provided the amount is part of that validator's balance.
\<close>
theorem emergency_unstake_moves:
  assumes "marinade_runtime rt"
    and "emergency_unstake rt cx key ac sindex vindex st w = Inr (st', w')"
    and "validators_held rt st w xs" and "stakes_held rt st w ys"
    and "last_update_delegated_lamports (ys ! unat sindex) \<le> active_balance (xs ! unat vindex)"
  shows "cx_signer cx (manager_authority (validator_system st))
    \<and> score (xs ! unat vindex) = 0 \<and> stake_account (ys ! unat sindex) = eu_stake_account ac
    \<and> (\<exists>v'. validators_held rt st' w' (xs[unat vindex := v'])
         \<and> unat (active_balance v') + unat (last_update_delegated_lamports (ys ! unat sindex))
             = unat (active_balance (xs ! unat vindex)))
    \<and> stakes_held rt st' w' (ys[unat sindex := (ys ! unat sindex)\<lparr>is_emergency_unstaking := 1\<rparr>])
    \<and> unat (emergency_cooling_down st') = unat (emergency_cooling_down st)
        + unat (last_update_delegated_lamports (ys ! unat sindex))
    \<and> virtual_staked st' = virtual_staked st \<and> msol_supply st' = msol_supply st"
proof (rule marinade_runtime.emergency_unstake_effect [OF assms], goal_cases)
  case (1 v r)
  have "under_control st' = under_control st"
    using 1(10,11) by (simp add: under_control_def 1(12,13))
  then have "virtual_staked st' = virtual_staked st" using 1(14) by (simp add: virtual_staked_def)
  moreover have "unat (active_balance (v\<lparr>active_balance := active_balance v - last_update_delegated_lamports r\<rparr>))
      + unat (last_update_delegated_lamports r) = unat (active_balance v)"
    using assms(5) 1(1,2) by (simp add: unat_diff_le word_le_nat_alt)
  ultimately show ?case using 1 by blast
qed


section \<open>Runs\<close>

text \<open>The example after the manager has set the score of validator 50 to zero.\<close>

definition ex_left :: "validator_record list" where
  "ex_left = [(ex_validators ! 0)\<lparr>score := 0\<rparr>, ex_validators ! 1]"

definition ex_state_left :: state where
  "ex_state_left = ex_state\<lparr>validator_system := (validator_system ex_state)\<lparr>total_validator_score := 10\<rparr>\<rparr>"

definition ex_world_left :: world where
  "ex_world_left = put_data 21 (validator_bytes ((ex_validators ! 0)\<lparr>score := 0\<rparr>) (ex_validators ! 1)) ex_world"

definition ex_emergency :: emergency_unstake_accounts where
  "ex_emergency = \<lparr>eu_validator_manager_authority = 31, eu_validator_list = 21, eu_stake_list = 20,
     eu_stake_account = 61, eu_stake_deposit_authority = ex_deposit_auth, eu_stake_program = 7\<rparr>"

lemma ex_left_held:
  "validators_held ref_rt ex_state_left ex_world_left ex_left"
  "stakes_held ref_rt ex_state_left ex_world_left ex_stakes"
  using validator_bytes_rep [of "(ex_validators ! 0)\<lparr>score := 0\<rparr>" "ex_validators ! 1"] ex_stakes_rep
  by (simp_all add: validators_held_def validators_rep_def stakes_held_def ex_world_def
      ex_validators_def ex_left_def ex_world_left_def ex_state_left_def Let_def)

lemma ex_emergency_checks:
  "emergency_unstake_checks ref_rt ex_key ex_emergency ex_state_left ex_world_left = Inr ()"
  using ex_stake_disc
  by (simp add: emergency_unstake_checks_def ex_emergency_def ex_state_left_def ex_world_left_def
      check_validator_manager_authority_def check_stake_deposit_authority_def
      check_validator_list_def check_stake_list_def run_simps ex_world_def)

lemma ex_emergency_runs:
  obtains st' w' where
    "emergency_unstake ref_rt ex_cx ex_key ex_emergency 1 0 ex_state_left ex_world_left = Inr (st', w')"
proof -
  let ?v = "(ex_validators ! 0)\<lparr>score := 0\<rparr>" and ?r = "ex_stakes ! 1"
  have v: "active_balance (ex_validators ! 0) = 1000000"
    "stake_account ?r = 61" "last_update_delegated_lamports ?r = 400000"
    by (simp_all add: ex_validators_def ex_stakes_def)
  obtain d1 where d1: "list_set borsh_stake ex_stake_header ex_stake_data 1
      (?r\<lparr>is_emergency_unstaking := 1\<rparr>) = Inr d1"
    by (rule ex_stake_set_ok [of 1 "?r\<lparr>is_emergency_unstaking := 1\<rparr>"]) simp
  obtain d2 where d2: "list_set borsh_validator ex_validator_header
      (validator_bytes ?v (ex_validators ! 1)) 0 (?v\<lparr>active_balance := 600000\<rparr>) = Inr d2"
    by (rule validator_codec.set_ok [OF validator_bytes_rep, of 0 ?v "ex_validators ! 1"
          "?v\<lparr>active_balance := 600000\<rparr>"]) simp_all
  have g: "list_get unborsh_validator ex_validator_header (validator_bytes ?v (ex_validators ! 1)) 0
      = Inr ?v"
    using validator_codec.get_ok [OF validator_bytes_rep, of 0 ?v "ex_validators ! 1"] by simp
  have w: "acc_data ex_world_left 20 = ex_stake_data"
    "acc_data ex_world_left 21 = validator_bytes ?v (ex_validators ! 1)"
    "acc_stake ex_world_left 61 = Some (StakeDelegated ex_meta (ex_delegation 50 400000 (- 1)))"
    by (simp_all add: ex_world_left_def ex_world_def)
  have m: "staker ex_meta = ex_deposit_auth" "deactivation_epoch (ex_delegation a b c) = c" for a b c
    by (simp_all add: ex_meta_def ex_delegation_def)
  have st: "stake_system ex_state_left = stake_system ex_state"
    "validator_system ex_state_left = (validator_system ex_state)\<lparr>total_validator_score := 10\<rparr>"
    "emergency_cooling_down ex_state_left = 0"
    by (simp_all add: ex_state_left_def)
  have ac: "eu_validator_list ex_emergency = 21" "eu_stake_list ex_emergency = 20"
    "eu_stake_account ex_emergency = 61" "eu_validator_manager_authority ex_emergency = 31"
    "eu_stake_deposit_authority ex_emergency = ex_deposit_auth"
    by (simp_all only: ex_emergency_def emergency_unstake_accounts.simps)
  have "\<exists>st' w'. emergency_unstake ref_rt ex_cx ex_key ex_emergency 1 0 ex_state_left ex_world_left
      = Inr (st', w')"
    using d1 d2
    by (simp add: emergency_unstake_def emergency_unstake_process_def ex_emergency_checks
        stake_get_def validator_get_def stake_set_def validator_set_def ac w st v [unfolded One_nat_def]
        m ex_get g [unfolded One_nat_def] load_stake_def check_attributes_def check_context_def ref_deactivate_def
        put_stake_def saturating_sub_def checked_add_def Let_def del: ex_addresses)
  then show ?thesis using that by blast
qed

lemma emergency_unstake_moves_witness:
  "\<exists>st' w'. emergency_unstake ref_rt ex_cx ex_key ex_emergency 1 0 ex_state_left ex_world_left
      = Inr (st', w')
    \<and> unat (emergency_cooling_down st') = 400000 \<and> virtual_staked st' = virtual_staked ex_state_left"
proof -
  obtain st' w' where
    r: "emergency_unstake ref_rt ex_cx ex_key ex_emergency 1 0 ex_state_left ex_world_left = Inr (st', w')"
    by (rule ex_emergency_runs)
  have i: "last_update_delegated_lamports (ex_stakes ! unat (1::u32)) = 400000"
    "active_balance (ex_left ! unat (0::u32)) = 1000000"
    by (simp_all add: ex_left_def ex_validators_def ex_stakes_def)
  then have "last_update_delegated_lamports (ex_stakes ! unat (1::u32))
      \<le> active_balance (ex_left ! unat (0::u32))"
    by simp
  from emergency_unstake_moves [OF ref.marinade_runtime_axioms r ex_left_held this] r
  have *: "\<exists>st' w'. emergency_unstake ref_rt ex_cx ex_key ex_emergency 1 0 ex_state_left ex_world_left
      = Inr (st', w') \<and> unat (emergency_cooling_down st') = unat (emergency_cooling_down ex_state_left)
        + unat (last_update_delegated_lamports (ex_stakes ! unat (1::u32)))
      \<and> virtual_staked st' = virtual_staked ex_state_left"
    by blast
  have "last_update_delegated_lamports (ex_stakes ! Suc 0) = 400000" by (simp add: ex_stakes_def)
  with * show ?thesis by (simp add: ex_state_left_def)
qed

text \<open>A merge of two active stakes of validator 50.\<close>

definition ex_world_merge :: world where
  "ex_world_merge = ex_world\<lparr>acc_stake := (acc_stake ex_world)
     (62 \<mapsto> StakeDelegated ex_meta (ex_delegation 50 200000 (- 1)))\<rparr>"

definition ex_merge :: merge_stakes_accounts where
  "ex_merge = \<lparr>ms_stake_list = 20, ms_validator_list = 21, ms_destination_stake = 61,
     ms_source_stake = 62, ms_stake_deposit_authority = ex_deposit_auth,
     ms_stake_withdraw_authority = ex_withdraw_auth, ms_operational_sol_account = 14,
     ms_stake_program = 7\<rparr>"

lemma ex_merge_held:
  "validators_held ref_rt ex_state ex_world_merge ex_validators"
  "stakes_held ref_rt ex_state ex_world_merge ex_stakes"
  using ex_held by (simp_all add: ex_world_merge_def validators_held_def stakes_held_def Let_def)

lemma ex_merge_checks:
  "merge_stakes_checks ref_rt ex_key ex_merge ex_state ex_world_merge = Inr ()"
  using ex_stake_disc ex_validator_disc
  by (simp add: merge_stakes_checks_def ex_merge_def ex_world_merge_def
      check_validator_list_def check_stake_list_def check_stake_deposit_authority_def check_stake_withdraw_authority_def
      check_operational_sol_account_def run_simps ex_world_def)

lemma ex_merge_runs:
  obtains st' w' where
    "merge_stakes ref_rt ex_cx ex_key ex_merge 1 2 0 ex_state ex_world_merge = Inr (st', w')"
proof -
  let ?v = "ex_validators ! 0" and ?d = "ex_stakes ! 1" and ?s = "ex_stakes ! 2"
  let ?d' = "?d\<lparr>last_update_delegated_lamports := 2882880\<rparr>"
  have v: "validator_account ?v = 50" "active_balance ?v = 1000000"
    "stake_account ?d = 61" "last_update_delegated_lamports ?d = 400000"
    "last_update_delegated_lamports ?s = 200000"
    by (simp_all add: ex_validators_def ex_stakes_def)
  obtain d1 where d1: "list_set borsh_stake ex_stake_header ex_stake_data 1 ?d' = Inr d1"
    and rep: "list_rep unborsh_stake 49 ex_stake_header d1 (ex_stakes[unat (1::u32) := ?d'])"
    by (rule ex_stake_set_ok [of 1 ?d']) simp
  obtain l d2 where d2: "list_remove ex_stake_header d1 2 = Inr (l, d2)"
    by (rule stake_codec.remove_ok [OF rep, of 2]) (simp add: ex_stakes_def)
  obtain d3 where d3: "list_set borsh_validator ex_validator_header ex_validator_data 0
      (?v\<lparr>active_balance := 3282880\<rparr>) = Inr d3"
    by (rule ex_validator_set_ok [of 0 "?v\<lparr>active_balance := 3282880\<rparr>"]) simp
  have w: "acc_data ex_world_merge 20 = ex_stake_data" "acc_data ex_world_merge 21 = ex_validator_data"
    "acc_stake ex_world_merge 61 = Some (StakeDelegated ex_meta (ex_delegation 50 400000 (- 1)))"
    "acc_stake ex_world_merge 62 = Some (StakeDelegated ex_meta (ex_delegation 50 200000 (- 1)))"
    "acc_lamports ex_world_merge 61 = 2682880" "acc_lamports ex_world_merge 62 = 2482880"
    by (simp_all add: ex_world_merge_def ex_world_def)
  have m: "staker ex_meta = ex_deposit_auth" "rent_exempt_reserve ex_meta = 2282880"
    "voter_pubkey (ex_delegation a b c) = a" "delegated_stake (ex_delegation a b c) = b"
    "deactivation_epoch (ex_delegation a b c) = c" for a b c
    by (simp_all add: ex_meta_def ex_delegation_def)
  have ac: "ms_validator_list ex_merge = 21" "ms_stake_list ex_merge = 20"
    "ms_destination_stake ex_merge = 61" "ms_source_stake ex_merge = 62"
    "ms_stake_deposit_authority ex_merge = ex_deposit_auth"
    by (simp_all only: ex_merge_def merge_stakes_accounts.simps)
  have "\<exists>st' w'. merge_stakes ref_rt ex_cx ex_key ex_merge 1 2 0 ex_state ex_world_merge = Inr (st', w')"
    using d1 d2 d3
    by (simp add: merge_stakes_def merge_stakes_process_def ex_merge_checks merge_check_destination_def
        merge_check_source_def merge_extra_def
        stake_get_def validator_get_def stake_set_def validator_set_def stake_remove_def
        ac w v [unfolded One_nat_def] m ex_get load_stake_def check_attributes_def check_context_def
        ref_merge_def put_stake_def move_lamports_def can_move_def move_u64_def checked_sub_def
        checked_add_def Let_def del: ex_addresses)
  then show ?thesis using that by blast
qed


end
