(* ===== verification/Update.thy ===== *)
theory Update
  imports Holdings
begin

text \<open>
  The price updates (\<open>state/update.rs\<close>): \<open>update_active\<close>, which books the rewards or the
  slashing of an active stake, and \<open>update_deactivated\<close>, which brings a deactivated stake back to
  the reserve. Both first synchronise the virtual reserve balance and the mSOL supply with the
  accounts, pay the treasury in new mSOL, and store the new price.
\<close>

section \<open>The common part\<close>

record update_common =
  uc_stake_list :: pubkey
  uc_stake_account :: pubkey
  uc_stake_withdraw_authority :: pubkey
  uc_reserve_pda :: pubkey
  uc_msol_mint :: pubkey
  uc_msol_mint_authority :: pubkey
  uc_treasury_msol_account :: pubkey
  uc_stake_program :: pubkey
  uc_token_program :: pubkey

text \<open>The balances after the synchronisation with the reserve account and the mint.\<close>

definition update_sync :: "u64 \<Rightarrow> u64 \<Rightarrow> state \<Rightarrow> state" where
  "update_sync reserve supply st = st\<lparr>
     available_reserve_balance := saturating_sub reserve (rent_exempt_for_token_acc st),
     staking_sol_cap := (if supply > msol_supply st then 0 else staking_sol_cap st),
     msol_supply := supply\<rparr>"

text \<open>\<open>BeginOutput\<close>: the record of the stake and whether the treasury can receive mSOL.\<close>

type_synonym begin_output = "stake_record \<times> bool"

definition update_begin ::
  "runtime \<Rightarrow> pubkey \<Rightarrow> update_common \<Rightarrow> mint \<Rightarrow> u32 \<Rightarrow> state \<Rightarrow> world \<Rightarrow> (begin_output \<times> state) result"
where
  "update_begin rt key ac msol index st w =
     bindR (check_stake_list (stake_system st) w (uc_stake_list ac)) (\<lambda>_.
     bindR (check_msol_mint st (uc_msol_mint ac)) (\<lambda>_.
     bindR (check_msol_mint_authority rt key st (uc_msol_mint_authority ac)) (\<lambda>_.
     bindR (check_treasury_msol_account rt st w (uc_treasury_msol_account ac)) (\<lambda>ready.
     bindR (check_stake_withdraw_authority rt key (stake_system st) (uc_stake_withdraw_authority ac))
       (\<lambda>_.
     bindR (check_reserve_address rt key st (uc_reserve_pda ac)) (\<lambda>_.
     bindR (check_address (uc_stake_program ac) (rt_stake_program rt)) (\<lambda>_.
     bindR (check_address (uc_token_program ac) (rt_spl_token rt)) (\<lambda>_.
     bindR (ok_or (checked_add (available_reserve_balance st) (rent_exempt_for_token_acc st)) Panic)
       (\<lambda>_.
     let st1 = update_sync (acc_lamports w (uc_reserve_pda ac)) (mt_supply msol) st in
     bindR (stake_get rt (stake_system st1) (acc_data w (uc_stake_list ac)) index) (\<lambda>r.
     bindR (check_address (uc_stake_account ac) (stake_account r)) (\<lambda>_.
     Inr ((r, ready), st1))))))))))))"

definition withdraw_to_reserve ::
  "runtime \<Rightarrow> pubkey \<Rightarrow> update_common \<Rightarrow> u64 \<Rightarrow> state \<Rightarrow> world \<Rightarrow> (state \<times> world) result" where
  "withdraw_to_reserve rt key ac amount st w =
     (if amount > 0 then
        bindR (rt_invoke rt (StakeWithdraw (uc_stake_account ac) (uc_stake_withdraw_authority ac)
                 (uc_reserve_pda ac) amount) [stake_withdraw_seeds key (stake_system st)] w) (\<lambda>w1.
        bindR (on_transfer_to_reserve st amount) (\<lambda>st1. Inr (st1, w1)))
      else Inr (st, w))"

definition mint_to_treasury ::
  "runtime \<Rightarrow> pubkey \<Rightarrow> update_common \<Rightarrow> u64 \<Rightarrow> state \<Rightarrow> world \<Rightarrow> (state \<times> world) result" where
  "mint_to_treasury rt key ac msol_lamports st w =
     (if msol_lamports > 0 then
        bindR (rt_invoke rt (TokenMintTo (uc_msol_mint ac) (uc_treasury_msol_account ac)
                 (uc_msol_mint_authority ac) msol_lamports) [msol_mint_authority_seeds key st] w) (\<lambda>w1.
        bindR (on_msol_mint st msol_lamports) (\<lambda>st1. Inr (st1, w1)))
      else Inr (st, w))"

text \<open>The treasury's share of an amount of lamports, if the treasury can receive it.\<close>

definition update_treasury ::
  "runtime \<Rightarrow> pubkey \<Rightarrow> update_common \<Rightarrow> bool \<Rightarrow> u64 \<Rightarrow> state \<Rightarrow> world \<Rightarrow> (state \<times> world) result" where
  "update_treasury rt key ac ready lamports st w =
     (if ready then
        bindR (calc_msol_from_lamports st lamports) (\<lambda>m. mint_to_treasury rt key ac m st w)
      else Inr (st, w))"

section \<open>Active stakes\<close>

record update_active_accounts =
  ua_common :: update_common
  ua_validator_list :: pubkey

text \<open>Rewards are shared with the treasury and booked; slashing is booked.\<close>

definition update_rewards ::
  "runtime \<Rightarrow> pubkey \<Rightarrow> update_common \<Rightarrow> bool \<Rightarrow> u64 \<Rightarrow> u64 \<Rightarrow> validator_record \<Rightarrow> state \<Rightarrow> world
    \<Rightarrow> (validator_record \<times> state \<times> world) result" where
  "update_rewards rt key ac ready delegated prev v st w =
     (if delegated \<ge> prev then
        let rewards = delegated - prev in
        bindR (update_treasury rt key ac ready (fee_apply (reward_fee st) rewards) st w) (\<lambda>(st1, w1).
        bindR (padd (active_balance v) rewards) (\<lambda>b.
        bindR (padd (total_active_balance (validator_system st1)) rewards) (\<lambda>t.
        Inr (v\<lparr>active_balance := b\<rparr>,
             st1\<lparr>validator_system := (validator_system st1)\<lparr>total_active_balance := t\<rparr>\<rparr>, w1))))
      else
        let slashed = prev - delegated in
        Inr (v\<lparr>active_balance := saturating_sub (active_balance v) slashed\<rparr>,
             st\<lparr>validator_system := (validator_system st)\<lparr>total_active_balance :=
                  saturating_sub (total_active_balance (validator_system st)) slashed\<rparr>\<rparr>, w))"

definition update_active_check ::
  "validator_record \<Rightarrow> delegation \<Rightarrow> unit result" where
  "update_active_check v d =
     bindR (require (voter_pubkey d = validator_account v) InvalidInstructionData) (\<lambda>_.
     require (deactivation_epoch d = - 1) InvalidAccountData)"

text \<open>All of \<open>process\<close> but the final assertion.\<close>

definition update_active_run ::
  "runtime \<Rightarrow> pubkey \<Rightarrow> clock \<Rightarrow> update_active_accounts \<Rightarrow> stake_state \<Rightarrow> mint \<Rightarrow> u32 \<Rightarrow> u32 \<Rightarrow> state
    \<Rightarrow> world \<Rightarrow> (state \<times> world) result" where
  "update_active_run rt key ck ac stake msol sindex vindex st w =
     bindR (update_begin rt key (ua_common ac) msol sindex st w) (\<lambda>((r, ready), st1).
     bindR (validator_get rt (validator_system st1) (acc_data w (ua_validator_list ac)) vindex) (\<lambda>v.
     bindR (ok_or (stake_delegation stake) InvalidAccountData) (\<lambda>d.
     bindR (update_active_check v d) (\<lambda>_.
     let delegated = delegated_stake d in
     bindR (ok_or (stake_meta_of stake) Panic) (\<lambda>m.
     bindR (psub (acc_lamports w (uc_stake_account (ua_common ac))) (rent_exempt_reserve m)) (\<lambda>bal.
     let extra = saturating_sub bal delegated in
     bindR (withdraw_to_reserve rt key (ua_common ac) extra st1 w) (\<lambda>(st2, w2).
     bindR (update_treasury rt key (ua_common ac) ready extra st2 w2) (\<lambda>(st3, w3).
     bindR (update_rewards rt key (ua_common ac) ready delegated (last_update_delegated_lamports r)
              v st3 w3) (\<lambda>(v', st4, w4).
     let r' = r\<lparr>last_update_epoch := epoch ck, last_update_delegated_lamports := delegated\<rparr> in
     bindR (validator_set rt (validator_system st4) (acc_data w4 (ua_validator_list ac)) vindex v')
       (\<lambda>vdata.
     let w5 = put_data (ua_validator_list ac) vdata w4 in
     bindR (calc_lamports_from_msol_amount st4 PRICE_DENOMINATOR) (\<lambda>price.
     let st5 = st4\<lparr>msol_price := price\<rparr> in
     bindR (stake_set rt (stake_system st5) (acc_data w5 (uc_stake_list (ua_common ac))) sindex r')
       (\<lambda>sdata.
     Inr (st5, put_data (uc_stake_list (ua_common ac)) sdata w5)))))))))))))"

definition update_active_process ::
  "runtime \<Rightarrow> pubkey \<Rightarrow> clock \<Rightarrow> update_active_accounts \<Rightarrow> stake_state \<Rightarrow> mint \<Rightarrow> u32 \<Rightarrow> u32 \<Rightarrow> state
    \<Rightarrow> world \<Rightarrow> (state \<times> world) result" where
  "update_active_process rt key ck ac stake msol sindex vindex st w =
     bindR (update_active_run rt key ck ac stake msol sindex vindex st w) (\<lambda>(st1, w1).
     bindR (padd (available_reserve_balance st1) (rent_exempt_for_token_acc st1)) (\<lambda>total.
     bindR (require (total = acc_lamports w1 (uc_reserve_pda (ua_common ac))) Panic) (\<lambda>_.
     Inr (st1, w1))))"

definition update_active ::
  "runtime \<Rightarrow> call_context \<Rightarrow> pubkey \<Rightarrow> update_active_accounts \<Rightarrow> u32 \<Rightarrow> u32 \<Rightarrow> state \<Rightarrow> world
    \<Rightarrow> (state \<times> world) result" where
  "update_active rt cx key ac sindex vindex st w =
     (let c = ua_common ac in
     bindR (check_attributes cx [] [key, uc_stake_list c, uc_stake_account c, uc_reserve_pda c,
       uc_msol_mint c, uc_treasury_msol_account c, ua_validator_list ac]) (\<lambda>_.
     bindR (load_stake w (uc_stake_account c)) (\<lambda>stake.
     bindR (load_mint w (uc_msol_mint c)) (\<lambda>msol.
     bindR (check_context cx) (\<lambda>_.
     update_active_process rt key (cx_clock cx) ac stake msol sindex vindex st w)))))"

section \<open>Deactivated stakes\<close>

record update_deactivated_accounts =
  ud_common :: update_common
  ud_operational_sol_account :: pubkey
  ud_system_program :: pubkey

text \<open>The cooling-down balance that the recorded amount leaves.\<close>

definition leave_cooling_down :: "stake_record \<Rightarrow> state \<Rightarrow> state" where
  "leave_cooling_down r st =
     (if is_emergency_unstaking r = 0
      then st\<lparr>stake_system := (stake_system st)\<lparr>delayed_unstake_cooling_down := saturating_sub
             (delayed_unstake_cooling_down (stake_system st)) (last_update_delegated_lamports r)\<rparr>\<rparr>
      else st\<lparr>emergency_cooling_down := saturating_sub (emergency_cooling_down st)
             (last_update_delegated_lamports r)\<rparr>)"

definition update_deactivated_fees ::
  "runtime \<Rightarrow> pubkey \<Rightarrow> update_common \<Rightarrow> bool \<Rightarrow> u64 \<Rightarrow> u64 \<Rightarrow> u64 \<Rightarrow> state \<Rightarrow> world
    \<Rightarrow> (state \<times> world) result" where
  "update_deactivated_fees rt key ac ready extra delegated prev st w =
     bindR (update_treasury rt key ac ready extra st w) (\<lambda>(st1, w1).
     if delegated \<ge> prev
     then update_treasury rt key ac ready (fee_apply (reward_fee st1) (delegated - prev)) st1 w1
     else Inr (st1, w1))"

definition update_deactivated_process ::
  "runtime \<Rightarrow> pubkey \<Rightarrow> update_deactivated_accounts \<Rightarrow> stake_state \<Rightarrow> mint \<Rightarrow> u32 \<Rightarrow> state
    \<Rightarrow> world \<Rightarrow> (state \<times> world) result" where
  "update_deactivated_process rt key ac stake msol index st w =
     (let c = ud_common ac in
     bindR (update_begin rt key c msol index st w) (\<lambda>((r, ready), st1).
     bindR (check_address (ud_system_program ac) (rt_system_program rt)) (\<lambda>_.
     bindR (check_operational_sol_account st1 (ud_operational_sol_account ac)) (\<lambda>_.
     bindR (ok_or (stake_delegation stake) Panic) (\<lambda>d.
     bindR (require (deactivation_epoch d \<noteq> - 1) InvalidAccountData) (\<lambda>_.
     bindR (ok_or (stake_meta_of stake) Panic) (\<lambda>m.
     let rent = rent_exempt_reserve m in
     bindR (psub (acc_lamports w (uc_stake_account c)) rent) (\<lambda>bal.
     bindR (update_deactivated_fees rt key c ready (saturating_sub bal (delegated_stake d))
              (delegated_stake d) (last_update_delegated_lamports r) st1 w) (\<lambda>(st2, w2).
     bindR (withdraw_to_reserve rt key c (acc_lamports w2 (uc_stake_account c)) st2 w2)
       (\<lambda>(st3, w3).
     bindR (rt_invoke rt (SystemTransfer (uc_reserve_pda c) (ud_operational_sol_account ac) rent)
              [reserve_seeds key st3] w3) (\<lambda>w4.
     let st4 = leave_cooling_down r (on_transfer_from_reserve st3 rent) in
     bindR (calc_lamports_from_msol_amount st4 PRICE_DENOMINATOR) (\<lambda>price.
     let st5 = st4\<lparr>msol_price := price\<rparr> in
     bindR (stake_remove (stake_system st5) (acc_data w4 (uc_stake_list c)) index) (\<lambda>(ss, sdata).
     Inr (st5\<lparr>stake_system := ss\<rparr>, put_data (uc_stake_list c) sdata w4))))))))))))))"

definition update_deactivated ::
  "runtime \<Rightarrow> call_context \<Rightarrow> pubkey \<Rightarrow> update_deactivated_accounts \<Rightarrow> u32 \<Rightarrow> state \<Rightarrow> world
    \<Rightarrow> (state \<times> world) result" where
  "update_deactivated rt cx key ac index st w =
     (let c = ud_common ac in
     bindR (check_attributes cx [] [key, uc_stake_list c, uc_stake_account c, uc_reserve_pda c,
       uc_msol_mint c, uc_treasury_msol_account c, ud_operational_sol_account ac]) (\<lambda>_.
     bindR (load_stake w (uc_stake_account c)) (\<lambda>stake.
     bindR (load_mint w (uc_msol_mint c)) (\<lambda>msol.
     bindR (check_context cx) (\<lambda>_.
     update_deactivated_process rt key ac stake msol index st w)))))"

section \<open>Facts\<close>

text \<open>The accounts of the program itself are as they were.\<close>

definition program_data_kept :: "world \<Rightarrow> world \<Rightarrow> bool" where
  "program_data_kept w w' \<longleftrightarrow>
     (\<forall>k. acc_owner w k = ID \<longrightarrow> acc_owner w' k = ID \<and> acc_data w' k = acc_data w k)"

lemma kept_refl [simp]: "program_data_kept w w"
  by (simp add: program_data_kept_def)

lemma kept_trans: "program_data_kept w w1 \<Longrightarrow> program_data_kept w1 w2 \<Longrightarrow> program_data_kept w w2"
  by (simp add: program_data_kept_def)

lemma kept_held:
  assumes "program_data_kept w w'"
  shows "validators_held rt st w xs \<Longrightarrow> validators_held rt st w' xs"
    and "stakes_held rt st w ys \<Longrightarrow> stakes_held rt st w' ys"
  using assms by (auto simp: program_data_kept_def intro: validators_held_cong stakes_held_cong)

definition treasury_paid :: "update_common \<Rightarrow> u64 \<Rightarrow> state \<Rightarrow> world \<Rightarrow> state \<Rightarrow> world \<Rightarrow> bool" where
  "treasury_paid ac m st w st' w' \<longleftrightarrow>
     unat (msol_supply st) + unat m < 2 ^ 64 \<and> st' = st\<lparr>msol_supply := msol_supply st + m\<rparr>
     \<and> unat (mint_supply w (uc_msol_mint ac)) + unat m < 2 ^ 64
     \<and> unat (token_amount w (uc_treasury_msol_account ac)) + unat m < 2 ^ 64
     \<and> mint_supply w' = (mint_supply w)(uc_msol_mint ac := mint_supply w (uc_msol_mint ac) + m)
     \<and> token_amount w' = (token_amount w)
         (uc_treasury_msol_account ac := token_amount w (uc_treasury_msol_account ac) + m)
     \<and> acc_lamports w' = acc_lamports w \<and> program_data_kept w w'"

text \<open>Prices compose.\<close>

lemma price_trans:
  fixes T :: nat
  assumes "0 < S2" and "T * S2 \<le> T2 * S" and "T2 * S3 \<le> T3 * S2"
  shows "T * S3 \<le> T3 * S"
proof (cases "T2 = 0")
  case True
  with assms show ?thesis by simp
next
  case False
  have "(T * S2) * (T2 * S3) \<le> (T2 * S) * (T3 * S2)" by (rule mult_le_mono [OF assms(2,3)])
  then have "(T * S3) * (T2 * S2) \<le> (T3 * S) * (T2 * S2)" by (simp add: ac_simps)
  with False assms(1) show ?thesis by simp
qed

text \<open>
  Rewards \<open>r\<close> and extra lamports \<open>e\<close> come in, and the treasury's shares are minted for the extra
  lamports and for a fee \<open>f\<close> of the rewards.
\<close>

lemma rewards_keep_price:
  assumes "0 < S" and m1: "m1 * (T + e) \<le> e * S" and m2: "m2 * (T + e) \<le> f * (S + m1)" and "f \<le> r"
  shows "T * (S + m1 + m2) \<le> (T + e + r) * (S::nat)"
proof (rule price_trans [of "S + m1" _ "T + e"])
  show "0 < S + m1" using assms(1) by simp
  show "T * (S + m1) \<le> (T + e) * S"
    using m1 mult_le_mono2 [of T "T + e" m1] by (simp add: algebra_simps)
  have "m2 * (T + e) \<le> r * (S + m1)" using m2 mult_le_mono1 [OF assms(4)] by (rule le_trans)
  then show "(T + e) * (S + m1 + m2) \<le> (T + e + r) * (S + m1)" by (simp add: algebra_simps)
qed

text \<open>
  In \<open>update_deactivated\<close> the treasury's mSOL is minted before the lamports come in. With a fee \<open>f\<close>
  of at most a tenth of the rewards \<open>r\<close>, the price does not fall unless the extra lamports \<open>e\<close>
  exceed nine times the whole value.
\<close>

lemma early_mint_keeps_price:
  fixes S :: nat
  assumes "0 < S" and m1: "m1 * T \<le> e * S" and m2: "m2 * T \<le> f * (S + m1)"
    and "10 * f \<le> r" and "e \<le> 9 * T"
  shows "T * (S + m1 + m2) \<le> (T + e + r) * S"
proof (cases "T = 0")
  case False
  have "m1 * T \<le> (9 * T) * S" by (rule le_trans [OF m1 mult_le_mono1 [OF assms(5)]])
  also have "\<dots> = (9 * S) * T" by (simp add: ac_simps)
  finally have "m1 \<le> 9 * S" using False by (simp only: mult_le_cancel2 simp_thms)
  then have "f * m1 \<le> f * (9 * S)" by (rule mult_le_mono2)
  then have "f * m1 \<le> 9 * (f * S)" by (simp only: ac_simps)
  moreover have "10 * (f * S) \<le> r * S" using mult_le_mono1 [OF assms(4), of S] by (simp only: ac_simps)
  moreover have "m2 * T \<le> f * S + f * m1" using m2 by (simp only: distrib_left)
  moreover have "T * (S + m1 + m2) = T * S + m1 * T + m2 * T" by (simp add: algebra_simps)
  moreover have "(T + e + r) * S = T * S + e * S + r * S" by (simp add: algebra_simps)
  ultimately show ?thesis using m1 by linarith
qed simp

lemma msol_for_mult: "0 < msol_supply st \<Longrightarrow>
    msol_for st n * virtual_staked st \<le> n * unat (msol_supply st)"
  unfolding msol_for_def by (rule shares_floor_mult) (simp add: word_gt_0_unat)

lemma update_sync_simps [simp]:
  "validator_system (update_sync a b st) = validator_system st"
  "stake_system (update_sync a b st) = stake_system st"
  "msol_supply (update_sync a b st) = b"
  "available_reserve_balance (update_sync a b st) = saturating_sub a (rent_exempt_for_token_acc st)"
  "rent_exempt_for_token_acc (update_sync a b st) = rent_exempt_for_token_acc st"
  "circulating_ticket_balance (update_sync a b st) = circulating_ticket_balance st"
  "emergency_cooling_down (update_sync a b st) = emergency_cooling_down st"
  "reward_fee (update_sync a b st) = reward_fee st"
  "operational_sol_account (update_sync a b st) = operational_sol_account st"
  "validators_held rt (update_sync a b st) w xs = validators_held rt st w xs"
  "stakes_held rt (update_sync a b st) w ys = stakes_held rt st w ys"
  by (simp_all add: update_sync_def validators_held_def stakes_held_def)

context marinade_runtime
begin

lemma invoke_kept: "rt_invoke rt ix sg w = Inr w' \<Longrightarrow> program_data_kept w w'"
  using program_accounts by (simp add: program_data_kept_def)

lemma mint_to_treasury_effect:
  "mint_to_treasury rt key ac m st w = Inr (st', w') \<Longrightarrow> treasury_paid ac m st w st' w'"
  using unat_u64_less
  by (cases "m = 0")
    (auto simp: mint_to_treasury_def treasury_paid_def bindR_Inr on_msol_mint_Inr word_neq_0_conv
      tokens_only_def dest: token_mint_to invoke_kept)

lemma update_treasury_effect:
  assumes "update_treasury rt key ac ready n st w = Inr (st', w')"
  obtains m where "treasury_paid ac m st w st' w'"
    and "unat m = (if ready then msol_for st (unat n) else 0)"
proof (cases ready)
  case True
  with assms obtain m where "calc_msol_from_lamports st n = Inr m"
    and "mint_to_treasury rt key ac m st w = Inr (st', w')"
    by (auto simp: update_treasury_def bindR_Inr)
  then show ?thesis using True by (intro that [of m]) (simp_all add: mint_to_treasury_effect calc_msol_Inr)
next
  case False
  with assms show ?thesis
    using unat_u64_less by (intro that [of 0]) (simp_all add: update_treasury_def treasury_paid_def)
qed

lemma withdraw_to_reserve_effect:
  assumes "withdraw_to_reserve rt key ac n st w = Inr (st', w')"
  shows "unat (available_reserve_balance st) + unat n < 2 ^ 64
    \<and> st' = st\<lparr>available_reserve_balance := available_reserve_balance st + n\<rparr>
    \<and> can_move (uc_stake_account ac) (uc_reserve_pda ac) n (acc_lamports w)
    \<and> acc_lamports w' = move_u64 (uc_stake_account ac) (uc_reserve_pda ac) n (acc_lamports w)
    \<and> token_amount w' = token_amount w \<and> mint_supply w' = mint_supply w \<and> program_data_kept w w'"
proof (cases "n = 0")
  case True
  with assms show ?thesis using unat_u64_less by (simp add: withdraw_to_reserve_def)
next
  case False
  with assms obtain w1 where
    inv: "rt_invoke rt (StakeWithdraw (uc_stake_account ac) (uc_stake_withdraw_authority ac)
      (uc_reserve_pda ac) n) [stake_withdraw_seeds key (stake_system st)] w = Inr w1"
    and res: "on_transfer_to_reserve st n = Inr st'" "w' = w1"
    by (auto simp: withdraw_to_reserve_def bindR_Inr word_neq_0_conv)
  show ?thesis
    using stake_withdraw [OF inv] invoke_kept [OF inv] res
    by (simp add: on_transfer_to_reserve_Inr stakes_only_def token_amount_def mint_supply_def fun_eq_iff)
qed

lemma update_begin_effect:
  assumes "update_begin rt key ac msol index st w = Inr ((r, ready), st')"
    and "stakes_held rt st w ys"
  shows "st' = update_sync (acc_lamports w (uc_reserve_pda ac)) (mt_supply msol) st"
    and "unat index < length ys" and "r = ys ! unat index" and "stake_account r = uc_stake_account ac"
    and "uc_stake_list ac = account (stake_list (stake_system st))"
    and "byte_slice (acc_data w (uc_stake_list ac)) 0 8 = Some STAKE_DISCRIMINATOR"
    and "uc_msol_mint ac = msol_mint st" and "reserve_address rt key st = Inr (uc_reserve_pda ac)"
    and "uc_treasury_msol_account ac = treasury_msol_account st"
    and "ready \<longleftrightarrow> acc_owner w (treasury_msol_account st) = rt_spl_token rt
      \<and> (\<exists>t. acc_token w (treasury_msol_account st) = Some t \<and> tk_mint t = msol_mint st)"
proof -
  from assms(1) have l: "uc_stake_list ac = account (stake_list (stake_system st))"
    "byte_slice (acc_data w (uc_stake_list ac)) 0 8 = Some STAKE_DISCRIMINATOR"
    and g: "stake_get rt (stake_system st) (acc_data w (uc_stake_list ac)) index = Inr r"
    and rest: "st' = update_sync (acc_lamports w (uc_reserve_pda ac)) (mt_supply msol) st"
      "stake_account r = uc_stake_account ac"
      "uc_msol_mint ac = msol_mint st" "reserve_address rt key st = Inr (uc_reserve_pda ac)"
      "uc_treasury_msol_account ac = treasury_msol_account st"
      "ready \<longleftrightarrow> acc_owner w (treasury_msol_account st) = rt_spl_token rt
      \<and> (\<exists>t. acc_token w (treasury_msol_account st) = Some t \<and> tk_mint t = msol_mint st)"
    by (auto simp: update_begin_def bindR_Inr Let_def check_stake_list_Inr state_checks_Inr check_Inr
        check_treasury_msol_account_Inr)
  show "unat index < length ys" "r = ys ! unat index"
    using g stake_get_Inr [OF assms(2) l(1)] by auto
qed (use assms in \<open>auto simp: update_begin_def bindR_Inr Let_def check_stake_list_Inr state_checks_Inr
      check_Inr check_treasury_msol_account_Inr\<close>)

lemma update_rewards_effect:
  assumes run: "update_rewards rt key ac ready delegated prev v st w = Inr (v', st', w')"
    and le: "unat prev \<le> unat (active_balance v) + unat delegated"
    and tot: "active_balance v \<le> total_active_balance (validator_system st)"
  obtains m b t where "treasury_paid ac m st w (st\<lparr>msol_supply := msol_supply st + m\<rparr>) w'"
    and "unat m = (if ready then msol_for st (unat (fee_apply (reward_fee st) (delegated - prev))) else 0)
      \<or> delegated < prev \<and> m = 0"
    and "v' = v\<lparr>active_balance := b\<rparr>"
    and "unat b + unat prev = unat (active_balance v) + unat delegated"
    and "st' = st\<lparr>msol_supply := msol_supply st + m,
      validator_system := (validator_system st)\<lparr>total_active_balance := t\<rparr>\<rparr>"
    and "unat t + unat prev = unat (total_active_balance (validator_system st)) + unat delegated"
proof (cases "prev \<le> delegated")
  case True
  then have diff: "unat (delegated - prev) + unat prev = unat delegated"
    by (simp add: unat_diff_le word_le_nat_alt)
  from run True obtain st1 b t where
    tr: "update_treasury rt key ac ready (fee_apply (reward_fee st) (delegated - prev)) st w = Inr (st1, w')"
    and b: "unat b = unat (active_balance v) + unat (delegated - prev)"
    and t: "unat t = unat (total_active_balance (validator_system st1)) + unat (delegated - prev)"
    and res: "v' = v\<lparr>active_balance := b\<rparr>"
      "st' = st1\<lparr>validator_system := (validator_system st1)\<lparr>total_active_balance := t\<rparr>\<rparr>"
    by (auto simp: update_rewards_def Let_def bindR_Inr ok_or_Inr checked_add_Some)
  from update_treasury_effect [OF tr] obtain m where m: "treasury_paid ac m st w st1 w'"
    "unat m = (if ready then msol_for st (unat (fee_apply (reward_fee st) (delegated - prev))) else 0)" .
  have st1: "st1 = st\<lparr>msol_supply := msol_supply st + m\<rparr>" using m(1) by (simp add: treasury_paid_def)
  show ?thesis
    by (rule that [of m b t]) (use m b t diff res st1 in simp_all)
next
  case False
  then have diff: "unat (prev - delegated) + unat delegated = unat prev" "prev - delegated \<le> active_balance v"
    using le by (simp_all add: unat_diff_le word_le_nat_alt)
  have "saturating_sub a (prev - delegated) = a - (prev - delegated)
      \<and> unat (a - (prev - delegated)) + unat prev = unat a + unat delegated" if "active_balance v \<le> a" for a
    using that diff by (simp add: saturating_sub_def unat_diff_le word_le_nat_alt)
  from this [of "active_balance v"] this [OF tot] show ?thesis
    using run False
    by (intro that [of 0 "active_balance v - (prev - delegated)"
          "total_active_balance (validator_system st) - (prev - delegated)"])
      (auto simp: update_rewards_def treasury_paid_def unat_u64_less [simplified] Let_def)
qed

lemma update_active_run_trace:
  assumes run: "update_active_run rt key ck ac stake msol sindex vindex st w = Inr (st', w')"
  obtains r ready st1 v d sm bal st2 w2 st3 w3 v' st4 w4 vdata price sdata where
    "update_begin rt key (ua_common ac) msol sindex st w = Inr ((r, ready), st1)"
    "validator_get rt (validator_system st1) (acc_data w (ua_validator_list ac)) vindex = Inr v"
    "stake_delegation stake = Some d"
    "update_active_check v d = Inr ()"
    "stake_meta_of stake = Some sm"
    "checked_sub (acc_lamports w (uc_stake_account (ua_common ac))) (rent_exempt_reserve sm) = Some bal"
    "withdraw_to_reserve rt key (ua_common ac) (saturating_sub bal (delegated_stake d)) st1 w
      = Inr (st2, w2)"
    "update_treasury rt key (ua_common ac) ready (saturating_sub bal (delegated_stake d)) st2 w2
      = Inr (st3, w3)"
    "update_rewards rt key (ua_common ac) ready (delegated_stake d) (last_update_delegated_lamports r)
      v st3 w3 = Inr (v', st4, w4)"
    "validator_set rt (validator_system st4) (acc_data w4 (ua_validator_list ac)) vindex v' = Inr vdata"
    "calc_lamports_from_msol_amount st4 PRICE_DENOMINATOR = Inr price"
    "stake_set rt (stake_system (st4\<lparr>msol_price := price\<rparr>))
      (acc_data (put_data (ua_validator_list ac) vdata w4) (uc_stake_list (ua_common ac))) sindex
      (r\<lparr>last_update_epoch := epoch ck, last_update_delegated_lamports := delegated_stake d\<rparr>)
      = Inr sdata"
    "st4\<lparr>msol_price := price\<rparr> = st'"
    "put_data (uc_stake_list (ua_common ac)) sdata (put_data (ua_validator_list ac) vdata w4) = w'"
  using run
  by (simp only: update_active_run_def bindR_Inr ok_or_Inr Let_def split_paired_Ex prod.case
      sum.inject prod.inject)
    (elim exE conjE, rule that, (assumption | simp)+)

lemma update_active_run_effect:
  assumes run: "update_active_run rt key ck ac stake msol sindex vindex st w = Inr (st', w')"
    and vh: "validators_held rt st w xs" and sh: "stakes_held rt st w ys"
    and vl: "check_validator_list (validator_system st) w (ua_validator_list ac) = Inr ()"
    and le: "\<And>d. stake_delegation stake = Some d \<Longrightarrow>
      unat (last_update_delegated_lamports (ys ! unat sindex))
        \<le> unat (active_balance (xs ! unat vindex)) + unat (delegated_stake d)"
  defines "c \<equiv> ua_common ac"
  defines "s1 \<equiv> update_sync (acc_lamports w (uc_reserve_pda c)) (mt_supply msol) st"
  obtains sm d ready and e m1 m2 b :: u64 and st2 where "stake = StakeDelegated sm d"
    and "unat sindex < length ys" and "unat vindex < length xs"
    and "stake_account (ys ! unat sindex) = uc_stake_account c"
    and "voter_pubkey d = validator_account (xs ! unat vindex)" and "deactivation_epoch d = - 1"
    and "rent_exempt_reserve sm \<le> acc_lamports w (uc_stake_account c)"
    and "unat e = unat (acc_lamports w (uc_stake_account c)) - unat (rent_exempt_reserve sm)
      - unat (delegated_stake d)"
    and "can_move (uc_stake_account c) (uc_reserve_pda c) e (acc_lamports w)"
    and "acc_lamports w' = move_u64 (uc_stake_account c) (uc_reserve_pda c) e (acc_lamports w)"
    and "ready \<longleftrightarrow> acc_owner w (treasury_msol_account st) = rt_spl_token rt
      \<and> (\<exists>t. acc_token w (treasury_msol_account st) = Some t \<and> tk_mint t = msol_mint st)"
    and "st2 = s1\<lparr>available_reserve_balance := available_reserve_balance s1 + e\<rparr>"
    and "unat (available_reserve_balance s1) + unat e < 2 ^ 64"
    and "unat m1 = (if ready then msol_for st2 (unat e) else 0)"
    and "unat m2 = (if ready then msol_for (st2\<lparr>msol_supply := msol_supply st2 + m1\<rparr>)
      (unat (fee_apply (reward_fee st) (delegated_stake d - last_update_delegated_lamports (ys ! unat sindex))))
      else 0) \<or> delegated_stake d < last_update_delegated_lamports (ys ! unat sindex) \<and> m2 = 0"
    and "unat (msol_supply st') = unat (mt_supply msol) + unat m1 + unat m2"
    and "token_amount w' = (token_amount w)(treasury_msol_account st :=
      token_amount w (treasury_msol_account st) + m1 + m2)"
    and "unat (token_amount w (treasury_msol_account st)) + unat m1 + unat m2 < 2 ^ 64"
    and "available_reserve_balance st' = available_reserve_balance st2"
    and "rent_exempt_for_token_acc st' = rent_exempt_for_token_acc st"
    and "validators_held rt st' w' (xs[unat vindex := (xs ! unat vindex)\<lparr>active_balance := b\<rparr>])"
    and "unat b + unat (last_update_delegated_lamports (ys ! unat sindex))
      = unat (active_balance (xs ! unat vindex)) + unat (delegated_stake d)"
    and "stakes_held rt st' w' (ys[unat sindex := (ys ! unat sindex)\<lparr>last_update_epoch := epoch ck,
      last_update_delegated_lamports := delegated_stake d\<rparr>])"
    and "under_control st' + unat (last_update_delegated_lamports (ys ! unat sindex))
      = under_control st2 + unat (delegated_stake d)"
    and "circulating_ticket_balance st' = circulating_ticket_balance st"
    and "unat (msol_price st') = lamports_for st' (unat PRICE_DENOMINATOR)"
    and "under_control st2 < 2 ^ 64 \<or> \<not> ready"
proof -
  let ?l = "uc_stake_list c" and ?k = "ua_validator_list ac" and ?vs = "validator_system st"
  from run obtain r ready st1 v d sm bal st2 w2 st3 w3 v' st4 w4 vdata price sdata where
    begin_: "update_begin rt key c msol sindex st w = Inr ((r, ready), st1)"
    and v: "validator_get rt (validator_system st1) (acc_data w ?k) vindex = Inr v"
    and d: "stake_delegation stake = Some d"
    and chk: "update_active_check v d = Inr ()"
    and sm: "stake_meta_of stake = Some sm"
    and bal: "checked_sub (acc_lamports w (uc_stake_account c)) (rent_exempt_reserve sm) = Some bal"
    and wd: "withdraw_to_reserve rt key c (saturating_sub bal (delegated_stake d)) st1 w = Inr (st2, w2)"
    and tr: "update_treasury rt key c ready (saturating_sub bal (delegated_stake d)) st2 w2 = Inr (st3, w3)"
    and rew: "update_rewards rt key c ready (delegated_stake d) (last_update_delegated_lamports r) v st3 w3
      = Inr (v', st4, w4)"
    and vset: "validator_set rt (validator_system st4) (acc_data w4 ?k) vindex v' = Inr vdata"
    and price: "calc_lamports_from_msol_amount st4 PRICE_DENOMINATOR = Inr price"
    and sset: "stake_set rt (stake_system (st4\<lparr>msol_price := price\<rparr>)) (acc_data (put_data ?k vdata w4) ?l)
      sindex (r\<lparr>last_update_epoch := epoch ck, last_update_delegated_lamports := delegated_stake d\<rparr>)
      = Inr sdata"
    and st': "st4\<lparr>msol_price := price\<rparr> = st'" and w': "put_data ?l sdata (put_data ?k vdata w4) = w'"
    unfolding c_def by (rule update_active_run_trace)
  note w' = w' [symmetric] and st' = st' [symmetric]
  let ?e = "saturating_sub bal (delegated_stake d)" and ?p = "last_update_delegated_lamports r"
  note b = update_begin_effect [OF begin_ sh]
  have s1: "st1 = s1" using b(1) by (simp add: s1_def)
  have stake': "stake = StakeDelegated sm d" using d sm by (cases stake) auto
  have k: "?k = account (validator_list ?vs)" and apart: "?k \<noteq> ?l"
    using vl b(6) by (auto simp: check_validator_list_Inr)
  have v0: "unat vindex < length xs" "v = xs ! unat vindex"
    using v validator_get_Inr [OF vh k] by (auto simp: s1 s1_def)
  have e: "unat ?e = unat (acc_lamports w (uc_stake_account c)) - unat (rent_exempt_reserve sm)
      - unat (delegated_stake d)"
    and rent: "rent_exempt_reserve sm \<le> acc_lamports w (uc_stake_account c)"
    using bal by (simp_all add: checked_sub_Some word_le_nat_alt)
  note wd = withdraw_to_reserve_effect [OF wd]
  from update_treasury_effect [OF tr] obtain m1 where m1: "treasury_paid c m1 st2 w2 st3 w3"
    "unat m1 = (if ready then msol_for st2 (unat ?e) else 0)" .
  have st3: "st3 = st2\<lparr>msol_supply := msol_supply st2 + m1\<rparr>" using m1(1) by (simp add: treasury_paid_def)
  have st2: "st2 = s1\<lparr>available_reserve_balance := available_reserve_balance s1 + ?e\<rparr>"
    using wd s1 by simp
  have vsys: "validator_system st3 = ?vs" "stake_system st3 = stake_system st" "reward_fee st3 = reward_fee st"
    by (simp_all add: st3 st2 s1_def)
  have "unat ?p \<le> unat (active_balance v) + unat (delegated_stake d)" using le [OF d] v0 b(3) by simp
  from update_rewards_effect [OF rew this] active_le_total [OF vh v0(1)] v0(2) vsys(1)
  obtain m2 a t where m2: "treasury_paid c m2 st3 w3 (st3\<lparr>msol_supply := msol_supply st3 + m2\<rparr>) w4"
    "unat m2 = (if ready then msol_for st3 (unat (fee_apply (reward_fee st3) (delegated_stake d - ?p))) else 0)
      \<or> delegated_stake d < ?p \<and> m2 = 0"
    and v': "v' = v\<lparr>active_balance := a\<rparr>"
    and a: "unat a + unat ?p = unat (active_balance v) + unat (delegated_stake d)"
    and st4: "st4 = st3\<lparr>msol_supply := msol_supply st3 + m2,
      validator_system := (validator_system st3)\<lparr>total_active_balance := t\<rparr>\<rparr>"
    and t: "unat t + unat ?p = unat (total_active_balance (validator_system st3)) + unat (delegated_stake d)"
    by metis
  have kept: "program_data_kept w w4"
    using wd m1(1) m2(1) kept_trans unfolding treasury_paid_def by blast
  have vset': "validator_set rt (?vs\<lparr>total_active_balance := t\<rparr>) (acc_data w4 ?k) vindex v' = Inr vdata"
    using vset by (simp add: st4 vsys validator_set_def)
  have vh2: "validators_held rt (st\<lparr>validator_system := ?vs\<lparr>total_active_balance := t\<rparr>\<rparr>)
      (put_data ?k vdata w4) (xs[unat vindex := v'])"
    by (rule validator_set_held(1) [OF kept_held(1) [OF kept vh] k vset'])
      (use a t v' v0 vsys in simp_all)
  have "validators_held rt (st\<lparr>validator_system := ?vs\<lparr>total_active_balance := t\<rparr>\<rparr>) w'
      (xs[unat vindex := v'])"
    unfolding w' by (rule put_data_validators_held [OF vh2]) (use k apart in simp)
  then have vh3: "validators_held rt st' w' (xs[unat vindex := v'])"
    by (rule validators_held_cong) (simp_all add: st' st4 vsys)
  have sh1: "stakes_held rt st (put_data ?k vdata w4) ys"
    by (rule put_data_stakes_held [OF kept_held(2) [OF kept sh]]) (use b(5) apart in simp)
  have sset': "stake_set rt (stake_system st) (acc_data (put_data ?k vdata w4) ?l) sindex
      (r\<lparr>last_update_epoch := epoch ck, last_update_delegated_lamports := delegated_stake d\<rparr>) = Inr sdata"
    using sset by (simp add: st4 vsys)
  have "stakes_held rt st w' (ys[unat sindex :=
      r\<lparr>last_update_epoch := epoch ck, last_update_delegated_lamports := delegated_stake d\<rparr>])"
    unfolding w' by (rule stake_set_held(1) [OF sh1 b(5) sset'])
  then have sh3: "stakes_held rt st' w' (ys[unat sindex :=
      r\<lparr>last_update_epoch := epoch ck, last_update_delegated_lamports := delegated_stake d\<rparr>])"
    by (rule stakes_held_cong) (simp_all add: st' st4 vsys)
  have sup: "unat (msol_supply st') = unat (mt_supply msol) + unat m1 + unat m2"
    using m1(1) m2(1) by (simp add: treasury_paid_def st' st4 st3 st2 s1_def unat_add_le)
  have tok: "token_amount w' = (token_amount w)(treasury_msol_account st :=
      token_amount w (treasury_msol_account st) + m1 + m2)"
    using wd m1(1) m2(1) b(9) by (simp add: treasury_paid_def w' fun_eq_iff)
  have tok_bound: "unat (token_amount w (treasury_msol_account st)) + unat m1 + unat m2 < 2 ^ 64"
    using wd m1(1) m2(1) b(9) by (simp add: treasury_paid_def unat_add_le)
  have uc: "under_control st' + unat ?p = under_control st2 + unat (delegated_stake d)"
    using t by (simp add: under_control_def st' st4 st3 st2 s1_def)
  have lam: "acc_lamports w' = move_u64 (uc_stake_account c) (uc_reserve_pda c) ?e (acc_lamports w)"
    using wd m1(1) m2(1) by (simp add: treasury_paid_def w')
  have pr: "unat price = lamports_for st' (unat PRICE_DENOMINATOR)"
    using price by (simp add: calc_lamports_Inr st' lamports_for_def virtual_staked_def under_control_def)
  have big: "under_control st2 < 2 ^ 64 \<or> \<not> ready"
    using tr by (auto simp: update_treasury_def bindR_Inr calc_msol_Inr)
  note m2' = m2(2) [unfolded vsys(3), unfolded st3 b(3)]
  show thesis
    by (rule that [OF stake' b(2) v0(1) _ _ _ rent e _ lam b(10) st2 _ m1(2) m2' sup tok tok_bound
          _ _ vh3 [unfolded v' v0(2)] _ sh3 [unfolded b(3)] _ _ _ big])
      (use b wd chk a uc pr v0 s1 in
        \<open>simp_all add: update_active_check_def bindR_Inr check_Inr st' st4 st3 st2 s1_def\<close>)
qed

text \<open>The reserve and its virtual balance move together.\<close>

lemma update_rewards_reserve:
  assumes "update_rewards rt key ac ready delegated prev v st w = Inr (v', st', w')"
  shows "available_reserve_balance st' = available_reserve_balance st
    \<and> rent_exempt_for_token_acc st' = rent_exempt_for_token_acc st \<and> acc_lamports w' = acc_lamports w"
proof (cases "prev \<le> delegated")
  case True
  with assms obtain st1 t where
    tr: "update_treasury rt key ac ready (fee_apply (reward_fee st) (delegated - prev)) st w = Inr (st1, w')"
    and st': "st' = st1\<lparr>validator_system := (validator_system st1)\<lparr>total_active_balance := t\<rparr>\<rparr>"
    by (auto simp: update_rewards_def Let_def bindR_Inr)
  from update_treasury_effect [OF tr] obtain m where "treasury_paid ac m st w st1 w'" by blast
  then show ?thesis by (simp add: treasury_paid_def st')
qed (use assms in \<open>auto simp: update_rewards_def Let_def\<close>)

lemma update_active_run_reserve:
  assumes run: "update_active_run rt key ck ac stake msol sindex vindex st w = Inr (st', w')"
    and ne: "uc_reserve_pda (ua_common ac) \<noteq> uc_stake_account (ua_common ac)"
  obtains e :: u64 where
    "unat (available_reserve_balance st') = unat (acc_lamports w (uc_reserve_pda (ua_common ac)))
       - unat (rent_exempt_for_token_acc st) + unat e"
    and "unat (acc_lamports w' (uc_reserve_pda (ua_common ac)))
       = unat (acc_lamports w (uc_reserve_pda (ua_common ac))) + unat e"
    and "rent_exempt_for_token_acc st' = rent_exempt_for_token_acc st"
proof -
  let ?c = "ua_common ac"
  from run obtain r ready st1 v and d :: delegation and sm bal st2 w2 st3 w3 v' st4 w4 vdata price sdata
  where b: "update_begin rt key ?c msol sindex st w = Inr ((r, ready), st1)"
    and wd: "withdraw_to_reserve rt key ?c (saturating_sub bal (delegated_stake d)) st1 w = Inr (st2, w2)"
    and tr: "update_treasury rt key ?c ready (saturating_sub bal (delegated_stake d)) st2 w2 = Inr (st3, w3)"
    and rew: "update_rewards rt key ?c ready (delegated_stake d) (last_update_delegated_lamports r)
      v st3 w3 = Inr (v', st4, w4)"
    and fin: "st4\<lparr>msol_price := price\<rparr> = st'"
      "put_data (uc_stake_list ?c) sdata (put_data (ua_validator_list ac) vdata w4) = w'"
    by (rule update_active_run_trace) (rule that, assumption+)
  note fin = fin [symmetric]
  have st1: "st1 = update_sync (acc_lamports w (uc_reserve_pda ?c)) (mt_supply msol) st"
    using b by (auto simp: update_begin_def bindR_Inr Let_def)
  note wd = withdraw_to_reserve_effect [OF wd]
  from update_treasury_effect [OF tr] obtain m where m: "treasury_paid ?c m st2 w2 st3 w3" by blast
  note rw = update_rewards_reserve [OF rew]
  have move: "can_move (uc_stake_account ?c) (uc_reserve_pda ?c) (saturating_sub bal (delegated_stake d))
      (acc_lamports w)"
    "acc_lamports w' = move_u64 (uc_stake_account ?c) (uc_reserve_pda ?c)
      (saturating_sub bal (delegated_stake d)) (acc_lamports w)"
    using wd m rw by (simp_all add: treasury_paid_def fin)
  have avail: "available_reserve_balance st' = available_reserve_balance st1
      + saturating_sub bal (delegated_stake d)"
    and rent: "rent_exempt_for_token_acc st' = rent_exempt_for_token_acc st"
    using wd m rw by (simp_all add: treasury_paid_def fin st1)
  show thesis
    by (rule that [of "saturating_sub bal (delegated_stake d)"])
      (use wd move_target [OF move(1) not_sym [OF ne]] in
        \<open>simp_all add: avail rent move(2) unat_add_le st1\<close>)
qed

lemma update_deactivated_fees_effect:
  assumes run: "update_deactivated_fees rt key ac ready e delegated prev st w = Inr (st', w')"
  obtains m1 m2 where "unat (msol_supply st) + unat m1 + unat m2 < 2 ^ 64"
    and "st' = st\<lparr>msol_supply := msol_supply st + m1 + m2\<rparr>"
    and "acc_lamports w' = acc_lamports w" and "program_data_kept w w'"
    and "unat (token_amount w (uc_treasury_msol_account ac)) + unat m1 + unat m2 < 2 ^ 64"
    and "token_amount w' = (token_amount w)(uc_treasury_msol_account ac :=
      token_amount w (uc_treasury_msol_account ac) + m1 + m2)"
    and "unat m1 = (if ready then msol_for st (unat e) else 0)"
    and "unat m2 = (if ready \<and> prev \<le> delegated
      then msol_for (st\<lparr>msol_supply := msol_supply st + m1\<rparr>)
        (unat (fee_apply (reward_fee st) (delegated - prev))) else 0)"
proof -
  from run obtain st1 w1 where t1: "update_treasury rt key ac ready e st w = Inr (st1, w1)"
    and rest: "(if delegated \<ge> prev
     then update_treasury rt key ac ready (fee_apply (reward_fee st1) (delegated - prev)) st1 w1
     else Inr (st1, w1)) = Inr (st', w')"
    by (auto simp: update_deactivated_fees_def bindR_Inr)
  from update_treasury_effect [OF t1] obtain m1 where m1: "treasury_paid ac m1 st w st1 w1"
    "unat m1 = (if ready then msol_for st (unat e) else 0)" .
  have st1: "st1 = st\<lparr>msol_supply := msol_supply st + m1\<rparr>" using m1(1) by (simp add: treasury_paid_def)
  have "\<exists>m2. treasury_paid ac m2 st1 w1 st' w' \<and> unat m2 = (if ready \<and> prev \<le> delegated
      then msol_for st1 (unat (fee_apply (reward_fee st) (delegated - prev))) else 0)"
  proof (cases "prev \<le> delegated")
    case True
    with rest have "update_treasury rt key ac ready (fee_apply (reward_fee st) (delegated - prev)) st1 w1
        = Inr (st', w')"
      by (simp add: st1)
    from update_treasury_effect [OF this] True show ?thesis by metis
  next
    case False
    with rest show ?thesis
      using unat_u64_less by (intro exI [of _ 0]) (simp add: treasury_paid_def)
  qed
  then obtain m2 where m2: "treasury_paid ac m2 st1 w1 st' w'"
    "unat m2 = (if ready \<and> prev \<le> delegated
      then msol_for st1 (unat (fee_apply (reward_fee st) (delegated - prev))) else 0)" by blast
  have "program_data_kept w w'" using m1(1) m2(1) kept_trans unfolding treasury_paid_def by blast
  then show ?thesis
    by (intro that [of m1 m2])
      (use m1 m2 in \<open>simp_all add: st1 treasury_paid_def unat_add_le fun_eq_iff\<close>)
qed

lemma update_deactivated_trace:
  fixes ac
  defines "c \<equiv> ud_common ac"
  assumes run: "update_deactivated rt cx key ac index st w = Inr (st', w')"
  obtains stake msol r ready st1 d sm bal st2 w2 st3 w3 w4 price ss sdata where
    "acc_stake w (uc_stake_account c) = Some stake"
    and "acc_mint w (uc_msol_mint c) = Some msol"
    and "update_begin rt key c msol index st w = Inr ((r, ready), st1)"
    and "check_operational_sol_account st1 (ud_operational_sol_account ac) = Inr ()"
    and "stake_delegation stake = Some d"
    and "deactivation_epoch d \<noteq> - 1"
    and "stake_meta_of stake = Some sm"
    and "checked_sub (acc_lamports w (uc_stake_account c)) (rent_exempt_reserve sm) = Some bal"
    and "update_deactivated_fees rt key c ready (saturating_sub bal (delegated_stake d))
      (delegated_stake d) (last_update_delegated_lamports r) st1 w = Inr (st2, w2)"
    and "withdraw_to_reserve rt key c (acc_lamports w2 (uc_stake_account c)) st2 w2 = Inr (st3, w3)"
    and "rt_invoke rt (SystemTransfer (uc_reserve_pda c) (ud_operational_sol_account ac)
      (rent_exempt_reserve sm)) [reserve_seeds key st3] w3 = Inr w4"
    and "calc_lamports_from_msol_amount
      (leave_cooling_down r (on_transfer_from_reserve st3 (rent_exempt_reserve sm))) PRICE_DENOMINATOR
      = Inr price"
    and "stake_remove (stake_system ((leave_cooling_down r
        (on_transfer_from_reserve st3 (rent_exempt_reserve sm)))\<lparr>msol_price := price\<rparr>))
      (acc_data w4 (uc_stake_list c)) index = Inr (ss, sdata)"
    and "(leave_cooling_down r (on_transfer_from_reserve st3 (rent_exempt_reserve sm)))
      \<lparr>msol_price := price, stake_system := ss\<rparr> = st'"
    and "put_data (uc_stake_list c) sdata w4 = w'"
  using run
  by (simp only: update_deactivated_def update_deactivated_process_def bindR_Inr ok_or_Inr
      load_stake_def load_mint_def require_Inr Let_def split_paired_Ex prod.case sum.inject prod.inject)
    (elim exE conjE, rule that [unfolded c_def], (assumption | simp)+)

lemma update_deactivated_effect:
  assumes run: "update_deactivated rt cx key ac index st w = Inr (st', w')"
    and vh: "validators_held rt st w xs" and sh: "stakes_held rt st w ys"
    and apart: "account (validator_list (validator_system st)) \<noteq> account (stake_list (stake_system st))"
  defines "c \<equiv> ud_common ac"
  defines "s1 \<equiv> update_sync (acc_lamports w (uc_reserve_pda c)) (mint_supply w (uc_msol_mint c)) st"
  obtains sm d ready m1 m2 and w3 :: world and s5 :: state where
    "acc_stake w (uc_stake_account c) = Some (StakeDelegated sm d)"
    and "unat index < length ys" and "stake_account (ys ! unat index) = uc_stake_account c"
    and "deactivation_epoch d \<noteq> - 1"
    and "ud_operational_sol_account ac = operational_sol_account st"
    and "rent_exempt_reserve sm \<le> acc_lamports w (uc_stake_account c)"
    and "can_move (uc_stake_account c) (uc_reserve_pda c) (acc_lamports w (uc_stake_account c))
      (acc_lamports w)"
    and "acc_lamports w3 = move_u64 (uc_stake_account c) (uc_reserve_pda c)
      (acc_lamports w (uc_stake_account c)) (acc_lamports w)"
    and "can_move (uc_reserve_pda c) (operational_sol_account st) (rent_exempt_reserve sm)
      (acc_lamports w3)"
    and "acc_lamports w' = move_u64 (uc_reserve_pda c) (operational_sol_account st)
      (rent_exempt_reserve sm) (acc_lamports w3)"
    and "unat (available_reserve_balance s1) + unat (acc_lamports w (uc_stake_account c)) < 2 ^ 64"
    and "s5 = leave_cooling_down (ys ! unat index) (on_transfer_from_reserve
      (s1\<lparr>msol_supply := msol_supply s1 + m1 + m2, available_reserve_balance :=
         available_reserve_balance s1 + acc_lamports w (uc_stake_account c)\<rparr>) (rent_exempt_reserve sm))"
    and "under_control st' = under_control s5" and "msol_supply st' = msol_supply s5"
    and "available_reserve_balance st' = available_reserve_balance s5"
    and "circulating_ticket_balance st' = circulating_ticket_balance st"
    and "delayed_unstake_cooling_down (stake_system st') = delayed_unstake_cooling_down (stake_system s5)"
    and "emergency_cooling_down st' = emergency_cooling_down s5"
    and "rent_exempt_for_token_acc st' = rent_exempt_for_token_acc st"
    and "unat (msol_supply s1) + unat m1 + unat m2 < 2 ^ 64"
    and "unat (token_amount w (treasury_msol_account st)) + unat m1 + unat m2 < 2 ^ 64"
    and "token_amount w' = (token_amount w)(treasury_msol_account st :=
      token_amount w (treasury_msol_account st) + m1 + m2)"
    and "unat m1 = (if ready then msol_for s1 (unat (acc_lamports w (uc_stake_account c))
      - unat (rent_exempt_reserve sm) - unat (delegated_stake d)) else 0)"
    and "unat m2 = (if ready \<and> last_update_delegated_lamports (ys ! unat index) \<le> delegated_stake d
      then msol_for (s1\<lparr>msol_supply := msol_supply s1 + m1\<rparr>) (unat (fee_apply (reward_fee st)
        (delegated_stake d - last_update_delegated_lamports (ys ! unat index)))) else 0)"
    and "validators_held rt st' w' xs"
    and "stakes_held rt st' w' (swap_remove ys (unat index))"
    and "unat (msol_price st') = lamports_for st' (unat PRICE_DENOMINATOR)"
proof -
  let ?l = "uc_stake_list c" and ?L = "acc_lamports w (uc_stake_account c)"
  from run obtain stake msol r ready st1 d sm bal st2 w2 st3 w3 w4 price ss sdata where
    stake: "acc_stake w (uc_stake_account c) = Some stake"
    and msol: "acc_mint w (uc_msol_mint c) = Some msol"
    and begin_: "update_begin rt key c msol index st w = Inr ((r, ready), st1)"
    and op: "check_operational_sol_account st1 (ud_operational_sol_account ac) = Inr ()"
    and d: "stake_delegation stake = Some d"
    and de: "deactivation_epoch d \<noteq> - 1"
    and sm: "stake_meta_of stake = Some sm"
    and bal: "checked_sub ?L (rent_exempt_reserve sm) = Some bal"
    and fees: "update_deactivated_fees rt key c ready (saturating_sub bal (delegated_stake d))
      (delegated_stake d) (last_update_delegated_lamports r) st1 w = Inr (st2, w2)"
    and wd: "withdraw_to_reserve rt key c (acc_lamports w2 (uc_stake_account c)) st2 w2 = Inr (st3, w3)"
    and tr: "rt_invoke rt (SystemTransfer (uc_reserve_pda c) (ud_operational_sol_account ac)
      (rent_exempt_reserve sm)) [reserve_seeds key st3] w3 = Inr w4"
    and price: "calc_lamports_from_msol_amount
      (leave_cooling_down r (on_transfer_from_reserve st3 (rent_exempt_reserve sm))) PRICE_DENOMINATOR
      = Inr price"
    and rem: "stake_remove (stake_system ((leave_cooling_down r
        (on_transfer_from_reserve st3 (rent_exempt_reserve sm)))\<lparr>msol_price := price\<rparr>))
      (acc_data w4 ?l) index = Inr (ss, sdata)"
    and st': "(leave_cooling_down r (on_transfer_from_reserve st3 (rent_exempt_reserve sm)))
      \<lparr>msol_price := price, stake_system := ss\<rparr> = st'"
    and w': "put_data ?l sdata w4 = w'"
    unfolding c_def by (rule update_deactivated_trace) (rule that [unfolded c_def], assumption+)
  note w' = w' [symmetric] and st' = st' [symmetric]
  let ?s5 = "leave_cooling_down r (on_transfer_from_reserve st3 (rent_exempt_reserve sm))"
  note b = update_begin_effect [OF begin_ sh]
  have st1: "st1 = s1" using b(1) msol by (simp add: s1_def mint_supply_def)
  have stake': "stake = StakeDelegated sm d" using d sm by (cases stake) auto
  from update_deactivated_fees_effect [OF fees] obtain m1 m2 where
    sb: "unat (msol_supply st1) + unat m1 + unat m2 < 2 ^ 64"
    and st2: "st2 = st1\<lparr>msol_supply := msol_supply st1 + m1 + m2\<rparr>"
    and lam2: "acc_lamports w2 = acc_lamports w" and kept2: "program_data_kept w w2"
    and tb: "unat (token_amount w (uc_treasury_msol_account c)) + unat m1 + unat m2 < 2 ^ 64"
    and tok2: "token_amount w2 = (token_amount w)(uc_treasury_msol_account c :=
      token_amount w (uc_treasury_msol_account c) + m1 + m2)"
    and m1: "unat m1 = (if ready then msol_for st1 (unat (saturating_sub bal (delegated_stake d))) else 0)"
    and m2: "unat m2 = (if ready \<and> last_update_delegated_lamports r \<le> delegated_stake d
      then msol_for (st1\<lparr>msol_supply := msol_supply st1 + m1\<rparr>) (unat (fee_apply (reward_fee st1)
        (delegated_stake d - last_update_delegated_lamports r))) else 0)" .
  note wd = withdraw_to_reserve_effect [OF wd]
  note tr' = system_transfer [OF tr]
  have e: "unat (saturating_sub bal (delegated_stake d)) = unat ?L - unat (rent_exempt_reserve sm)
      - unat (delegated_stake d)" and rent: "rent_exempt_reserve sm \<le> ?L"
    using bal by (simp_all add: checked_sub_Some word_le_nat_alt)
  have kept: "program_data_kept w w4"
    using kept2 wd invoke_kept [OF tr] kept_trans by blast
  have st3: "st3 = s1\<lparr>msol_supply := msol_supply s1 + m1 + m2,
      available_reserve_balance := available_reserve_balance s1 + ?L\<rparr>"
    using wd lam2 by (simp add: st2 st1)
  have lists: "stake_list (stake_system (?s5\<lparr>msol_price := price\<rparr>)) = stake_list (stake_system st)"
    "validator_system ?s5 = validator_system st"
    by (simp_all add: leave_cooling_down_def on_transfer_from_reserve_def st3 s1_def)
  have sh4: "stakes_held rt (?s5\<lparr>msol_price := price\<rparr>) w4 ys"
    using kept_held(2) [OF kept sh] by (rule stakes_held_cong) (simp_all add: lists(1) [simplified])
  note held = stake_remove_held [OF sh4 _ rem]
  have l: "?l = account (stake_list (stake_system (?s5\<lparr>msol_price := price\<rparr>)))"
    unfolding lists by (rule b(5))
  have sh': "stakes_held rt st' w' (swap_remove ys (unat index))"
    using held(1) [OF l] by (simp add: st' w')
  have dc: "delayed_unstake_cooling_down ss = delayed_unstake_cooling_down (stake_system ?s5)"
    by (subst held(3) [OF l]) simp
  have "validators_held rt st w' xs"
    unfolding w' by (rule put_data_validators_held [OF kept_held(1) [OF kept vh]])
      (use apart b(5) in simp)
  then have vh': "validators_held rt st' w' xs"
    by (rule validators_held_cong) (simp_all add: st' lists(2))
  have lam: "can_move (uc_stake_account c) (uc_reserve_pda c) ?L (acc_lamports w)"
    "acc_lamports w3 = move_u64 (uc_stake_account c) (uc_reserve_pda c) ?L (acc_lamports w)"
    using wd lam2 by simp_all
  have opk: "ud_operational_sol_account ac = operational_sol_account st"
    using op by (simp add: state_checks_Inr st1 s1_def)
  have lam4: "can_move (uc_reserve_pda c) (operational_sol_account st) (rent_exempt_reserve sm) (acc_lamports w3)"
    "acc_lamports w' = move_u64 (uc_reserve_pda c) (operational_sol_account st) (rent_exempt_reserve sm)
      (acc_lamports w3)"
    using tr' opk by (simp_all add: w')
  have ab: "unat (available_reserve_balance s1) + unat ?L < 2 ^ 64"
    using wd lam2 by (simp add: st2 st1)
  have tok: "token_amount w' = (token_amount w)(treasury_msol_account st :=
      token_amount w (treasury_msol_account st) + m1 + m2)"
    using wd tok2 tr' b(9) by (simp add: w')
  have uc: "under_control st' = under_control ?s5" "virtual_staked st' = virtual_staked ?s5"
    "msol_supply st' = msol_supply ?s5"
    by (simp_all add: st' virtual_staked_def under_control_def dc)
  have pr: "unat (msol_price st') = lamports_for st' (unat PRICE_DENOMINATOR)"
    using price uc by (simp add: calc_lamports_Inr lamports_for_def) (simp add: st')
  show thesis
    by (rule that [OF stake [unfolded stake'] b(2) b(4) [unfolded b(3)] de opk rent lam lam4 ab
          refl [of ?s5, unfolded st3 b(3)] uc(1) [unfolded st3 b(3)] uc(3) [unfolded st3 b(3)]
          _ _ _ _ _ sb [unfolded st1] tb [unfolded b(9)] tok m1 [unfolded e st1]
          _ vh' sh' pr])
      (use m2 in \<open>simp_all add: st' st3 st1 s1_def dc b(3) leave_cooling_down_def
          on_transfer_from_reserve_def\<close>)
qed

end

lemma update_active_Inr:
  assumes "update_active rt cx key ac sindex vindex st w = Inr (st', w')"
  obtains stake msol where "acc_stake w (uc_stake_account (ua_common ac)) = Some stake"
    and "acc_mint w (uc_msol_mint (ua_common ac)) = Some msol"
    and "update_active_run rt key (cx_clock cx) ac stake msol sindex vindex st w = Inr (st', w')"
    and "unat (available_reserve_balance st') + unat (rent_exempt_for_token_acc st')
      = unat (acc_lamports w' (uc_reserve_pda (ua_common ac)))"
  using assms
  by (auto simp: update_active_def update_active_process_def Let_def bindR_Inr ok_or_Inr load_stake_def
      load_mint_def checked_add_Some)

section \<open>Properties\<close>

text \<open>
  The final assertion of \<open>update_active\<close> depends on one thing only. When the other steps
  succeed, the instruction succeeds exactly if the reserve account held its own rent at the start;
  with less it always panics, so the books of no stake can then be updated.
\<close>
lemma update_active_assertion:
  assumes "marinade_runtime rt"
    and "update_active_run rt key ck ac stake msol sindex vindex st w = Inr (st', w')"
    and "uc_reserve_pda (ua_common ac) \<noteq> uc_stake_account (ua_common ac)"
  shows "update_active_process rt key ck ac stake msol sindex vindex st w =
    (if rent_exempt_for_token_acc st \<le> acc_lamports w (uc_reserve_pda (ua_common ac))
     then Inr (st', w') else Inl Panic)"
proof (rule marinade_runtime.update_active_run_reserve [OF assms])
  fix e :: u64
  let ?l = "acc_lamports w (uc_reserve_pda (ua_common ac))" and ?r = "rent_exempt_for_token_acc st"
  let ?l' = "acc_lamports w' (uc_reserve_pda (ua_common ac))"
  assume a: "unat (available_reserve_balance st') = unat ?l - unat ?r + unat e"
    and l: "unat ?l' = unat ?l + unat e" and r: "rent_exempt_for_token_acc st' = ?r"
  have ok: "(\<exists>t. padd (available_reserve_balance st') ?r = Inr t \<and> t = ?l') \<longleftrightarrow> ?r \<le> ?l"
    using a l by (auto simp: ok_or_Inr checked_add_Some word_le_nat_alt)
  show ?thesis
  proof (cases "padd (available_reserve_balance st') ?r")
    case (Inl x)
    with ok show ?thesis by (auto simp: update_active_process_def assms(2) r ok_or_Inl)
  next
    case (Inr t)
    with ok show ?thesis by (auto simp: update_active_process_def assms(2) r require_def)
  qed
qed

text \<open>
  C11. Updating an active stake books its rewards or its slashing exactly: the balance of its validator,
  the total and the stake's record follow the delegated lamports, whatever they became, so the lists
  stay exact; lamports beyond the delegation and the rent go to the reserve, whose virtual balance
  equals the account's again; and the stored price is the one of the new state. This needs the
  validator list to be the program's own, which the instruction itself does not check, the
  stake's last recorded amount not to exceed the active balance of its validator (the code subtracts it
  saturating at 0), and a stake account other than the reserve.
\<close>
theorem update_active_books:
  assumes "marinade_runtime rt"
    and "update_active rt cx key ac sindex vindex st w = Inr (st', w')"
    and "validators_held rt st w xs" and "stakes_held rt st w ys"
    and "check_validator_list (validator_system st) w (ua_validator_list ac) = Inr ()"
    and "last_update_delegated_lamports (ys ! unat sindex) \<le> active_balance (xs ! unat vindex)"
    and "uc_reserve_pda (ua_common ac) \<noteq> uc_stake_account (ua_common ac)"
  shows "\<exists>sm d b (e::u64). acc_stake w (uc_stake_account (ua_common ac)) = Some (StakeDelegated sm d)
    \<and> deactivation_epoch d = - 1 \<and> voter_pubkey d = validator_account (xs ! unat vindex)
    \<and> stake_account (ys ! unat sindex) = uc_stake_account (ua_common ac)
    \<and> validators_held rt st' w' (xs[unat vindex := (xs ! unat vindex)\<lparr>active_balance := b\<rparr>])
    \<and> unat b + unat (last_update_delegated_lamports (ys ! unat sindex))
        = unat (active_balance (xs ! unat vindex)) + unat (delegated_stake d)
    \<and> stakes_held rt st' w' (ys[unat sindex := (ys ! unat sindex)\<lparr>last_update_epoch := epoch (cx_clock cx),
        last_update_delegated_lamports := delegated_stake d\<rparr>])
    \<and> unat e = unat (acc_lamports w (uc_stake_account (ua_common ac))) - unat (rent_exempt_reserve sm)
        - unat (delegated_stake d)
    \<and> unat (acc_lamports w' (uc_stake_account (ua_common ac))) + unat e
        = unat (acc_lamports w (uc_stake_account (ua_common ac)))
    \<and> unat (acc_lamports w' (uc_reserve_pda (ua_common ac)))
        = unat (acc_lamports w (uc_reserve_pda (ua_common ac))) + unat e
    \<and> unat (available_reserve_balance st') + unat (rent_exempt_for_token_acc st')
        = unat (acc_lamports w' (uc_reserve_pda (ua_common ac)))
    \<and> unat (msol_price st') = lamports_for st' (2 ^ 32)"
proof (rule update_active_Inr [OF assms(2)], goal_cases)
  case (1 stake msol)
  have le: "unat (last_update_delegated_lamports (ys ! unat sindex))
      \<le> unat (active_balance (xs ! unat vindex)) + unat (delegated_stake d)"
    if "stake_delegation stake = Some d" for d :: delegation
    using assms(6) by (simp add: word_le_nat_alt)
  show ?case
  proof (rule marinade_runtime.update_active_run_effect [OF assms(1) 1(3) assms(3-5) le], assumption, goal_cases)
    case (1 sm d ready e m1 m2 b st2)
    note move = move_source [OF 1(9) not_sym [OF assms(7)]] move_target [OF 1(9) not_sym [OF assms(7)]]
    have price: "unat PRICE_DENOMINATOR = 2 ^ 32" by (simp add: PRICE_DENOMINATOR_def)
    show ?case
      using 1 move \<open>unat (available_reserve_balance st') + _ = _\<close>
        \<open>acc_stake w (uc_stake_account (ua_common ac)) = Some stake\<close>
      by (intro exI [of _ sm] exI [of _ d] exI [of _ b] exI [of _ e]) (simp add: price)
  qed
qed

text \<open>
  C12. Without slashing, updating an active stake never lowers the price of mSOL, in spite of the
  mSOL minted for the treasury: from the balances synchronised with the accounts to the new ones, the
  value per mSOL does not fall. The treasury receives all the mSOL that is minted, and none if its
  account cannot receive it.
\<close>
theorem update_active_keeps_price:
  assumes "marinade_runtime rt"
    and "update_active rt cx key ac sindex vindex st w = Inr (st', w')"
    and "validators_held rt st w xs" and "stakes_held rt st w ys"
    and "check_validator_list (validator_system st) w (ua_validator_list ac) = Inr ()"
    and "acc_stake w (uc_stake_account (ua_common ac)) = Some (StakeDelegated sm d)"
    and "last_update_delegated_lamports (ys ! unat sindex) \<le> delegated_stake d"
    and "fee_check (reward_fee st) = Inr ()"
  defines "s1 \<equiv> update_sync (acc_lamports w (uc_reserve_pda (ua_common ac)))
      (mint_supply w (uc_msol_mint (ua_common ac))) st"
  assumes "0 < msol_supply s1" and "unat (circulating_ticket_balance st) \<le> under_control s1"
  shows "virtual_staked s1 * unat (msol_supply st') \<le> virtual_staked st' * unat (msol_supply s1)
    \<and> (\<exists>m. unat (msol_supply st') = unat (msol_supply s1) + m
         \<and> unat (token_amount w' (treasury_msol_account st))
             = unat (token_amount w (treasury_msol_account st)) + m
         \<and> (acc_owner w (treasury_msol_account st) \<noteq> rt_spl_token rt \<longrightarrow> m = 0))"
proof (rule update_active_Inr [OF assms(2)], goal_cases)
  case (1 stake msol)
  have stake: "stake = StakeDelegated sm d" using 1(1) assms(6) by simp
  have sup: "mt_supply msol = msol_supply s1" using 1(2) by (simp add: s1_def mint_supply_def)
  have s1': "update_sync (acc_lamports w (uc_reserve_pda (ua_common ac))) (mt_supply msol) st = s1"
    using 1(2) by (simp add: s1_def mint_supply_def)
  have le: "unat (last_update_delegated_lamports (ys ! unat sindex))
      \<le> unat (active_balance (xs ! unat vindex)) + unat (delegated_stake x)"
    if "stake_delegation stake = Some x" for x :: delegation
    using assms(7) that by (simp add: stake word_le_nat_alt)
  show ?case
  proof (rule marinade_runtime.update_active_run_effect [OF assms(1) 1(3) assms(3-5) le], assumption,
      unfold s1', goal_cases)
    case (1 sm' d' ready e m1 m2 b st2)
    have d': "d' = d" using 1(1) stake by simp
    let ?p = "last_update_delegated_lamports (ys ! unat sindex)"
    let ?r = "delegated_stake d - ?p" and ?f = "fee_apply (reward_fee st) (delegated_stake d - ?p)"
    let ?S = "unat (msol_supply s1)" and ?T = "virtual_staked s1"
    have r: "unat ?r + unat ?p = unat (delegated_stake d)"
      using assms(7) by (simp add: unat_diff_le word_le_nat_alt)
    have st2: "st2 = s1\<lparr>available_reserve_balance := available_reserve_balance s1 + e\<rparr>"
      and b2: "unat (available_reserve_balance s1) + unat e < 2 ^ 64" by (fact 1)+
    have uc: "under_control st2 = under_control s1 + unat e"
      using b2 by (simp add: st2 under_control_def unat_add_le)
    have v2: "virtual_staked st2 = ?T + unat e"
      using uc assms(11) by (simp add: virtual_staked_def st2 s1_def)
    let ?st3 = "st2\<lparr>msol_supply := msol_supply st2 + m1\<rparr>"
    have msup: "unat (msol_supply st') = ?S + unat m1 + unat m2" using 1(16) sup by simp
    have small: "?S + unat m1 < 2 ^ 64" using msup unat_u64_less [of "msol_supply st'"] by simp
    have s3: "unat (msol_supply ?st3) = ?S + unat m1" using small by (simp add: st2 unat_add_le)
    have v3: "virtual_staked ?st3 = ?T + unat e"
      using v2 by (simp add: virtual_staked_def under_control_def)
    have S: "0 < msol_supply st2" "0 < msol_supply ?st3"
      using assms(10) s3 by (simp_all add: st2 word_gt_0_unat)
    have m1: "unat m1 * (?T + unat e) \<le> unat e * ?S"
      using 1(14) msol_for_mult [OF S(1), of "unat e"] v2 by (simp add: st2 split: if_splits)
    have m2: "unat m2 * (?T + unat e) \<le> unat ?f * (?S + unat m1)"
      using 1(15) msol_for_mult [OF S(2), of "unat ?f"] v3 s3 assms(7)
      by (auto simp: d' split: if_splits)
    have f: "unat ?f \<le> unat ?r" by (rule fee_apply_le) (use assms(8) in \<open>simp add: fee_check_Inr\<close>)
    have "under_control st' = under_control st2 + unat ?r" using 1(24) r by (simp add: d')
    then have v': "virtual_staked st' = ?T + unat e + unat ?r"
      using uc assms(11) 1(25) by (simp add: virtual_staked_def s1_def)
    have "?T * (?S + unat m1 + unat m2) \<le> (?T + unat e + unat ?r) * ?S"
      by (rule rewards_keep_price [OF _ m1 m2 f]) (use assms(10) in \<open>simp add: word_gt_0_unat\<close>)
    moreover have "unat m1 + unat m2 = 0" if "acc_owner w (treasury_msol_account st) \<noteq> rt_spl_token rt"
      using that 1(11,14,15) by auto
    moreover have "unat (token_amount w' (treasury_msol_account st))
        = unat (token_amount w (treasury_msol_account st)) + (unat m1 + unat m2)"
      using 1(17,18) by (simp add: unat_add_le)
    ultimately show ?case using msup v' by (intro conjI exI [of _ "unat m1 + unat m2"]) simp_all
  qed
qed

text \<open>
  C13. Updating a deactivated stake brings all its lamports to the reserve, less its rent, which goes
  to the operational account; the virtual reserve balance equals the account's again if the reserve
  held its rent. The record leaves the list, and its recorded amount leaves the balance it was cooling
  down in, the delayed or the emergency one, and only that. The stored price is the one of the new
  state.
\<close>
theorem update_deactivated_settles:
  assumes "marinade_runtime rt"
    and "update_deactivated rt cx key ac index st w = Inr (st', w')"
    and "validators_held rt st w xs" and "stakes_held rt st w ys"
    and "account (validator_list (validator_system st)) \<noteq> account (stake_list (stake_system st))"
    and "distinct [uc_stake_account (ud_common ac), uc_reserve_pda (ud_common ac), operational_sol_account st]"
  shows "\<exists>sm d. let k = uc_stake_account (ud_common ac); v = uc_reserve_pda (ud_common ac);
      p = last_update_delegated_lamports (ys ! unat index);
      delayed = (\<lambda>s. unat (delayed_unstake_cooling_down (stake_system s)));
      emergency = (\<lambda>s. unat (emergency_cooling_down s)) in
    acc_stake w k = Some (StakeDelegated sm d) \<and> deactivation_epoch d \<noteq> - 1
    \<and> stake_account (ys ! unat index) = k
    \<and> acc_lamports w' k = 0
    \<and> unat (acc_lamports w' v) + unat (rent_exempt_reserve sm) = unat (acc_lamports w v) + unat (acc_lamports w k)
    \<and> unat (acc_lamports w' (operational_sol_account st))
        = unat (acc_lamports w (operational_sol_account st)) + unat (rent_exempt_reserve sm)
    \<and> (rent_exempt_for_token_acc st \<le> acc_lamports w v \<longrightarrow>
        unat (available_reserve_balance st') + unat (rent_exempt_for_token_acc st') = unat (acc_lamports w' v))
    \<and> validators_held rt st' w' xs \<and> stakes_held rt st' w' (swap_remove ys (unat index))
    \<and> (if is_emergency_unstaking (ys ! unat index) = 0
        then delayed st' = delayed st - unat p \<and> emergency st' = emergency st
        else delayed st' = delayed st \<and> emergency st' = emergency st - unat p)
    \<and> unat (msol_price st') = lamports_for st' (2 ^ 32)"
proof (rule marinade_runtime.update_deactivated_effect [OF assms(1-5)], goal_cases)
  case (1 sm d ready m1 m2 w3 s5)
  let ?k = "uc_stake_account (ud_common ac)" and ?v = "uc_reserve_pda (ud_common ac)"
    and ?o = "operational_sol_account st" and ?L = "acc_lamports w (uc_stake_account (ud_common ac))"
  have ne: "?k \<noteq> ?v" "?v \<noteq> ?o" "?k \<noteq> ?o" using assms(6) by auto
  note m1 = move_source [OF 1(7) ne(1)] move_target [OF 1(7) ne(1)]
  note m2 = move_source [OF 1(9) ne(2)] move_target [OF 1(9) ne(2)]
  have o3: "acc_lamports w3 ?o = acc_lamports w ?o" and k': "acc_lamports w' ?k = acc_lamports w3 ?k"
    using ne by (simp_all add: 1(8) 1(10))
  have k3: "acc_lamports w3 ?k = 0" using m1(1) by (simp add: 1(8) word_unat_eq_iff)
  have v: "unat (acc_lamports w' ?v) + unat (rent_exempt_reserve sm) = unat (acc_lamports w ?v) + unat ?L"
    using m1(2) m2(1) by (simp add: 1(8) 1(10))
  have o: "unat (acc_lamports w' ?o) = unat (acc_lamports w ?o) + unat (rent_exempt_reserve sm)"
    using m2(2) o3 by (simp add: 1(10))
  have avail: "unat (available_reserve_balance st') + unat (rent_exempt_reserve sm)
      = unat (acc_lamports w ?v) - unat (rent_exempt_for_token_acc st) + unat ?L"
    using 1(6) 1(11)
    by (simp add: 1(15) 1(12) leave_cooling_down_def on_transfer_from_reserve_def unat_add_le
        word_le_nat_alt)
  have "unat (available_reserve_balance st') + unat (rent_exempt_for_token_acc st') = unat (acc_lamports w' ?v)"
    if "rent_exempt_for_token_acc st \<le> acc_lamports w ?v"
    using that avail v by (simp add: 1(19) word_le_nat_alt)
  moreover have "if is_emergency_unstaking (ys ! unat index) = 0
      then unat (delayed_unstake_cooling_down (stake_system st'))
          = unat (delayed_unstake_cooling_down (stake_system st))
            - unat (last_update_delegated_lamports (ys ! unat index))
        \<and> unat (emergency_cooling_down st') = unat (emergency_cooling_down st)
      else unat (delayed_unstake_cooling_down (stake_system st'))
          = unat (delayed_unstake_cooling_down (stake_system st))
        \<and> unat (emergency_cooling_down st') = unat (emergency_cooling_down st)
            - unat (last_update_delegated_lamports (ys ! unat index))"
    by (simp add: 1(17,18) 1(12) leave_cooling_down_def on_transfer_from_reserve_def)
  moreover have "unat PRICE_DENOMINATOR = 2 ^ 32" by (simp add: PRICE_DENOMINATOR_def)
  ultimately show ?case
    unfolding Let_def using 1(1,3,4,25-27) v o k3 k'
    by (intro exI [of _ sm] exI [of _ d]) simp
qed

text \<open>
  Without slashing, updating a deactivated stake does not lower the price of mSOL either: the value
  changes by what the stake brings beyond its recorded amount, and the treasury's mSOL is covered by it
  as long as the fee is within its maximum and the extra lamports are below nine times the whole value.
\<close>
lemma update_deactivated_keeps_price:
  assumes "marinade_runtime rt"
    and "update_deactivated rt cx key ac index st w = Inr (st', w')"
    and "validators_held rt st w xs" and "stakes_held rt st w ys"
    and "account (validator_list (validator_system st)) \<noteq> account (stake_list (stake_system st))"
    and "acc_stake w (uc_stake_account (ud_common ac)) = Some (StakeDelegated sm d)"
  defines "s1 \<equiv> update_sync (acc_lamports w (uc_reserve_pda (ud_common ac)))
      (mint_supply w (uc_msol_mint (ud_common ac))) st"
    and "p \<equiv> last_update_delegated_lamports (ys ! unat index)"
    and "lamports \<equiv> unat (acc_lamports w (uc_stake_account (ud_common ac)))"
  assumes "p \<le> delegated_stake d"
    and "unat (delegated_stake d) + unat (rent_exempt_reserve sm) \<le> lamports"
    and "p \<le> (if is_emergency_unstaking (ys ! unat index) = 0
      then delayed_unstake_cooling_down (stake_system st) else emergency_cooling_down st)"
    and "fee_check_max (reward_fee st) MAX_REWARD_FEE = Inr ()"
    and "lamports \<le> 9 * virtual_staked s1 + unat (rent_exempt_reserve sm) + unat (delegated_stake d)"
    and "0 < msol_supply s1" and "unat (circulating_ticket_balance st) + unat p \<le> under_control s1"
  shows "virtual_staked s1 * unat (msol_supply st') \<le> virtual_staked st' * unat (msol_supply s1)
    \<and> virtual_staked st' + unat p + unat (rent_exempt_reserve sm) = virtual_staked s1 + lamports"
proof (rule marinade_runtime.update_deactivated_effect [OF assms(1-5)], goal_cases)
  case (1 sm' d' ready m1 m2 w3 s5)
  have eq: "sm' = sm" "d' = d" using 1(1) assms(6) by simp_all
  note 1 = 1 [unfolded eq, folded s1_def p_def]
  let ?S = "unat (msol_supply s1)" and ?T = "virtual_staked s1"
  let ?r = "delegated_stake d - p" and ?f = "fee_apply (reward_fee st) (delegated_stake d - p)"
  let ?e = "lamports - unat (rent_exempt_reserve sm) - unat (delegated_stake d)"
  have r: "unat ?r + unat p = unat (delegated_stake d)"
    using assms(10) by (simp add: unat_diff_le word_le_nat_alt)
  have L: "unat (acc_lamports w (uc_stake_account (ud_common ac))) = lamports"
    by (simp add: lamports_def)
  have "unat (available_reserve_balance s5) + unat (rent_exempt_reserve sm)
      = unat (available_reserve_balance s1) + lamports"
    using 1(6) 1(11) L
    by (simp add: 1(12) leave_cooling_down_def on_transfer_from_reserve_def unat_add_le word_le_nat_alt)
  then have "under_control s5 + unat p + unat (rent_exempt_reserve sm) = under_control s1 + lamports"
    using assms(12)
    by (auto simp: under_control_def 1(12) leave_cooling_down_def on_transfer_from_reserve_def s1_def p_def
        word_le_nat_alt split: if_splits)
  then have val: "virtual_staked st' + unat p + unat (rent_exempt_reserve sm) = ?T + lamports"
    using assms(11,16) 1(13,16) r by (simp add: virtual_staked_def s1_def)
  have msup: "unat (msol_supply st') = ?S + unat m1 + unat m2"
    using 1(20) by (simp add: 1(14) 1(12) leave_cooling_down_def on_transfer_from_reserve_def unat_add_le)
  let ?st = "s1\<lparr>msol_supply := msol_supply s1 + m1\<rparr>"
  have s3: "unat (msol_supply ?st) = ?S + unat m1" using 1(20) by (simp add: unat_add_le)
  have v3: "virtual_staked ?st = ?T" by (simp add: virtual_staked_def under_control_def)
  have S: "0 < msol_supply ?st" using assms(15) s3 by (simp add: word_gt_0_unat)
  have m1: "unat m1 * ?T \<le> ?e * ?S"
    using 1(23) msol_for_mult [OF assms(15), of ?e] L by (simp split: if_splits)
  have m2: "unat m2 * ?T \<le> unat ?f * (?S + unat m1)"
    using 1(24) msol_for_mult [OF S, of "unat ?f"] v3 s3 by (auto split: if_splits)
  have bp: "unat (basis_points (reward_fee st)) \<le> 1000"
    using assms(13) by (simp add: fee_check_max_Inr MAX_REWARD_FEE_def word_le_nat_alt)
  have "10 * unat ?f \<le> unat ?r"
  proof -
    have "unat ?f = unat ?r * unat (basis_points (reward_fee st)) div 10000"
      by (rule unat_fee_apply) (use bp in \<open>simp add: word_le_nat_alt\<close>)
    moreover have "unat ?r * unat (basis_points (reward_fee st)) \<le> unat ?r * 1000"
      by (rule mult_le_mono2 [OF bp])
    moreover have "10 * (x div 10000) \<le> a" if "x \<le> a * 1000" for x a :: nat
      using that times_div_less_eq_dividend [of 10000 x] by linarith
    ultimately show ?thesis by simp
  qed
  then have "?T * (?S + unat m1 + unat m2) \<le> (?T + ?e + unat ?r) * ?S"
    by (intro early_mint_keeps_price [OF _ m1 m2]) (use assms(14,15) in \<open>simp_all add: word_gt_0_unat\<close>)
  moreover have "virtual_staked st' = ?T + ?e + unat ?r" using val assms(11) r by simp
  ultimately show ?case using msup val by simp
qed

section \<open>Runs\<close>

text \<open>Stake 60 has earned 10000 lamports and holds 1000 more; stake 62 has been deactivated.\<close>

definition ex_common :: "pubkey \<Rightarrow> update_common" where
  "ex_common s = \<lparr>uc_stake_list = 20, uc_stake_account = s, uc_stake_withdraw_authority = ex_withdraw_auth,
     uc_reserve_pda = ex_reserve, uc_msol_mint = 10, uc_msol_mint_authority = ex_mint_auth,
     uc_treasury_msol_account = 13, uc_stake_program = 7, uc_token_program = 6\<rparr>"

lemma ex_common_sel [simp]:
  "uc_stake_list (ex_common s) = 20" "uc_stake_account (ex_common s) = s"
  "uc_stake_withdraw_authority (ex_common s) = ex_withdraw_auth"
  "uc_reserve_pda (ex_common s) = ex_reserve" "uc_msol_mint (ex_common s) = 10"
  "uc_msol_mint_authority (ex_common s) = ex_mint_auth" "uc_treasury_msol_account (ex_common s) = 13"
  "uc_stake_program (ex_common s) = 7" "uc_token_program (ex_common s) = 6"
  by (simp_all only: ex_common_def update_common.simps)

definition ex_update_active :: update_active_accounts where
  "ex_update_active = \<lparr>ua_common = ex_common 60, ua_validator_list = 21\<rparr>"

definition ex_msol_mint :: mint where
  "ex_msol_mint = \<lparr>mt_supply = 700000, mt_authority = Some ex_mint_auth, mt_freeze = None\<rparr>"

lemma ex_begin:
  assumes "list_get unborsh_stake ex_stake_header ex_stake_data i = Inr r" and "stake_account r = s"
  shows "update_begin ref_rt ex_key (ex_common s) ex_msol_mint i ex_state ex_world
    = Inr ((r, True), ex_state)"
proof -
  have sync: "update_sync 2339280 700000 ex_state = ex_state"
    by (simp add: update_sync_def saturating_sub_def ex_state_def)
  have w: "acc_data ex_world 20 = ex_stake_data" "acc_lamports ex_world ex_reserve = 2339280"
    "acc_owner ex_world 13 = 6" "acc_token ex_world 13 = Some (ex_token 10 15 0)"
    by (simp_all add: ex_world_def)
  show ?thesis
    using assms ex_lists_ok(2) [OF w(1)]
    by (simp add: update_begin_def check_treasury_msol_account_def check_stake_withdraw_authority_def
        stake_get_def run_simps w ex_token_def ex_msol_mint_def sync del: ex_addresses)
qed

lemma ex_active_price: "msol_for (ex_state\<lparr>available_reserve_balance := 301000\<rparr>) 1000 = 499"
  "msol_for (ex_state\<lparr>available_reserve_balance := 301000, msol_supply := 700499\<rparr>) 200 = 99"
  by (simp_all add: msol_for_def shares_floor_def prop_floor_def virtual_staked_def under_control_def)

abbreviation ex_active_stake :: stake_state where
  "ex_active_stake \<equiv> StakeDelegated ex_meta (ex_delegation 50 610000 (- 1))"

lemma ex_active_parts:
  "voter_pubkey (ex_delegation a b c) = a" "delegated_stake (ex_delegation a b c) = b"
  "deactivation_epoch (ex_delegation a b c) = c" "rent_exempt_reserve ex_meta = 2282880"
  "withdrawer ex_meta = ex_withdraw_auth"
  by (simp_all add: ex_meta_def ex_delegation_def)

lemma ex_active_runs:
  obtains st' w' where
    "update_active_run ref_rt ex_key ex_clock ex_update_active ex_active_stake ex_msol_mint 0 0
      ex_state ex_world = Inr (st', w')"
    "update_active ref_rt ex_cx ex_key ex_update_active 0 0 ex_state ex_world = Inr (st', w')"
proof -
  let ?v = "ex_validators ! 0" and ?r = "ex_stakes ! 0"
  let ?s2 = "ex_state\<lparr>available_reserve_balance := 301000\<rparr>" and ?s3 = "ex_state\<lparr>available_reserve_balance := 301000, msol_supply := 700499\<rparr>"
  let ?r' = "?r\<lparr>last_update_epoch := 100, last_update_delegated_lamports := 610000\<rparr>"
  have v: "validator_account ?v = 50" "active_balance ?v = 1000000" "stake_account ?r = 60"
    "last_update_delegated_lamports ?r = 600000"
    by (simp_all add: ex_validators_def ex_stakes_def)
  obtain d1 where d1: "list_set borsh_validator ex_validator_header ex_validator_data 0
      (?v\<lparr>active_balance := 1010000\<rparr>) = Inr d1"
    by (rule ex_validator_set_ok [of 0 "?v\<lparr>active_balance := 1010000\<rparr>"]) simp
  obtain d2 where d2: "list_set borsh_stake ex_stake_header ex_stake_data 0 ?r' = Inr d2"
    by (rule ex_stake_set_ok [of 0 ?r']) simp
  have w: "acc_data ex_world 20 = ex_stake_data" "acc_data ex_world 21 = ex_validator_data"
    "acc_lamports ex_world ex_reserve = 2339280" "acc_lamports ex_world 60 = 2893880"
    "acc_stake ex_world 60 = Some ex_active_stake" "acc_token ex_world 13 = Some (ex_token 10 15 0)"
    "acc_mint ex_world 10 = Some ex_msol_mint"
    by (simp_all add: ex_world_def ex_msol_mint_def)
  have ac: "ua_common ex_update_active = ex_common 60" "ua_validator_list ex_update_active = 21"
    by (simp_all only: ex_update_active_def update_active_accounts.simps)
  have begin_: "update_begin ref_rt ex_key (ex_common 60) ex_msol_mint 0 ex_state ex_world
      = Inr ((?r, True), ex_state)"
    by (rule ex_begin) (simp_all add: ex_get v)
  have "\<exists>w2. withdraw_to_reserve ref_rt ex_key (ex_common 60) 1000 ex_state ex_world = Inr (?s2, w2)
      \<and> acc_data w2 = acc_data ex_world \<and> acc_token w2 = acc_token ex_world
      \<and> acc_mint w2 = acc_mint ex_world \<and> acc_lamports w2 ex_reserve = 2340280"
    using w(3) [simplified]
    by (simp add: withdraw_to_reserve_def ref_withdraw_def w move_lamports_def can_move_def
        move_u64_def ex_active_parts on_transfer_to_reserve_def checked_add_def Let_def)
  then obtain w2 where 2: "withdraw_to_reserve ref_rt ex_key (ex_common 60) 1000 ex_state ex_world = Inr (?s2, w2)"
    and w2: "acc_data w2 = acc_data ex_world" "acc_token w2 = acc_token ex_world"
      "acc_mint w2 = acc_mint ex_world" "acc_lamports w2 ex_reserve = 2340280" by blast
  have "calc_msol_from_lamports ?s2 1000 = Inr 499" "calc_msol_from_lamports ?s3 200 = Inr 99"
    by (simp_all add: calc_msol_Inr ex_active_price under_control_def)
  note calc = this
  have "\<exists>w3. update_treasury ref_rt ex_key (ex_common 60) True 1000 ?s2 w2 = Inr (?s3, w3)
      \<and> acc_data w3 = acc_data ex_world \<and> acc_token w3 13 = Some (ex_token 10 15 499)
      \<and> acc_mint w3 10 = Some (ex_msol_mint\<lparr>mt_supply := 700499\<rparr>) \<and> acc_lamports w3 = acc_lamports w2"
    by (simp add: update_treasury_def mint_to_treasury_def calc ref_mint_to_def w w2 ex_token_def
        ex_msol_mint_def on_msol_mint_def checked_add_def del: ex_addresses)
  then obtain w3 where 3: "update_treasury ref_rt ex_key (ex_common 60) True 1000 ?s2 w2 = Inr (?s3, w3)"
    and w3: "acc_data w3 = acc_data ex_world" "acc_token w3 13 = Some (ex_token 10 15 499)"
      "acc_mint w3 10 = Some (ex_msol_mint\<lparr>mt_supply := 700499\<rparr>)" "acc_lamports w3 = acc_lamports w2"
    by blast
  have fee: "fee_apply (reward_fee ?s3) 10000 = 200" by (simp add: fee_apply_def from_basis_points_def)
  have "\<exists>st4 w4. update_rewards ref_rt ex_key (ex_common 60) True 610000 600000 ?v ?s3 w3
      = Inr (?v\<lparr>active_balance := 1010000\<rparr>, st4, w4)
      \<and> acc_data w4 = acc_data ex_world \<and> acc_lamports w4 = acc_lamports w2
      \<and> st4 = ?s3\<lparr>msol_supply := 700598, validator_system := (validator_system ex_state)
          \<lparr>total_active_balance := 1010000\<rparr>\<rparr>"
    using fee
    by (simp add: update_rewards_def update_treasury_def mint_to_treasury_def calc ref_mint_to_def w3
        v ex_token_def ex_msol_mint_def on_msol_mint_def checked_add_def Let_def del: ex_addresses)
  then obtain st4 w4 where
    4: "update_rewards ref_rt ex_key (ex_common 60) True 610000 600000 ?v ?s3 w3
      = Inr (?v\<lparr>active_balance := 1010000\<rparr>, st4, w4)"
    and w4: "acc_data w4 = acc_data ex_world" "acc_lamports w4 = acc_lamports w2"
    and st4: "st4 = ?s3\<lparr>msol_supply := 700598, validator_system := (validator_system ex_state)
          \<lparr>total_active_balance := 1010000\<rparr>\<rparr>" by blast
  have "\<exists>p. calc_lamports_from_msol_amount st4 PRICE_DENOMINATOR = Inr p"
    by (simp add: calc_lamports_from_msol_amount_def value_from_shares_def proportional_nat prop_floor_def
        total_virtual_staked_lamports_def total_lamports_under_control_def total_cooling_down_def
        checked_add_def saturating_sub_def st4 PRICE_DENOMINATOR_def)
  then obtain p where p: "calc_lamports_from_msol_amount st4 PRICE_DENOMINATOR = Inr p" by blast
  have st: "validator_list (validator_system st4) = ex_validator_header"
    "stake_list (stake_system st4) = ex_stake_header" "available_reserve_balance st4 = 301000"
    "rent_exempt_for_token_acc st4 = 2039280"
    by (simp_all add: st4)
  have sub: "checked_sub (2893880::u64) 2282880 = Some 611000" "saturating_sub (611000::u64) 610000 = 1000"
    by (simp_all add: checked_sub_def saturating_sub_def)
  have "\<exists>w5. update_active_run ref_rt ex_key ex_clock ex_update_active ex_active_stake ex_msol_mint 0 0
      ex_state ex_world = Inr (st4\<lparr>msol_price := p\<rparr>, w5) \<and> acc_lamports w5 = acc_lamports w2"
    using d1 d2 2 3 4 p
    by (simp add: update_active_run_def ac begin_ validator_get_def stake_set_def validator_set_def w w4
        v ex_get update_active_check_def ex_active_parts sub st del: ex_addresses)
  then obtain w5 where
    run: "update_active_run ref_rt ex_key ex_clock ex_update_active ex_active_stake ex_msol_mint 0 0
      ex_state ex_world = Inr (st4\<lparr>msol_price := p\<rparr>, w5)"
    and w5: "acc_lamports w5 = acc_lamports w2" by blast
  moreover have "update_active ref_rt ex_cx ex_key ex_update_active 0 0 ex_state ex_world
      = Inr (st4\<lparr>msol_price := p\<rparr>, w5)"
    using run st
    by (simp add: update_active_def update_active_process_def ac load_stake_def load_mint_def w
        check_attributes_def check_context_def w5 w2 checked_add_def Let_def del: ex_addresses)
  ultimately show ?thesis by (intro that)
qed

lemma ex_active_le:
  "last_update_delegated_lamports (ex_stakes ! unat (0::u32)) \<le> active_balance (ex_validators ! unat (0::u32))"
  "last_update_delegated_lamports (ex_stakes ! unat (0::u32)) \<le> delegated_stake (ex_delegation 50 610000 (- 1))"
  by (simp_all add: ex_validators_def ex_stakes_def ex_delegation_def)

lemma ex_active_hyps:
  "check_validator_list (validator_system ex_state) ex_world (ua_validator_list ex_update_active) = Inr ()"
  "uc_reserve_pda (ua_common ex_update_active) \<noteq> uc_stake_account (ua_common ex_update_active)"
  "fee_check (reward_fee ex_state) = Inr ()"
  "acc_stake ex_world (uc_stake_account (ua_common ex_update_active)) = Some ex_active_stake"
  using ex_lists_ok(1) [of ex_world]
  by (simp_all add: ex_update_active_def ex_world_def fee_check_Inr from_basis_points_def)

lemma update_active_assertion_witness:
  "\<exists>st' w'. update_active_process ref_rt ex_key ex_clock ex_update_active ex_active_stake ex_msol_mint 0 0
     ex_state ex_world = Inr (st', w')"
proof -
  obtain st' w' where r: "update_active_run ref_rt ex_key ex_clock ex_update_active ex_active_stake
      ex_msol_mint 0 0 ex_state ex_world = Inr (st', w')"
    by (rule ex_active_runs)
  have "rent_exempt_for_token_acc ex_state \<le> acc_lamports ex_world (uc_reserve_pda (ua_common ex_update_active))"
    by (simp add: ex_update_active_def ex_world_def)
  with update_active_assertion [OF ref.marinade_runtime_axioms r ex_active_hyps(2)] show ?thesis by simp
qed

lemma update_active_books_witness:
  "\<exists>st' w' b. update_active ref_rt ex_cx ex_key ex_update_active 0 0 ex_state ex_world = Inr (st', w')
    \<and> validators_held ref_rt st' w'
        (ex_validators[0 := (ex_validators ! 0)\<lparr>active_balance := b\<rparr>])"
proof -
  obtain st' w' where
    r: "update_active ref_rt ex_cx ex_key ex_update_active 0 0 ex_state ex_world = Inr (st', w')"
    by (rule ex_active_runs)
  from update_active_books [OF ref.marinade_runtime_axioms r ex_held ex_active_hyps(1) ex_active_le(1)
      ex_active_hyps(2), unfolded unat_0] r
  show ?thesis by blast
qed

lemma update_active_keeps_price_witness:
  "\<exists>st' w' m. update_active ref_rt ex_cx ex_key ex_update_active 0 0 ex_state ex_world = Inr (st', w')
    \<and> unat (token_amount w' 13) = unat (token_amount ex_world 13) + m"
proof -
  obtain st' w' where
    r: "update_active ref_rt ex_cx ex_key ex_update_active 0 0 ex_state ex_world = Inr (st', w')"
    by (rule ex_active_runs)
  have w: "acc_lamports ex_world ex_reserve = 2339280" "mint_supply ex_world 10 = 700000"
    by (simp_all add: ex_world_def mint_supply_def)
  have h: "0 < msol_supply (update_sync (acc_lamports ex_world (uc_reserve_pda (ua_common ex_update_active)))
      (mint_supply ex_world (uc_msol_mint (ua_common ex_update_active))) ex_state)"
    "unat (circulating_ticket_balance ex_state) \<le> under_control (update_sync (acc_lamports ex_world
      (uc_reserve_pda (ua_common ex_update_active))) (mint_supply ex_world
      (uc_msol_mint (ua_common ex_update_active))) ex_state)"
    using w by (simp_all add: ex_update_active_def under_control_def saturating_sub_def del: ex_addresses)
  from update_active_keeps_price [OF ref.marinade_runtime_axioms r ex_held ex_active_hyps(1,4)
      ex_active_le(2) ex_active_hyps(3) h] r
  show ?thesis by auto
qed

definition ex_update_deactivated :: update_deactivated_accounts where
  "ex_update_deactivated = \<lparr>ud_common = ex_common 62, ud_operational_sol_account = 14,
     ud_system_program = 0\<rparr>"

lemma ex_deactivated_runs:
  obtains st' w' where
    "update_deactivated ref_rt ex_cx ex_key ex_update_deactivated 2 ex_state ex_world = Inr (st', w')"
proof -
  let ?r = "ex_stakes ! 2" and ?stake = "StakeDelegated ex_meta (ex_delegation 50 200000 98)"
  have v: "stake_account ?r = 62" "last_update_delegated_lamports ?r = 200000" "is_emergency_unstaking ?r = 0"
    by (simp_all add: ex_stakes_def)
  obtain l d where rem: "list_remove ex_stake_header ex_stake_data 2 = Inr (l, d)"
    by (rule stake_codec.remove_ok [OF ex_stakes_rep, of 2]) (simp add: ex_stakes_def)
  have w: "acc_data ex_world 20 = ex_stake_data" "acc_lamports ex_world ex_reserve = 2339280"
    "acc_lamports ex_world 62 = 2482880" "acc_lamports ex_world 14 = 0"
    "acc_stake ex_world 62 = Some ?stake" "acc_mint ex_world 10 = Some ex_msol_mint"
    by (simp_all add: ex_world_def ex_msol_mint_def)
  have ac: "ud_common ex_update_deactivated = ex_common 62"
    "ud_operational_sol_account ex_update_deactivated = 14" "ud_system_program ex_update_deactivated = 0"
    by (simp_all only: ex_update_deactivated_def update_deactivated_accounts.simps)
  have begin_: "update_begin ref_rt ex_key (ex_common 62) ex_msol_mint 2 ex_state ex_world
      = Inr ((?r, True), ex_state)"
    by (rule ex_begin) (simp_all add: ex_get v)
  have no_fee: "update_treasury ref_rt ex_key (ex_common 62) True 0 ex_state ex_world
      = Inr (ex_state, ex_world)"
  proof -
    have "calc_msol_from_lamports ex_state 0 = Inr 0"
      by (simp add: calc_msol_Inr msol_for_def shares_floor_def under_control_def)
    then show ?thesis by (simp add: update_treasury_def mint_to_treasury_def)
  qed
  have fees: "update_deactivated_fees ref_rt ex_key (ex_common 62) True 0 200000 200000 ex_state ex_world
      = Inr (ex_state, ex_world)"
    by (simp add: update_deactivated_fees_def fee_apply_def no_fee)
  let ?s3 = "ex_state\<lparr>available_reserve_balance := 2782880\<rparr>"
  have "\<exists>w3. withdraw_to_reserve ref_rt ex_key (ex_common 62) 2482880 ex_state ex_world = Inr (?s3, w3)
      \<and> acc_data w3 = acc_data ex_world \<and> acc_lamports w3 ex_reserve = 4822160 \<and> acc_lamports w3 14 = 0"
    using w(2) [simplified]
    by (simp add: withdraw_to_reserve_def ref_withdraw_def w move_lamports_def can_move_def
        move_u64_def ex_active_parts on_transfer_to_reserve_def checked_add_def Let_def)
  then obtain w3 where
    3: "withdraw_to_reserve ref_rt ex_key (ex_common 62) 2482880 ex_state ex_world = Inr (?s3, w3)"
    and w3: "acc_data w3 = acc_data ex_world" "acc_lamports w3 ex_reserve = 4822160" "acc_lamports w3 14 = 0"
    by blast
  have "\<exists>w4. rt_invoke ref_rt (SystemTransfer ex_reserve 14 2282880) [reserve_seeds ex_key ?s3] w3 = Inr w4
      \<and> acc_data w4 = acc_data ex_world"
    using w3 by (simp add: move_lamports_def can_move_def)
  then obtain w4 where
    4: "rt_invoke ref_rt (SystemTransfer ex_reserve 14 2282880) [reserve_seeds ex_key ?s3] w3 = Inr w4"
    and w4: "acc_data w4 = acc_data ex_world" by blast
  define s4 where "s4 = leave_cooling_down ?r (on_transfer_from_reserve ?s3 2282880)"
  have "\<exists>p. calc_lamports_from_msol_amount s4 PRICE_DENOMINATOR = Inr p"
    by (simp add: calc_lamports_from_msol_amount_def value_from_shares_def proportional_nat prop_floor_def
        total_virtual_staked_lamports_def total_lamports_under_control_def total_cooling_down_def
        checked_add_def saturating_sub_def s4_def leave_cooling_down_def on_transfer_from_reserve_def v
        PRICE_DENOMINATOR_def)
  then obtain p where p: "calc_lamports_from_msol_amount s4 PRICE_DENOMINATOR = Inr p" by blast
  have st: "stake_list (stake_system s4) = ex_stake_header"
    by (simp add: s4_def leave_cooling_down_def on_transfer_from_reserve_def v)
  have sub: "checked_sub (2482880::u64) 2282880 = Some 200000" "saturating_sub (200000::u64) 200000 = 0"
    by (simp_all add: checked_sub_def saturating_sub_def)
  have "\<exists>st' w'. update_deactivated ref_rt ex_cx ex_key ex_update_deactivated 2 ex_state ex_world
      = Inr (st', w')"
    using rem fees 3 4 p
    by (simp add: update_deactivated_def update_deactivated_process_def ac load_stake_def load_mint_def w w4
        check_attributes_def check_context_def begin_ check_address_def check_operational_sol_account_def
        ex_active_parts sub v st stake_remove_def Let_def s4_def [symmetric]
        del: ex_addresses ref_rt_sel(6))
  then show ?thesis using that by blast
qed

lemma ex_deactivated_hyps:
  "account (validator_list (validator_system ex_state)) \<noteq> account (stake_list (stake_system ex_state))"
  "distinct [uc_stake_account (ud_common ex_update_deactivated),
     uc_reserve_pda (ud_common ex_update_deactivated), operational_sol_account ex_state]"
  "acc_stake ex_world (uc_stake_account (ud_common ex_update_deactivated))
     = Some (StakeDelegated ex_meta (ex_delegation 50 200000 98))"
  by (simp_all add: ex_update_deactivated_def ex_world_def)

lemma update_deactivated_settles_witness:
  "\<exists>st' w'. update_deactivated ref_rt ex_cx ex_key ex_update_deactivated 2 ex_state ex_world = Inr (st', w')
    \<and> stakes_held ref_rt st' w' (swap_remove ex_stakes 2)"
proof -
  obtain st' w' where
    r: "update_deactivated ref_rt ex_cx ex_key ex_update_deactivated 2 ex_state ex_world = Inr (st', w')"
    by (rule ex_deactivated_runs)
  have "unat (2::u32) = 2" by simp
  with update_deactivated_settles [OF ref.marinade_runtime_axioms r ex_held ex_deactivated_hyps(1,2),
      unfolded Let_def] r
  show ?thesis by metis
qed

lemma update_deactivated_keeps_price_witness:
  "\<exists>st' w'. update_deactivated ref_rt ex_cx ex_key ex_update_deactivated 2 ex_state ex_world = Inr (st', w')
    \<and> virtual_staked st' = 1400000"
proof -
  obtain st' w' where
    r: "update_deactivated ref_rt ex_cx ex_key ex_update_deactivated 2 ex_state ex_world = Inr (st', w')"
    by (rule ex_deactivated_runs)
  let ?s1 = "update_sync (acc_lamports ex_world (uc_reserve_pda (ud_common ex_update_deactivated)))
      (mint_supply ex_world (uc_msol_mint (ud_common ex_update_deactivated))) ex_state"
  let ?p = "last_update_delegated_lamports (ex_stakes ! unat (2::u32))"
  let ?L = "unat (acc_lamports ex_world (uc_stake_account (ud_common ex_update_deactivated)))"
  have p: "?p = 200000" "is_emergency_unstaking (ex_stakes ! unat (2::u32)) = 0" by (simp_all add: ex_stakes_def)
  have L: "?L = 2482880" by (simp add: ex_update_deactivated_def ex_world_def)
  have uc: "under_control ?s1 = 1500000" "msol_supply ?s1 = 700000" "virtual_staked ?s1 = 1400000"
    by (simp_all add: ex_update_deactivated_def under_control_def virtual_staked_def saturating_sub_def
        ex_world_def mint_supply_def)
  have h: "?p \<le> delegated_stake (ex_delegation 50 200000 98)"
    "unat (delegated_stake (ex_delegation 50 200000 98)) + unat (rent_exempt_reserve ex_meta) \<le> ?L"
    "?p \<le> (if is_emergency_unstaking (ex_stakes ! unat (2::u32)) = 0
      then delayed_unstake_cooling_down (stake_system ex_state) else emergency_cooling_down ex_state)"
    "fee_check_max (reward_fee ex_state) MAX_REWARD_FEE = Inr ()"
    "?L \<le> 9 * virtual_staked ?s1 + unat (rent_exempt_reserve ex_meta)
      + unat (delegated_stake (ex_delegation 50 200000 98))"
    "0 < msol_supply ?s1" "unat (circulating_ticket_balance ex_state) + unat ?p \<le> under_control ?s1"
    unfolding uc L p by (simp_all add: ex_active_parts fee_check_max_Inr MAX_REWARD_FEE_def from_basis_points_def)
  from update_deactivated_keeps_price [OF ref.marinade_runtime_axioms r ex_held ex_deactivated_hyps(1,3) h]
  have "virtual_staked st' + unat ?p + unat (rent_exempt_reserve ex_meta) = virtual_staked ?s1 + ?L" by blast
  then have "virtual_staked st' = 1400000" unfolding uc L p by (simp add: ex_active_parts)
  then show ?thesis using r by blast
qed

end
