(* ===== verification/Findings.thy ===== *)
theory Findings
  imports EmergencyMerge Update
begin

text \<open>
  Behaviour of the code that its authors cannot have meant, each shown by a run of the handlers on the
  example deployment or by a general fact about a handler.
\<close>

section \<open>Emergency unstake does not look at the delegation\<close>

text \<open>
  Validator 51 has score zero and no stake, validator 50 has score 30. The manager names validator 51
  and the stake 61, which is delegated to validator 50: the stake is deactivated, the total loses its
  amount, and no validator's balance does.
\<close>

definition ex_idle :: validator_record where
  "ex_idle = (ex_validators ! 1)\<lparr>score := 0\<rparr>"

definition ex_state_idle :: state where
  "ex_state_idle = ex_state\<lparr>validator_system := (validator_system ex_state)\<lparr>total_validator_score := 30\<rparr>\<rparr>"

definition ex_world_idle :: world where
  "ex_world_idle = put_data 21 (validator_bytes (ex_validators ! 0) ex_idle) ex_world"

lemma ex_idle_held:
  "validators_held ref_rt ex_state_idle ex_world_idle [ex_validators ! 0, ex_idle]"
  "stakes_held ref_rt ex_state_idle ex_world_idle ex_stakes"
  using validator_bytes_rep [of "ex_validators ! 0" ex_idle] ex_stakes_rep
  by (simp_all add: validators_held_def validators_rep_def stakes_held_def ex_world_def
      ex_validators_def ex_idle_def ex_world_idle_def ex_state_idle_def Let_def)

lemma ex_idle_checks:
  "emergency_unstake_checks ref_rt ex_key ex_emergency ex_state_idle ex_world_idle = Inr ()"
  using ex_stake_disc
  by (simp add: emergency_unstake_checks_def ex_emergency_def ex_state_idle_def ex_world_idle_def
      check_validator_manager_authority_def check_stake_deposit_authority_def
      check_validator_list_def check_stake_list_def run_simps ex_world_def)

lemma held_total_unique:
  assumes "validators_held rt st w xs" and "list_rep (rt_de_validator rt) (validator_record_len rt)
      (validator_list (validator_system st)) (acc_data w (account (validator_list (validator_system st)))) ys"
  shows "unat (total_active_balance (validator_system st)) = sum_list (map (unat \<circ> active_balance) ys)"
proof -
  have rep: "validators_rep rt (validator_system st)
      (acc_data w (account (validator_list (validator_system st)))) xs"
    using validators_held_D(2) [OF assms(1) refl] .
  have "xs = ys"
  proof (rule nth_equalityI)
    show "length xs = length ys"
      using list_rep_count [OF assms(2)] list_rep_count [OF validators_rep_list [OF rep]] by simp
    show "xs ! i = ys ! i" if "i < length xs" for i
      using that list_rep_nth [OF assms(2), of i] list_rep_nth [OF validators_rep_list [OF rep] that]
        \<open>length xs = length ys\<close> by simp
  qed
  with rep show ?thesis by (simp add: validators_rep_def)
qed

text \<open>The run succeeds although the stake belongs to the other validator, and the totals are wrong.\<close>

theorem emergency_unstake_wrong_validator:
  "\<exists>st' w' d. emergency_unstake ref_rt ex_cx ex_key ex_emergency 1 1 ex_state_idle ex_world_idle
      = Inr (st', w')
    \<and> acc_stake ex_world_idle (eu_stake_account ex_emergency) = Some (StakeDelegated ex_meta d)
    \<and> voter_pubkey d = validator_account (ex_validators ! 0) \<and> score (ex_validators ! 0) = 30
    \<and> (\<nexists>xs. validators_held ref_rt st' w' xs)"
proof -
  let ?v = "ex_validators ! 0" and ?r = "ex_stakes ! 1"
  have v: "active_balance ex_idle = 0" "score ex_idle = 0" "validator_account ?v = 50" "score ?v = 30"
    "active_balance ?v = 1000000" "stake_account ?r = 61" "last_update_delegated_lamports ?r = 400000"
    by (simp_all add: ex_idle_def ex_validators_def ex_stakes_def)
  obtain d1 where d1: "list_set borsh_stake ex_stake_header ex_stake_data 1
      (?r\<lparr>is_emergency_unstaking := 1\<rparr>) = Inr d1"
    by (rule ex_stake_set_ok [of 1 "?r\<lparr>is_emergency_unstaking := 1\<rparr>"]) simp
  obtain d2 where d2: "list_set borsh_validator ex_validator_header (validator_bytes ?v ex_idle) 1
      (ex_idle\<lparr>active_balance := 0\<rparr>) = Inr d2"
    and rep: "list_rep unborsh_validator 53 ex_validator_header d2
      ([?v, ex_idle][unat (1::u32) := ex_idle\<lparr>active_balance := 0\<rparr>])"
    by (rule validator_codec.set_ok [OF validator_bytes_rep, of 1 ?v ex_idle "ex_idle\<lparr>active_balance := 0\<rparr>"])
      simp_all
  have g: "list_get unborsh_validator ex_validator_header (validator_bytes ?v ex_idle) 1 = Inr ex_idle"
    using validator_codec.get_ok [OF validator_bytes_rep, of 1 ?v ex_idle] by simp
  have w: "acc_data ex_world_idle 20 = ex_stake_data"
    "acc_data ex_world_idle 21 = validator_bytes ?v ex_idle"
    "acc_stake ex_world_idle 61 = Some (StakeDelegated ex_meta (ex_delegation 50 400000 (- 1)))"
    by (simp_all add: ex_world_idle_def ex_world_def)
  have m: "staker ex_meta = ex_deposit_auth" "deactivation_epoch (ex_delegation a b c) = c"
    "voter_pubkey (ex_delegation a b c) = a" for a b c
    by (simp_all add: ex_meta_def ex_delegation_def)
  have st: "stake_system ex_state_idle = stake_system ex_state"
    "validator_system ex_state_idle = (validator_system ex_state)\<lparr>total_validator_score := 30\<rparr>"
    "emergency_cooling_down ex_state_idle = 0"
    by (simp_all add: ex_state_idle_def)
  have ac: "eu_validator_list ex_emergency = 21" "eu_stake_list ex_emergency = 20"
    "eu_stake_account ex_emergency = 61" "eu_validator_manager_authority ex_emergency = 31"
    "eu_stake_deposit_authority ex_emergency = ex_deposit_auth"
    by (simp_all only: ex_emergency_def emergency_unstake_accounts.simps)
  have "\<exists>st' w'. emergency_unstake ref_rt ex_cx ex_key ex_emergency 1 1 ex_state_idle ex_world_idle
      = Inr (st', w') \<and> validator_list (validator_system st') = ex_validator_header
      \<and> total_active_balance (validator_system st') = 600000 \<and> acc_data w' 21 = d2"
    using d1 d2
    by (simp add: emergency_unstake_def emergency_unstake_process_def ex_idle_checks
        stake_get_def validator_get_def stake_set_def validator_set_def ac w st v [unfolded One_nat_def]
        m ex_get g load_stake_def check_attributes_def check_context_def ref_deactivate_def
        put_stake_def saturating_sub_def checked_add_def Let_def del: ex_addresses)
  then obtain st' w' where run: "emergency_unstake ref_rt ex_cx ex_key ex_emergency 1 1 ex_state_idle
      ex_world_idle = Inr (st', w')"
    and l: "validator_list (validator_system st') = ex_validator_header"
      "total_active_balance (validator_system st') = 600000" "acc_data w' 21 = d2"
    by blast
  have "\<not> validators_held ref_rt st' w' xs" for xs
    using held_total_unique [of ref_rt st' w' xs "[?v, ex_idle][unat (1::u32) := ex_idle\<lparr>active_balance := 0\<rparr>]"]
      rep by (auto simp: l v)
  then show ?thesis using run by (auto simp: ac w m v)
qed

section \<open>Merging does not compare the accounts with the records\<close>

text \<open>
  The records 0 and 2 have the same amount. Stake 62 is merged into stake 61, but the caller names
  record 0: the record of stake 60 is removed, and the record of the merged stake 62 remains.
\<close>

definition ex_twin :: stake_record where
  "ex_twin = (ex_stakes ! 0)\<lparr>last_update_delegated_lamports := 200000\<rparr>"

definition ex_world_twin :: world where
  "ex_world_twin = put_data 20 (stake_bytes ex_twin (ex_stakes ! 1) (ex_stakes ! 2)) ex_world_merge"

lemma ex_twin_checks:
  "merge_stakes_checks ref_rt ex_key ex_merge ex_state ex_world_twin = Inr ()"
  using ex_validator_disc
  by (simp add: merge_stakes_checks_def ex_merge_def ex_world_twin_def ex_world_merge_def
      check_validator_list_def check_stake_list_def check_stake_deposit_authority_def
      check_stake_withdraw_authority_def check_operational_sol_account_def run_simps ex_world_def)

theorem merge_stakes_wrong_record:
  "\<exists>st' w' ys'. merge_stakes ref_rt ex_cx ex_key ex_merge 1 0 0 ex_state ex_world_twin = Inr (st', w')
    \<and> ms_source_stake ex_merge = 62 \<and> acc_stake w' 62 = Some StakeUninitialized
    \<and> acc_stake w' 60 = Some (StakeDelegated ex_meta (ex_delegation 50 610000 (- 1)))
    \<and> list_rep unborsh_stake 49 (stake_list (stake_system st')) (acc_data w' 20) ys'
    \<and> map stake_account ys' = [62, 61]"
proof -
  let ?v = "ex_validators ! 0" and ?d = "ex_stakes ! 1" and ?s = "ex_stakes ! 2"
  let ?d' = "?d\<lparr>last_update_delegated_lamports := 2882880\<rparr>" and ?b = "stake_bytes ex_twin (ex_stakes ! 1) (ex_stakes ! 2)"
  have v: "validator_account ?v = 50" "active_balance ?v = 1000000"
    "stake_account ?d = 61" "last_update_delegated_lamports ?d = 400000"
    "last_update_delegated_lamports ex_twin = 200000" "stake_account ?s = 62"
    by (simp_all add: ex_validators_def ex_stakes_def ex_twin_def)
  obtain d1 where d1: "list_set borsh_stake ex_stake_header ?b 1 ?d' = Inr d1"
    and rep: "list_rep unborsh_stake 49 ex_stake_header d1 ([ex_twin, ?d, ?s][unat (1::u32) := ?d'])"
    by (rule stake_codec.set_ok [OF stake_bytes_rep, of 1 ex_twin ?d ?s ?d']) simp_all
  obtain l d2 where d2: "list_remove ex_stake_header d1 0 = Inr (l, d2)"
    and rep2: "list_rep unborsh_stake 49 l d2 (swap_remove ([ex_twin, ?d, ?s][unat (1::u32) := ?d']) (unat (0::u32)))"
    by (rule stake_codec.remove_ok [OF rep, of 0]) simp_all
  obtain d3 where d3: "list_set borsh_validator ex_validator_header ex_validator_data 0
      (?v\<lparr>active_balance := 3282880\<rparr>) = Inr d3"
    by (rule ex_validator_set_ok [of 0 "?v\<lparr>active_balance := 3282880\<rparr>"]) simp
  have g: "list_get unborsh_stake ex_stake_header ?b 0 = Inr ex_twin"
    "list_get unborsh_stake ex_stake_header ?b 1 = Inr ?d"
    using stake_codec.get_ok [OF stake_bytes_rep, of 0 ex_twin ?d ?s]
      stake_codec.get_ok [OF stake_bytes_rep, of 1 ex_twin ?d ?s] by simp_all
  have w: "acc_data ex_world_twin 20 = ?b" "acc_data ex_world_twin 21 = ex_validator_data"
    "acc_stake ex_world_twin 61 = Some (StakeDelegated ex_meta (ex_delegation 50 400000 (- 1)))"
    "acc_stake ex_world_twin 62 = Some (StakeDelegated ex_meta (ex_delegation 50 200000 (- 1)))"
    "acc_stake ex_world_twin 60 = Some (StakeDelegated ex_meta (ex_delegation 50 610000 (- 1)))"
    "acc_lamports ex_world_twin 61 = 2682880" "acc_lamports ex_world_twin 62 = 2482880"
    by (simp_all add: ex_world_twin_def ex_world_merge_def ex_world_def)
  have m: "staker ex_meta = ex_deposit_auth" "rent_exempt_reserve ex_meta = 2282880"
    "voter_pubkey (ex_delegation a b c) = a" "delegated_stake (ex_delegation a b c) = b"
    "deactivation_epoch (ex_delegation a b c) = c" for a b c
    by (simp_all add: ex_meta_def ex_delegation_def)
  have ac: "ms_validator_list ex_merge = 21" "ms_stake_list ex_merge = 20"
    "ms_destination_stake ex_merge = 61" "ms_source_stake ex_merge = 62"
    "ms_stake_deposit_authority ex_merge = ex_deposit_auth"
    by (simp_all only: ex_merge_def merge_stakes_accounts.simps)
  have "\<exists>st' w'. merge_stakes ref_rt ex_cx ex_key ex_merge 1 0 0 ex_state ex_world_twin = Inr (st', w')
      \<and> stake_list (stake_system st') = l \<and> acc_data w' 20 = d2
      \<and> acc_stake w' 62 = Some StakeUninitialized \<and> acc_stake w' 60 = acc_stake ex_world_twin 60"
    using d1 d2 d3
    by (simp add: merge_stakes_def merge_stakes_process_def ex_twin_checks merge_check_destination_def
        merge_check_source_def merge_extra_def
        stake_get_def validator_get_def stake_set_def validator_set_def stake_remove_def
        ac w v [unfolded One_nat_def] m ex_get g [unfolded One_nat_def] load_stake_def
        check_attributes_def check_context_def
        ref_merge_def put_stake_def move_lamports_def can_move_def move_u64_def checked_sub_def
        checked_add_def Let_def del: ex_addresses)
  then obtain st' w' where
    run: "merge_stakes ref_rt ex_cx ex_key ex_merge 1 0 0 ex_state ex_world_twin = Inr (st', w')"
    and out: "stake_list (stake_system st') = l" "acc_data w' 20 = d2"
      "acc_stake w' 62 = Some StakeUninitialized" "acc_stake w' 60 = acc_stake ex_world_twin 60" by blast
  have "map stake_account (swap_remove ([ex_twin, ?d, ?s][unat (1::u32) := ?d']) (unat (0::u32))) = [62, 61]"
    by (simp add: swap_remove_def v [unfolded One_nat_def])
  then show ?thesis using run out rep2 by (auto simp: ac w)
qed

section \<open>An extra run is spent without staking\<close>

text \<open>
  When the validator has already been visited in the epoch and is at its target, \<open>stake_reserve\<close>
  stakes nothing, but the run that the manager has granted is gone.
\<close>

theorem extra_run_spent:
  assumes "validator_get rt (validator_system st) (acc_data w (sr_validator_list ac)) index = Inr v"
    and "sr_validator_vote ac = validator_account v" and "vr_last_stake_delta_epoch v = epoch ck"
    and "0 < extra_stake_delta_runs (stake_system st)"
    and "check_delta_window rt ck (stake_system st) = Inr ()"
    and "validator_stake_target (validator_system st) v
      (saturating_add (total_active_balance (validator_system st)) delta) = Inr target"
    and "target \<le> active_balance v"
  shows "stake_reserve_delta rt key ck ac sk wk index delta st w = Inr (st\<lparr>stake_system :=
    (stake_system st)\<lparr>extra_stake_delta_runs := extra_stake_delta_runs (stake_system st) - 1\<rparr>\<rparr>, w)"
proof -
  let ?n = "extra_stake_delta_runs (stake_system st)"
  have "1 \<le> ?n" using assms(4) by (simp add: word_le_nat_alt word_gt_0_unat)
  then have "checked_sub ?n 1 = Some (?n - 1)" "?n \<noteq> 0" by (auto simp: checked_sub_def)
  with assms show ?thesis
    by (simp add: stake_reserve_delta_def stake_reserve_run_def check_address_def check_delta_window_def
        Let_def)
qed

section \<open>Staking from the reserve can take its rent\<close>

text \<open>
  The stake delta counts the delayed unstakes that are still cooling down. Here 300000 lamports of the
  reserve are free, 200000 are cooling down and 100000 are due to tickets: the delta is 400000, all of
  which is staked from the reserve. The reserve is left with less than its rent, and by
  \<open>update_active_assertion\<close> no active stake can then be updated.
\<close>

lemma ex_idle_reserve: "reserve_address ref_rt ex_key ex_state_idle = Inr ex_reserve"
proof -
  have "reserve_address ref_rt ex_key ex_state_idle = reserve_address ref_rt ex_key ex_state"
    by (simp add: ex_state_idle_def reserve_address_def reserve_seeds_def del: ex_derived)
  then show ?thesis by simp
qed

lemma ex_idle_reserve_checks:
  "stake_reserve_checks ref_rt ex_key ex_reserve_accounts StakeUninitialized ex_state_idle ex_world_idle
    = Inr ()"
  using ex_stake_disc
  by (simp add: stake_reserve_checks_def ex_reserve_accounts_def check_stake_history_def ex_idle_reserve
      check_validator_list_def check_stake_list_def check_stake_deposit_authority_def run_simps)
    (simp add: ex_state_idle_def ex_world_idle_def ex_world_def ref_minimum_balance_def
      check_address_def require_def)

theorem stake_reserve_below_rent:
  "\<exists>st' w'. stake_reserve ref_rt ex_cx ex_key ex_reserve_accounts 0 ex_state_idle ex_world_idle
      = Inr (st', w')
    \<and> rent_exempt_for_token_acc ex_state_idle \<le> acc_lamports ex_world_idle ex_reserve
    \<and> acc_lamports w' ex_reserve < rent_exempt_for_token_acc st'"
proof -
  let ?v = "(ex_validators ! 0)\<lparr>vr_last_stake_delta_epoch := 100\<rparr>"
  let ?v' = "(ex_validators ! 0)\<lparr>active_balance := 1400000, vr_last_stake_delta_epoch := 100\<rparr>"
  have v: "validator_account (ex_validators ! 0) = 50" "active_balance (ex_validators ! 0) = 1000000"
    "score (ex_validators ! 0) = 30" "vr_last_stake_delta_epoch (ex_validators ! 0) = 98"
    by (simp_all add: ex_validators_def)
  have w: "acc_data ex_world_idle 20 = ex_stake_data"
    "acc_data ex_world_idle 21 = validator_bytes (ex_validators ! 0) ex_idle"
    "acc_stake ex_world_idle 63 = Some StakeUninitialized"
    "acc_lamports ex_world_idle ex_reserve = 2339280" "acc_lamports ex_world_idle 63 = 2282880"
    by (simp_all add: ex_world_idle_def ex_world_def)
  have st: "stake_system ex_state_idle = stake_system ex_state" "available_reserve_balance ex_state_idle = 300000"
    "validator_system ex_state_idle = (validator_system ex_state)\<lparr>total_validator_score := 30\<rparr>"
    "rent_exempt_for_token_acc ex_state_idle = 2039280"
    by (simp_all add: ex_state_idle_def)
  have delta: "stake_delta ex_state_idle 2339280 = Inr 400000"
    by (simp add: stake_delta_eq delta_spec_def st) (simp add: ex_state_idle_def)
  have g: "list_get unborsh_validator ex_validator_header (validator_bytes (ex_validators ! 0) ex_idle) 0
      = Inr (ex_validators ! 0)"
    using validator_codec.get_ok [OF validator_bytes_rep, of 0 "ex_validators ! 0" ex_idle] by simp
  have t: "validator_stake_target ((validator_system ex_state)\<lparr>total_validator_score := 30\<rparr>) ?v 1400000
      = Inr 1400000"
    by (simp add: validator_stake_target_def v run_simps)
  have sel: "sr_stake_account ex_reserve_accounts = 63" "sr_reserve_pda ex_reserve_accounts = ex_reserve"
    "sr_validator_list ex_reserve_accounts = 21" "sr_stake_list ex_reserve_accounts = 20"
    "sr_validator_vote ex_reserve_accounts = 50"
    by (simp_all only: ex_reserve_accounts_def stake_reserve_accounts.simps)
  have run: "stake_reserve_delta ref_rt ex_key ex_clock ex_reserve_accounts ex_deposit_auth ex_withdraw_auth
      0 400000 ex_state_idle ex_world_idle
    = stake_reserve_stake ref_rt ex_key ex_clock ex_reserve_accounts ex_deposit_auth ex_withdraw_auth 0 ?v
        400000 ex_state_idle ex_world_idle"
    using t by (simp add: stake_reserve_delta_def sel validator_get_def w st g v check_address_def
        stake_reserve_run_def check_delta_window_def saturating_add_def saturating_sub_def
        stake_reserve_amount_def checked_sub_def max_def min_def del: ex_addresses)
  obtain l d where p: "list_push borsh_stake ex_stake_header ex_stake_data
      (stake_record_new 63 400000 ex_clock) = Inr (l, d)"
    by (rule ex_stake_push)
  obtain e where e: "list_set borsh_validator ex_validator_header
      (validator_bytes (ex_validators ! 0) ex_idle) 0 ?v' = Inr e"
    by (rule validator_codec.set_ok [OF validator_bytes_rep, of 0 "ex_validators ! 0" ex_idle ?v']) simp_all
  have "\<exists>st' w'. stake_reserve_stake ref_rt ex_key ex_clock ex_reserve_accounts ex_deposit_auth
      ex_withdraw_auth 0 ?v 400000 ex_state_idle ex_world_idle = Inr (st', w')
      \<and> acc_lamports w' ex_reserve = 1939280 \<and> rent_exempt_for_token_acc st' = 2039280"
    using p e w(4) [simplified]
    by (simp add: stake_reserve_stake_def sel run_simps ref_delegate_def stake_add_def validator_set_def
        v w st put_stake_def)
  then obtain st' w' where "stake_reserve_stake ref_rt ex_key ex_clock ex_reserve_accounts ex_deposit_auth
      ex_withdraw_auth 0 ?v 400000 ex_state_idle ex_world_idle = Inr (st', w')"
    and o: "acc_lamports w' ex_reserve = 1939280" "rent_exempt_for_token_acc st' = 2039280" by blast
  then have "stake_reserve ref_rt ex_cx ex_key ex_reserve_accounts 0 ex_state_idle ex_world_idle = Inr (st', w')"
    using run delta
    by (simp add: stake_reserve_def stake_reserve_process_def ex_idle_reserve_checks load_stake_def
        check_attributes_def check_context_def u64_of_def w st sel del: ex_addresses)
  then show ?thesis using o w st by auto
qed

end
