(* ===== verification/Deposit.thy ===== *)
theory Deposit
  imports Examples
begin

text \<open>
  The \<open>deposit\<close> instruction (\<open>state/deposit.rs\<close>): the checks, the sale of mSOL from the
  liquidity pool, and the stake of the rest into the reserve against new mSOL. The lemmas relate
  the words the handler computes to the natural-number prices and follow each balance.
\<close>

section \<open>The handler\<close>

record deposit_accounts =
  dep_msol_mint :: pubkey
  dep_sol_leg :: pubkey
  dep_msol_leg :: pubkey
  dep_msol_leg_authority :: pubkey
  dep_reserve :: pubkey
  dep_transfer_from :: pubkey
  dep_mint_to :: pubkey
  dep_msol_mint_authority :: pubkey
  dep_system_program :: pubkey
  dep_token_program :: pubkey

definition deposit_check_transfer_from ::
  "runtime \<Rightarrow> deposit_accounts \<Rightarrow> world \<Rightarrow> u64 \<Rightarrow> unit result" where
  "deposit_check_transfer_from rt ac w n = all_ok
     [check_owner_program w (dep_transfer_from ac) (rt_system_program rt),
      require (\<not> acc_lamports w (dep_transfer_from ac) < n) InsufficientFunds]"

definition deposit_checks ::
  "runtime \<Rightarrow> pubkey \<Rightarrow> deposit_accounts \<Rightarrow> mint \<Rightarrow> token_account \<Rightarrow> u64 \<Rightarrow> state \<Rightarrow> world \<Rightarrow> unit result"
where
  "deposit_checks rt key ac msol to n st w = all_ok
     [check_min_amount n (min_deposit st),
      check_reserve_address rt key st (dep_reserve ac),
      check_msol_mint st (dep_msol_mint ac),
      check_liq_pool_sol_leg_pda rt key (liq_pool st) (dep_sol_leg ac),
      check_liq_pool_msol_leg (liq_pool st) (dep_msol_leg ac),
      deposit_check_transfer_from rt ac w n,
      check_token_mint to (msol_mint st),
      check_msol_mint_authority rt key st (dep_msol_mint_authority ac),
      check_address (dep_system_program ac) (rt_system_program rt),
      check_address (dep_token_program ac) (rt_spl_token rt),
      require (\<not> mt_supply msol > msol_supply st) InvalidAccountData]"

text \<open>
  The sale from the pool: \<open>deposit_sale\<close> moves the mSOL and the lamports; the results are what
  is left of the user's lamports, and the accounts after it.
\<close>

definition deposit_sale ::
  "runtime \<Rightarrow> pubkey \<Rightarrow> deposit_accounts \<Rightarrow> state \<Rightarrow> u64 \<Rightarrow> u64 \<Rightarrow> u64 \<Rightarrow> world \<Rightarrow> (u64 \<times> world) result"
where
  "deposit_sale rt key ac st user_msol_buy_order swap_msol_max user_lamports w =
     bindR (if user_msol_buy_order = swap_msol_max then Inr user_lamports
            else calc_lamports_from_msol_amount st swap_msol_max) (\<lambda>lamports_for_the_liq_pool.
     bindR (rt_invoke rt (TokenTransfer (dep_msol_leg ac) (dep_mint_to ac)
              (dep_msol_leg_authority ac) swap_msol_max)
              [liq_pool_msol_leg_authority_seeds key (liq_pool st)] w) (\<lambda>w1.
     bindR (rt_invoke rt (SystemTransfer (dep_transfer_from ac) (dep_sol_leg ac)
              lamports_for_the_liq_pool) [] w1) (\<lambda>w2.
     Inr (saturating_sub user_lamports lamports_for_the_liq_pool, w2))))"

definition deposit_swap ::
  "runtime \<Rightarrow> pubkey \<Rightarrow> deposit_accounts \<Rightarrow> token_account \<Rightarrow> state \<Rightarrow> u64 \<Rightarrow> world \<Rightarrow> (u64 \<times> world) result"
where
  "deposit_swap rt key ac leg st user_lamports w =
     bindR (calc_msol_from_lamports st user_lamports) (\<lambda>user_msol_buy_order.
     let swap_msol_max = min user_msol_buy_order (tk_amount leg) in
     if swap_msol_max > 0
     then deposit_sale rt key ac st user_msol_buy_order swap_msol_max user_lamports w
     else Inr (user_lamports, w))"

text \<open>The rest goes to the reserve and is paid with new mSOL.\<close>

definition deposit_stake ::
  "runtime \<Rightarrow> pubkey \<Rightarrow> deposit_accounts \<Rightarrow> state \<Rightarrow> u64 \<Rightarrow> world \<Rightarrow> (state \<times> world) result"
where
  "deposit_stake rt key ac st user_lamports w =
     (if user_lamports > 0 then
       bindR (check_staking_cap st user_lamports) (\<lambda>_.
       bindR (calc_msol_from_lamports st user_lamports) (\<lambda>msol_to_mint.
       bindR (rt_invoke rt (SystemTransfer (dep_transfer_from ac) (dep_reserve ac) user_lamports)
                [] w) (\<lambda>w1.
       bindR (on_transfer_to_reserve st user_lamports) (\<lambda>st1.
       if msol_to_mint > 0 then
         bindR (rt_invoke rt (TokenMintTo (dep_msol_mint ac) (dep_mint_to ac)
                  (dep_msol_mint_authority ac) msol_to_mint) [msol_mint_authority_seeds key st1] w1)
           (\<lambda>w2.
         bindR (on_msol_mint st1 msol_to_mint) (\<lambda>st2. Inr (st2, w2)))
       else Inr (st1, w1)))))
      else Inr (st, w))"

definition deposit_process ::
  "runtime \<Rightarrow> pubkey \<Rightarrow> deposit_accounts \<Rightarrow> mint \<Rightarrow> token_account \<Rightarrow> token_account \<Rightarrow> u64
    \<Rightarrow> state \<Rightarrow> world \<Rightarrow> (state \<times> world) result" where
  "deposit_process rt key ac msol leg to n st w =
     bindR (deposit_checks rt key ac msol to n st w) (\<lambda>_.
     bindR (deposit_swap rt key ac leg st n w) (\<lambda>(rest, w1).
     deposit_stake rt key ac st rest w1))"

definition deposit ::
  "runtime \<Rightarrow> call_context \<Rightarrow> pubkey \<Rightarrow> deposit_accounts \<Rightarrow> u64 \<Rightarrow> state \<Rightarrow> world
    \<Rightarrow> (state \<times> world) result" where
  "deposit rt cx key ac n st w =
     bindR (check_attributes cx [dep_transfer_from ac]
              [key, dep_msol_mint ac, dep_sol_leg ac, dep_msol_leg ac, dep_reserve ac,
               dep_transfer_from ac, dep_mint_to ac]) (\<lambda>_.
     bindR (load_mint w (dep_msol_mint ac)) (\<lambda>msol.
     bindR (load_token w (dep_msol_leg ac)) (\<lambda>leg.
     bindR (load_token w (dep_mint_to ac)) (\<lambda>to.
     bindR (check_context cx) (\<lambda>_.
     deposit_process rt key ac msol leg to n st w)))))"

section \<open>The sale in exact arithmetic\<close>

text \<open>What the pool sells for \<open>n\<close> lamports when its leg holds \<open>leg\<close> mSOL, and what it gets.\<close>

definition sold_msol :: "state \<Rightarrow> nat \<Rightarrow> nat \<Rightarrow> nat" where
  "sold_msol st leg n = min (msol_for st n) leg"

definition sold_for :: "state \<Rightarrow> nat \<Rightarrow> nat \<Rightarrow> nat" where
  "sold_for st leg n = (let s = sold_msol st leg n in
     if s = 0 then 0 else if msol_for st n = s then n else lamports_for st s)"

section \<open>Effects\<close>

lemma price_of_0 [simp]: "msol_for st 0 = 0" "lamports_for st 0 = 0"
  by (simp_all add: msol_for_def lamports_for_def shares_floor_def)

lemma sold_for_cases:
  "sold_for st leg n = (if sold_msol st leg n = 0 then 0
     else if msol_for st n = sold_msol st leg n then n else lamports_for st (sold_msol st leg n))"
  by (simp add: sold_for_def Let_def)

lemma sale_fair:
  "sold_for st leg n \<le> n"
  "lamports_for st (sold_msol st leg n + msol_for st (n - sold_for st leg n)) \<le> n"
proof -
  let ?s = "sold_msol st leg n"
  have le: "?s \<le> shares_floor n (virtual_staked st) (unat (msol_supply st))"
    by (simp add: sold_msol_def msol_for_def)
  show "sold_for st leg n \<le> n"
    using sale_and_mint_no_gain(1) [OF le refl]
    by (auto simp: sold_for_cases lamports_for_def msol_for_def split: if_splits)
  show "lamports_for st (?s + msol_for st (n - sold_for st leg n)) \<le> n"
  proof (cases "?s = 0")
    case True
    then show ?thesis
      by (simp add: sold_for_cases lamports_for_def msol_for_def prop_floor_of_shares)
  next
    case False
    then have "sold_for st leg n = (if shares_floor n (virtual_staked st) (unat (msol_supply st)) = ?s
        then n else prop_floor ?s (virtual_staked st) (unat (msol_supply st)))"
      by (simp add: sold_for_cases lamports_for_def msol_for_def)
    from sale_and_mint_no_gain(2) [OF le this] show ?thesis
      by (simp add: lamports_for_def msol_for_def)
  qed
qed

lemma deposit_checks_Inr:
  "deposit_checks rt key ac msol to n st w = Inr u \<Longrightarrow>
     reserve_address rt key st = Inr (dep_reserve ac)
   \<and> liq_pool_sol_leg_address rt key (liq_pool st) = Inr (dep_sol_leg ac)
   \<and> dep_msol_mint ac = msol_mint st \<and> dep_msol_leg ac = msol_leg (liq_pool st)
   \<and> tk_mint to = msol_mint st \<and> min_deposit st \<le> n \<and> n \<le> acc_lamports w (dep_transfer_from ac)
   \<and> mt_supply msol \<le> msol_supply st"
  by (auto simp: deposit_checks_def deposit_check_transfer_from_def result_simps not_less)

context marinade_runtime
begin

lemma deposit_sale_effect:
  assumes "deposit_sale rt key ac st order s n w = Inr (n', w')"
  shows "\<exists>l. (if order = s then l = n
           else under_control st < 2 ^ 64 \<and> unat l = lamports_for st (unat s))
    \<and> unat n' = unat n - unat l
    \<and> can_move (dep_msol_leg ac) (dep_mint_to ac) s (token_amount w)
    \<and> token_amount w' = move_u64 (dep_msol_leg ac) (dep_mint_to ac) s (token_amount w)
    \<and> can_move (dep_transfer_from ac) (dep_sol_leg ac) l (acc_lamports w)
    \<and> acc_lamports w' = move_u64 (dep_transfer_from ac) (dep_sol_leg ac) l (acc_lamports w)
    \<and> mint_supply w' = mint_supply w"
  using assms
  by (auto simp: deposit_sale_def result_simps calc_lamports_Inr tokens_only_def
      dest!: system_transfer token_transfer split: if_splits)

lemma deposit_swap_effect:
  assumes "deposit_swap rt key ac leg st n w = Inr (n', w')"
  shows "under_control st < 2 ^ 64 \<and> (\<exists>s l.
      unat s = sold_msol st (unat (tk_amount leg)) (unat n)
    \<and> unat l = sold_for st (unat (tk_amount leg)) (unat n)
    \<and> unat n' = unat n - unat l
    \<and> can_move (dep_msol_leg ac) (dep_mint_to ac) s (token_amount w)
    \<and> token_amount w' = move_u64 (dep_msol_leg ac) (dep_mint_to ac) s (token_amount w)
    \<and> can_move (dep_transfer_from ac) (dep_sol_leg ac) l (acc_lamports w)
    \<and> acc_lamports w' = move_u64 (dep_transfer_from ac) (dep_sol_leg ac) l (acc_lamports w)
    \<and> mint_supply w' = mint_supply w)"
proof -
  from assms obtain order where o: "calc_msol_from_lamports st n = Inr order"
    by (auto simp: deposit_swap_def bindR_Inr)
  then have uc: "under_control st < 2 ^ 64" and order: "unat order = msol_for st (unat n)"
    by (simp_all add: calc_msol_Inr)
  define s where "s = min order (tk_amount leg)"
  have s: "unat s = sold_msol st (unat (tk_amount leg)) (unat n)"
    by (simp add: s_def sold_msol_def order)
  from assms have swap: "(if 0 < s then deposit_sale rt key ac st order s n w else Inr (n, w))
      = Inr (n', w')"
    by (simp only: deposit_swap_def o Let_def s_def bindR_simps)
  show ?thesis
  proof (cases "s > 0")
    case False
    then have "unat s = 0" by (simp add: word_gt_0_unat)
    moreover from this have "sold_for st (unat (tk_amount leg)) (unat n) = 0"
      using s by (simp add: sold_for_def)
    ultimately show ?thesis
      using swap uc s False by (auto intro!: exI [of _ 0] simp: unat_eq_zero)
  next
    case True
    with swap have "deposit_sale rt key ac st order s n w = Inr (n', w')" by simp
    moreover have "unat l = sold_for st (unat (tk_amount leg)) (unat n)"
      if "if order = s then l = n else under_control st < 2 ^ 64 \<and> unat l = lamports_for st (unat s)"
      for l
    proof (cases "order = s")
      case False
      then have "unat order \<noteq> unat s" by (metis unat_eqD)
      with that True s order False show ?thesis
        by (simp add: sold_for_def Let_def word_gt_0_unat)
    qed (use that True s order in \<open>simp add: sold_for_def Let_def word_gt_0_unat\<close>)
    ultimately show ?thesis
      using uc s by (auto dest!: deposit_sale_effect)
  qed
qed

lemma deposit_stake_effect:
  assumes "deposit_stake rt key ac st n w = Inr (st', w')"
  shows "\<exists>m. unat m = msol_for st (unat n)
    \<and> can_move (dep_transfer_from ac) (dep_reserve ac) n (acc_lamports w)
    \<and> acc_lamports w' = move_u64 (dep_transfer_from ac) (dep_reserve ac) n (acc_lamports w)
    \<and> unat (mint_supply w (dep_msol_mint ac)) + unat m < 2 ^ 64
    \<and> unat (token_amount w (dep_mint_to ac)) + unat m < 2 ^ 64
    \<and> mint_supply w' = (mint_supply w)(dep_msol_mint ac := mint_supply w (dep_msol_mint ac) + m)
    \<and> token_amount w' = (token_amount w)(dep_mint_to ac := token_amount w (dep_mint_to ac) + m)
    \<and> unat (available_reserve_balance st) + unat n < 2 ^ 64
    \<and> unat (msol_supply st) + unat m < 2 ^ 64
    \<and> (n \<noteq> 0 \<longrightarrow> under_control st + unat n \<le> unat (staking_sol_cap st))
    \<and> st' = st\<lparr>available_reserve_balance := available_reserve_balance st + n,
              msol_supply := msol_supply st + m\<rparr>"
proof (cases "n = 0")
  case True
  with assms show ?thesis
    using unat_u64_less by (auto simp: deposit_stake_def intro!: exI [of _ 0])
next
  case False
  with assms obtain m w1 st1
    where cap: "check_staking_cap st n = Inr ()" and m: "calc_msol_from_lamports st n = Inr m"
      and pay: "rt_invoke rt (SystemTransfer (dep_transfer_from ac) (dep_reserve ac) n) [] w = Inr w1"
      and st1: "on_transfer_to_reserve st n = Inr st1"
      and mint: "(if m > 0 then bindR (rt_invoke rt (TokenMintTo (dep_msol_mint ac) (dep_mint_to ac)
          (dep_msol_mint_authority ac) m) [msol_mint_authority_seeds key st1] w1)
          (\<lambda>w2. bindR (on_msol_mint st1 m) (\<lambda>st2. Inr (st2, w2))) else Inr (st1, w1)) = Inr (st', w')"
    by (auto simp: deposit_stake_def bindR_Inr word_neq_0_conv)
  show ?thesis
    using False cap m pay st1 mint system_transfer [OF pay] unat_u64_less
    by (intro exI [of _ m], cases "m = 0")
      (auto simp: result_simps word_neq_0_conv tokens_only_def dest!: token_mint_to)
qed

text \<open>The whole handler: what moved where, and the new state.\<close>

lemma deposit_effect:
  assumes "deposit rt cx key ac n st w = Inr (st', w')"
  shows "(\<exists>leg to. acc_token w (dep_msol_leg ac) = Some leg \<and> acc_token w (dep_mint_to ac) = Some to
      \<and> tk_mint to = msol_mint st)
    \<and> reserve_address rt key st = Inr (dep_reserve ac)
    \<and> liq_pool_sol_leg_address rt key (liq_pool st) = Inr (dep_sol_leg ac)
    \<and> dep_msol_mint ac = msol_mint st \<and> dep_msol_leg ac = msol_leg (liq_pool st)
    \<and> cx_signer cx (dep_transfer_from ac) \<and> min_deposit st \<le> n
    \<and> n \<le> acc_lamports w (dep_transfer_from ac)
    \<and> (\<exists>rest w1. deposit_swap rt key ac (the (acc_token w (dep_msol_leg ac))) st n w = Inr (rest, w1)
        \<and> deposit_stake rt key ac st rest w1 = Inr (st', w'))"
  using assms
  by (auto simp: deposit_def deposit_process_def load_token_def bindR_Inr ok_or_Inr
      check_attributes_Inr dest!: deposit_checks_Inr)

lemma deposit_flow:
  assumes dep: "deposit rt cx key ac n st w = Inr (st', w')"
    and apart: "distinct [dep_transfer_from ac, dep_sol_leg ac, dep_reserve ac]"
    and leg: "dep_mint_to ac \<noteq> dep_msol_leg ac"
  defines "s \<equiv> sold_msol st (unat (token_amount w (dep_msol_leg ac))) (unat n)"
    and "l \<equiv> sold_for st (unat (token_amount w (dep_msol_leg ac))) (unat n)"
  shows "\<exists>m r. unat m = msol_for st (unat n - l) \<and> unat r = unat n - l \<and> l \<le> unat n
    \<and> unat (acc_lamports w' (dep_transfer_from ac)) + unat n
        = unat (acc_lamports w (dep_transfer_from ac))
    \<and> unat (acc_lamports w' (dep_sol_leg ac)) = unat (acc_lamports w (dep_sol_leg ac)) + l
    \<and> unat (acc_lamports w' (dep_reserve ac)) + l = unat (acc_lamports w (dep_reserve ac)) + unat n
    \<and> unat (token_amount w' (dep_msol_leg ac)) + s = unat (token_amount w (dep_msol_leg ac))
    \<and> unat (token_amount w' (dep_mint_to ac)) = unat (token_amount w (dep_mint_to ac)) + s + unat m
    \<and> unat (mint_supply w' (msol_mint st)) = unat (mint_supply w (msol_mint st)) + unat m
    \<and> st' = st\<lparr>available_reserve_balance := available_reserve_balance st + r,
              msol_supply := msol_supply st + m\<rparr>
    \<and> unat (available_reserve_balance st) + unat r < 2 ^ 64
    \<and> unat (msol_supply st) + unat m < 2 ^ 64 \<and> under_control st < 2 ^ 64"
proof -
  note e = deposit_effect [OF dep]
  from e obtain rest w1
    where swap: "deposit_swap rt key ac (the (acc_token w (dep_msol_leg ac))) st n w = Inr (rest, w1)"
      and stake: "deposit_stake rt key ac st rest w1 = Inr (st', w')" by blast
  have amount: "tk_amount (the (acc_token w (dep_msol_leg ac))) = token_amount w (dep_msol_leg ac)"
    using e by (auto simp: token_amount_def)
  from deposit_swap_effect [OF swap] obtain sw lw where uc: "under_control st < 2 ^ 64"
    and sw: "unat sw = s" and lw: "unat lw = l" and rest: "unat rest = unat n - l"
    and tm: "can_move (dep_msol_leg ac) (dep_mint_to ac) sw (token_amount w)"
      "token_amount w1 = move_u64 (dep_msol_leg ac) (dep_mint_to ac) sw (token_amount w)"
    and lm: "can_move (dep_transfer_from ac) (dep_sol_leg ac) lw (acc_lamports w)"
      "acc_lamports w1 = move_u64 (dep_transfer_from ac) (dep_sol_leg ac) lw (acc_lamports w)"
    and ms: "mint_supply w1 = mint_supply w"
    by (auto simp: amount s_def l_def)
  from deposit_stake_effect [OF stake] obtain m where m: "unat m = msol_for st (unat rest)"
    and lm2: "can_move (dep_transfer_from ac) (dep_reserve ac) rest (acc_lamports w1)"
      "acc_lamports w' = move_u64 (dep_transfer_from ac) (dep_reserve ac) rest (acc_lamports w1)"
    and mb: "unat (mint_supply w1 (dep_msol_mint ac)) + unat m < 2 ^ 64"
      "unat (token_amount w1 (dep_mint_to ac)) + unat m < 2 ^ 64"
    and ms2: "mint_supply w' = (mint_supply w1)(dep_msol_mint ac := mint_supply w1 (dep_msol_mint ac) + m)"
      "token_amount w' = (token_amount w1)(dep_mint_to ac := token_amount w1 (dep_mint_to ac) + m)"
    and b: "unat (available_reserve_balance st) + unat rest < 2 ^ 64"
      "unat (msol_supply st) + unat m < 2 ^ 64"
    and st': "st' = st\<lparr>available_reserve_balance := available_reserve_balance st + rest,
              msol_supply := msol_supply st + m\<rparr>"
    by blast
  have le: "l \<le> unat n" by (simp add: l_def sale_fair)
  from apart have ne: "dep_transfer_from ac \<noteq> dep_sol_leg ac" "dep_transfer_from ac \<noteq> dep_reserve ac"
    "dep_sol_leg ac \<noteq> dep_reserve ac" by auto
  have lam: "unat (acc_lamports w' (dep_transfer_from ac)) + unat n
      = unat (acc_lamports w (dep_transfer_from ac))"
    "unat (acc_lamports w' (dep_sol_leg ac)) = unat (acc_lamports w (dep_sol_leg ac)) + l"
    "unat (acc_lamports w' (dep_reserve ac)) + l = unat (acc_lamports w (dep_reserve ac)) + unat n"
    using move_source [OF lm(1) ne(1)] move_target [OF lm(1) ne(1)] move_source [OF lm2(1) ne(2)]
      move_target [OF lm2(1) ne(2)] ne rest le lw
    by (simp_all flip: lm(2) lm2(2)) (simp_all add: lm(2) lm2(2))
  have tok: "unat (token_amount w' (dep_msol_leg ac)) + s = unat (token_amount w (dep_msol_leg ac))"
    "unat (token_amount w' (dep_mint_to ac)) = unat (token_amount w (dep_mint_to ac)) + s + unat m"
    using move_source [OF tm(1)] move_target [OF tm(1)] leg sw mb(2)
    by (simp_all add: ms2(2) unat_add_le flip: tm(2))
  have "dep_msol_mint ac = msol_mint st" using e by blast
  then have "unat (mint_supply w' (msol_mint st)) = unat (mint_supply w (msol_mint st)) + unat m"
    using mb(1) ms by (simp add: ms2(1) unat_add_le)
  moreover have "unat m = msol_for st (unat n - l)" using m rest by simp
  ultimately show ?thesis using lam tok rest le st' b uc by blast
qed

end

section \<open>Properties\<close>

lemma under_control_deposit:
  assumes "unat (available_reserve_balance st) + unat r < 2 ^ 64"
  shows "under_control (st\<lparr>available_reserve_balance := available_reserve_balance st + r, msol_supply := x\<rparr>)
    = under_control st + unat r"
  using assms by (simp add: under_control_def unat_add_le)

text \<open>Minting the shares of a deposit never lowers the price, whatever the tickets outstanding.\<close>

lemma deposit_price:
  assumes "unat (available_reserve_balance st) + unat r < 2 ^ 64"
    and "unat (msol_supply st) + unat m < 2 ^ 64"
    and "unat m = msol_for st (unat r)" and "0 < unat (msol_supply st)"
  shows "virtual_staked st * (unat (msol_supply st) + unat m)
    \<le> virtual_staked (st\<lparr>available_reserve_balance := available_reserve_balance st + r,
        msol_supply := msol_supply st + m\<rparr>) * unat (msol_supply st)"
proof (cases "virtual_staked st = 0")
  case False
  then have "virtual_staked (st\<lparr>available_reserve_balance := available_reserve_balance st + r,
        msol_supply := msol_supply st + m\<rparr>) = virtual_staked st + unat r"
    using under_control_deposit [OF assms(1)] by (simp add: virtual_staked_def)
  with mint_keeps_price [OF assms(4), of "virtual_staked st" "unat r"] assms(3) show ?thesis
    by (simp add: msol_for_def)
qed simp

text \<open>
  C2. A successful deposit of \<open>n\<close> lamports takes exactly \<open>n\<close> from the depositor and splits it
  into the price \<open>l\<close> of the \<open>s\<close> mSOL bought from the pool and the stake \<open>n - l\<close> in the
  reserve; the depositor gets those \<open>s\<close> mSOL and the newly minted shares of the rest, and the
  supply and the recorded reserve grow by what was minted and staked. Nothing else of the state
  changes.
\<close>
theorem deposit_accounting:
  assumes "marinade_runtime rt"
    and "deposit rt cx key ac n st w = Inr (st', w')"
    and "distinct [dep_transfer_from ac, dep_sol_leg ac, dep_reserve ac]"
    and "dep_mint_to ac \<noteq> dep_msol_leg ac"
  shows "let leg = unat (token_amount w (dep_msol_leg ac));
      s = sold_msol st leg (unat n); l = sold_for st leg (unat n); m = msol_for st (unat n - l)
    in l \<le> unat n
     \<and> unat (acc_lamports w' (dep_transfer_from ac)) + unat n
         = unat (acc_lamports w (dep_transfer_from ac))
     \<and> unat (acc_lamports w' (dep_sol_leg ac)) = unat (acc_lamports w (dep_sol_leg ac)) + l
     \<and> unat (acc_lamports w' (dep_reserve ac)) = unat (acc_lamports w (dep_reserve ac)) + (unat n - l)
     \<and> unat (token_amount w' (dep_msol_leg ac)) + s = leg
     \<and> unat (token_amount w' (dep_mint_to ac)) = unat (token_amount w (dep_mint_to ac)) + s + m
     \<and> unat (mint_supply w' (msol_mint st)) = unat (mint_supply w (msol_mint st)) + m
     \<and> unat (available_reserve_balance st') = unat (available_reserve_balance st) + (unat n - l)
     \<and> unat (msol_supply st') = unat (msol_supply st) + m
     \<and> st' = st\<lparr>available_reserve_balance := available_reserve_balance st',
              msol_supply := msol_supply st'\<rparr>"
  using marinade_runtime.deposit_flow [OF assms] by (auto simp: Let_def unat_add_le)

text \<open>
  C1. A deposit never dilutes the holders and never overpays the depositor: the value of one mSOL
  does not fall (stated without division), and the mSOL received is worth, at the price before
  the deposit, at most the lamports paid.
\<close>
theorem deposit_no_dilution:
  assumes "marinade_runtime rt"
    and "deposit rt cx key ac n st w = Inr (st', w')"
    and "distinct [dep_transfer_from ac, dep_sol_leg ac, dep_reserve ac]"
    and "dep_mint_to ac \<noteq> dep_msol_leg ac"
  shows "(0 < msol_supply st \<longrightarrow>
      virtual_staked st * unat (msol_supply st') \<le> virtual_staked st' * unat (msol_supply st))
    \<and> lamports_for st (unat (token_amount w' (dep_mint_to ac))
         - unat (token_amount w (dep_mint_to ac))) \<le> unat n"
proof -
  from marinade_runtime.deposit_flow [OF assms] obtain r m where
    m: "unat m = msol_for st (unat r)" "unat r = unat n - sold_for st (unat (token_amount w
          (dep_msol_leg ac))) (unat n)"
    and b: "unat (available_reserve_balance st) + unat r < 2 ^ 64"
      "unat (msol_supply st) + unat m < 2 ^ 64"
    and st': "st' = st\<lparr>available_reserve_balance := available_reserve_balance st + r,
        msol_supply := msol_supply st + m\<rparr>"
    and got: "unat (token_amount w' (dep_mint_to ac)) = unat (token_amount w (dep_mint_to ac))
        + sold_msol st (unat (token_amount w (dep_msol_leg ac))) (unat n) + unat m"
    by metis
  show ?thesis
    using deposit_price [OF b m(1)] b(2) sale_fair(2) m got
    by (simp add: st' word_gt_0_unat unat_add_le)
qed

text \<open>
  The sale never costs the pool a whole lamport: its SOL plus its mSOL at the current price,
  in units of one lamport times the mSOL supply, drop by less than one lamport, the rounding of
  a partially filled order.
\<close>
lemma deposit_pool_value:
  assumes "marinade_runtime rt"
    and "deposit rt cx key ac n st w = Inr (st', w')"
    and "distinct [dep_transfer_from ac, dep_sol_leg ac, dep_reserve ac]"
    and "dep_mint_to ac \<noteq> dep_msol_leg ac"
    and "0 < msol_supply st"
  shows "let V = virtual_staked st; S = unat (msol_supply st);
      value = (\<lambda>w. unat (acc_lamports w (dep_sol_leg ac)) * S
                + unat (token_amount w (dep_msol_leg ac)) * V)
    in value w < value w' + S"
proof -
  let ?leg = "unat (token_amount w (dep_msol_leg ac))"
  let ?V = "virtual_staked st" and ?S = "unat (msol_supply st)"
  let ?s = "sold_msol st ?leg (unat n)" and ?l = "sold_for st ?leg (unat n)"
  have S: "0 < ?S" using assms(5) by (simp add: word_gt_0_unat)
  from marinade_runtime.deposit_flow [OF assms(1-4)]
  have l: "unat (acc_lamports w' (dep_sol_leg ac)) = unat (acc_lamports w (dep_sol_leg ac)) + ?l"
    and t: "unat (token_amount w' (dep_msol_leg ac)) + ?s = ?leg" by auto
  have "?s * ?V < ?l * ?S + ?S"
  proof (cases "?s = 0 \<or> msol_for st (unat n) \<noteq> ?s")
    case True
    have "?s * ?V < (?s * ?V div ?S) * ?S + ?S"
      using mod_less_divisor [OF S, of "?s * ?V"] div_mult_mod_eq [of "?s * ?V" ?S] by linarith
    with True S show ?thesis
      by (auto simp: sold_for_cases lamports_for_def prop_floor_def)
  next
    case False
    then have "?s * ?V \<le> unat n * ?S"
      using shares_floor_mult [OF S, of "unat n" ?V] by (simp add: msol_for_def)
    with False S show ?thesis by (simp add: sold_for_cases)
  qed
  moreover have "?leg * ?V = unat (token_amount w' (dep_msol_leg ac)) * ?V + ?s * ?V"
    by (metis t add_mult_distrib)
  ultimately show ?thesis by (simp add: l add_mult_distrib Let_def)
qed

section \<open>A run\<close>

definition ex_deposit :: deposit_accounts where
  "ex_deposit = \<lparr>dep_msol_mint = 10, dep_sol_leg = ex_sol_leg, dep_msol_leg = 11,
     dep_msol_leg_authority = ex_leg_auth, dep_reserve = ex_reserve, dep_transfer_from = 40,
     dep_mint_to = 41, dep_msol_mint_authority = ex_mint_auth, dep_system_program = 0,
     dep_token_program = 6\<rparr>"

lemma ex_deposit_runs:
  obtains st' w' where "deposit ref_rt ex_cx ex_key ex_deposit 1000 ex_state ex_world = Inr (st', w')"
    "acc_lamports w' 40 = 29999999000" "token_amount w' 41 = 5500" "msol_supply st' = 700300"
  by (simp add: deposit_def ex_deposit_def run_simps ex_world_def deposit_process_def
      deposit_checks_def deposit_check_transfer_from_def ex_token_def deposit_swap_def
      deposit_sale_def deposit_stake_def)

lemma ex_deposit_apart:
  "distinct [dep_transfer_from ex_deposit, dep_sol_leg ex_deposit, dep_reserve ex_deposit]"
  "dep_mint_to ex_deposit \<noteq> dep_msol_leg ex_deposit"
  by (simp_all add: ex_deposit_def)

lemma deposit_accounting_witness:
  "\<exists>st' w'. deposit ref_rt ex_cx ex_key ex_deposit 1000 ex_state ex_world = Inr (st', w')
    \<and> unat (acc_lamports w' 40) + 1000 = unat (acc_lamports ex_world 40)"
proof -
  obtain st' w' where r: "deposit ref_rt ex_cx ex_key ex_deposit 1000 ex_state ex_world = Inr (st', w')"
    by (rule ex_deposit_runs)
  from deposit_accounting [OF ref.marinade_runtime_axioms r ex_deposit_apart] r show ?thesis
    by (auto simp: Let_def ex_deposit_def)
qed

lemma deposit_no_dilution_witness:
  "\<exists>st' w'. deposit ref_rt ex_cx ex_key ex_deposit 1000 ex_state ex_world = Inr (st', w')
    \<and> virtual_staked ex_state * unat (msol_supply st') \<le> virtual_staked st' * 700000"
proof -
  obtain st' w' where r: "deposit ref_rt ex_cx ex_key ex_deposit 1000 ex_state ex_world = Inr (st', w')"
    by (rule ex_deposit_runs)
  from deposit_no_dilution [OF ref.marinade_runtime_axioms r ex_deposit_apart] r show ?thesis
    by auto
qed

lemma deposit_pool_value_witness:
  "\<exists>st' w'. deposit ref_rt ex_cx ex_key ex_deposit 1000 ex_state ex_world = Inr (st', w')
    \<and> 0 < msol_supply ex_state
    \<and> unat (acc_lamports ex_world ex_sol_leg) * 700000
        < unat (acc_lamports w' ex_sol_leg) * 700000
          + unat (token_amount w' 11) * virtual_staked ex_state + 700000"
proof -
  obtain st' w' where r: "deposit ref_rt ex_cx ex_key ex_deposit 1000 ex_state ex_world = Inr (st', w')"
    by (rule ex_deposit_runs)
  from deposit_pool_value [OF ref.marinade_runtime_axioms r ex_deposit_apart] r show ?thesis
    by (auto simp: Let_def ex_deposit_def)
qed

end
