(* ===== verification/LiquidUnstake.thy ===== *)
theory LiquidUnstake
  imports Deposit
begin

text \<open>
  The \<open>liquid_unstake\<close> instruction (\<open>state/liquid_unstake.rs\<close>): mSOL sold to the pool for
  SOL at the current price less the linear fee, of which the treasury takes its cut.
\<close>

section \<open>The handler\<close>

record liquid_unstake_accounts =
  lu_msol_mint :: pubkey
  lu_sol_leg :: pubkey
  lu_msol_leg :: pubkey
  lu_treasury :: pubkey
  lu_get_from :: pubkey
  lu_get_from_authority :: pubkey
  lu_transfer_to :: pubkey
  lu_system_program :: pubkey
  lu_token_program :: pubkey

text \<open>
  The authority must own the tokens, or be delegated enough of them. The balance is compared only
  for the owner, the allowance only for a delegate.
\<close>

definition check_token_source :: "token_account \<Rightarrow> pubkey \<Rightarrow> u64 \<Rightarrow> unit result" where
  "check_token_source source authority amount =
     (if authority = tk_owner source then require (\<not> tk_amount source < amount) InsufficientFunds
      else if tk_delegate source = Some authority
      then require (\<not> tk_delegated_amount source < amount) InsufficientFunds
      else Inl InvalidArgument)"

definition check_get_msol_from :: "state \<Rightarrow> token_account \<Rightarrow> pubkey \<Rightarrow> u64 \<Rightarrow> unit result" where
  "check_get_msol_from st source authority msol_amount = all_ok
     [check_token_mint source (msol_mint st), check_token_source source authority msol_amount]"

definition liquid_unstake_checks ::
  "runtime \<Rightarrow> pubkey \<Rightarrow> liquid_unstake_accounts \<Rightarrow> token_account \<Rightarrow> u64 \<Rightarrow> state \<Rightarrow> world \<Rightarrow> bool result"
where
  "liquid_unstake_checks rt key ac source msol_amount st w =
     bindR (all_ok
       [check_msol_mint st (lu_msol_mint ac),
        check_liq_pool_sol_leg_pda rt key (liq_pool st) (lu_sol_leg ac),
        check_liq_pool_msol_leg (liq_pool st) (lu_msol_leg ac),
        check_get_msol_from st source (lu_get_from_authority ac) msol_amount,
        check_owner_program w (lu_transfer_to ac) (rt_system_program rt)]) (\<lambda>_.
     bindR (check_treasury_msol_account rt st w (lu_treasury ac)) (\<lambda>ready.
     bindR (all_ok
       [check_address (lu_system_program ac) (rt_system_program rt),
        check_address (lu_token_program ac) (rt_spl_token rt)]) (\<lambda>_. Inr ready)))"

text \<open>The fee rate, from the liquidity left after the user took the SOL.\<close>

definition liquid_unstake_rate :: "state \<Rightarrow> u64 \<Rightarrow> u64 \<Rightarrow> fee result" where
  "liquid_unstake_rate st sol_leg_lamports msol_amount =
     (let max_lamports = saturating_sub sol_leg_lamports (rent_exempt_for_token_acc st) in
      bindR (calc_lamports_from_msol_amount st msol_amount) (\<lambda>user_remove_lamports.
      if user_remove_lamports \<ge> max_lamports then Inr (lp_max_fee (liq_pool st))
      else linear_fee (liq_pool st) (max_lamports - user_remove_lamports)))"

text \<open>The mSOL fee and the lamports to pay.\<close>

definition liquid_unstake_quote :: "state \<Rightarrow> u64 \<Rightarrow> u64 \<Rightarrow> (u64 \<times> u64) result" where
  "liquid_unstake_quote st sol_leg_lamports msol_amount =
     bindR (liquid_unstake_rate st sol_leg_lamports msol_amount) (\<lambda>liquid_unstake_fee.
     let msol_fee = fee_apply liquid_unstake_fee msol_amount in
     bindR (psub msol_amount msol_fee) (\<lambda>net.
     bindR (calc_lamports_from_msol_amount st net) (\<lambda>working_lamports_value.
     bindR (padd working_lamports_value (rent_exempt_for_token_acc st)) (\<lambda>needed.
     bindR (require (\<not> needed > sol_leg_lamports) (Common InsufficientLiquidity)) (\<lambda>_.
     bindR (check_min_amount working_lamports_value (min_withdraw st)) (\<lambda>_.
     Inr (msol_fee, working_lamports_value)))))))"

text \<open>The treasury's part of the fee; nothing while its account is not ready.\<close>

definition treasury_msol_cut :: "state \<Rightarrow> bool \<Rightarrow> u64 \<Rightarrow> u64" where
  "treasury_msol_cut st treasury_ready msol_fee =
     (if treasury_ready then fee_apply (treasury_cut (liq_pool st)) msol_fee else 0)"

definition liquid_unstake_pay ::
  "runtime \<Rightarrow> pubkey \<Rightarrow> liquid_unstake_accounts \<Rightarrow> bool \<Rightarrow> u64 \<Rightarrow> u64 \<Rightarrow> u64 \<Rightarrow> state \<Rightarrow> world
    \<Rightarrow> (state \<times> world) result" where
  "liquid_unstake_pay rt key ac treasury_ready msol_amount msol_fee working_lamports_value st w =
     bindR (if working_lamports_value > 0
            then rt_invoke rt (SystemTransfer (lu_sol_leg ac) (lu_transfer_to ac)
                   working_lamports_value) [liq_pool_sol_leg_seeds key (liq_pool st)] w
            else Inr w) (\<lambda>w1.
     let cut_amount = treasury_msol_cut st treasury_ready msol_fee in
     bindR (psub msol_amount cut_amount) (\<lambda>to_leg.
     bindR (rt_invoke rt (TokenTransfer (lu_get_from ac) (lu_msol_leg ac)
              (lu_get_from_authority ac) to_leg) [] w1) (\<lambda>w2.
     bindR (if cut_amount > 0
            then rt_invoke rt (TokenTransfer (lu_get_from ac) (lu_treasury ac)
                   (lu_get_from_authority ac) cut_amount) [] w2
            else Inr w2) (\<lambda>w3.
     Inr (st, w3)))))"

definition liquid_unstake_process ::
  "runtime \<Rightarrow> pubkey \<Rightarrow> liquid_unstake_accounts \<Rightarrow> token_account \<Rightarrow> u64 \<Rightarrow> state \<Rightarrow> world
    \<Rightarrow> (state \<times> world) result" where
  "liquid_unstake_process rt key ac source msol_amount st w =
     bindR (liquid_unstake_checks rt key ac source msol_amount st w) (\<lambda>ready.
     bindR (liquid_unstake_quote st (acc_lamports w (lu_sol_leg ac)) msol_amount)
       (\<lambda>(msol_fee, working_lamports_value).
     liquid_unstake_pay rt key ac ready msol_amount msol_fee working_lamports_value st w))"

definition liquid_unstake ::
  "runtime \<Rightarrow> call_context \<Rightarrow> pubkey \<Rightarrow> liquid_unstake_accounts \<Rightarrow> u64 \<Rightarrow> state \<Rightarrow> world
    \<Rightarrow> (state \<times> world) result" where
  "liquid_unstake rt cx key ac msol_amount st w =
     bindR (check_attributes cx [lu_get_from_authority ac]
              [key, lu_msol_mint ac, lu_sol_leg ac, lu_msol_leg ac, lu_treasury ac, lu_get_from ac,
               lu_transfer_to ac]) (\<lambda>_.
     bindR (load_mint w (lu_msol_mint ac)) (\<lambda>_.
     bindR (load_token w (lu_msol_leg ac)) (\<lambda>_.
     bindR (load_token w (lu_get_from ac)) (\<lambda>source.
     bindR (check_context cx) (\<lambda>_.
     liquid_unstake_process rt key ac source msol_amount st w)))))"

section \<open>The quote\<close>

lemma liquid_unstake_rate_range:
  assumes "liquid_unstake_rate st leg m = Inr f" and "fees_ordered (liq_pool st)"
  shows "basis_points (lp_min_fee (liq_pool st)) \<le> basis_points f
    \<and> basis_points f \<le> basis_points (lp_max_fee (liq_pool st))"
proof -
  from assms(1) have "f = lp_max_fee (liq_pool st) \<or> (\<exists>x. linear_fee (liq_pool st) x = Inr f)"
    by (auto simp: liquid_unstake_rate_def Let_def bindR_Inr split: if_splits)
  with linear_fee_range [OF assms(2)] assms(2) show ?thesis by (auto simp: fees_ordered_def)
qed

lemma liquid_unstake_quote_Inr:
  assumes "liquid_unstake_quote st leg m = Inr (f, x)"
  shows "\<exists>rate. liquid_unstake_rate st leg m = Inr rate \<and> f = fee_apply rate m \<and> f \<le> m
    \<and> unat x = lamports_for st (unat m - unat f) \<and> min_withdraw st \<le> x
    \<and> unat x + unat (rent_exempt_for_token_acc st) \<le> unat leg"
proof -
  from assms obtain rate net needed where "liquid_unstake_rate st leg m = Inr rate"
    "f = fee_apply rate m" and net: "psub m f = Inr net"
    and x: "calc_lamports_from_msol_amount st net = Inr x"
    and needed: "padd x (rent_exempt_for_token_acc st) = Inr needed" "\<not> needed > leg"
    and "min_withdraw st \<le> x"
    by (auto simp: liquid_unstake_quote_def Let_def bindR_Inr check_Inr)
  moreover from net have "unat m = unat f + unat net" by (simp add: ok_or_Inr checked_sub_Some)
  moreover from x have "unat x = lamports_for st (unat net)" by (simp add: calc_lamports_Inr)
  moreover from needed have "unat x + unat (rent_exempt_for_token_acc st) \<le> unat leg"
    by (simp add: ok_or_Inr checked_add_Some not_less word_le_nat_alt)
  ultimately show ?thesis by (simp add: word_le_nat_alt)
qed

lemma liquid_unstake_checks_Inr:
  assumes "liquid_unstake_checks rt key ac source m st w = Inr ready"
  shows "lu_msol_mint ac = msol_mint st \<and> lu_msol_leg ac = msol_leg (liq_pool st)
    \<and> liq_pool_sol_leg_address rt key (liq_pool st) = Inr (lu_sol_leg ac)
    \<and> lu_treasury ac = treasury_msol_account st
    \<and> ready = (acc_owner w (lu_treasury ac) = rt_spl_token rt
        \<and> (\<exists>t. acc_token w (lu_treasury ac) = Some t \<and> tk_mint t = msol_mint st))"
  using assms by (auto simp: liquid_unstake_checks_def result_simps)

section \<open>Effects\<close>

context marinade_runtime
begin

text \<open>An instruction sent only for a positive amount moves that amount, zero included.\<close>

lemma optional_system_transfer:
  assumes "(if n > 0 then rt_invoke rt (SystemTransfer f t n) sg w else Inr w) = Inr w'"
  shows "can_move f t n (acc_lamports w) \<and> w' = w\<lparr>acc_lamports := move_u64 f t n (acc_lamports w)\<rparr>"
  using assms system_transfer by (cases "n = 0") (auto simp: word_neq_0_conv)

lemma optional_token_transfer:
  assumes "(if n > 0 then rt_invoke rt (TokenTransfer f t auth n) sg w else Inr w) = Inr w'"
  shows "can_move f t n (token_amount w) \<and> token_amount w' = move_u64 f t n (token_amount w)
    \<and> mint_supply w' = mint_supply w \<and> tokens_only w w'"
  using assms token_transfer by (cases "n = 0") (auto simp: word_neq_0_conv tokens_only_def)

lemma liquid_unstake_pay_effect:
  assumes pay: "liquid_unstake_pay rt key ac ready m f x st w = Inr (st', w')"
    and apart: "lu_sol_leg ac \<noteq> lu_transfer_to ac"
      "distinct [lu_get_from ac, lu_msol_leg ac, lu_treasury ac]"
  defines "cutm \<equiv> treasury_msol_cut st ready f"
  shows "st' = st \<and> unat cutm \<le> unat m
    \<and> unat (acc_lamports w' (lu_sol_leg ac)) + unat x = unat (acc_lamports w (lu_sol_leg ac))
    \<and> unat (acc_lamports w' (lu_transfer_to ac)) = unat (acc_lamports w (lu_transfer_to ac)) + unat x
    \<and> unat (token_amount w' (lu_get_from ac)) + unat m = unat (token_amount w (lu_get_from ac))
    \<and> unat (token_amount w' (lu_msol_leg ac)) = unat (token_amount w (lu_msol_leg ac)) + (unat m - unat cutm)
    \<and> unat (token_amount w' (lu_treasury ac)) = unat (token_amount w (lu_treasury ac)) + unat cutm
    \<and> mint_supply w' = mint_supply w"
proof -
  from pay have st': "st' = st"
    by (auto simp: liquid_unstake_pay_def Let_def bindR_Inr)
  from pay obtain w1 y w2 where
    s1: "(if x > 0 then rt_invoke rt (SystemTransfer (lu_sol_leg ac) (lu_transfer_to ac) x)
            [liq_pool_sol_leg_seeds key (liq_pool st)] w else Inr w) = Inr w1"
    and y: "unat m = unat cutm + unat y"
    and s2: "rt_invoke rt (TokenTransfer (lu_get_from ac) (lu_msol_leg ac)
            (lu_get_from_authority ac) y) [] w1 = Inr w2"
    and s3: "(if cutm > 0 then rt_invoke rt (TokenTransfer (lu_get_from ac) (lu_treasury ac)
            (lu_get_from_authority ac) cutm) [] w2 else Inr w2) = Inr w'"
    unfolding liquid_unstake_pay_def Let_def cutm_def [symmetric] st'
    by (auto simp: bindR_Inr ok_or_Inr checked_sub_Some)
  note e1 = optional_system_transfer [OF s1] and e2 = token_transfer [OF s2]
    and e3 = optional_token_transfer [OF s3]
  have w1: "token_amount w1 = token_amount w" "mint_supply w1 = mint_supply w"
    "acc_lamports w' = acc_lamports w1"
    using e1 e2 e3 by (auto simp: tokens_only_def)
  have lam: "unat (acc_lamports w' (lu_sol_leg ac)) + unat x = unat (acc_lamports w (lu_sol_leg ac))"
    "unat (acc_lamports w' (lu_transfer_to ac)) = unat (acc_lamports w (lu_transfer_to ac)) + unat x"
    using e1 move_source [OF conjunct1 [OF e1] apart(1)] move_target [OF conjunct1 [OF e1] apart(1)]
    by (auto simp: w1(3))
  from apart(2) have ne: "lu_get_from ac \<noteq> lu_msol_leg ac" "lu_get_from ac \<noteq> lu_treasury ac"
    "lu_msol_leg ac \<noteq> lu_treasury ac" by auto
  have t2: "token_amount w2 = move_u64 (lu_get_from ac) (lu_msol_leg ac) y (token_amount w)"
    "can_move (lu_get_from ac) (lu_msol_leg ac) y (token_amount w)" using e2 w1 by auto
  have t3: "token_amount w' = move_u64 (lu_get_from ac) (lu_treasury ac) cutm (token_amount w2)"
    "can_move (lu_get_from ac) (lu_treasury ac) cutm (token_amount w2)" using e3 by auto
  have tok: "unat (token_amount w' (lu_get_from ac)) + unat cutm + unat y = unat (token_amount w (lu_get_from ac))"
    "unat (token_amount w' (lu_msol_leg ac)) = unat (token_amount w (lu_msol_leg ac)) + unat y"
    "unat (token_amount w' (lu_treasury ac)) = unat (token_amount w (lu_treasury ac)) + unat cutm"
    using move_source [OF t2(2) ne(1)] move_target [OF t2(2) ne(1)] move_source [OF t3(2) ne(2)]
      move_target [OF t3(2) ne(2)] ne
    by (simp_all flip: t2(1) t3(1)) (simp_all add: t2(1) t3(1))
  have "mint_supply w' = mint_supply w" using e2 e3 w1 by simp
  with lam tok y st' show ?thesis by auto
qed

lemma liquid_unstake_flow:
  assumes "liquid_unstake rt cx key ac m st w = Inr (st', w')"
    and "lu_sol_leg ac \<noteq> lu_transfer_to ac"
      "distinct [lu_get_from ac, lu_msol_leg ac, lu_treasury ac]"
  shows "\<exists>rate f x cutm ready. liquid_unstake_rate st (acc_lamports w (lu_sol_leg ac)) m = Inr rate
    \<and> f = fee_apply rate m \<and> f \<le> m \<and> unat x = lamports_for st (unat m - unat f)
    \<and> min_withdraw st \<le> x
    \<and> unat x + unat (rent_exempt_for_token_acc st) \<le> unat (acc_lamports w (lu_sol_leg ac))
    \<and> cutm = treasury_msol_cut st ready f
    \<and> st' = st \<and> unat cutm \<le> unat m
    \<and> unat (acc_lamports w' (lu_sol_leg ac)) + unat x = unat (acc_lamports w (lu_sol_leg ac))
    \<and> unat (acc_lamports w' (lu_transfer_to ac)) = unat (acc_lamports w (lu_transfer_to ac)) + unat x
    \<and> unat (token_amount w' (lu_get_from ac)) + unat m = unat (token_amount w (lu_get_from ac))
    \<and> unat (token_amount w' (lu_msol_leg ac)) = unat (token_amount w (lu_msol_leg ac)) + (unat m - unat cutm)
    \<and> unat (token_amount w' (lu_treasury ac)) = unat (token_amount w (lu_treasury ac)) + unat cutm
    \<and> mint_supply w' = mint_supply w"
proof -
  from assms(1) obtain source ready f x where
    q: "liquid_unstake_quote st (acc_lamports w (lu_sol_leg ac)) m = Inr (f, x)"
    and p: "liquid_unstake_pay rt key ac ready m f x st w = Inr (st', w')"
    by (auto simp: liquid_unstake_def liquid_unstake_process_def bindR_Inr)
  from liquid_unstake_quote_Inr [OF q] liquid_unstake_pay_effect [OF p assms(2,3)]
  show ?thesis by blast
qed

end

section \<open>Properties\<close>

text \<open>The fee parameters that \<open>initialize\<close> and \<open>set_lp_params\<close> accept.\<close>

definition pool_fees_ok :: "liq_pool \<Rightarrow> bool" where
  "pool_fees_ok lp \<longleftrightarrow> fees_ordered lp \<and> basis_points (lp_max_fee lp) \<le> 1000
     \<and> basis_points (treasury_cut lp) \<le> 10000"

lemma treasury_msol_cut_le:
  "pool_fees_ok (liq_pool st) \<Longrightarrow> unat (treasury_msol_cut st ready f) \<le> unat f"
  by (simp add: treasury_msol_cut_def pool_fees_ok_def fee_apply_le)

text \<open>
  C3. A successful liquid unstake charges a fee between the minimum and the maximum of the pool,
  rounded down, pays the value of the rest at the current price (at least the configured minimum)
  and leaves the pool's SOL account with its rent; the mSOL given up goes to the pool and, at
  most the fee, to the treasury. The state does not change and no mSOL is minted or burned.
\<close>
theorem liquid_unstake_settles:
  assumes "marinade_runtime rt"
    and "liquid_unstake rt cx key ac m st w = Inr (st', w')"
    and "lu_sol_leg ac \<noteq> lu_transfer_to ac"
    and "distinct [lu_get_from ac, lu_msol_leg ac, lu_treasury ac]"
    and "pool_fees_ok (liq_pool st)"
  shows "\<exists>bp fee paid cutm.
      unat (basis_points (lp_min_fee (liq_pool st))) \<le> bp
    \<and> bp \<le> unat (basis_points (lp_max_fee (liq_pool st)))
    \<and> fee = unat m * bp div 10000 \<and> paid = lamports_for st (unat m - fee)
    \<and> unat (min_withdraw st) \<le> paid \<and> cutm \<le> fee
    \<and> unat (acc_lamports w' (lu_transfer_to ac)) = unat (acc_lamports w (lu_transfer_to ac)) + paid
    \<and> unat (acc_lamports w' (lu_sol_leg ac)) + paid = unat (acc_lamports w (lu_sol_leg ac))
    \<and> unat (rent_exempt_for_token_acc st) \<le> unat (acc_lamports w' (lu_sol_leg ac))
    \<and> unat (token_amount w' (lu_get_from ac)) + unat m = unat (token_amount w (lu_get_from ac))
    \<and> unat (token_amount w' (lu_msol_leg ac)) + cutm = unat (token_amount w (lu_msol_leg ac)) + unat m
    \<and> unat (token_amount w' (lu_treasury ac)) = unat (token_amount w (lu_treasury ac)) + cutm
    \<and> mint_supply w' = mint_supply w \<and> st' = st"
proof -
  from marinade_runtime.liquid_unstake_flow [OF assms(1-4)] obtain rate f x cutm ready where
    rate: "liquid_unstake_rate st (acc_lamports w (lu_sol_leg ac)) m = Inr rate"
    and f: "f = fee_apply rate m" and x: "unat x = lamports_for st (unat m - unat f)"
    and mw: "min_withdraw st \<le> x"
    and rent: "unat x + unat (rent_exempt_for_token_acc st) \<le> unat (acc_lamports w (lu_sol_leg ac))"
    and c: "cutm = treasury_msol_cut st ready f" "unat cutm \<le> unat m" and "st' = st"
    and flow: "unat (acc_lamports w' (lu_sol_leg ac)) + unat x = unat (acc_lamports w (lu_sol_leg ac))"
      "unat (acc_lamports w' (lu_transfer_to ac)) = unat (acc_lamports w (lu_transfer_to ac)) + unat x"
      "unat (token_amount w' (lu_get_from ac)) + unat m = unat (token_amount w (lu_get_from ac))"
      "unat (token_amount w' (lu_msol_leg ac)) = unat (token_amount w (lu_msol_leg ac)) + (unat m - unat cutm)"
      "unat (token_amount w' (lu_treasury ac)) = unat (token_amount w (lu_treasury ac)) + unat cutm"
      "mint_supply w' = mint_supply w"
    by blast
  have range: "basis_points (lp_min_fee (liq_pool st)) \<le> basis_points rate"
    "basis_points rate \<le> basis_points (lp_max_fee (liq_pool st))"
    using liquid_unstake_rate_range [OF rate] assms(5) by (auto simp: pool_fees_ok_def)
  then have "basis_points rate \<le> 1000" using assms(5) by (auto simp: pool_fees_ok_def)
  then have "basis_points rate \<le> 10000" by (auto simp: word_le_nat_alt)
  then have fee: "unat f = unat m * unat (basis_points rate) div 10000"
    by (simp add: f unat_fee_apply)
  have cut_le: "unat cutm \<le> unat f" using treasury_msol_cut_le [OF assms(5)] c by simp
  have "unat (basis_points (lp_min_fee (liq_pool st))) \<le> unat (basis_points rate)"
    "unat (basis_points rate) \<le> unat (basis_points (lp_max_fee (liq_pool st)))"
    "unat (min_withdraw st) \<le> unat x"
    using range mw by (simp_all add: word_le_nat_alt)
  moreover have "unat (rent_exempt_for_token_acc st) \<le> unat (acc_lamports w' (lu_sol_leg ac))"
    using rent flow(1) by linarith
  moreover have "unat (token_amount w' (lu_msol_leg ac)) + unat cutm
      = unat (token_amount w (lu_msol_leg ac)) + unat m"
    using flow(4) c(2) by linarith
  ultimately show ?thesis
    using fee x cut_le flow \<open>st' = st\<close>
    by - (rule exI [of _ "unat (basis_points rate)"], rule exI [of _ "unat f"],
        rule exI [of _ "unat x"], rule exI [of _ "unat cutm"], blast)
qed

text \<open>
  C4. Liquidity providers never lose to an unstaker: the SOL of the pool plus its mSOL at the
  current price (in units of one lamport times the mSOL supply) does not decrease.
\<close>
theorem liquid_unstake_pool_value:
  assumes "marinade_runtime rt"
    and "liquid_unstake rt cx key ac m st w = Inr (st', w')"
    and "lu_sol_leg ac \<noteq> lu_transfer_to ac"
    and "distinct [lu_get_from ac, lu_msol_leg ac, lu_treasury ac]"
    and "pool_fees_ok (liq_pool st)" and "0 < msol_supply st"
  shows "let V = virtual_staked st; S = unat (msol_supply st);
      value = (\<lambda>w. unat (acc_lamports w (lu_sol_leg ac)) * S
                + unat (token_amount w (lu_msol_leg ac)) * V)
    in value w \<le> value w'"
proof -
  let ?V = "virtual_staked st" and ?S = "unat (msol_supply st)"
  from marinade_runtime.liquid_unstake_flow [OF assms(1-4)] obtain rate f and x :: u64 and cutm ready where
    "liquid_unstake_rate st (acc_lamports w (lu_sol_leg ac)) m = Inr rate"
    and x: "unat x = lamports_for st (unat m - unat f)"
    and c: "cutm = treasury_msol_cut st ready f"
    and flow: "unat (acc_lamports w' (lu_sol_leg ac)) + unat x = unat (acc_lamports w (lu_sol_leg ac))"
      "unat (token_amount w' (lu_msol_leg ac)) = unat (token_amount w (lu_msol_leg ac)) + (unat m - unat cutm)"
    by blast
  have "unat x * ?S \<le> (unat m - unat f) * ?V"
    using x assms(6) prop_floor_mult [of ?S "unat m - unat f" ?V]
    by (simp add: lamports_for_def word_gt_0_unat)
  also have "\<dots> \<le> (unat m - unat cutm) * ?V"
    using treasury_msol_cut_le [OF assms(5), of ready f] c by (intro mult_le_mono1) simp
  finally have "unat x * ?S \<le> (unat m - unat cutm) * ?V" .
  moreover have "unat (acc_lamports w (lu_sol_leg ac)) * ?S
      = unat (acc_lamports w' (lu_sol_leg ac)) * ?S + unat x * ?S"
    by (metis flow(1) add_mult_distrib)
  ultimately show ?thesis by (simp add: flow(2) add_mult_distrib Let_def)
qed

section \<open>A run\<close>

definition ex_liquid_unstake :: liquid_unstake_accounts where
  "ex_liquid_unstake = \<lparr>lu_msol_mint = 10, lu_sol_leg = ex_sol_leg, lu_msol_leg = 11,
     lu_treasury = 13, lu_get_from = 41, lu_get_from_authority = 40, lu_transfer_to = 45,
     lu_system_program = 0, lu_token_program = 6\<rparr>"

lemma ex_liquid_unstake_runs:
  obtains st' w' where
    "liquid_unstake ref_rt ex_cx ex_key ex_liquid_unstake 4000 ex_state ex_world = Inr (st', w')"
    "acc_lamports w' 45 = 100007804" "token_amount w' 41 = 1000" "token_amount w' 13 = 24"
  by (simp add: liquid_unstake_def ex_liquid_unstake_def run_simps ex_world_def
      liquid_unstake_process_def liquid_unstake_checks_def check_get_msol_from_def
      check_token_source_def ex_token_def liquid_unstake_quote_def liquid_unstake_rate_def
      linear_fee_def lp_delta_def fee_apply_def from_basis_points_def liquid_unstake_pay_def
      treasury_msol_cut_def check_treasury_msol_account_def)

lemma ex_liquid_unstake_apart:
  "lu_sol_leg ex_liquid_unstake \<noteq> lu_transfer_to ex_liquid_unstake"
  "distinct [lu_get_from ex_liquid_unstake, lu_msol_leg ex_liquid_unstake,
     lu_treasury ex_liquid_unstake]"
  by (simp_all add: ex_liquid_unstake_def)

lemma ex_pool_fees_ok: "pool_fees_ok (liq_pool ex_state)"
  by (simp add: pool_fees_ok_def fees_ordered_def from_basis_points_def)

lemma liquid_unstake_settles_witness:
  "\<exists>st' w'. liquid_unstake ref_rt ex_cx ex_key ex_liquid_unstake 4000 ex_state ex_world = Inr (st', w')
    \<and> unat (token_amount w' 41) + 4000 = unat (token_amount ex_world 41) \<and> st' = ex_state"
proof -
  obtain st' w' where
    r: "liquid_unstake ref_rt ex_cx ex_key ex_liquid_unstake 4000 ex_state ex_world = Inr (st', w')"
    by (rule ex_liquid_unstake_runs)
  from liquid_unstake_settles [OF ref.marinade_runtime_axioms r ex_liquid_unstake_apart
      ex_pool_fees_ok] r show ?thesis
    by (auto simp: ex_liquid_unstake_def)
qed

lemma liquid_unstake_pool_value_witness:
  "\<exists>st' w'. liquid_unstake ref_rt ex_cx ex_key ex_liquid_unstake 4000 ex_state ex_world = Inr (st', w')
    \<and> unat (acc_lamports ex_world ex_sol_leg) * 700000
        \<le> unat (acc_lamports w' ex_sol_leg) * 700000
          + unat (token_amount w' 11) * virtual_staked ex_state"
proof -
  obtain st' w' where
    r: "liquid_unstake ref_rt ex_cx ex_key ex_liquid_unstake 4000 ex_state ex_world = Inr (st', w')"
    by (rule ex_liquid_unstake_runs)
  from liquid_unstake_pool_value [OF ref.marinade_runtime_axioms r ex_liquid_unstake_apart
      ex_pool_fees_ok] r show ?thesis
    by (auto simp: ex_liquid_unstake_def Let_def)
qed

end
