(* ===== verification/Tickets.thy ===== *)
theory Tickets
  imports LiquidUnstake
begin

text \<open>
  Delayed unstake: \<open>order_unstake\<close> (\<open>state/order_unstake.rs\<close>) burns mSOL against a ticket,
  \<open>claim\<close> (\<open>state/claim.rs\<close>) pays the ticket from the reserve once it is due.
\<close>

section \<open>Ordering\<close>

record order_unstake_accounts =
  ou_msol_mint :: pubkey
  ou_burn_from :: pubkey
  ou_burn_authority :: pubkey
  ou_ticket :: pubkey
  ou_token_program :: pubkey

definition check_burn_msol_from :: "state \<Rightarrow> token_account \<Rightarrow> pubkey \<Rightarrow> u64 \<Rightarrow> unit result" where
  "check_burn_msol_from st source authority msol_amount = all_ok
     [check_token_mint source (msol_mint st),
      require (msol_amount \<noteq> 0) InvalidAccountData,
      check_token_source source authority msol_amount]"

text \<open>
  \<open>zero, rent_exempt = enforce\<close> on the new ticket account: its discriminator is zero (no ticket
  is stored there) and it holds the rent of its size.
\<close>

definition check_zero_account :: "runtime \<Rightarrow> world \<Rightarrow> pubkey \<Rightarrow> unit result" where
  "check_zero_account rt w k = all_ok
     [require (acc_ticket w k = None \<and> byte_slice (acc_data w k) 0 8 = Some (replicate 8 0)) Constraint,
      require (rt_is_exempt rt (acc_lamports w k) (length (acc_data w k))) Constraint]"

definition order_unstake_checks ::
  "runtime \<Rightarrow> order_unstake_accounts \<Rightarrow> token_account \<Rightarrow> u64 \<Rightarrow> state \<Rightarrow> world \<Rightarrow> unit result" where
  "order_unstake_checks rt ac source msol_amount st w = all_ok
     [check_address (ou_token_program ac) (rt_spl_token rt),
      check_owner_program w (ou_ticket ac) ID,
      check_msol_mint st (ou_msol_mint ac),
      check_burn_msol_from st source (ou_burn_authority ac) msol_amount]"

text \<open>A ticket ordered after the stake delta of this epoch counts from the next one.\<close>

definition ticket_epoch :: "state \<Rightarrow> clock \<Rightarrow> u64 result" where
  "ticket_epoch st ck =
     padd (epoch ck) (if epoch ck = last_stake_delta_epoch (stake_system st) then 1 else 0)"

definition order_unstake_process ::
  "runtime \<Rightarrow> pubkey \<Rightarrow> clock \<Rightarrow> order_unstake_accounts \<Rightarrow> token_account \<Rightarrow> u64 \<Rightarrow> state \<Rightarrow> world
    \<Rightarrow> (state \<times> world) result" where
  "order_unstake_process rt key ck ac source msol_amount st w =
     bindR (order_unstake_checks rt ac source msol_amount st w) (\<lambda>_.
     bindR (calc_lamports_from_msol_amount st msol_amount) (\<lambda>n.
     bindR (check_min_amount n (min_withdraw st)) (\<lambda>_.
     bindR (padd (circulating_ticket_balance st) n) (\<lambda>bal.
     bindR (padd (circulating_ticket_count st) 1) (\<lambda>cnt.
     let st1 = st\<lparr>circulating_ticket_balance := bal, circulating_ticket_count := cnt\<rparr> in
     bindR (rt_invoke rt (TokenBurn (ou_msol_mint ac) (ou_burn_from ac) (ou_burn_authority ac)
              msol_amount) [] w) (\<lambda>w1.
     let st2 = on_msol_burn st1 msol_amount in
     bindR (ticket_epoch st2 ck) (\<lambda>e.
     let t = \<lparr>state_address = key, beneficiary = tk_owner source, lamports_amount = n,
              created_epoch = e\<rparr>
     in Inr (st2, w1\<lparr>acc_ticket := (acc_ticket w1)(ou_ticket ac \<mapsto> t)\<rparr>))))))))"

definition order_unstake ::
  "runtime \<Rightarrow> call_context \<Rightarrow> pubkey \<Rightarrow> order_unstake_accounts \<Rightarrow> u64 \<Rightarrow> state \<Rightarrow> world
    \<Rightarrow> (state \<times> world) result" where
  "order_unstake rt cx key ac msol_amount st w =
     bindR (check_attributes cx [ou_burn_authority ac]
              [key, ou_msol_mint ac, ou_burn_from ac, ou_ticket ac]) (\<lambda>_.
     bindR (load_mint w (ou_msol_mint ac)) (\<lambda>_.
     bindR (load_token w (ou_burn_from ac)) (\<lambda>source.
     bindR (check_zero_account rt w (ou_ticket ac)) (\<lambda>_.
     bindR (check_context cx) (\<lambda>_.
     order_unstake_process rt key (cx_clock cx) ac source msol_amount st w)))))"

section \<open>Claiming\<close>

record claim_accounts =
  cl_reserve :: pubkey
  cl_ticket :: pubkey
  cl_transfer_to :: pubkey
  cl_system_program :: pubkey

definition WAIT_EPOCHS :: u64 where
  "WAIT_EPOCHS = 2"

definition EXTRA_WAIT_SECONDS :: int where
  "EXTRA_WAIT_SECONDS = 30 * 60"

text \<open>An \<open>i64\<close> operation: the exact result, or a panic out of range.\<close>

definition i64 :: "int \<Rightarrow> int result" where
  "i64 n = (if - (2 ^ 63) \<le> n \<and> n < 2 ^ 63 then Inr n else Inl Panic)"

definition check_ticket_account ::
  "pubkey \<Rightarrow> clock \<Rightarrow> claim_accounts \<Rightarrow> ticket \<Rightarrow> world \<Rightarrow> unit result" where
  "check_ticket_account key ck ac t w =
     bindR (check_owner_program w (cl_ticket ac) ID) (\<lambda>_.
     bindR (require (state_address t = key) InvalidAccountData) (\<lambda>_.
     bindR (require (lamports_amount t \<noteq> 0) InvalidAccountData) (\<lambda>_.
     bindR (padd (created_epoch t) WAIT_EPOCHS) (\<lambda>due.
     bindR (require (\<not> epoch ck < due) (Common TicketNotDue)) (\<lambda>_.
     bindR (if due = epoch ck
            then bindR (i64 (unix_timestamp ck - epoch_start_timestamp ck)) (\<lambda>elapsed.
                 require (\<not> elapsed < EXTRA_WAIT_SECONDS) (Common TicketNotReady))
            else Inr ()) (\<lambda>_.
     require (beneficiary t = cl_transfer_to ac) (Common WrongBeneficiary)))))))"

text \<open>The closing of the ticket account: all its lamports go to the user.\<close>

definition close_ticket :: "pubkey \<Rightarrow> pubkey \<Rightarrow> world \<Rightarrow> world result" where
  "close_ticket source dest w =
     bindR (ok_or (checked_add (acc_lamports w dest) (acc_lamports w source)) InvalidAccountData)
       (\<lambda>n. Inr (w\<lparr>acc_lamports := (acc_lamports w)(dest := n, source := 0)\<rparr>))"

definition claim_process ::
  "runtime \<Rightarrow> pubkey \<Rightarrow> clock \<Rightarrow> claim_accounts \<Rightarrow> ticket \<Rightarrow> state \<Rightarrow> world \<Rightarrow> (state \<times> world) result" where
  "claim_process rt key ck ac t st w =
     bindR (all_ok
       [check_address (cl_system_program ac) (rt_system_program rt),
        check_owner_program w (cl_transfer_to ac) (rt_system_program rt),
        check_reserve_address rt key st (cl_reserve ac),
        check_ticket_account key ck ac t w]) (\<lambda>_.
     let n = lamports_amount t in
     bindR (require (\<not> n > circulating_ticket_balance st) InvalidAccountData) (\<lambda>_.
     bindR (psub (acc_lamports w (cl_reserve ac)) (rent_exempt_for_token_acc st))
       (\<lambda>available_for_claim.
     bindR (require (\<not> n > available_for_claim) (Common TicketNotReady)) (\<lambda>_.
     bindR (psub (circulating_ticket_balance st) n) (\<lambda>bal.
     bindR (psub (circulating_ticket_count st) 1) (\<lambda>cnt.
     let st1 = st\<lparr>circulating_ticket_balance := bal, circulating_ticket_count := cnt\<rparr>;
         w1 = w\<lparr>acc_ticket := (acc_ticket w)(cl_ticket ac \<mapsto> t\<lparr>lamports_amount := 0\<rparr>)\<rparr> in
     bindR (rt_invoke rt (SystemTransfer (cl_reserve ac) (cl_transfer_to ac) n)
              [reserve_seeds key st1] w1) (\<lambda>w2.
     bindR (close_ticket (cl_ticket ac) (cl_transfer_to ac) w2) (\<lambda>w3.
     Inr (on_transfer_from_reserve st1 n, w3)))))))))"

definition claim ::
  "runtime \<Rightarrow> call_context \<Rightarrow> pubkey \<Rightarrow> claim_accounts \<Rightarrow> state \<Rightarrow> world \<Rightarrow> (state \<times> world) result" where
  "claim rt cx key ac st w =
     bindR (check_attributes cx [] [key, cl_reserve ac, cl_ticket ac, cl_transfer_to ac]) (\<lambda>_.
     bindR (require (acc_owner w (cl_ticket ac) = ID) Constraint) (\<lambda>_.
     bindR (ok_or (acc_ticket w (cl_ticket ac)) Constraint) (\<lambda>t.
     bindR (check_context cx) (\<lambda>_.
     claim_process rt key (cx_clock cx) ac t st w))))"

section \<open>Effects\<close>

lemma i64_Inr [result_simps]: "i64 n = Inr m \<longleftrightarrow> m = n \<and> - (2 ^ 63) \<le> n \<and> n < 2 ^ 63"
  by (auto simp: i64_def)

text \<open>When a ticket may be claimed.\<close>

definition ticket_due :: "ticket \<Rightarrow> clock \<Rightarrow> bool" where
  "ticket_due t ck \<longleftrightarrow> unat (created_epoch t) + 2 \<le> unat (epoch ck)
     \<and> (unat (created_epoch t) + 2 = unat (epoch ck) \<longrightarrow>
          1800 \<le> unix_timestamp ck - epoch_start_timestamp ck)"

text \<open>
  What the documentation promises (\<open>Docs/Backend-Design.md\<close>, and the message of the CLI's
  \<open>order_unstake.rs\<close>): a ticket can be claimed two epochs and four hours after it counts. The program
  already accepts it after two epochs and thirty minutes.
\<close>

definition PROMISED_WAIT_SECONDS :: int where
  "PROMISED_WAIT_SECONDS = 4 * 60 * 60"

definition promised_due :: "ticket \<Rightarrow> clock \<Rightarrow> bool" where
  "promised_due t ck \<longleftrightarrow> unat (created_epoch t) + 2 \<le> unat (epoch ck)
     \<and> (unat (created_epoch t) + 2 = unat (epoch ck) \<longrightarrow>
          PROMISED_WAIT_SECONDS \<le> unix_timestamp ck - epoch_start_timestamp ck)"

lemma promised_due_ticket_due: "promised_due t ck \<Longrightarrow> ticket_due t ck"
  by (auto simp: promised_due_def ticket_due_def PROMISED_WAIT_SECONDS_def)

lemma check_ticket_account_Inr:
  "check_ticket_account key ck ac t w = Inr u \<Longrightarrow> acc_owner w (cl_ticket ac) = ID
     \<and> state_address t = key \<and> lamports_amount t \<noteq> 0 \<and> ticket_due t ck
     \<and> beneficiary t = cl_transfer_to ac"
  by (auto simp: check_ticket_account_def result_simps ticket_due_def WAIT_EPOCHS_def
      EXTRA_WAIT_SECONDS_def not_less word_le_nat_alt split: if_splits dest: unat_eqD)

lemma ticket_epoch_same [simp]:
  "ticket_epoch (st\<lparr>circulating_ticket_balance := b, circulating_ticket_count := c,
     msol_supply := s\<rparr>) ck = ticket_epoch st ck"
  by (simp add: ticket_epoch_def)

lemma ticket_epoch_Inr:
  "ticket_epoch st ck = Inr e \<Longrightarrow> unat e = unat (epoch ck)
     + (if last_stake_delta_epoch (stake_system st) = epoch ck then 1 else 0)"
  by (auto simp: ticket_epoch_def result_simps split: if_splits)

lemma close_ticket_Inr:
  "close_ticket s d w = Inr w' \<longleftrightarrow> unat (acc_lamports w d) + unat (acc_lamports w s) < 2 ^ 64 \<and>
     w' = w\<lparr>acc_lamports := (acc_lamports w)(d := acc_lamports w d + acc_lamports w s, s := 0)\<rparr>"
  by (auto simp: close_ticket_def bindR_Inr ok_or_Inr checked_add_def split: if_splits)

context marinade_runtime
begin

lemma order_unstake_effect:
  assumes "order_unstake rt cx key ac m st w = Inr (st', w')"
  obtains source n e where "acc_token w (ou_burn_from ac) = Some source"
    and "tk_mint source = msol_mint st" and "ou_msol_mint ac = msol_mint st"
    and "0 < unat m" and "acc_ticket w (ou_ticket ac) = None" and "acc_owner w (ou_ticket ac) = ID"
    and "unat n = lamports_for st (unat m)" and "min_withdraw st \<le> n" and "under_control st < 2 ^ 64"
    and "ticket_epoch st (cx_clock cx) = Inr e"
    and "unat (circulating_ticket_balance st) + unat n < 2 ^ 64"
    and "unat (circulating_ticket_count st) + 1 < 2 ^ 64"
    and "st' = st\<lparr>circulating_ticket_balance := circulating_ticket_balance st + n,
           circulating_ticket_count := circulating_ticket_count st + 1,
           msol_supply := saturating_sub (msol_supply st) m\<rparr>"
    and "m \<le> mint_supply w (msol_mint st)" and "m \<le> token_amount w (ou_burn_from ac)"
    and "mint_supply w' = (mint_supply w)(msol_mint st := mint_supply w (msol_mint st) - m)"
    and "token_amount w' = (token_amount w)(ou_burn_from ac := token_amount w (ou_burn_from ac) - m)"
    and "acc_lamports w' = acc_lamports w"
    and "acc_ticket w' = (acc_ticket w)(ou_ticket ac \<mapsto> \<lparr>state_address = key,
           beneficiary = tk_owner source, lamports_amount = n, created_epoch = e\<rparr>)"
proof -
  from assms obtain source where src: "acc_token w (ou_burn_from ac) = Some source"
    and zero: "check_zero_account rt w (ou_ticket ac) = Inr ()"
    and run: "order_unstake_process rt key (cx_clock cx) ac source m st w = Inr (st', w')"
    by (auto simp: order_unstake_def bindR_Inr load_token_def ok_or_Inr)
  from run obtain n bal cnt w1 e where
    chk: "order_unstake_checks rt ac source m st w = Inr ()"
    and n: "calc_lamports_from_msol_amount st m = Inr n" and mw: "min_withdraw st \<le> n"
    and bal: "padd (circulating_ticket_balance st) n = Inr bal"
    and cnt: "padd (circulating_ticket_count st) 1 = Inr cnt"
    and burn: "rt_invoke rt (TokenBurn (ou_msol_mint ac) (ou_burn_from ac) (ou_burn_authority ac) m)
        [] w = Inr w1"
    and e: "ticket_epoch st (cx_clock cx) = Inr e"
    and st': "st' = st\<lparr>circulating_ticket_balance := bal, circulating_ticket_count := cnt,
        msol_supply := saturating_sub (msol_supply st) m\<rparr>"
    and w': "w' = w1\<lparr>acc_ticket := (acc_ticket w1)(ou_ticket ac \<mapsto> \<lparr>state_address = key,
        beneficiary = tk_owner source, lamports_amount = n, created_epoch = e\<rparr>)\<rparr>"
    by (simp only: order_unstake_process_def Let_def bindR_Inr check_Inr on_msol_burn_def
        sum.inject prod.inject)
      (elim exE conjE, rule that, simp, assumption, assumption, assumption, assumption, assumption,
        simp_all, erule sym)
  have c: "tk_mint source = msol_mint st" "ou_msol_mint ac = msol_mint st" "0 < unat m"
    "acc_owner w (ou_ticket ac) = ID" "acc_ticket w (ou_ticket ac) = None"
    using chk zero by (auto simp: order_unstake_checks_def check_burn_msol_from_def
        check_zero_account_def result_simps unat_gt_0)
  have sums: "bal = circulating_ticket_balance st + n" "cnt = circulating_ticket_count st + 1"
    "unat (circulating_ticket_balance st) + unat n < 2 ^ 64"
    "unat (circulating_ticket_count st) + 1 < 2 ^ 64"
    using bal cnt by (auto simp: ok_or_Inr checked_add_def split: if_splits)
  note b = token_burn [OF burn]
  show thesis
  proof (rule that [OF src c(1,2,3,5,4) _ mw _ e sums(3,4)])
    show "unat n = lamports_for st (unat m)" "under_control st < 2 ^ 64"
      using n by (simp_all add: calc_lamports_Inr)
    show "m \<le> mint_supply w (msol_mint st)" "m \<le> token_amount w (ou_burn_from ac)"
      using b c(2) by auto
  qed (use b c(2) w' st' sums(1,2) in \<open>simp_all add: tokens_only_def\<close>)
qed

lemma claim_effect:
  assumes "claim rt cx key ac st w = Inr (st', w')"
    and apart: "distinct [cl_reserve ac, cl_transfer_to ac, cl_ticket ac]"
  obtains t where "acc_ticket w (cl_ticket ac) = Some t" and "acc_owner w (cl_ticket ac) = ID"
    and "state_address t = key" and "lamports_amount t \<noteq> 0" and "ticket_due t (cx_clock cx)"
    and "beneficiary t = cl_transfer_to ac" and "reserve_address rt key st = Inr (cl_reserve ac)"
    and "lamports_amount t \<le> circulating_ticket_balance st"
    and "0 < circulating_ticket_count st"
    and "unat (lamports_amount t) + unat (rent_exempt_for_token_acc st)
           \<le> unat (acc_lamports w (cl_reserve ac))"
    and "st' = st\<lparr>circulating_ticket_balance := circulating_ticket_balance st - lamports_amount t,
           circulating_ticket_count := circulating_ticket_count st - 1,
           available_reserve_balance := saturating_sub (available_reserve_balance st) (lamports_amount t)\<rparr>"
    and "acc_ticket w' = (acc_ticket w)(cl_ticket ac \<mapsto> t\<lparr>lamports_amount := 0\<rparr>)"
    and "unat (acc_lamports w' (cl_reserve ac)) + unat (lamports_amount t)
           = unat (acc_lamports w (cl_reserve ac))"
    and "unat (acc_lamports w' (cl_transfer_to ac)) = unat (acc_lamports w (cl_transfer_to ac))
           + unat (lamports_amount t) + unat (acc_lamports w (cl_ticket ac))"
    and "acc_lamports w' (cl_ticket ac) = 0"
    and "token_amount w' = token_amount w" and "mint_supply w' = mint_supply w"
proof -
  from assms(1) obtain t where t: "acc_ticket w (cl_ticket ac) = Some t"
    and run: "claim_process rt key (cx_clock cx) ac t st w = Inr (st', w')"
    by (auto simp: claim_def bindR_Inr ok_or_Inr)
  let ?n = "lamports_amount t"
  let ?w1 = "w\<lparr>acc_ticket := (acc_ticket w)(cl_ticket ac \<mapsto> t\<lparr>lamports_amount := 0\<rparr>)\<rparr>"
  from run obtain avail bal cnt sg w2 where
    chk: "check_ticket_account key (cx_clock cx) ac t w = Inr ()"
      "reserve_address rt key st = Inr (cl_reserve ac)"
    and le: "?n \<le> circulating_ticket_balance st"
    and avail: "psub (acc_lamports w (cl_reserve ac)) (rent_exempt_for_token_acc st) = Inr avail"
      "?n \<le> avail"
    and bal: "psub (circulating_ticket_balance st) ?n = Inr bal"
    and cnt: "psub (circulating_ticket_count st) 1 = Inr cnt"
    and pay: "rt_invoke rt (SystemTransfer (cl_reserve ac) (cl_transfer_to ac) ?n) sg ?w1 = Inr w2"
    and close: "close_ticket (cl_ticket ac) (cl_transfer_to ac) w2 = Inr w'"
    and st': "st' = st\<lparr>circulating_ticket_balance := bal, circulating_ticket_count := cnt,
        available_reserve_balance := saturating_sub (available_reserve_balance st) ?n\<rparr>"
    by (auto simp: claim_process_def Let_def bindR_Inr check_Inr all_ok_Inr state_checks_Inr
        not_less on_transfer_from_reserve_def)
  have words: "bal = circulating_ticket_balance st - ?n" "cnt = circulating_ticket_count st - 1"
    "0 < circulating_ticket_count st"
    using bal cnt by (auto simp: ok_or_Inr checked_sub_def word_le_nat_alt word_less_nat_alt
        split: if_splits)
  have rent: "unat ?n + unat (rent_exempt_for_token_acc st) \<le> unat (acc_lamports w (cl_reserve ac))"
    using avail by (simp add: ok_or_Inr checked_sub_Some word_le_nat_alt)
  have ne: "cl_reserve ac \<noteq> cl_transfer_to ac" using apart by simp
  from system_transfer [OF pay]
  have cm: "can_move (cl_reserve ac) (cl_transfer_to ac) ?n (acc_lamports w)"
    and w2: "w2 = ?w1\<lparr>acc_lamports := move_u64 (cl_reserve ac) (cl_transfer_to ac) ?n (acc_lamports w)\<rparr>"
    by auto
  from close have w': "w' = w2\<lparr>acc_lamports := (acc_lamports w2)(cl_transfer_to ac :=
        acc_lamports w2 (cl_transfer_to ac) + acc_lamports w2 (cl_ticket ac), cl_ticket ac := 0)\<rparr>"
    and fits: "unat (acc_lamports w2 (cl_transfer_to ac)) + unat (acc_lamports w2 (cl_ticket ac)) < 2 ^ 64"
    by (auto simp: close_ticket_Inr)
  note tk = check_ticket_account_Inr [OF chk(1)]
  show thesis
    using t tk chk(2) le words(3) rent
  proof (elim conjE, intro that)
    show "unat (acc_lamports w' (cl_reserve ac)) + unat ?n = unat (acc_lamports w (cl_reserve ac))"
      using move_source [OF cm ne] apart by (simp add: w' w2)
    show "unat (acc_lamports w' (cl_transfer_to ac)) = unat (acc_lamports w (cl_transfer_to ac))
        + unat ?n + unat (acc_lamports w (cl_ticket ac))"
      using move_target [OF cm ne] apart fits by (auto simp: w' w2 unat_add_le)
  qed (use st' words apart in \<open>simp_all add: w' w2\<close>)
qed

end

section \<open>Properties\<close>

text \<open>
  C5. Ordering an unstake burns exactly \<open>m\<close> mSOL and records a ticket for the owner of the
  tokens worth their value at the current price (at least the configured minimum). The ticket
  counts from the next epoch when the stake delta of this epoch has started already, and from the
  current epoch exactly when it has not; the circulating tickets grow by it, the supply shrinks,
  no lamports move.
\<close>
theorem order_unstake_issues:
  assumes "marinade_runtime rt"
    and "order_unstake rt cx key ac m st w = Inr (st', w')"
    and "mint_supply w (msol_mint st) \<le> msol_supply st"
  shows "\<exists>source t. acc_token w (ou_burn_from ac) = Some source
    \<and> acc_ticket w (ou_ticket ac) = None \<and> acc_ticket w' (ou_ticket ac) = Some t
    \<and> state_address t = key \<and> beneficiary t = tk_owner source
    \<and> unat (lamports_amount t) = lamports_for st (unat m) \<and> min_withdraw st \<le> lamports_amount t
    \<and> unat (created_epoch t) = unat (epoch (cx_clock cx))
        + (if last_stake_delta_epoch (stake_system st) = epoch (cx_clock cx) then 1 else 0)
    \<and> unat (circulating_ticket_balance st')
        = unat (circulating_ticket_balance st) + unat (lamports_amount t)
    \<and> unat (circulating_ticket_count st') = unat (circulating_ticket_count st) + 1
    \<and> unat (token_amount w' (ou_burn_from ac)) + unat m = unat (token_amount w (ou_burn_from ac))
    \<and> unat (mint_supply w' (msol_mint st)) + unat m = unat (mint_supply w (msol_mint st))
    \<and> unat (msol_supply st') + unat m = unat (msol_supply st)
    \<and> acc_lamports w' = acc_lamports w"
proof (rule marinade_runtime.order_unstake_effect [OF assms(1,2)], goal_cases)
  case (1 source n e)
  have "unat (msol_supply st) \<ge> unat m" using 1(14) assms(3) by (simp add: word_le_nat_alt)
  moreover note ticket_epoch_Inr [OF 1(10)]
  ultimately show ?case
    using 1 by (simp add: unat_add_le unat_diff_le word_le_nat_alt del: of_nat_add)
qed

text \<open>
  Ordering an unstake never lowers the value of the remaining mSOL: the ticket takes at most
  the value of the burned tokens (the price comparison is stated without division).
\<close>
lemma order_unstake_price:
  assumes "marinade_runtime rt"
    and "order_unstake rt cx key ac m st w = Inr (st', w')"
    and "mint_supply w (msol_mint st) \<le> msol_supply st"
  shows "virtual_staked st * unat (msol_supply st') \<le> virtual_staked st' * unat (msol_supply st)"
proof (rule marinade_runtime.order_unstake_effect [OF assms(1,2)], goal_cases)
  case (1 source n e)
  have le: "unat m \<le> unat (msol_supply st)" using 1(14) assms(3) by (simp add: word_le_nat_alt)
  have S: "0 < unat (msol_supply st)" using 1(4) le by simp
  have v: "virtual_staked st' = virtual_staked st - unat n"
    using 1(11,13) by (simp add: virtual_staked_def under_control_def unat_add_le)
  have "unat (msol_supply st') = unat (msol_supply st) - unat m" using 1(13) by simp
  then show ?case
    using burn_keeps_price [OF S le, of "virtual_staked st"] 1(7) by (simp add: v lamports_for_def)
qed

text \<open>
  C6. A claim succeeds only for a due ticket of this instance: at least two epochs after its
  epoch and, in the second one, half an hour into it. It pays the beneficiary the ticket's amount
  plus the ticket account's own lamports, leaves the reserve with its rent, empties the ticket
  and takes it off the circulating tickets and the recorded reserve.
\<close>
theorem claim_pays:
  assumes "marinade_runtime rt"
    and "claim rt cx key ac st w = Inr (st', w')"
    and "distinct [cl_reserve ac, cl_transfer_to ac, cl_ticket ac]"
  shows "\<exists>t. acc_ticket w (cl_ticket ac) = Some t \<and> state_address t = key
    \<and> beneficiary t = cl_transfer_to ac \<and> 0 < lamports_amount t
    \<and> unat (created_epoch t) + 2 \<le> unat (epoch (cx_clock cx))
    \<and> (unat (created_epoch t) + 2 = unat (epoch (cx_clock cx)) \<longrightarrow>
         1800 \<le> unix_timestamp (cx_clock cx) - epoch_start_timestamp (cx_clock cx))
    \<and> unat (acc_lamports w' (cl_transfer_to ac)) = unat (acc_lamports w (cl_transfer_to ac))
        + unat (lamports_amount t) + unat (acc_lamports w (cl_ticket ac))
    \<and> unat (acc_lamports w' (cl_reserve ac)) + unat (lamports_amount t)
        = unat (acc_lamports w (cl_reserve ac))
    \<and> unat (rent_exempt_for_token_acc st) \<le> unat (acc_lamports w' (cl_reserve ac))
    \<and> acc_lamports w' (cl_ticket ac) = 0
    \<and> acc_ticket w' (cl_ticket ac) = Some (t\<lparr>lamports_amount := 0\<rparr>)
    \<and> unat (circulating_ticket_balance st') + unat (lamports_amount t)
        = unat (circulating_ticket_balance st)
    \<and> unat (circulating_ticket_count st') + 1 = unat (circulating_ticket_count st)
    \<and> available_reserve_balance st' = saturating_sub (available_reserve_balance st) (lamports_amount t)
    \<and> token_amount w' = token_amount w \<and> mint_supply w' = mint_supply w"
proof (rule marinade_runtime.claim_effect [OF assms], goal_cases)
  case (1 t)
  have "unat (circulating_ticket_balance st') + unat (lamports_amount t)
      = unat (circulating_ticket_balance st)"
    "unat (circulating_ticket_count st') + 1 = unat (circulating_ticket_count st)"
    using 1(8,9,11) by (simp_all add: unat_diff_le word_le_nat_alt word_less_nat_alt
        unat_sub Suc_leI)
  moreover have "unat (rent_exempt_for_token_acc st) \<le> unat (acc_lamports w' (cl_reserve ac))"
    using 1(10,13) by linarith
  ultimately show ?case
    using 1 by (simp add: ticket_due_def word_neq_0_conv)
qed

text \<open>
  C7. A ticket is paid once: a claim of a ticket account that was already claimed, at any later
  time and in any later state that left the ticket as it is, fails.
\<close>
theorem claim_once:
  assumes "marinade_runtime rt"
    and "claim rt cx key ac st w = Inr (st', w')"
    and "distinct [cl_reserve ac, cl_transfer_to ac, cl_ticket ac]"
    and "cl_ticket ac2 = cl_ticket ac" and "acc_ticket w2 (cl_ticket ac) = acc_ticket w' (cl_ticket ac)"
  shows "isl (claim rt cx2 key2 ac2 st2 w2)"
proof (rule ccontr)
  assume "\<not> isl (claim rt cx2 key2 ac2 st2 w2)"
  then obtain r where "claim rt cx2 key2 ac2 st2 w2 = Inr r" by (cases "claim rt cx2 key2 ac2 st2 w2") auto
  then obtain t where "acc_ticket w2 (cl_ticket ac) = Some t" "lamports_amount t \<noteq> 0"
    using assms(4) by (auto simp: claim_def claim_process_def bindR_Inr ok_or_Inr all_ok_Inr Let_def
        dest!: check_ticket_account_Inr)
  with assms(5) show False
    by (auto intro: marinade_runtime.claim_effect [OF assms(1-3)])
qed

text \<open>
  C8. Whoever orders an unstake waits at least two full epochs and is then paid exactly the value
  fixed at the order: a claim of the ticket that an order created can only succeed two epochs
  after the order, towards the owner of the burned tokens.
\<close>
theorem order_then_claim:
  assumes "marinade_runtime rt"
    and "order_unstake rt cx key ac m st w = Inr (st1, w1)"
    and "claim rt cx2 key cac st2 w2 = Inr (st3, w3)"
    and "distinct [cl_reserve cac, cl_transfer_to cac, cl_ticket cac]"
    and "cl_ticket cac = ou_ticket ac" and "acc_ticket w2 (ou_ticket ac) = acc_ticket w1 (ou_ticket ac)"
  shows "unat (epoch (cx_clock cx)) + 2 \<le> unat (epoch (cx_clock cx2))
    \<and> (\<exists>source. acc_token w (ou_burn_from ac) = Some source \<and> cl_transfer_to cac = tk_owner source)
    \<and> unat (acc_lamports w3 (cl_transfer_to cac)) = unat (acc_lamports w2 (cl_transfer_to cac))
        + lamports_for st (unat m) + unat (acc_lamports w2 (ou_ticket ac))"
proof (rule marinade_runtime.order_unstake_effect [OF assms(1,2)], goal_cases)
  case (1 source n e)
  note o = this
  show ?case
  proof (rule marinade_runtime.claim_effect [OF assms(1,3,4)], goal_cases)
    case (1 t)
    have t: "t = \<lparr>state_address = key, beneficiary = tk_owner source, lamports_amount = n,
        created_epoch = e\<rparr>"
      using 1(1) o(19) assms(5,6) by simp
    have "unat (epoch (cx_clock cx)) \<le> unat e" using ticket_epoch_Inr [OF o(10)] by simp
    then show ?case
      using 1(5,6,14) o(1,7) assms(5) by (simp add: t ticket_due_def)
  qed
qed

section \<open>Runs\<close>

definition ex_order :: order_unstake_accounts where
  "ex_order = \<lparr>ou_msol_mint = 10, ou_burn_from = 41, ou_burn_authority = 40, ou_ticket = 44,
     ou_token_program = 6\<rparr>"

definition ex_claim :: claim_accounts where
  "ex_claim = \<lparr>cl_reserve = ex_reserve, cl_ticket = 43, cl_transfer_to = 40,
     cl_system_program = 0\<rparr>"

text \<open>Four epochs later, the claim of the ticket ordered above.\<close>

definition ex_cx2 :: call_context where
  "ex_cx2 = ex_cx\<lparr>cx_clock := ex_clock\<lparr>epoch := 104\<rparr>\<rparr>"

definition ex_claim2 :: claim_accounts where
  "ex_claim2 = ex_claim\<lparr>cl_ticket := 44\<rparr>"

lemmas ex_order_simps = order_unstake_def ex_order_def run_simps ex_world_def
  order_unstake_process_def order_unstake_checks_def check_zero_account_def
  check_burn_msol_from_def check_token_source_def ex_token_def ticket_epoch_def byte_slice_def
  ref_minimum_balance_def

lemmas ex_claim_simps = claim_def ex_claim_def run_simps claim_process_def check_ticket_account_def
  WAIT_EPOCHS_def EXTRA_WAIT_SECONDS_def i64_def close_ticket_def

lemma ex_order_runs:
  obtains st' w' where
    "order_unstake ref_rt ex_cx ex_key ex_order 2500 ex_state ex_world = Inr (st', w')"
    "\<not> isl (claim ref_rt ex_cx2 ex_key ex_claim2 ex_state (ex_world\<lparr>acc_ticket := acc_ticket w'\<rparr>))"
  by (simp add: ex_order_simps) (simp add: ex_claim_simps ex_cx2_def ex_claim2_def)

lemma ex_claim_runs:
  obtains st' w' where "claim ref_rt ex_cx ex_key ex_claim ex_state ex_world = Inr (st', w')"
  by (simp add: ex_claim_simps ex_world_def)

lemma ex_apart:
  "distinct [cl_reserve ex_claim, cl_transfer_to ex_claim, cl_ticket ex_claim]"
  "distinct [cl_reserve ex_claim2, cl_transfer_to ex_claim2, cl_ticket ex_claim2]"
  "mint_supply ex_world (msol_mint ex_state) \<le> msol_supply ex_state"
  by (simp_all add: ex_claim_def ex_claim2_def mint_supply_def ex_world_def)

lemma order_unstake_issues_witness:
  "\<exists>st' w'. order_unstake ref_rt ex_cx ex_key ex_order 2500 ex_state ex_world = Inr (st', w')
    \<and> unat (circulating_ticket_count st') = 2 \<and> acc_lamports w' = acc_lamports ex_world"
proof -
  obtain st' w' where r: "order_unstake ref_rt ex_cx ex_key ex_order 2500 ex_state ex_world = Inr (st', w')"
    by (rule ex_order_runs)
  from order_unstake_issues [OF ref.marinade_runtime_axioms r ex_apart(3)] r show ?thesis by auto
qed

lemma order_unstake_price_witness:
  "\<exists>st' w'. order_unstake ref_rt ex_cx ex_key ex_order 2500 ex_state ex_world = Inr (st', w')
    \<and> virtual_staked ex_state * unat (msol_supply st') \<le> virtual_staked st' * 700000"
proof -
  obtain st' w' where r: "order_unstake ref_rt ex_cx ex_key ex_order 2500 ex_state ex_world = Inr (st', w')"
    by (rule ex_order_runs)
  from order_unstake_price [OF ref.marinade_runtime_axioms r ex_apart(3)] r show ?thesis by auto
qed

lemma claim_pays_witness:
  "\<exists>st' w'. claim ref_rt ex_cx ex_key ex_claim ex_state ex_world = Inr (st', w')
    \<and> acc_lamports w' 43 = 0 \<and> unat (circulating_ticket_count st') = 0"
proof -
  obtain st' w' where r: "claim ref_rt ex_cx ex_key ex_claim ex_state ex_world = Inr (st', w')"
    by (rule ex_claim_runs)
  from claim_pays [OF ref.marinade_runtime_axioms r ex_apart(1)] r show ?thesis
    by (auto simp: ex_claim_def)
qed

lemma claim_once_witness:
  "\<exists>st' w'. claim ref_rt ex_cx ex_key ex_claim ex_state ex_world = Inr (st', w')
    \<and> isl (claim ref_rt ex_cx2 ex_key ex_claim st' w')"
proof -
  obtain st' w' where r: "claim ref_rt ex_cx ex_key ex_claim ex_state ex_world = Inr (st', w')"
    by (rule ex_claim_runs)
  from claim_once [OF ref.marinade_runtime_axioms r ex_apart(1) refl refl] r show ?thesis by auto
qed

lemma order_then_claim_witness:
  "\<exists>st1 w1 st3 w3. order_unstake ref_rt ex_cx ex_key ex_order 2500 ex_state ex_world = Inr (st1, w1)
    \<and> claim ref_rt ex_cx2 ex_key ex_claim2 ex_state (ex_world\<lparr>acc_ticket := acc_ticket w1\<rparr>)
        = Inr (st3, w3)
    \<and> cl_transfer_to ex_claim2 = 40"
proof -
  obtain st1 w1 where
    r: "order_unstake ref_rt ex_cx ex_key ex_order 2500 ex_state ex_world = Inr (st1, w1)"
    and c: "\<not> isl (claim ref_rt ex_cx2 ex_key ex_claim2 ex_state (ex_world\<lparr>acc_ticket := acc_ticket w1\<rparr>))"
    by (rule ex_order_runs)
  from c obtain st3 w3 where
    c': "claim ref_rt ex_cx2 ex_key ex_claim2 ex_state (ex_world\<lparr>acc_ticket := acc_ticket w1\<rparr>)
      = Inr (st3, w3)"
    by (cases "claim ref_rt ex_cx2 ex_key ex_claim2 ex_state (ex_world\<lparr>acc_ticket := acc_ticket w1\<rparr>)")
      auto
  have h: "cl_ticket ex_claim2 = ou_ticket ex_order"
    "acc_ticket (ex_world\<lparr>acc_ticket := acc_ticket w1\<rparr>) (ou_ticket ex_order)
      = acc_ticket w1 (ou_ticket ex_order)"
    by (simp_all add: ex_claim2_def ex_order_def)
  from order_then_claim [OF ref.marinade_runtime_axioms r c' ex_apart(2) h] r c' show ?thesis
    by (auto simp: ex_order_def ex_world_def ex_token_def)
qed

end
