(* ===== verification/Liquidity.thy ===== *)
theory Liquidity
  imports Tickets
begin

text \<open>
  The instructions of the liquidity providers: \<open>add_liquidity\<close> and \<open>remove_liquidity\<close>
  (\<open>liq_pool/add_liquidity.rs\<close>, \<open>liq_pool/remove_liquidity.rs\<close>), and the parameters that
  the admin sets with \<open>set_lp_params\<close>.
\<close>

section \<open>Adding liquidity\<close>

record add_liquidity_accounts =
  al_lp_mint :: pubkey
  al_lp_mint_authority :: pubkey
  al_msol_leg :: pubkey
  al_sol_leg :: pubkey
  al_transfer_from :: pubkey
  al_mint_to :: pubkey
  al_system_program :: pubkey
  al_token_program :: pubkey

text \<open>\<open>expect\<close> on a \<open>Result\<close>: the value, or a panic.\<close>

definition expect_ok :: "'a result \<Rightarrow> 'a result" where
  "expect_ok r = (case r of Inl _ \<Rightarrow> Inl Panic | Inr x \<Rightarrow> Inr x)"

lemma expect_ok_Inr [result_simps]: "expect_ok r = Inr x \<longleftrightarrow> r = Inr x"
  by (simp add: expect_ok_def split: sum.split)

definition add_liquidity_check_transfer_from ::
  "runtime \<Rightarrow> add_liquidity_accounts \<Rightarrow> world \<Rightarrow> u64 \<Rightarrow> unit result" where
  "add_liquidity_check_transfer_from rt ac w n = all_ok
     [check_owner_program w (al_transfer_from ac) (rt_system_program rt),
      require (\<not> acc_lamports w (al_transfer_from ac) < n) InsufficientFunds]"

definition add_liquidity_checks ::
  "runtime \<Rightarrow> pubkey \<Rightarrow> add_liquidity_accounts \<Rightarrow> mint \<Rightarrow> token_account \<Rightarrow> u64 \<Rightarrow> state \<Rightarrow> world
    \<Rightarrow> unit result" where
  "add_liquidity_checks rt key ac lpm to n st w = all_ok
     [check_min_amount n (min_deposit st),
      check_lp_mint (liq_pool st) (al_lp_mint ac),
      check_lp_mint_authority rt key (liq_pool st) (al_lp_mint_authority ac),
      check_liq_pool_msol_leg (liq_pool st) (al_msol_leg ac),
      check_liq_pool_sol_leg_pda rt key (liq_pool st) (al_sol_leg ac),
      add_liquidity_check_transfer_from rt ac w n,
      check_liquidity_cap (liq_pool st) n (acc_lamports w (al_sol_leg ac)),
      check_token_mint to (lp_mint (liq_pool st)),
      check_address (al_system_program ac) (rt_system_program rt),
      check_address (al_token_program ac) (rt_spl_token rt),
      require (\<not> mt_supply lpm > lp_supply (liq_pool st)) InvalidAccountData]"

text \<open>The value of the pool before the deposit, and the LP shares that the deposit is worth.\<close>

definition pool_value :: "state \<Rightarrow> u64 \<Rightarrow> u64 \<Rightarrow> u64 result" where
  "pool_value st sol_leg_balance msol_leg_amount =
     bindR (psub sol_leg_balance (rent_exempt_for_token_acc st)) (\<lambda>sol_leg_lamports.
     bindR (expect_ok (calc_lamports_from_msol_amount st msol_leg_amount)) (\<lambda>msol_leg_value.
     padd sol_leg_lamports msol_leg_value))"

definition add_liquidity_process ::
  "runtime \<Rightarrow> pubkey \<Rightarrow> add_liquidity_accounts \<Rightarrow> mint \<Rightarrow> token_account \<Rightarrow> token_account \<Rightarrow> u64
    \<Rightarrow> state \<Rightarrow> world \<Rightarrow> (state \<times> world) result" where
  "add_liquidity_process rt key ac lpm leg to n st w =
     bindR (add_liquidity_checks rt key ac lpm to n st w) (\<lambda>_.
     let st1 = st\<lparr>liq_pool := (liq_pool st)\<lparr>lp_supply := mt_supply lpm\<rparr>\<rparr> in
     bindR (pool_value st1 (acc_lamports w (al_sol_leg ac)) (tk_amount leg))
       (\<lambda>total_liq_pool_value.
     bindR (shares_from_value n total_liq_pool_value (lp_supply (liq_pool st1)))
       (\<lambda>shares_for_user.
     bindR (rt_invoke rt (SystemTransfer (al_transfer_from ac) (al_sol_leg ac) n) [] w) (\<lambda>w1.
     bindR (rt_invoke rt (TokenMintTo (al_lp_mint ac) (al_mint_to ac) (al_lp_mint_authority ac)
              shares_for_user) [lp_mint_authority_seeds key (liq_pool st1)] w1) (\<lambda>w2.
     bindR (on_lp_mint (liq_pool st1) shares_for_user) (\<lambda>lp2.
     Inr (st1\<lparr>liq_pool := lp2\<rparr>, w2)))))))"

definition add_liquidity ::
  "runtime \<Rightarrow> call_context \<Rightarrow> pubkey \<Rightarrow> add_liquidity_accounts \<Rightarrow> u64 \<Rightarrow> state \<Rightarrow> world
    \<Rightarrow> (state \<times> world) result" where
  "add_liquidity rt cx key ac n st w =
     bindR (check_attributes cx [al_transfer_from ac]
              [key, al_lp_mint ac, al_sol_leg ac, al_transfer_from ac, al_mint_to ac]) (\<lambda>_.
     bindR (load_mint w (al_lp_mint ac)) (\<lambda>lpm.
     bindR (load_token w (al_msol_leg ac)) (\<lambda>leg.
     bindR (load_token w (al_mint_to ac)) (\<lambda>to.
     bindR (check_context cx) (\<lambda>_.
     add_liquidity_process rt key ac lpm leg to n st w)))))"

section \<open>Removing liquidity\<close>

record remove_liquidity_accounts =
  rl_lp_mint :: pubkey
  rl_burn_from :: pubkey
  rl_burn_from_authority :: pubkey
  rl_transfer_sol_to :: pubkey
  rl_transfer_msol_to :: pubkey
  rl_sol_leg :: pubkey
  rl_msol_leg :: pubkey
  rl_msol_leg_authority :: pubkey
  rl_system_program :: pubkey
  rl_token_program :: pubkey

definition remove_liquidity_check_burn_from ::
  "state \<Rightarrow> token_account \<Rightarrow> pubkey \<Rightarrow> u64 \<Rightarrow> unit result" where
  "remove_liquidity_check_burn_from st source authority tokens = all_ok
     [check_token_mint source (lp_mint (liq_pool st)),
      check_token_source source authority tokens]"

definition remove_liquidity_checks ::
  "runtime \<Rightarrow> pubkey \<Rightarrow> remove_liquidity_accounts \<Rightarrow> token_account \<Rightarrow> token_account \<Rightarrow> u64
    \<Rightarrow> state \<Rightarrow> world \<Rightarrow> unit result" where
  "remove_liquidity_checks rt key ac source msol_to tokens st w = all_ok
     [check_lp_mint (liq_pool st) (rl_lp_mint ac),
      remove_liquidity_check_burn_from st source (rl_burn_from_authority ac) tokens,
      check_owner_program w (rl_transfer_sol_to ac) (rt_system_program rt),
      check_token_mint msol_to (msol_mint st),
      check_liq_pool_sol_leg_pda rt key (liq_pool st) (rl_sol_leg ac),
      check_liq_pool_msol_leg (liq_pool st) (rl_msol_leg ac),
      check_liq_pool_msol_leg_authority rt key (liq_pool st) (rl_msol_leg_authority ac),
      check_address (rl_system_program ac) (rt_system_program rt),
      check_address (rl_token_program ac) (rt_spl_token rt)]"

text \<open>The virtual supply follows burns of LP tokens, never a larger mint.\<close>

definition sync_lp_supply :: "u64 \<Rightarrow> state \<Rightarrow> state" where
  "sync_lp_supply mint_amount st =
     (if mint_amount > lp_supply (liq_pool st) then st
      else st\<lparr>liq_pool := (liq_pool st)\<lparr>lp_supply := mint_amount\<rparr>\<rparr>)"

definition remove_liquidity_quote :: "state \<Rightarrow> u64 \<Rightarrow> u64 \<Rightarrow> u64 \<Rightarrow> (u64 \<times> u64) result" where
  "remove_liquidity_quote st sol_leg_balance msol_leg_amount tokens =
     bindR (psub sol_leg_balance (rent_exempt_for_token_acc st)) (\<lambda>sol_leg_lamports.
     bindR (proportional tokens sol_leg_lamports (lp_supply (liq_pool st))) (\<lambda>sol_out_amount.
     bindR (proportional tokens msol_leg_amount (lp_supply (liq_pool st))) (\<lambda>msol_out_amount.
     bindR (expect_ok (calc_lamports_from_msol_amount st msol_out_amount)) (\<lambda>msol_out_value.
     bindR (padd sol_out_amount msol_out_value) (\<lambda>out_value.
     bindR (check_min_amount out_value (min_withdraw st)) (\<lambda>_.
     Inr (sol_out_amount, msol_out_amount)))))))"

definition remove_liquidity_pay ::
  "runtime \<Rightarrow> pubkey \<Rightarrow> remove_liquidity_accounts \<Rightarrow> u64 \<Rightarrow> u64 \<Rightarrow> u64 \<Rightarrow> state \<Rightarrow> world
    \<Rightarrow> (state \<times> world) result" where
  "remove_liquidity_pay rt key ac sol_out_amount msol_out_amount tokens st w =
     bindR (if sol_out_amount > 0
            then rt_invoke rt (SystemTransfer (rl_sol_leg ac) (rl_transfer_sol_to ac)
                   sol_out_amount) [liq_pool_sol_leg_seeds key (liq_pool st)] w
            else Inr w) (\<lambda>w1.
     bindR (if msol_out_amount > 0
            then rt_invoke rt (TokenTransfer (rl_msol_leg ac) (rl_transfer_msol_to ac)
                   (rl_msol_leg_authority ac) msol_out_amount)
                   [liq_pool_msol_leg_authority_seeds key (liq_pool st)] w1
            else Inr w1) (\<lambda>w2.
     bindR (rt_invoke rt (TokenBurn (rl_lp_mint ac) (rl_burn_from ac)
              (rl_burn_from_authority ac) tokens) [] w2) (\<lambda>w3.
     Inr (st\<lparr>liq_pool := on_lp_burn (liq_pool st) tokens\<rparr>, w3))))"

definition remove_liquidity_process ::
  "runtime \<Rightarrow> pubkey \<Rightarrow> remove_liquidity_accounts \<Rightarrow> mint \<Rightarrow> token_account \<Rightarrow> token_account
    \<Rightarrow> token_account \<Rightarrow> u64 \<Rightarrow> state \<Rightarrow> world \<Rightarrow> (state \<times> world) result" where
  "remove_liquidity_process rt key ac lpm source msol_to leg tokens st w =
     bindR (remove_liquidity_checks rt key ac source msol_to tokens st w) (\<lambda>_.
     let st1 = sync_lp_supply (mt_supply lpm) st in
     bindR (remove_liquidity_quote st1 (acc_lamports w (rl_sol_leg ac)) (tk_amount leg) tokens)
       (\<lambda>(sol_out_amount, msol_out_amount).
     remove_liquidity_pay rt key ac sol_out_amount msol_out_amount tokens st1 w))"

definition remove_liquidity ::
  "runtime \<Rightarrow> call_context \<Rightarrow> pubkey \<Rightarrow> remove_liquidity_accounts \<Rightarrow> u64 \<Rightarrow> state \<Rightarrow> world
    \<Rightarrow> (state \<times> world) result" where
  "remove_liquidity rt cx key ac tokens st w =
     bindR (check_attributes cx [rl_burn_from_authority ac]
              [key, rl_lp_mint ac, rl_burn_from ac, rl_transfer_sol_to ac, rl_transfer_msol_to ac,
               rl_sol_leg ac, rl_msol_leg ac]) (\<lambda>_.
     bindR (load_mint w (rl_lp_mint ac)) (\<lambda>lpm.
     bindR (load_token w (rl_burn_from ac)) (\<lambda>source.
     bindR (load_token w (rl_transfer_msol_to ac)) (\<lambda>msol_to.
     bindR (load_token w (rl_msol_leg ac)) (\<lambda>leg.
     bindR (check_context cx) (\<lambda>_.
     remove_liquidity_process rt key ac lpm source msol_to leg tokens st w))))))"

section \<open>Parameters\<close>

record set_lp_params_accounts =
  slp_admin_authority :: pubkey

text \<open>The checks that \<open>initialize\<close> and \<open>set_lp_params\<close> make of the fees.\<close>

definition check_lp_fees :: "fee \<Rightarrow> fee \<Rightarrow> unit result" where
  "check_lp_fees min_fee max_fee = all_ok
     [fee_check min_fee, fee_check max_fee,
      require (\<not> basis_points max_fee > 1000) (Common FeeTooHigh),
      require (\<not> basis_points min_fee > basis_points max_fee) (Common FeesWrongWayRound)]"

text \<open>\<open>sol_to_lamports(50.0)\<close>\<close>

definition check_liquidity_target :: "u64 \<Rightarrow> unit result" where
  "check_liquidity_target liquidity_target =
     require (\<not> liquidity_target < 50 * 1000000000) (Common LiquidityTargetTooLow)"

definition set_lp_params ::
  "call_context \<Rightarrow> pubkey \<Rightarrow> set_lp_params_accounts \<Rightarrow> fee \<Rightarrow> fee \<Rightarrow> u64 \<Rightarrow> state \<Rightarrow> state result"
where
  "set_lp_params cx key ac min_fee max_fee liquidity_target st =
     bindR (check_attributes cx [slp_admin_authority ac] [key]) (\<lambda>_.
     bindR (check_context cx) (\<lambda>_.
     bindR (all_ok
       [check_admin_authority st (slp_admin_authority ac),
        check_lp_fees min_fee max_fee,
        check_liquidity_target liquidity_target]) (\<lambda>_.
     Inr (st\<lparr>liq_pool := (liq_pool st)\<lparr>lp_min_fee := min_fee, lp_max_fee := max_fee,
             lp_liquidity_target := liquidity_target\<rparr>\<rparr>))))"

section \<open>Effects\<close>

text \<open>The value of the pool on natural numbers.\<close>

definition pool_worth :: "state \<Rightarrow> nat \<Rightarrow> nat \<Rightarrow> nat" where
  "pool_worth st sol leg = sol - unat (rent_exempt_for_token_acc st) + lamports_for st leg"

lemma lamports_for_lp [simp]: "lamports_for (st\<lparr>liq_pool := lp\<rparr>) m = lamports_for st m"
  by (simp add: lamports_for_def virtual_staked_def under_control_def)

lemma pool_worth_lp [simp]: "pool_worth (st\<lparr>liq_pool := lp\<rparr>) = pool_worth st"
  by (simp add: pool_worth_def fun_eq_iff)

lemma pool_value_Inr:
  "pool_value st sol leg = Inr v \<Longrightarrow> unat v = pool_worth st (unat sol) (unat leg)
     \<and> unat (rent_exempt_for_token_acc st) \<le> unat sol"
  by (auto simp: pool_value_def pool_worth_def bindR_Inr ok_or_Inr checked_add_Some
      checked_sub_Some expect_ok_Inr calc_lamports_Inr)

lemma on_lp_mint_Inr:
  "on_lp_mint lp n = Inr lp' \<longleftrightarrow> unat (lp_supply lp) + unat n < 2 ^ 64
     \<and> lp' = lp\<lparr>lp_supply := lp_supply lp + n\<rparr>"
  by (auto simp: on_lp_mint_def bindR_Inr ok_or_Inr checked_add_def split: if_splits)

lemma remove_liquidity_quote_Inr:
  assumes "remove_liquidity_quote st sol leg tokens = Inr (x, y)"
  shows "unat (rent_exempt_for_token_acc st) \<le> unat sol
    \<and> unat x = prop_floor (unat tokens) (unat sol - unat (rent_exempt_for_token_acc st))
        (unat (lp_supply (liq_pool st)))
    \<and> unat y = prop_floor (unat tokens) (unat leg) (unat (lp_supply (liq_pool st)))
    \<and> unat (min_withdraw st) \<le> unat x + lamports_for st (unat y)"
proof -
  from assms obtain s v t where "psub sol (rent_exempt_for_token_acc st) = Inr s"
    and "proportional tokens s (lp_supply (liq_pool st)) = Inr x"
    and "proportional tokens leg (lp_supply (liq_pool st)) = Inr y"
    and "calc_lamports_from_msol_amount st y = Inr v" and t: "padd x v = Inr t" "min_withdraw st \<le> t"
    by (auto simp: remove_liquidity_quote_def bindR_Inr check_Inr expect_ok_Inr)
  then show ?thesis
    by (auto simp: ok_or_Inr checked_sub_Some checked_add_Some proportional_Inr calc_lamports_Inr
        word_le_nat_alt)
qed

context marinade_runtime
begin

lemma add_liquidity_effect:
  assumes "add_liquidity rt cx key ac n st w = Inr (st', w')"
    and apart: "al_transfer_from ac \<noteq> al_sol_leg ac"
  obtains m where "al_lp_mint ac = lp_mint (liq_pool st)"
    and "unat (rent_exempt_for_token_acc st) \<le> unat (acc_lamports w (al_sol_leg ac))"
    and "unat m = shares_floor (unat n) (pool_worth st (unat (acc_lamports w (al_sol_leg ac)))
           (unat (token_amount w (al_msol_leg ac)))) (unat (mint_supply w (al_lp_mint ac)))"
    and "unat (acc_lamports w' (al_transfer_from ac)) + unat n = unat (acc_lamports w (al_transfer_from ac))"
    and "unat (acc_lamports w' (al_sol_leg ac)) = unat (acc_lamports w (al_sol_leg ac)) + unat n"
    and "unat (mint_supply w' (al_lp_mint ac)) = unat (mint_supply w (al_lp_mint ac)) + unat m"
    and "token_amount w' = (token_amount w)(al_mint_to ac := token_amount w (al_mint_to ac) + m)"
    and "unat (token_amount w (al_mint_to ac)) + unat m < 2 ^ 64"
    and "st' = st\<lparr>liq_pool := (liq_pool st)\<lparr>lp_supply := mint_supply w' (al_lp_mint ac)\<rparr>\<rparr>"
    and "mint_supply w (al_lp_mint ac) \<le> lp_supply (liq_pool st)"
    and "\<exists>to. acc_token w (al_mint_to ac) = Some to \<and> tk_mint to = lp_mint (liq_pool st)"
proof -
  from assms(1) obtain lpm leg to where
    l: "acc_mint w (al_lp_mint ac) = Some lpm" "acc_token w (al_msol_leg ac) = Some leg"
      "acc_token w (al_mint_to ac) = Some to"
    and run: "add_liquidity_process rt key ac lpm leg to n st w = Inr (st', w')"
    by (auto simp: add_liquidity_def load_mint_def load_token_def bindR_Inr ok_or_Inr)
  have amounts: "mt_supply lpm = mint_supply w (al_lp_mint ac)"
    "tk_amount leg = token_amount w (al_msol_leg ac)"
    using l by (simp_all add: mint_supply_def token_amount_def)
  let ?st1 = "st\<lparr>liq_pool := (liq_pool st)\<lparr>lp_supply := mt_supply lpm\<rparr>\<rparr>"
  from run obtain v m sg w1 lp2 where
    chk: "al_lp_mint ac = lp_mint (liq_pool st)" "tk_mint to = lp_mint (liq_pool st)"
      "mt_supply lpm \<le> lp_supply (liq_pool st)"
    and v: "pool_value ?st1 (acc_lamports w (al_sol_leg ac)) (tk_amount leg) = Inr v"
    and m: "shares_from_value n v (mt_supply lpm) = Inr m"
    and pay: "rt_invoke rt (SystemTransfer (al_transfer_from ac) (al_sol_leg ac) n) [] w = Inr w1"
    and mint: "rt_invoke rt (TokenMintTo (al_lp_mint ac) (al_mint_to ac) (al_lp_mint_authority ac) m)
        sg w1 = Inr w'"
    and lp2: "on_lp_mint (liq_pool ?st1) m = Inr lp2" and st': "st' = ?st1\<lparr>liq_pool := lp2\<rparr>"
    by (auto simp: add_liquidity_process_def add_liquidity_checks_def Let_def bindR_Inr all_ok_Inr
        check_Inr liq_pool_checks_Inr not_less)
  note pv = pool_value_Inr [OF v] and p = system_transfer [OF pay] and t = token_mint_to [OF mint]
  have w1: "token_amount w1 = token_amount w" "mint_supply w1 = mint_supply w"
    "acc_lamports w' = move_u64 (al_transfer_from ac) (al_sol_leg ac) n (acc_lamports w)"
    "can_move (al_transfer_from ac) (al_sol_leg ac) n (acc_lamports w)"
    using p t by (auto simp: tokens_only_def)
  have sup: "mint_supply w' (al_lp_mint ac) = mint_supply w (al_lp_mint ac) + m"
    "unat (mint_supply w (al_lp_mint ac)) + unat m < 2 ^ 64"
    "unat (token_amount w (al_mint_to ac)) + unat m < 2 ^ 64"
    "token_amount w' = (token_amount w)(al_mint_to ac := token_amount w (al_mint_to ac) + m)"
    using t by (simp_all add: w1)
  show thesis
  proof (rule that [OF chk(1)])
    show "unat (acc_lamports w' (al_transfer_from ac)) + unat n = unat (acc_lamports w (al_transfer_from ac))"
      "unat (acc_lamports w' (al_sol_leg ac)) = unat (acc_lamports w (al_sol_leg ac)) + unat n"
      using move_source [OF w1(4) apart] move_target [OF w1(4) apart] by (simp_all add: w1(3))
    show "unat m = shares_floor (unat n) (pool_worth st (unat (acc_lamports w (al_sol_leg ac)))
           (unat (token_amount w (al_msol_leg ac)))) (unat (mint_supply w (al_lp_mint ac)))"
      using m pv by (simp add: shares_from_value_Inr amounts)
    show "st' = st\<lparr>liq_pool := (liq_pool st)\<lparr>lp_supply := mint_supply w' (al_lp_mint ac)\<rparr>\<rparr>"
      using lp2 st' by (simp add: on_lp_mint_Inr sup(1) amounts)
  qed (use pv sup chk l amounts in \<open>simp_all add: unat_add_le\<close>)
qed

lemma remove_liquidity_effect:
  assumes "remove_liquidity rt cx key ac tokens st w = Inr (st', w')"
    and apart: "rl_sol_leg ac \<noteq> rl_transfer_sol_to ac" "rl_msol_leg ac \<noteq> rl_transfer_msol_to ac"
      "rl_burn_from ac \<noteq> rl_msol_leg ac" "rl_burn_from ac \<noteq> rl_transfer_msol_to ac"
    and "mint_supply w (rl_lp_mint ac) \<le> lp_supply (liq_pool st)"
  defines "S \<equiv> unat (mint_supply w (rl_lp_mint ac))"
    and "sol \<equiv> unat (acc_lamports w (rl_sol_leg ac)) - unat (rent_exempt_for_token_acc st)"
    and "leg \<equiv> unat (token_amount w (rl_msol_leg ac))"
  shows "rl_lp_mint ac = lp_mint (liq_pool st) \<and> unat tokens \<le> S
    \<and> unat (rent_exempt_for_token_acc st) \<le> unat (acc_lamports w (rl_sol_leg ac))
    \<and> unat (min_withdraw st) \<le> prop_floor (unat tokens) sol S
        + lamports_for st (prop_floor (unat tokens) leg S)
    \<and> unat (acc_lamports w' (rl_sol_leg ac)) + prop_floor (unat tokens) sol S
        = unat (acc_lamports w (rl_sol_leg ac))
    \<and> unat (acc_lamports w' (rl_transfer_sol_to ac))
        = unat (acc_lamports w (rl_transfer_sol_to ac)) + prop_floor (unat tokens) sol S
    \<and> unat (token_amount w' (rl_msol_leg ac)) + prop_floor (unat tokens) leg S = leg
    \<and> unat (token_amount w' (rl_transfer_msol_to ac))
        = unat (token_amount w (rl_transfer_msol_to ac)) + prop_floor (unat tokens) leg S
    \<and> unat (token_amount w' (rl_burn_from ac)) + unat tokens = unat (token_amount w (rl_burn_from ac))
    \<and> unat (mint_supply w' (rl_lp_mint ac)) + unat tokens = S
    \<and> st' = st\<lparr>liq_pool := (liq_pool st)\<lparr>lp_supply := mint_supply w' (rl_lp_mint ac)\<rparr>\<rparr>"
proof -
  from assms(1) obtain lpm source msol_to leg_acc where
    l: "acc_mint w (rl_lp_mint ac) = Some lpm" "acc_token w (rl_msol_leg ac) = Some leg_acc"
    and run: "remove_liquidity_process rt key ac lpm source msol_to leg_acc tokens st w = Inr (st', w')"
    by (auto simp: remove_liquidity_def load_mint_def load_token_def bindR_Inr ok_or_Inr)
  have amounts: "mt_supply lpm = mint_supply w (rl_lp_mint ac)"
    "tk_amount leg_acc = token_amount w (rl_msol_leg ac)"
    using l by (simp_all add: mint_supply_def token_amount_def)
  let ?st1 = "st\<lparr>liq_pool := (liq_pool st)\<lparr>lp_supply := mint_supply w (rl_lp_mint ac)\<rparr>\<rparr>"
  have st1: "sync_lp_supply (mt_supply lpm) st = ?st1"
    using assms(6) by (simp add: sync_lp_supply_def amounts not_less)
  from run have chk: "rl_lp_mint ac = lp_mint (liq_pool st)"
    by (auto simp: remove_liquidity_process_def remove_liquidity_checks_def bindR_Inr all_ok_Inr
        liq_pool_checks_Inr)
  from run obtain x y where q: "remove_liquidity_quote ?st1 (acc_lamports w (rl_sol_leg ac))
        (token_amount w (rl_msol_leg ac)) tokens = Inr (x, y)"
    and pay: "remove_liquidity_pay rt key ac x y tokens ?st1 w = Inr (st', w')"
    unfolding remove_liquidity_process_def Let_def amounts st1 [unfolded amounts]
    by (auto simp: bindR_Inr)
  from remove_liquidity_quote_Inr [OF q]
  have xy: "unat x = prop_floor (unat tokens) sol S" "unat y = prop_floor (unat tokens) leg S"
    "unat (min_withdraw st) \<le> unat x + lamports_for st (unat y)"
    and rent: "unat (rent_exempt_for_token_acc st) \<le> unat (acc_lamports w (rl_sol_leg ac))"
    by (auto simp: S_def sol_def leg_def)
  from pay obtain w1 w2 w3 where
    s1: "(if x > 0 then rt_invoke rt (SystemTransfer (rl_sol_leg ac) (rl_transfer_sol_to ac) x)
           [liq_pool_sol_leg_seeds key (liq_pool ?st1)] w else Inr w) = Inr w1"
    and s2: "(if y > 0 then rt_invoke rt (TokenTransfer (rl_msol_leg ac) (rl_transfer_msol_to ac)
           (rl_msol_leg_authority ac) y) [liq_pool_msol_leg_authority_seeds key (liq_pool ?st1)] w1
         else Inr w1) = Inr w2"
    and s3: "rt_invoke rt (TokenBurn (rl_lp_mint ac) (rl_burn_from ac) (rl_burn_from_authority ac)
           tokens) [] w2 = Inr w3"
    and st': "st' = ?st1\<lparr>liq_pool := on_lp_burn (liq_pool ?st1) tokens\<rparr>" and w3: "w' = w3"
    unfolding remove_liquidity_pay_def bindR_Inr by blast
  note e1 = optional_system_transfer [OF s1] and e2 = optional_token_transfer [OF s2]
    and e3 = token_burn [OF s3]
  have views: "acc_lamports w' = move_u64 (rl_sol_leg ac) (rl_transfer_sol_to ac) x (acc_lamports w)"
    "can_move (rl_sol_leg ac) (rl_transfer_sol_to ac) x (acc_lamports w)"
    "token_amount w2 = move_u64 (rl_msol_leg ac) (rl_transfer_msol_to ac) y (token_amount w)"
    "can_move (rl_msol_leg ac) (rl_transfer_msol_to ac) y (token_amount w)"
    "token_amount w' = (token_amount w2)(rl_burn_from ac := token_amount w2 (rl_burn_from ac) - tokens)"
    "mint_supply w' = (mint_supply w)(rl_lp_mint ac := mint_supply w (rl_lp_mint ac) - tokens)"
    "tokens \<le> mint_supply w (rl_lp_mint ac)" "tokens \<le> token_amount w2 (rl_burn_from ac)"
    using e1 e2 e3 by (auto simp: w3 tokens_only_def)
  have sup: "unat (mint_supply w' (rl_lp_mint ac)) + unat tokens = S" "unat tokens \<le> S"
    using views(7) by (simp_all add: views(6) S_def unat_diff_le word_le_nat_alt)
  have lp: "st' = st\<lparr>liq_pool := (liq_pool st)\<lparr>lp_supply := mint_supply w' (rl_lp_mint ac)\<rparr>\<rparr>"
    using views(7) by (simp add: st' on_lp_burn_def views(6) saturating_sub_def)
  have lam: "unat (acc_lamports w' (rl_sol_leg ac)) + unat x = unat (acc_lamports w (rl_sol_leg ac))"
    "unat (acc_lamports w' (rl_transfer_sol_to ac)) = unat (acc_lamports w (rl_transfer_sol_to ac)) + unat x"
    using move_source [OF views(2) apart(1)] move_target [OF views(2) apart(1)]
    by (simp_all add: views(1))
  have tok: "unat (token_amount w' (rl_msol_leg ac)) + unat y = leg"
    "unat (token_amount w' (rl_transfer_msol_to ac)) = unat (token_amount w (rl_transfer_msol_to ac)) + unat y"
    using move_source [OF views(4) apart(2)] move_target [OF views(4) apart(2)] apart(3,4)
    by (simp_all add: views(5) leg_def flip: views(3))
  have "unat (token_amount w' (rl_burn_from ac)) + unat tokens = unat (token_amount w (rl_burn_from ac))"
    using views(8) apart(3,4) by (simp add: views(3,5) unat_diff_le word_le_nat_alt)
  with chk sup rent xy lam tok lp show ?thesis by simp
qed

end

section \<open>Properties\<close>

text \<open>
  C19. Adding liquidity takes exactly \<open>n\<close> lamports into the SOL leg and mints the LP shares they
  are worth at the pool's value before the deposit; the recorded LP supply equals the minted
  supply, and the value of one LP share does not fall (stated without division).
\<close>
theorem add_liquidity_fair:
  assumes "marinade_runtime rt"
    and "add_liquidity rt cx key ac n st w = Inr (st', w')"
    and "al_transfer_from ac \<noteq> al_sol_leg ac"
  shows "let T = pool_worth st (unat (acc_lamports w (al_sol_leg ac)))
               (unat (token_amount w (al_msol_leg ac)));
      S = unat (mint_supply w (al_lp_mint ac)); m = shares_floor (unat n) T S
    in unat (acc_lamports w' (al_transfer_from ac)) + unat n = unat (acc_lamports w (al_transfer_from ac))
     \<and> unat (acc_lamports w' (al_sol_leg ac)) = unat (acc_lamports w (al_sol_leg ac)) + unat n
     \<and> unat (token_amount w' (al_mint_to ac)) = unat (token_amount w (al_mint_to ac)) + m
     \<and> unat (mint_supply w' (al_lp_mint ac)) = S + m
     \<and> lp_supply (liq_pool st') = mint_supply w' (al_lp_mint ac)
     \<and> st' = st\<lparr>liq_pool := (liq_pool st)\<lparr>lp_supply := lp_supply (liq_pool st')\<rparr>\<rparr>
     \<and> (0 < S \<longrightarrow> T * (S + m) \<le> (T + unat n) * S)"
proof (rule marinade_runtime.add_liquidity_effect [OF assms], goal_cases)
  case (1 m)
  from 1(3) have m: "shares_floor (unat n) (pool_worth st (unat (acc_lamports w (al_sol_leg ac)))
      (unat (token_amount w (al_msol_leg ac)))) (unat (mint_supply w (al_lp_mint ac))) = unat m" ..
  have "unat (token_amount w' (al_mint_to ac)) = unat (token_amount w (al_mint_to ac)) + unat m"
    using 1(8) by (simp add: 1(7) unat_add_le)
  then show ?case
    using 1(4,5,6,9) mint_keeps_price [of "unat (mint_supply w (al_lp_mint ac))"
        "pool_worth st (unat (acc_lamports w (al_sol_leg ac))) (unat (token_amount w (al_msol_leg ac)))"
        "unat n"]
    by (simp add: Let_def m)
qed

text \<open>
  C20. Removing liquidity pays the exact pro-rata part, rounded down, of both legs for the LP
  tokens burned, leaves the SOL leg with its rent, and lowers neither the SOL nor the mSOL behind
  one remaining LP token.
\<close>
theorem remove_liquidity_pro_rata:
  assumes "marinade_runtime rt"
    and "remove_liquidity rt cx key ac tokens st w = Inr (st', w')"
    and "rl_sol_leg ac \<noteq> rl_transfer_sol_to ac" and "rl_msol_leg ac \<noteq> rl_transfer_msol_to ac"
    and "rl_burn_from ac \<noteq> rl_msol_leg ac" and "rl_burn_from ac \<noteq> rl_transfer_msol_to ac"
    and "mint_supply w (rl_lp_mint ac) \<le> lp_supply (liq_pool st)"
    and "0 < mint_supply w (rl_lp_mint ac)"
  shows "let S = unat (mint_supply w (rl_lp_mint ac)); rent = unat (rent_exempt_for_token_acc st);
      sol = unat (acc_lamports w (rl_sol_leg ac)) - rent; leg = unat (token_amount w (rl_msol_leg ac));
      sol_out = unat tokens * sol div S; msol_out = unat tokens * leg div S;
      sol' = unat (acc_lamports w' (rl_sol_leg ac)) - rent;
      leg' = unat (token_amount w' (rl_msol_leg ac)); S' = unat (mint_supply w' (rl_lp_mint ac))
    in unat (acc_lamports w' (rl_transfer_sol_to ac))
         = unat (acc_lamports w (rl_transfer_sol_to ac)) + sol_out
     \<and> unat (token_amount w' (rl_transfer_msol_to ac))
         = unat (token_amount w (rl_transfer_msol_to ac)) + msol_out
     \<and> S' + unat tokens = S \<and> lp_supply (liq_pool st') = mint_supply w' (rl_lp_mint ac)
     \<and> rent \<le> unat (acc_lamports w' (rl_sol_leg ac))
     \<and> sol * S' \<le> sol' * S \<and> leg * S' \<le> leg' * S"
proof -
  note e = marinade_runtime.remove_liquidity_effect [OF assms(1-7)]
  let ?S = "unat (mint_supply w (rl_lp_mint ac))" and ?t = "unat tokens"
  let ?sol = "unat (acc_lamports w (rl_sol_leg ac)) - unat (rent_exempt_for_token_acc st)"
  let ?leg = "unat (token_amount w (rl_msol_leg ac))"
  have S: "0 < ?S" using assms(8) by (simp add: word_gt_0_unat)
  have out: "prop_floor ?t ?sol ?S = ?t * ?sol div ?S" "prop_floor ?t ?leg ?S = ?t * ?leg div ?S"
    using S by (simp_all add: prop_floor_def)
  have t: "?t \<le> ?S" using e by blast
  have sol_le: "prop_floor ?t ?sol ?S \<le> ?sol"
    using S t mult_div_le_self [OF t, of ?sol] by (simp add: out mult.commute)
  have S': "unat (mint_supply w' (rl_lp_mint ac)) = ?S - ?t" using e by linarith
  have sol': "unat (acc_lamports w' (rl_sol_leg ac)) - unat (rent_exempt_for_token_acc st)
      = ?sol - prop_floor ?t ?sol ?S" using e by linarith
  have leg': "unat (token_amount w' (rl_msol_leg ac)) = ?leg - prop_floor ?t ?leg ?S"
    using e by linarith
  have "unat (rent_exempt_for_token_acc st) \<le> unat (acc_lamports w' (rl_sol_leg ac))"
    using e sol_le by linarith
  moreover have "?sol * (?S - ?t) \<le> (?sol - prop_floor ?t ?sol ?S) * ?S"
    "?leg * (?S - ?t) \<le> (?leg - prop_floor ?t ?leg ?S) * ?S"
    using burn_keeps_price [OF S t] by blast+
  moreover have "unat (acc_lamports w' (rl_transfer_sol_to ac))
      = unat (acc_lamports w (rl_transfer_sol_to ac)) + prop_floor ?t ?sol ?S"
    "unat (token_amount w' (rl_transfer_msol_to ac))
      = unat (token_amount w (rl_transfer_msol_to ac)) + prop_floor ?t ?leg ?S"
    using e by blast+
  moreover have "lp_supply (liq_pool st') = mint_supply w' (rl_lp_mint ac)"
    using e by (elim conjE) simp
  moreover have "?S - ?t + ?t = ?S" using t by simp
  ultimately show ?thesis
    unfolding Let_def S' sol' leg' out [symmetric] by blast
qed

text \<open>
  The value of both legs paid out for \<open>m\<close> of \<open>S + m\<close> LP tokens is at most their part of the pool,
  which for a deposit just made is at most the deposit. \<open>V / M\<close> is the price of mSOL; the pool is
  worth \<open>a\<close> lamports and \<open>leg\<close> mSOL.
\<close>

lemma pro_rata_value:
  assumes "0 < S"
  shows "prop_floor m a S + prop_floor (prop_floor m leg S) V M \<le> m * (a + prop_floor leg V M + 1) div S"
proof -
  have "prop_floor (prop_floor m leg S) V M * S \<le> m * (prop_floor leg V M + 1)"
  proof (cases "M = 0")
    case True
    then show ?thesis using prop_floor_mult [OF assms, of m leg] by (simp add: prop_floor_def algebra_simps)
  next
    case False
    let ?p = "prop_floor m leg S"
    have "?p * V div M * S * M \<le> ?p * V * S" by (simp add: mult.commute mult.left_commute)
    also have "\<dots> \<le> m * leg * V"
      using prop_floor_mult [OF assms, of m leg] by (metis mult.commute mult.left_commute mult_le_mono1)
    also have "\<dots> \<le> m * ((leg * V div M + 1) * M)"
    proof -
      have "leg * V \<le> (leg * V div M + 1) * M"
        using False dividend_less_div_times [of M "leg * V"] by simp
      then show ?thesis by (metis mult.assoc mult_le_mono2)
    qed
    finally have "?p * V div M * S * M \<le> m * (leg * V div M + 1) * M" by (simp only: mult.assoc)
    with False have "?p * V div M * S \<le> m * (leg * V div M + 1)"
      by (simp only: mult_le_cancel2)
    with False show ?thesis by (simp add: prop_floor_def)
  qed
  then have "(prop_floor m a S + prop_floor (prop_floor m leg S) V M) * S
      \<le> m * (a + prop_floor leg V M + 1)"
    using prop_floor_mult [OF assms, of m a] by (simp add: algebra_simps)
  with assms show ?thesis by (simp add: less_eq_div_iff_mult_less_eq)
qed

lemma add_remove_value:
  assumes m: "m = shares_floor n (pool_worth st sol leg) S" and S: "0 < S"
    and rent: "unat (rent_exempt_for_token_acc st) \<le> sol"
  shows "prop_floor m (sol + n - unat (rent_exempt_for_token_acc st)) (S + m)
    + lamports_for st (prop_floor m leg (S + m)) \<le> n"
proof -
  let ?T = "pool_worth st sol leg"
  have "m * ?T \<le> n * S" using shares_floor_mult [OF S, of n ?T] by (simp add: m)
  then have "m * (?T + n + 1) < (n + 1) * (S + m)"
    using S by (simp add: algebra_simps)
  then have "m * (?T + n + 1) div (S + m) < n + 1"
    by (simp add: div_less_iff_less_mult S)
  moreover have "sol + n - unat (rent_exempt_for_token_acc st)
      + prop_floor leg (virtual_staked st) (unat (msol_supply st)) = ?T + n"
    using rent by (simp add: pool_worth_def lamports_for_def)
  ultimately show ?thesis
    using pro_rata_value [of "S + m" m "sol + n - unat (rent_exempt_for_token_acc st)" leg
        "virtual_staked st" "unat (msol_supply st)"] S
    by (simp add: lamports_for_def)
qed

text \<open>
  Liquidity added and removed at once returns at most what was added: if the LP tokens minted
  by an \<open>add_liquidity\<close> are removed in the resulting state, the SOL received plus the value of the
  mSOL received does not exceed the deposit.
\<close>
lemma add_remove_no_gain:
  assumes "marinade_runtime rt"
    and "add_liquidity rt cx key ac n st w = Inr (st1, w1)"
    and "al_transfer_from ac \<noteq> al_sol_leg ac" and "al_mint_to ac \<noteq> al_msol_leg ac"
    and "remove_liquidity rt cx2 key rc tokens st1 w1 = Inr (st2, w2)"
    and "unat tokens = unat (mint_supply w1 (al_lp_mint ac)) - unat (mint_supply w (al_lp_mint ac))"
    and "rl_lp_mint rc = al_lp_mint ac" and "rl_sol_leg rc = al_sol_leg ac"
    and "rl_msol_leg rc = al_msol_leg ac"
    and "rl_sol_leg rc \<noteq> rl_transfer_sol_to rc" and "rl_msol_leg rc \<noteq> rl_transfer_msol_to rc"
    and "rl_burn_from rc \<noteq> rl_msol_leg rc" and "rl_burn_from rc \<noteq> rl_transfer_msol_to rc"
    and "0 < mint_supply w (al_lp_mint ac)"
  shows "unat (acc_lamports w2 (rl_transfer_sol_to rc)) - unat (acc_lamports w1 (rl_transfer_sol_to rc))
    + lamports_for st (unat (token_amount w2 (rl_transfer_msol_to rc))
        - unat (token_amount w1 (rl_transfer_msol_to rc))) \<le> unat n"
proof (rule marinade_runtime.add_liquidity_effect [OF assms(1-3)], goal_cases)
  case (1 m)
  let ?S = "unat (mint_supply w (al_lp_mint ac))"
  let ?sol = "unat (acc_lamports w (al_sol_leg ac))" and ?leg = "unat (token_amount w (al_msol_leg ac))"
  let ?rent = "unat (rent_exempt_for_token_acc st)"
  have st1: "rent_exempt_for_token_acc st1 = rent_exempt_for_token_acc st"
    "lp_supply (liq_pool st1) = mint_supply w1 (al_lp_mint ac)"
    using 1(9) by simp_all
  have le: "mint_supply w1 (rl_lp_mint rc) \<le> lp_supply (liq_pool st1)"
    by (simp add: st1 assms(7))
  have tok: "unat tokens = unat m" using assms(6) 1(6) by simp
  have leg1: "unat (token_amount w1 (al_msol_leg ac)) = ?leg" using 1(7) assms(4) by simp
  note e = marinade_runtime.remove_liquidity_effect [OF assms(1,5,10-13) le, unfolded assms(7-9)
      st1(1) 1(5) 1(6) leg1 tok]
  have "unat (acc_lamports w2 (rl_transfer_sol_to rc)) - unat (acc_lamports w1 (rl_transfer_sol_to rc))
      = prop_floor (unat m) (?sol + unat n - ?rent) (?S + unat m)"
    "unat (token_amount w2 (rl_transfer_msol_to rc)) - unat (token_amount w1 (rl_transfer_msol_to rc))
      = prop_floor (unat m) ?leg (?S + unat m)"
    using e by linarith+
  then show ?case
    using add_remove_value [OF 1(3) _ 1(2)] assms(14) by (simp add: word_gt_0_unat)
qed

lemma set_lp_params_effect:
  assumes "set_lp_params cx key ac min_fee max_fee target st = Inr st'"
    and "basis_points (treasury_cut (liq_pool st)) \<le> 10000"
  shows "slp_admin_authority ac = admin_authority st" and "cx_signer cx (admin_authority st)"
    and "pool_fees_ok (liq_pool st')" and "50000000000 \<le> lp_liquidity_target (liq_pool st')"
    and "st' = st\<lparr>liq_pool := liq_pool st'\<rparr>"
  using assms
  by (auto simp: set_lp_params_def result_simps check_lp_fees_def check_liquidity_target_def
      pool_fees_ok_def fees_ordered_def not_less)

text \<open>
  \<open>set_lp_params\<close> succeeds only for the signing admin and keeps the fee parameters valid: the
  fees are ordered, the unstake fee is at most 10 percent and the liquidity target at least 50 SOL.
\<close>
lemma set_lp_params_valid:
  assumes "set_lp_params cx key ac min_fee max_fee target st = Inr st'"
    and "basis_points (treasury_cut (liq_pool st)) \<le> 10000"
  shows "slp_admin_authority ac = admin_authority st \<and> cx_signer cx (admin_authority st)
    \<and> pool_fees_ok (liq_pool st') \<and> 50000000000 \<le> lp_liquidity_target (liq_pool st')
    \<and> (\<forall>amount. \<exists>f. linear_fee (liq_pool st') amount = Inr f \<and> basis_points f \<le> 1000)"
proof -
  note ok = set_lp_params_effect [OF assms]
  have "\<exists>f. linear_fee (liq_pool st') amount = Inr f \<and> basis_points f \<le> 1000" for amount
    using linear_fee_nat [of "liq_pool st'" amount] linear_fee_range [of "liq_pool st'" amount] ok(3)
    by (auto simp: pool_fees_ok_def intro: order_trans)
  with ok show ?thesis by blast
qed

section \<open>Runs\<close>

definition ex_add :: add_liquidity_accounts where
  "ex_add = \<lparr>al_lp_mint = 12, al_lp_mint_authority = ex_lp_auth, al_msol_leg = 11,
     al_sol_leg = ex_sol_leg, al_transfer_from = 40, al_mint_to = 42, al_system_program = 0,
     al_token_program = 6\<rparr>"

definition ex_remove :: remove_liquidity_accounts where
  "ex_remove = \<lparr>rl_lp_mint = 12, rl_burn_from = 42, rl_burn_from_authority = 40,
     rl_transfer_sol_to = 45, rl_transfer_msol_to = 41, rl_sol_leg = ex_sol_leg, rl_msol_leg = 11,
     rl_msol_leg_authority = ex_leg_auth, rl_system_program = 0, rl_token_program = 6\<rparr>"

lemmas ex_add_simps = add_liquidity_def ex_add_def run_simps add_liquidity_process_def
  add_liquidity_checks_def add_liquidity_check_transfer_from_def pool_value_def expect_ok_def
  on_lp_mint_def check_lp_mint_def check_lp_mint_authority_def check_liquidity_cap_def ex_world_def
  ex_token_def

lemmas ex_remove_simps = remove_liquidity_def ex_remove_def run_simps remove_liquidity_process_def
  remove_liquidity_checks_def remove_liquidity_check_burn_from_def check_token_source_def
  sync_lp_supply_def remove_liquidity_quote_def remove_liquidity_pay_def expect_ok_def
  on_lp_burn_def check_lp_mint_def check_liq_pool_msol_leg_authority_def ex_world_def ex_token_def

lemma lp_supply_addresses [simp]:
  "liq_pool_sol_leg_address rt key (lp\<lparr>lp_supply := n\<rparr>) = liq_pool_sol_leg_address rt key lp"
  "liq_pool_msol_leg_authority rt key (lp\<lparr>lp_supply := n\<rparr>) = liq_pool_msol_leg_authority rt key lp"
  by (simp_all add: liq_pool_sol_leg_address_def liq_pool_sol_leg_seeds_def
      liq_pool_msol_leg_authority_def liq_pool_msol_leg_authority_seeds_def)

lemma ex_add_remove_runs:
  "bindR (add_liquidity ref_rt ex_cx ex_key ex_add 1000000000 ex_state ex_world) (\<lambda>(st1, w1).
   bindR (remove_liquidity ref_rt ex_cx ex_key ex_remove 249 st1 w1) (\<lambda>(st2, w2).
   Inr (mint_supply w1 12, acc_lamports w2 45))) = Inr (5249, 1096189750)"
  by (simp add: ex_add_simps) (simp add: ex_remove_simps)

lemma ex_remove_runs:
  obtains st' w' where
    "remove_liquidity ref_rt ex_cx ex_key ex_remove 3000 ex_state ex_world = Inr (st', w')"
  by (simp add: ex_remove_simps)

lemma ex_add_runs:
  obtains st1 w1 st2 w2 where
    "add_liquidity ref_rt ex_cx ex_key ex_add 1000000000 ex_state ex_world = Inr (st1, w1)"
    "remove_liquidity ref_rt ex_cx ex_key ex_remove 249 st1 w1 = Inr (st2, w2)"
    "mint_supply w1 12 = 5249"
  using ex_add_remove_runs by (auto simp: bindR_Inr)

lemma ex_liquidity_apart:
  "al_transfer_from ex_add \<noteq> al_sol_leg ex_add" "al_mint_to ex_add \<noteq> al_msol_leg ex_add"
  "rl_sol_leg ex_remove \<noteq> rl_transfer_sol_to ex_remove"
  "rl_msol_leg ex_remove \<noteq> rl_transfer_msol_to ex_remove"
  "rl_burn_from ex_remove \<noteq> rl_msol_leg ex_remove"
  "rl_burn_from ex_remove \<noteq> rl_transfer_msol_to ex_remove"
  by (simp_all add: ex_add_def ex_remove_def)

lemma ex_lp_supply: "mint_supply ex_world 12 = 5000"
  by (simp add: mint_supply_def ex_world_def)

lemma add_liquidity_fair_witness:
  "\<exists>st' w'. add_liquidity ref_rt ex_cx ex_key ex_add 1000000000 ex_state ex_world = Inr (st', w')
    \<and> lp_supply (liq_pool st') = mint_supply w' 12"
proof -
  obtain st' w' where
    r: "add_liquidity ref_rt ex_cx ex_key ex_add 1000000000 ex_state ex_world = Inr (st', w')"
    by (rule ex_add_runs)
  from add_liquidity_fair [OF ref.marinade_runtime_axioms r ex_liquidity_apart(1)] r show ?thesis
    by (auto simp: Let_def ex_add_def)
qed

lemma remove_liquidity_pro_rata_witness:
  "\<exists>st' w'. remove_liquidity ref_rt ex_cx ex_key ex_remove 3000 ex_state ex_world = Inr (st', w')
    \<and> unat (mint_supply w' 12) + 3000 = 5000"
proof -
  obtain st' w' where
    r: "remove_liquidity ref_rt ex_cx ex_key ex_remove 3000 ex_state ex_world = Inr (st', w')"
    by (rule ex_remove_runs)
  have h: "mint_supply ex_world (rl_lp_mint ex_remove) \<le> lp_supply (liq_pool ex_state)"
    "0 < mint_supply ex_world (rl_lp_mint ex_remove)"
    by (simp_all add: ex_remove_def ex_lp_supply)
  from remove_liquidity_pro_rata [OF ref.marinade_runtime_axioms r ex_liquidity_apart(3-6) h] r
  show ?thesis
    by (auto simp: Let_def ex_remove_def ex_lp_supply)
qed

lemma add_remove_no_gain_witness:
  "\<exists>st1 w1 st2 w2. add_liquidity ref_rt ex_cx ex_key ex_add 1000000000 ex_state ex_world = Inr (st1, w1)
    \<and> remove_liquidity ref_rt ex_cx ex_key ex_remove 249 st1 w1 = Inr (st2, w2)
    \<and> unat (acc_lamports w2 45) - unat (acc_lamports w1 45) \<le> 1000000000"
proof -
  obtain st1 w1 st2 w2 where
    a: "add_liquidity ref_rt ex_cx ex_key ex_add 1000000000 ex_state ex_world = Inr (st1, w1)"
    and r: "remove_liquidity ref_rt ex_cx ex_key ex_remove 249 st1 w1 = Inr (st2, w2)"
    and s: "mint_supply w1 12 = 5249"
    by (rule ex_add_runs)
  have h: "unat (249::u64) = unat (mint_supply w1 (al_lp_mint ex_add))
      - unat (mint_supply ex_world (al_lp_mint ex_add))"
    "rl_lp_mint ex_remove = al_lp_mint ex_add" "rl_sol_leg ex_remove = al_sol_leg ex_add"
    "rl_msol_leg ex_remove = al_msol_leg ex_add"
    and pos: "0 < mint_supply ex_world (al_lp_mint ex_add)"
    by (simp_all add: ex_add_def ex_remove_def s ex_lp_supply)
  from add_remove_no_gain [OF ref.marinade_runtime_axioms a ex_liquidity_apart(1,2) r h
      ex_liquidity_apart(3-6) pos] a r
  show ?thesis by (auto simp: ex_remove_def)
qed

definition ex_set_lp :: set_lp_params_accounts where
  "ex_set_lp = \<lparr>slp_admin_authority = 30\<rparr>"

lemma set_lp_params_valid_witness:
  "\<exists>st'. set_lp_params ex_cx ex_key ex_set_lp (from_basis_points 10) (from_basis_points 500)
      60000000000 ex_state = Inr st'
    \<and> basis_points (treasury_cut (liq_pool ex_state)) \<le> 10000 \<and> pool_fees_ok (liq_pool st')"
proof -
  obtain st' where r: "set_lp_params ex_cx ex_key ex_set_lp (from_basis_points 10)
      (from_basis_points 500) 60000000000 ex_state = Inr st'"
    by (simp add: set_lp_params_def ex_set_lp_def run_simps check_admin_authority_def
        check_lp_fees_def fee_check_def fee_check_max_def from_basis_points_def
        check_liquidity_target_def)
  have h: "basis_points (treasury_cut (liq_pool ex_state)) \<le> 10000"
    by (simp add: from_basis_points_def)
  from set_lp_params_valid [OF r h] r h show ?thesis by auto
qed

end
