(* ===== verification/Admin.thy ===== *)
theory Admin
  imports Validators Liquidity
begin

text \<open>
  Creating and configuring an instance: \<open>initialize\<close> (\<open>state/initialize.rs\<close>,
  \<open>liq_pool/initialize.rs\<close>), \<open>config_marinade\<close> and \<open>change_authority\<close>. \<open>params_ok\<close> is the
  invariant of the parameters, which \<open>initialize\<close> establishes and the others keep.
\<close>

section \<open>Initialisation\<close>

record liq_pool_initialize_data =
  ld_lp_liquidity_target :: u64
  ld_lp_max_fee :: fee
  ld_lp_min_fee :: fee
  ld_lp_treasury_cut :: fee

record initialize_data =
  id_admin_authority :: pubkey
  id_validator_manager_authority :: pubkey
  id_min_stake :: u64
  id_reward_fee :: fee
  id_liq_pool :: liq_pool_initialize_data
  id_additional_stake_record_space :: u32
  id_additional_validator_record_space :: u32
  id_slots_for_stake_delta :: u64

record liq_pool_initialize_accounts =
  il_lp_mint :: pubkey
  il_sol_leg_pda :: pubkey
  il_msol_leg :: pubkey

record initialize_accounts =
  in_creator_authority :: pubkey
  in_reserve_pda :: pubkey
  in_stake_list :: pubkey
  in_validator_list :: pubkey
  in_msol_mint :: pubkey
  in_operational_sol_account :: pubkey
  in_liq_pool :: liq_pool_initialize_accounts
  in_treasury_msol_account :: pubkey

definition CREATOR_AUTHORITY :: pubkey where
  "CREATOR_AUTHORITY = pubkey_new_from_array
     [130, 33, 92, 198, 248, 0, 48, 210, 221, 172, 150, 104, 107, 227, 44, 217, 3, 61, 74, 58,
      179, 76, 35, 104, 39, 67, 130, 92, 93, 25, 180, 107]"

text \<open>The zeroed state account, as Borsh reads it.\<close>

definition fee_zero :: fee where
  "fee_zero = \<lparr>basis_points = 0\<rparr>"

definition list_zero :: list_header where
  "list_zero = \<lparr>account = 0, item_size = 0, count = 0, new_account = 0, copied_count = 0\<rparr>"

definition state_zero :: state where
  "state_zero = \<lparr>msol_mint = 0, admin_authority = 0, operational_sol_account = 0,
     treasury_msol_account = 0, reserve_bump_seed = 0, msol_mint_authority_bump_seed = 0,
     rent_exempt_for_token_acc = 0, reward_fee = fee_zero,
     stake_system = \<lparr>stake_list = list_zero, delayed_unstake_cooling_down = 0,
       stake_deposit_bump_seed = 0, stake_withdraw_bump_seed = 0, slots_for_stake_delta = 0,
       last_stake_delta_epoch = 0, min_stake = 0, extra_stake_delta_runs = 0\<rparr>,
     validator_system = \<lparr>validator_list = list_zero, manager_authority = 0,
       total_validator_score = 0, total_active_balance = 0, auto_add_validator_enabled = 0\<rparr>,
     liq_pool = \<lparr>lp_mint = 0, lp_mint_authority_bump_seed = 0, sol_leg_bump_seed = 0,
       msol_leg_authority_bump_seed = 0, msol_leg = 0, lp_liquidity_target = 0,
       lp_max_fee = fee_zero, lp_min_fee = fee_zero, treasury_cut = fee_zero, lp_supply = 0,
       lent_from_sol_leg = 0, liquidity_sol_cap = 0\<rparr>,
     available_reserve_balance = 0, msol_supply = 0, msol_price = 0, circulating_ticket_count = 0,
     circulating_ticket_balance = 0, lent_from_reserve = 0, min_deposit = 0, min_withdraw = 0,
     staking_sol_cap = 0, emergency_cooling_down = 0\<rparr>"

definition check_reserve_pda ::
  "runtime \<Rightarrow> pubkey \<Rightarrow> initialize_accounts \<Rightarrow> world \<Rightarrow> state \<Rightarrow> state result" where
  "check_reserve_pda rt key ac w st =
     bindR (check_owner_program w (in_reserve_pda ac) (rt_system_program rt)) (\<lambda>_.
     let (address, bump) = find_reserve_address rt key in
     bindR (check_address (in_reserve_pda ac) address) (\<lambda>_.
     bindR (require (acc_lamports w (in_reserve_pda ac) = rent_exempt_for_token_acc st)
              InvalidArgument) (\<lambda>_.
     Inr (st\<lparr>reserve_bump_seed := bump\<rparr>))))"

definition initialize_check_msol_mint ::
  "runtime \<Rightarrow> pubkey \<Rightarrow> initialize_accounts \<Rightarrow> mint \<Rightarrow> world \<Rightarrow> state \<Rightarrow> state result" where
  "initialize_check_msol_mint rt key ac mt w st =
     bindR (check_owner_program w (in_msol_mint ac) (rt_spl_token rt)) (\<lambda>_.
     let (authority_address, bump) = find_msol_mint_authority rt key in
     bindR (all_ok [check_mint_authority mt authority_address, check_mint_empty mt,
                    check_freeze_authority mt]) (\<lambda>_.
     Inr (st\<lparr>msol_mint_authority_bump_seed := bump\<rparr>)))"

definition check_treasury_accounts ::
  "runtime \<Rightarrow> initialize_accounts \<Rightarrow> token_account \<Rightarrow> world \<Rightarrow> unit result" where
  "check_treasury_accounts rt ac treasury w = all_ok
     [check_owner_program w (in_treasury_msol_account ac) (rt_spl_token rt),
      check_token_mint treasury (in_msol_mint ac)]"

subsection \<open>The pool\<close>

definition check_liq_mint ::
  "runtime \<Rightarrow> pubkey \<Rightarrow> initialize_accounts \<Rightarrow> mint \<Rightarrow> world \<Rightarrow> state \<Rightarrow> state result" where
  "check_liq_mint rt key ac lpm w st =
     bindR (all_ok
       [check_owner_program w (il_lp_mint (in_liq_pool ac)) (rt_spl_token rt),
        require (il_lp_mint (in_liq_pool ac) \<noteq> in_msol_mint ac) InvalidAccountData]) (\<lambda>_.
     let (authority_address, bump) = find_lp_mint_authority rt key in
     bindR (all_ok [check_mint_authority lpm authority_address, check_mint_empty lpm,
                    check_freeze_authority lpm]) (\<lambda>_.
     Inr (st\<lparr>liq_pool := (liq_pool st)\<lparr>lp_mint_authority_bump_seed := bump\<rparr>\<rparr>)))"

definition check_sol_account_pda ::
  "runtime \<Rightarrow> pubkey \<Rightarrow> initialize_accounts \<Rightarrow> world \<Rightarrow> state \<Rightarrow> state result" where
  "check_sol_account_pda rt key ac w st =
     (let leg = il_sol_leg_pda (in_liq_pool ac) in
     bindR (check_owner_program w leg (rt_system_program rt)) (\<lambda>_.
     let (address, bump) = find_sol_leg_address rt key in
     bindR (check_address leg address) (\<lambda>_.
     bindR (require (acc_lamports w leg = rent_exempt_for_token_acc st) InvalidArgument) (\<lambda>_.
     Inr (st\<lparr>liq_pool := (liq_pool st)\<lparr>sol_leg_bump_seed := bump\<rparr>\<rparr>)))))"

definition check_msol_account ::
  "runtime \<Rightarrow> pubkey \<Rightarrow> initialize_accounts \<Rightarrow> token_account \<Rightarrow> world \<Rightarrow> state \<Rightarrow> state result" where
  "check_msol_account rt key ac leg w st =
     bindR (all_ok
       [check_owner_program w (il_msol_leg (in_liq_pool ac)) (rt_spl_token rt),
        check_token_mint leg (in_msol_mint ac)]) (\<lambda>_.
     let (msol_authority, bump) = find_msol_leg_authority rt key in
     bindR (check_token_owner leg msol_authority) (\<lambda>_.
     Inr (st\<lparr>liq_pool := (liq_pool st)\<lparr>msol_leg_authority_bump_seed := bump\<rparr>\<rparr>)))"

definition check_fees :: "fee \<Rightarrow> fee \<Rightarrow> unit result" where
  "check_fees min_fee max_fee = all_ok
     [fee_check min_fee, fee_check max_fee,
      require (\<not> basis_points max_fee > 1000) (Common FeeTooHigh),
      require (\<not> basis_points min_fee > basis_points max_fee) (Common FeesWrongWayRound)]"

definition liq_pool_initialize_process ::
  "runtime \<Rightarrow> pubkey \<Rightarrow> initialize_accounts \<Rightarrow> mint \<Rightarrow> token_account \<Rightarrow> liq_pool_initialize_data
    \<Rightarrow> world \<Rightarrow> state \<Rightarrow> state result" where
  "liq_pool_initialize_process rt key ac lpm leg data w st =
     bindR (check_liq_mint rt key ac lpm w st) (\<lambda>st1.
     bindR (check_sol_account_pda rt key ac w st1) (\<lambda>st2.
     bindR (check_msol_account rt key ac leg w st2) (\<lambda>st3.
     bindR (check_fees (ld_lp_min_fee data) (ld_lp_max_fee data)) (\<lambda>_.
     bindR (fee_check (ld_lp_treasury_cut data)) (\<lambda>_.
     Inr (st3\<lparr>liq_pool := (liq_pool st3)\<lparr>lp_mint := il_lp_mint (in_liq_pool ac),
            msol_leg := il_msol_leg (in_liq_pool ac), treasury_cut := ld_lp_treasury_cut data,
            lp_liquidity_target := ld_lp_liquidity_target data,
            lp_min_fee := ld_lp_min_fee data, lp_max_fee := ld_lp_max_fee data,
            liquidity_sol_cap := - 1\<rparr>\<rparr>))))))"

subsection \<open>The instruction\<close>

text \<open>The checks up to the lists, in the code's order; each fills in its bump seed.\<close>

definition initialize_checks ::
  "runtime \<Rightarrow> pubkey \<Rightarrow> initialize_accounts \<Rightarrow> mint \<Rightarrow> token_account \<Rightarrow> initialize_data \<Rightarrow> world
    \<Rightarrow> state \<Rightarrow> state result" where
  "initialize_checks rt key ac mt treasury data w st =
     bindR (check_address (in_creator_authority ac) CREATOR_AUTHORITY) (\<lambda>_.
     bindR (fee_check_max (id_reward_fee data) MAX_REWARD_FEE) (\<lambda>_.
     let st0 = st\<lparr>rent_exempt_for_token_acc := rt_minimum_balance rt (rt_token_account_len rt)\<rparr> in
     bindR (check_reserve_pda rt key ac w st0) (\<lambda>st1.
     bindR (initialize_check_msol_mint rt key ac mt w st1) (\<lambda>st2.
     bindR (all_ok
       [check_treasury_accounts rt ac treasury w,
        check_owner_program w (in_operational_sol_account ac) (rt_system_program rt),
        check_owner_program w (in_stake_list ac) ID,
        check_owner_program w (in_validator_list ac) ID]) (\<lambda>_.
     Inr st2)))))"

definition initialize_process ::
  "runtime \<Rightarrow> pubkey \<Rightarrow> initialize_accounts \<Rightarrow> mint \<Rightarrow> token_account \<Rightarrow> mint \<Rightarrow> token_account
    \<Rightarrow> initialize_data \<Rightarrow> state \<Rightarrow> world \<Rightarrow> (state \<times> world) result" where
  "initialize_process rt key ac mt treasury lpm leg data st w =
     bindR (initialize_checks rt key ac mt treasury data w st) (\<lambda>st1.
     let st2 = st1\<lparr>msol_mint := in_msol_mint ac, admin_authority := id_admin_authority data,
                   operational_sol_account := in_operational_sol_account ac,
                   reward_fee := id_reward_fee data\<rparr> in
     bindR (stake_system_new rt key (in_stake_list ac) (acc_data w (in_stake_list ac))
              (id_slots_for_stake_delta data) (id_min_stake data) 0
              (id_additional_stake_record_space data)) (\<lambda>(ss, sdata).
     let w1 = put_data (in_stake_list ac) sdata w in
     bindR (validator_system_new rt (in_validator_list ac) (acc_data w1 (in_validator_list ac))
              (id_validator_manager_authority data) (id_additional_validator_record_space data))
       (\<lambda>(vs, vdata).
     let w2 = put_data (in_validator_list ac) vdata w1;
         st3 = st2\<lparr>stake_system := ss, validator_system := vs, msol_price := PRICE_DENOMINATOR,
                   treasury_msol_account := in_treasury_msol_account ac, min_deposit := 1,
                   min_withdraw := 1, staking_sol_cap := - 1\<rparr> in
     bindR (liq_pool_initialize_process rt key ac lpm leg (id_liq_pool data) w2 st3) (\<lambda>st4.
     Inr (st4, w2)))))"

definition check_rent_exempt :: "runtime \<Rightarrow> world \<Rightarrow> pubkey \<Rightarrow> unit result" where
  "check_rent_exempt rt w k =
     require (rt_is_exempt rt (acc_lamports w k) (length (acc_data w k))) Constraint"

definition initialize ::
  "runtime \<Rightarrow> call_context \<Rightarrow> pubkey \<Rightarrow> initialize_accounts \<Rightarrow> initialize_data \<Rightarrow> world
    \<Rightarrow> (state \<times> world) result" where
  "initialize rt cx key ac data w =
     bindR (check_attributes cx [in_creator_authority ac]
              [key, in_stake_list ac, in_validator_list ac]) (\<lambda>_.
     bindR (all_ok [check_zero_account rt w key, check_rent_exempt rt w (in_stake_list ac),
                    check_rent_exempt rt w (in_validator_list ac)]) (\<lambda>_.
     bindR (load_mint w (in_msol_mint ac)) (\<lambda>mt.
     bindR (load_mint w (il_lp_mint (in_liq_pool ac))) (\<lambda>lpm.
     bindR (load_token w (il_msol_leg (in_liq_pool ac))) (\<lambda>leg.
     bindR (load_token w (in_treasury_msol_account ac)) (\<lambda>treasury.
     bindR (check_context cx) (\<lambda>_.
     initialize_process rt key ac mt treasury lpm leg data state_zero w)))))))"

section \<open>Configuration\<close>

record config_marinade_params =
  cp_rewards_fee :: "fee option"
  cp_slots_for_stake_delta :: "u64 option"
  cp_min_stake :: "u64 option"
  cp_min_deposit :: "u64 option"
  cp_min_withdraw :: "u64 option"
  cp_staking_sol_cap :: "u64 option"
  cp_liquidity_sol_cap :: "u64 option"
  cp_auto_add_validator_enabled :: "bool option"

definition MIN_WITHDRAW_CAP :: u64 where
  "MIN_WITHDRAW_CAP = 1000000000 div 10"

definition MIN_UPDATE_WINDOW :: u64 where
  "MIN_UPDATE_WINDOW = 3000"

text \<open>\<open>if let Some(x) = p { check(x)?; update(x) }\<close>\<close>

definition if_some ::
  "'a option \<Rightarrow> ('a \<Rightarrow> 's \<Rightarrow> 'e + unit) \<Rightarrow> ('a \<Rightarrow> 's \<Rightarrow> 's) \<Rightarrow> 's \<Rightarrow> 'e + 's" where
  "if_some p chk upd s = (case p of None \<Rightarrow> Inr s
     | Some x \<Rightarrow> bindR (chk x s) (\<lambda>_. Inr (upd x s)))"

definition config_marinade_process :: "pubkey \<Rightarrow> config_marinade_params \<Rightarrow> state \<Rightarrow> state result" where
  "config_marinade_process admin p st =
     bindR (check_admin_authority st admin) (\<lambda>_.
     bindR (if_some (cp_rewards_fee p) (\<lambda>f s. fee_check_max f MAX_REWARD_FEE)
              (\<lambda>f s. s\<lparr>reward_fee := f\<rparr>) st) (\<lambda>st1.
     bindR (if_some (cp_slots_for_stake_delta p)
              (\<lambda>n s. require (\<not> n < MIN_UPDATE_WINDOW) (Common NumberTooLow))
              (\<lambda>n s. s\<lparr>stake_system := (stake_system s)\<lparr>slots_for_stake_delta := n\<rparr>\<rparr>) st1) (\<lambda>st2.
     bindR (if_some (cp_min_stake p)
              (\<lambda>n s. bindR (pmul 5 (rent_exempt_for_token_acc s)) (\<lambda>min_accepted.
                       require (\<not> n < min_accepted) (Common NumberTooLow)))
              (\<lambda>n s. s\<lparr>stake_system := (stake_system s)\<lparr>min_stake := n\<rparr>\<rparr>) st2) (\<lambda>st3.
     bindR (if_some (cp_min_deposit p) (\<lambda>n s. Inr ()) (\<lambda>n s. s\<lparr>min_deposit := n\<rparr>) st3) (\<lambda>st4.
     bindR (if_some (cp_min_withdraw p)
              (\<lambda>n s. require (\<not> n > MIN_WITHDRAW_CAP) (Common NumberTooHigh))
              (\<lambda>n s. s\<lparr>min_withdraw := n\<rparr>) st4) (\<lambda>st5.
     bindR (if_some (cp_staking_sol_cap p) (\<lambda>n s. Inr ()) (\<lambda>n s. s\<lparr>staking_sol_cap := n\<rparr>) st5)
       (\<lambda>st6.
     bindR (if_some (cp_liquidity_sol_cap p) (\<lambda>n s. Inr ())
              (\<lambda>n s. s\<lparr>liq_pool := (liq_pool s)\<lparr>liquidity_sol_cap := n\<rparr>\<rparr>) st6) (\<lambda>st7.
     if_some (cp_auto_add_validator_enabled p) (\<lambda>b s. Inr ())
       (\<lambda>b s. s\<lparr>validator_system := (validator_system s)\<lparr>auto_add_validator_enabled :=
                  if b then 1 else 0\<rparr>\<rparr>) st7))))))))"

definition config_marinade ::
  "call_context \<Rightarrow> pubkey \<Rightarrow> pubkey \<Rightarrow> config_marinade_params \<Rightarrow> state \<Rightarrow> state result" where
  "config_marinade cx key admin p st =
     bindR (check_attributes cx [admin] [key]) (\<lambda>_.
     bindR (check_context cx) (\<lambda>_.
     config_marinade_process admin p st))"

section \<open>Authorities\<close>

record change_authority_data =
  ca_admin :: "pubkey option"
  ca_validator_manager :: "pubkey option"
  ca_operational_sol_account :: "pubkey option"
  ca_treasury_msol_account :: "pubkey option"

definition change_authority_process ::
  "pubkey \<Rightarrow> change_authority_data \<Rightarrow> state \<Rightarrow> state result" where
  "change_authority_process admin d st =
     bindR (check_admin_authority st admin) (\<lambda>_.
     bindR (if_some (ca_admin d) (\<lambda>k s. Inr ()) (\<lambda>k s. s\<lparr>admin_authority := k\<rparr>) st) (\<lambda>st1.
     bindR (if_some (ca_validator_manager d) (\<lambda>k s. Inr ())
              (\<lambda>k s. s\<lparr>validator_system := (validator_system s)\<lparr>manager_authority := k\<rparr>\<rparr>) st1)
       (\<lambda>st2.
     bindR (if_some (ca_operational_sol_account d) (\<lambda>k s. Inr ())
              (\<lambda>k s. s\<lparr>operational_sol_account := k\<rparr>) st2) (\<lambda>st3.
     if_some (ca_treasury_msol_account d) (\<lambda>k s. Inr ())
       (\<lambda>k s. s\<lparr>treasury_msol_account := k\<rparr>) st3))))"

definition change_authority ::
  "call_context \<Rightarrow> pubkey \<Rightarrow> pubkey \<Rightarrow> change_authority_data \<Rightarrow> state \<Rightarrow> state result" where
  "change_authority cx key admin d st =
     bindR (check_attributes cx [admin] [key]) (\<lambda>_.
     bindR (check_context cx) (\<lambda>_.
     change_authority_process admin d st))"

section \<open>Facts\<close>

text \<open>The invariant of the parameters.\<close>

definition params_ok :: "state \<Rightarrow> bool" where
  "params_ok st \<longleftrightarrow> basis_points (reward_fee st) \<le> MAX_REWARD_FEE \<and> pool_fees_ok (liq_pool st)
     \<and> min_withdraw st \<le> MIN_WITHDRAW_CAP"

definition or_keep :: "'a option \<Rightarrow> 'a \<Rightarrow> 'a" where
  "or_keep p x = (case p of None \<Rightarrow> x | Some y \<Rightarrow> y)"

lemma or_keep_simps [simp]: "or_keep None x = x" "or_keep (Some y) x = y"
  by (simp_all add: or_keep_def)

lemma if_some_Inr [result_simps]:
  "if_some p chk upd s = Inr s' \<longleftrightarrow> (\<forall>x. p = Some x \<longrightarrow> chk x s = Inr ())
     \<and> s' = (case p of None \<Rightarrow> s | Some x \<Rightarrow> upd x s)"
  by (auto simp: if_some_def bindR_Inr split: option.splits)

lemma check_fees_eq: "check_fees = check_lp_fees"
  by (simp add: check_fees_def check_lp_fees_def fun_eq_iff)

text \<open>An optional update of one field, without the case distinction.\<close>

lemma or_keep_update:
  "(case p of None \<Rightarrow> s | Some x \<Rightarrow> s\<lparr>reward_fee := x\<rparr>) = s\<lparr>reward_fee := or_keep p (reward_fee s)\<rparr>"
  "(case q of None \<Rightarrow> s | Some x \<Rightarrow> s\<lparr>min_deposit := x\<rparr>) = s\<lparr>min_deposit := or_keep q (min_deposit s)\<rparr>"
  "(case q of None \<Rightarrow> s | Some x \<Rightarrow> s\<lparr>min_withdraw := x\<rparr>) = s\<lparr>min_withdraw := or_keep q (min_withdraw s)\<rparr>"
  "(case q of None \<Rightarrow> s | Some x \<Rightarrow> s\<lparr>staking_sol_cap := x\<rparr>)
     = s\<lparr>staking_sol_cap := or_keep q (staking_sol_cap s)\<rparr>"
  "(case q of None \<Rightarrow> s | Some x \<Rightarrow> s\<lparr>stake_system := (stake_system s)\<lparr>slots_for_stake_delta := x\<rparr>\<rparr>)
     = s\<lparr>stake_system := (stake_system s)
          \<lparr>slots_for_stake_delta := or_keep q (slots_for_stake_delta (stake_system s))\<rparr>\<rparr>"
  "(case q of None \<Rightarrow> s | Some x \<Rightarrow> s\<lparr>stake_system := (stake_system s)\<lparr>min_stake := x\<rparr>\<rparr>)
     = s\<lparr>stake_system := (stake_system s)\<lparr>min_stake := or_keep q (min_stake (stake_system s))\<rparr>\<rparr>"
  "(case q of None \<Rightarrow> s | Some x \<Rightarrow> s\<lparr>liq_pool := (liq_pool s)\<lparr>liquidity_sol_cap := x\<rparr>\<rparr>)
     = s\<lparr>liq_pool := (liq_pool s)\<lparr>liquidity_sol_cap := or_keep q (liquidity_sol_cap (liq_pool s))\<rparr>\<rparr>"
  "(case b of None \<Rightarrow> s | Some x \<Rightarrow> s\<lparr>validator_system := (validator_system s)
        \<lparr>auto_add_validator_enabled := if x then 1 else 0\<rparr>\<rparr>)
     = s\<lparr>validator_system := (validator_system s)\<lparr>auto_add_validator_enabled :=
         or_keep (map_option (\<lambda>x. if x then 1 else 0) b)
           (auto_add_validator_enabled (validator_system s))\<rparr>\<rparr>"
  "(case k of None \<Rightarrow> s | Some x \<Rightarrow> s\<lparr>admin_authority := x\<rparr>)
     = s\<lparr>admin_authority := or_keep k (admin_authority s)\<rparr>"
  "(case k of None \<Rightarrow> s | Some x \<Rightarrow> s\<lparr>operational_sol_account := x\<rparr>)
     = s\<lparr>operational_sol_account := or_keep k (operational_sol_account s)\<rparr>"
  "(case k of None \<Rightarrow> s | Some x \<Rightarrow> s\<lparr>treasury_msol_account := x\<rparr>)
     = s\<lparr>treasury_msol_account := or_keep k (treasury_msol_account s)\<rparr>"
  "(case k of None \<Rightarrow> s | Some x \<Rightarrow> s\<lparr>validator_system := (validator_system s)\<lparr>manager_authority := x\<rparr>\<rparr>)
     = s\<lparr>validator_system := (validator_system s)
          \<lparr>manager_authority := or_keep k (manager_authority (validator_system s))\<rparr>\<rparr>"
  by (cases p; cases q; cases b; cases k; simp)+

lemmas config_defs = config_marinade_def config_marinade_process_def MIN_UPDATE_WINDOW_def
  MIN_WITHDRAW_CAP_def MAX_REWARD_FEE_def

lemma config_marinade_effect:
  assumes "config_marinade cx key admin p st = Inr st'"
  shows "admin = admin_authority st" and "cx_signer cx admin"
    and "\<forall>f \<in> set_option (cp_rewards_fee p). basis_points f \<le> 1000"
    and "\<forall>n \<in> set_option (cp_slots_for_stake_delta p). 3000 \<le> n"
    and "\<forall>n \<in> set_option (cp_min_stake p). 5 * unat (rent_exempt_for_token_acc st) \<le> unat n"
    and "\<forall>n \<in> set_option (cp_min_withdraw p). n \<le> 100000000"
    and "st' = st\<lparr>reward_fee := or_keep (cp_rewards_fee p) (reward_fee st),
      stake_system := (stake_system st)
        \<lparr>slots_for_stake_delta := or_keep (cp_slots_for_stake_delta p)
           (slots_for_stake_delta (stake_system st)),
         min_stake := or_keep (cp_min_stake p) (min_stake (stake_system st))\<rparr>,
      validator_system := (validator_system st)\<lparr>auto_add_validator_enabled :=
         or_keep (map_option (\<lambda>b. if b then 1 else 0) (cp_auto_add_validator_enabled p))
           (auto_add_validator_enabled (validator_system st))\<rparr>,
      liq_pool := (liq_pool st)\<lparr>liquidity_sol_cap := or_keep (cp_liquidity_sol_cap p)
         (liquidity_sol_cap (liq_pool st))\<rparr>,
      min_deposit := or_keep (cp_min_deposit p) (min_deposit st),
      min_withdraw := or_keep (cp_min_withdraw p) (min_withdraw st),
      staking_sol_cap := or_keep (cp_staking_sol_cap p) (staking_sol_cap st)\<rparr>"
  using assms
  by (auto simp: config_defs bindR_Inr if_some_Inr check_attributes_Inr state_checks_Inr
      fee_check_max_Inr ok_or_Inr checked_mul_Some or_keep_update not_less word_le_nat_alt mult.commute)

lemma config_marinade_params_ok:
  assumes "config_marinade cx key admin p st = Inr st'" and "params_ok st"
  shows "params_ok st'"
proof -
  note e = config_marinade_effect [OF assms(1)]
  show ?thesis
    using assms(2) e(3,6)
    by (cases "cp_rewards_fee p"; cases "cp_min_withdraw p")
      (simp_all add: e(7) params_ok_def pool_fees_ok_def fees_ordered_def MAX_REWARD_FEE_def
        MIN_WITHDRAW_CAP_def)
qed

lemma change_authority_effect:
  assumes "change_authority cx key admin d st = Inr st'"
  shows "admin = admin_authority st" and "cx_signer cx admin"
    and "st' = st\<lparr>admin_authority := or_keep (ca_admin d) (admin_authority st),
      validator_system := (validator_system st)\<lparr>manager_authority :=
         or_keep (ca_validator_manager d) (manager_authority (validator_system st))\<rparr>,
      operational_sol_account := or_keep (ca_operational_sol_account d) (operational_sol_account st),
      treasury_msol_account := or_keep (ca_treasury_msol_account d) (treasury_msol_account st)\<rparr>"
  using assms
  by (auto simp: change_authority_def change_authority_process_def bindR_Inr if_some_Inr
      check_attributes_Inr state_checks_Inr or_keep_update)

lemma list_new_Inr:
  "list_new disc sz k data = Inr (l, data') \<longleftrightarrow> 8 \<le> length data \<and> take 8 data = replicate 8 0
     \<and> l = \<lparr>account = k, item_size = sz, count = 0, new_account = pubkey_default, copied_count = 0\<rparr>
     \<and> data' = overwrite data 0 disc"
  by (auto simp: list_new_def init_account_def result_simps Let_def)

lemma list_new_rep:
  assumes "list_new disc sz k data = Inr (l, data')" and "length disc = 8" and "0 < n"
    and "n \<le> unat sz" and "length data < 2 ^ 32"
  shows "list_rep de n l data' []" and "take 8 data' = disc" and "account l = k"
  using assms by (auto simp: list_new_Inr list_rep_def overwrite_def)

lemma discriminators [simp]:
  "length STAKE_DISCRIMINATOR = 8" "length VALIDATOR_DISCRIMINATOR = 8"
  "STAKE_DISCRIMINATOR \<noteq> replicate 8 0"
proof -
  have "STAKE_DISCRIMINATOR ! 0 \<noteq> replicate 8 0 ! 0"
    by (simp add: STAKE_DISCRIMINATOR_def ascii_def of_char_def)
  then show "STAKE_DISCRIMINATOR \<noteq> replicate 8 0" by metis
qed (simp_all add: STAKE_DISCRIMINATOR_def VALIDATOR_DISCRIMINATOR_def ascii_def)

lemma item_size_fits:
  assumes "padd (word_of_nat n :: u32) extra = Inr sz" and "n < 2 ^ 32"
  shows "n \<le> unat sz"
  using assms unat_of_nat_small [of n, where 'a = 32] by (simp add: result_simps)

lemma initialize_checks_Inr:
  assumes "initialize_checks rt key ac mt treasury data w st = Inr st'"
  shows "in_creator_authority ac = CREATOR_AUTHORITY"
    and "basis_points (id_reward_fee data) \<le> MAX_REWARD_FEE"
    and "st' = st\<lparr>rent_exempt_for_token_acc := rt_minimum_balance rt (rt_token_account_len rt),
      reserve_bump_seed := snd (find_reserve_address rt key),
      msol_mint_authority_bump_seed := snd (find_msol_mint_authority rt key)\<rparr>"
    and "in_reserve_pda ac = fst (find_reserve_address rt key)"
    and "acc_lamports w (in_reserve_pda ac) = rt_minimum_balance rt (rt_token_account_len rt)"
    and "mt_authority mt = Some (fst (find_msol_mint_authority rt key))"
    and "mt_supply mt = 0" and "mt_freeze mt = None"
    and "acc_owner w (in_stake_list ac) = ID" and "acc_owner w (in_validator_list ac) = ID"
    and "acc_owner w (in_treasury_msol_account ac) = rt_spl_token rt"
    and "tk_mint treasury = in_msol_mint ac"
  using assms
  by (auto simp: initialize_checks_def check_reserve_pda_def initialize_check_msol_mint_def
      check_treasury_accounts_def result_simps Let_def split: prod.splits)

lemma liq_pool_initialize_Inr:
  assumes "liq_pool_initialize_process rt key ac lpm leg d w st = Inr st'"
  shows "st' = st\<lparr>liq_pool := (liq_pool st)
      \<lparr>lp_mint_authority_bump_seed := snd (find_lp_mint_authority rt key),
       sol_leg_bump_seed := snd (find_sol_leg_address rt key),
       msol_leg_authority_bump_seed := snd (find_msol_leg_authority rt key),
       lp_mint := il_lp_mint (in_liq_pool ac), msol_leg := il_msol_leg (in_liq_pool ac),
       treasury_cut := ld_lp_treasury_cut d, lp_liquidity_target := ld_lp_liquidity_target d,
       lp_min_fee := ld_lp_min_fee d, lp_max_fee := ld_lp_max_fee d, liquidity_sol_cap := - 1\<rparr>\<rparr>"
    and "il_lp_mint (in_liq_pool ac) \<noteq> in_msol_mint ac"
    and "mt_authority lpm = Some (fst (find_lp_mint_authority rt key))"
    and "mt_supply lpm = 0"
    and "il_sol_leg_pda (in_liq_pool ac) = fst (find_sol_leg_address rt key)"
    and "acc_lamports w (il_sol_leg_pda (in_liq_pool ac)) = rent_exempt_for_token_acc st"
    and "tk_mint leg = in_msol_mint ac" and "tk_owner leg = fst (find_msol_leg_authority rt key)"
    and "check_fees (ld_lp_min_fee d) (ld_lp_max_fee d) = Inr ()"
    and "basis_points (ld_lp_treasury_cut d) \<le> 10000"
  using assms
  by (auto simp: liq_pool_initialize_process_def check_liq_mint_def check_sol_account_pda_def
      check_msol_account_def result_simps Let_def split: prod.splits)

lemma stake_system_new_Inr:
  assumes "stake_system_new rt key k data n m x extra = Inr (ss, data')"
  obtains sz where "padd (word_of_nat (stake_record_len rt)) extra = Inr sz"
    and "list_new STAKE_DISCRIMINATOR sz k data = Inr (stake_list ss, data')"
    and "delayed_unstake_cooling_down ss = 0"
    and "stake_deposit_bump_seed ss = snd (find_stake_deposit_authority rt key)"
    and "stake_withdraw_bump_seed ss = snd (find_stake_withdraw_authority rt key)"
  using assms by (auto simp: stake_system_new_def bindR_Inr)

lemma validator_system_new_Inr:
  assumes "validator_system_new rt k data man extra = Inr (vs, data')"
  obtains sz where "padd (word_of_nat (validator_record_len rt)) extra = Inr sz"
    and "list_new VALIDATOR_DISCRIMINATOR sz k data = Inr (validator_list vs, data')"
    and "total_validator_score vs = 0" and "total_active_balance vs = 0"
    and "manager_authority vs = man"
  using assms by (auto simp: validator_system_new_def bindR_Inr)

text \<open>The account sizes of the chain: at most 10 MiB, and records of fixed small size.\<close>

definition small_lists :: "runtime \<Rightarrow> initialize_accounts \<Rightarrow> world \<Rightarrow> bool" where
  "small_lists rt ac w \<longleftrightarrow> stake_record_len rt < 2 ^ 32 \<and> validator_record_len rt < 2 ^ 32
     \<and> length (acc_data w (in_stake_list ac)) < 2 ^ 32
     \<and> length (acc_data w (in_validator_list ac)) < 2 ^ 32"

context marinade_runtime
begin

lemma initialize_effect:
  assumes run: "initialize rt cx key ac data w = Inr (st', w')" and small: "small_lists rt ac w"
  shows "in_creator_authority ac = CREATOR_AUTHORITY" and "cx_signer cx CREATOR_AUTHORITY"
    and "params_ok st'" and "validators_held rt st' w' []" and "stakes_held rt st' w' []"
    and "take 8 (acc_data w (in_stake_list ac)) = replicate 8 0"
    and "take 8 (acc_data w (in_validator_list ac)) = replicate 8 0"
    and "in_stake_list ac \<noteq> in_validator_list ac"
    and "reserve_address rt key st' = Inr (in_reserve_pda ac)"
    and "liq_pool_sol_leg_address rt key (liq_pool st') = Inr (il_sol_leg_pda (in_liq_pool ac))"
    and "acc_lamports w (in_reserve_pda ac) = rent_exempt_for_token_acc st'"
    and "acc_lamports w (il_sol_leg_pda (in_liq_pool ac)) = rent_exempt_for_token_acc st'"
    and "mint_supply w (msol_mint st') = 0" and "mint_supply w (lp_mint (liq_pool st')) = 0"
    and "msol_supply st' = 0" and "lp_supply (liq_pool st') = 0" and "under_control st' = 0"
    and "circulating_ticket_balance st' = 0"
    and "\<exists>mt a. acc_mint w (msol_mint st') = Some mt \<and> mt_authority mt = Some a \<and>
           msol_mint_authority rt key st' = Inr a"
    and "acc_lamports w' = acc_lamports w"
    and "account (validator_list (validator_system st')) \<noteq> account (stake_list (stake_system st'))"
    and "auto_add_validator_enabled (validator_system st') = 0"
proof -
  from run obtain mt lpm leg treasury st1 ss sdata vs vdata where
    sign: "cx_signer cx (in_creator_authority ac)"
    and mt: "acc_mint w (in_msol_mint ac) = Some mt"
    and lpm: "acc_mint w (il_lp_mint (in_liq_pool ac)) = Some lpm"
    and chk: "initialize_checks rt key ac mt treasury data w state_zero = Inr st1"
    and ss: "stake_system_new rt key (in_stake_list ac) (acc_data w (in_stake_list ac))
        (id_slots_for_stake_delta data) (id_min_stake data) 0
        (id_additional_stake_record_space data) = Inr (ss, sdata)"
    and vs: "validator_system_new rt (in_validator_list ac)
        (acc_data (put_data (in_stake_list ac) sdata w) (in_validator_list ac))
        (id_validator_manager_authority data) (id_additional_validator_record_space data)
        = Inr (vs, vdata)"
    and lp: "liq_pool_initialize_process rt key ac lpm leg (id_liq_pool data)
        (put_data (in_validator_list ac) vdata (put_data (in_stake_list ac) sdata w))
        (st1\<lparr>msol_mint := in_msol_mint ac, admin_authority := id_admin_authority data,
           operational_sol_account := in_operational_sol_account ac,
           reward_fee := id_reward_fee data, stake_system := ss, validator_system := vs,
           msol_price := PRICE_DENOMINATOR, treasury_msol_account := in_treasury_msol_account ac,
           min_deposit := 1, min_withdraw := 1, staking_sol_cap := - 1\<rparr>) = Inr st'"
    and w': "w' = put_data (in_validator_list ac) vdata (put_data (in_stake_list ac) sdata w)"
    by (auto simp: initialize_def initialize_process_def bindR_Inr load_mint_def load_token_def
        ok_or_Inr check_attributes_Inr Let_def simp del: put_data_simps)
  note c = initialize_checks_Inr [OF chk] and l = liq_pool_initialize_Inr [OF lp]
  from ss obtain ssz where ssz: "padd (word_of_nat (stake_record_len rt))
      (id_additional_stake_record_space data) = Inr ssz"
    and snew: "list_new STAKE_DISCRIMINATOR ssz (in_stake_list ac) (acc_data w (in_stake_list ac))
      = Inr (stake_list ss, sdata)" and s0: "delayed_unstake_cooling_down ss = 0"
    by (rule stake_system_new_Inr)
  from vs obtain vsz where vsz: "padd (word_of_nat (validator_record_len rt))
      (id_additional_validator_record_space data) = Inr vsz"
    and vnew: "list_new VALIDATOR_DISCRIMINATOR vsz (in_validator_list ac)
      (acc_data (put_data (in_stake_list ac) sdata w) (in_validator_list ac))
      = Inr (validator_list vs, vdata)"
    and v0: "total_validator_score vs = 0" "total_active_balance vs = 0"
    by (rule validator_system_new_Inr)
  have spos: "0 < stake_record_len rt" and vpos: "0 < validator_record_len rt"
    by (rule stakes.codec_pos, rule validators.codec_pos)
  note srep = list_new_rep [OF snew discriminators(1) spos]
  have apart: "in_stake_list ac \<noteq> in_validator_list ac"
  proof
    assume eq: "in_stake_list ac = in_validator_list ac"
    have "take 8 sdata = replicate 8 0" using vnew eq by (simp add: list_new_Inr)
    moreover have "take 8 sdata = STAKE_DISCRIMINATOR"
      using snew by (auto simp: list_new_Inr overwrite_def)
    ultimately show False by simp
  qed
  show "in_stake_list ac \<noteq> in_validator_list ac" by (rule apart)
  have vnew': "list_new VALIDATOR_DISCRIMINATOR vsz (in_validator_list ac)
      (acc_data w (in_validator_list ac)) = Inr (validator_list vs, vdata)"
    using vnew apart by simp
  have sz: "stake_record_len rt \<le> unat ssz" "validator_record_len rt \<le> unat vsz"
    using item_size_fits [OF ssz] item_size_fits [OF vsz] small by (auto simp: small_lists_def)
  have st': "stake_system st' = ss" "validator_system st' = vs" "msol_supply st' = 0"
    "reward_fee st' = id_reward_fee data" "min_withdraw st' = 1"
    by (simp_all add: l(1) c(3) state_zero_def)
  show "stakes_held rt st' w' []" "validators_held rt st' w' []"
    using list_new_rep(1) [OF snew discriminators(1) spos sz(1)]
      list_new_rep(1) [OF vnew' discriminators(2) vpos sz(2)] small c(9,10) apart snew vnew' v0
    by (auto simp: stakes_held_def validators_held_def validators_rep_def Let_def st' w'
        small_lists_def list_new_Inr)
  show "take 8 (acc_data w (in_stake_list ac)) = replicate 8 0"
    "take 8 (acc_data w (in_validator_list ac)) = replicate 8 0"
    using snew vnew' by (simp_all add: list_new_Inr)
  show "in_creator_authority ac = CREATOR_AUTHORITY" "cx_signer cx CREATOR_AUTHORITY"
    using c(1) sign by auto
  have "pool_fees_ok (liq_pool st')"
    using l(9,10) by (auto simp: l(1) pool_fees_ok_def fees_ordered_def check_fees_def result_simps
        not_less)
  then show "params_ok st'"
    using c(2) by (simp add: params_ok_def st' MIN_WITHDRAW_CAP_def)
  show "reserve_address rt key st' = Inr (in_reserve_pda ac)"
    using derived_reserve [of key "in_reserve_pda ac" "reserve_bump_seed st'" st'] c(4)
    by (simp add: l(1) c(3) prod_eq_iff)
  show "liq_pool_sol_leg_address rt key (liq_pool st') = Inr (il_sol_leg_pda (in_liq_pool ac))"
    using derived_sol_leg [of key "il_sol_leg_pda (in_liq_pool ac)" "sol_leg_bump_seed (liq_pool st')"
        "liq_pool st'"] l(5) by (simp add: l(1) prod_eq_iff)
  show "\<exists>mt a. acc_mint w (msol_mint st') = Some mt \<and> mt_authority mt = Some a \<and>
      msol_mint_authority rt key st' = Inr a"
    using mt c(6) derived_msol_mint_authority [of key "fst (find_msol_mint_authority rt key)"
        "msol_mint_authority_bump_seed st'" st'] by (simp add: l(1) c(3) prod_eq_iff)
  show "acc_lamports w (in_reserve_pda ac) = rent_exempt_for_token_acc st'"
    "acc_lamports w (il_sol_leg_pda (in_liq_pool ac)) = rent_exempt_for_token_acc st'"
    using c(5) l(6) by (simp_all add: l(1) c(3))
  show "mint_supply w (msol_mint st') = 0" "mint_supply w (lp_mint (liq_pool st')) = 0"
    using mt lpm c(7) l(4) by (simp_all add: mint_supply_def l(1))
  show "msol_supply st' = 0" "lp_supply (liq_pool st') = 0" "under_control st' = 0"
    "circulating_ticket_balance st' = 0" "acc_lamports w' = acc_lamports w"
    using s0 v0 by (simp_all add: l(1) c(3) state_zero_def under_control_def w')
  show "account (validator_list (validator_system st')) \<noteq> account (stake_list (stake_system st'))"
    using apart snew vnew by (auto simp: l(1) list_new_Inr)
  show "auto_add_validator_enabled (validator_system st') = 0"
    using vs by (auto simp: l(1) validator_system_new_def bindR_Inr)
qed

end

section \<open>Properties\<close>

text \<open>
  C25. Only the creator of the program can initialise an instance, and only over empty list
  accounts, two different ones, so that no list that is in use can be taken over. The new
  instance has valid parameters, both lists empty and their totals zero, nothing under control
  and no mSOL or LP supply, exactly the rent in the reserve and in the pool's SOL account, and
  bump seeds that derive the very reserve, pool account and mint authority that were checked.
\<close>
theorem initialize_establishes:
  assumes "marinade_runtime rt" and "small_lists rt ac w"
    and "initialize rt cx key ac data w = Inr (st', w')"
  shows "cx_signer cx CREATOR_AUTHORITY
    \<and> take 8 (acc_data w (in_stake_list ac)) = replicate 8 0
    \<and> take 8 (acc_data w (in_validator_list ac)) = replicate 8 0
    \<and> in_stake_list ac \<noteq> in_validator_list ac
    \<and> params_ok st' \<and> validators_held rt st' w' [] \<and> stakes_held rt st' w' []
    \<and> under_control st' = 0 \<and> circulating_ticket_balance st' = 0
    \<and> msol_supply st' = mint_supply w (msol_mint st') \<and> msol_supply st' = 0
    \<and> lp_supply (liq_pool st') = mint_supply w (lp_mint (liq_pool st')) \<and> lp_supply (liq_pool st') = 0
    \<and> reserve_address rt key st' = Inr (in_reserve_pda ac)
    \<and> acc_lamports w' (in_reserve_pda ac) = rent_exempt_for_token_acc st'
    \<and> liq_pool_sol_leg_address rt key (liq_pool st') = Inr (il_sol_leg_pda (in_liq_pool ac))
    \<and> acc_lamports w' (il_sol_leg_pda (in_liq_pool ac)) = rent_exempt_for_token_acc st'
    \<and> (\<exists>mt a. acc_mint w (msol_mint st') = Some mt \<and> mt_authority mt = Some a
         \<and> msol_mint_authority rt key st' = Inr a)"
  using marinade_runtime.initialize_effect [OF assms(1,3,2)] by simp

text \<open>
  Only the admin changes the configuration. Each given parameter is stored after its check
  (rewards fee at most 10%, delta window at least 3000 slots, minimum stake at least five rents,
  minimum withdrawal at most 0.1 SOL), each absent one keeps its value, nothing else changes, and
  the parameters stay valid.
\<close>
lemma config_marinade_valid:
  assumes "config_marinade cx key admin p st = Inr st'" and "params_ok st"
  shows "cx_signer cx (admin_authority st) \<and> params_ok st'
    \<and> (\<forall>n \<in> set_option (cp_slots_for_stake_delta p). 3000 \<le> n)
    \<and> (\<forall>n \<in> set_option (cp_min_stake p). 5 * unat (rent_exempt_for_token_acc st) \<le> unat n)
    \<and> st' = st\<lparr>reward_fee := or_keep (cp_rewards_fee p) (reward_fee st),
      stake_system := (stake_system st)
        \<lparr>slots_for_stake_delta := or_keep (cp_slots_for_stake_delta p)
           (slots_for_stake_delta (stake_system st)),
         min_stake := or_keep (cp_min_stake p) (min_stake (stake_system st))\<rparr>,
      validator_system := (validator_system st)\<lparr>auto_add_validator_enabled :=
         or_keep (map_option (\<lambda>b. if b then 1 else 0) (cp_auto_add_validator_enabled p))
           (auto_add_validator_enabled (validator_system st))\<rparr>,
      liq_pool := (liq_pool st)\<lparr>liquidity_sol_cap := or_keep (cp_liquidity_sol_cap p)
         (liquidity_sol_cap (liq_pool st))\<rparr>,
      min_deposit := or_keep (cp_min_deposit p) (min_deposit st),
      min_withdraw := or_keep (cp_min_withdraw p) (min_withdraw st),
      staking_sol_cap := or_keep (cp_staking_sol_cap p) (staking_sol_cap st)\<rparr>"
proof -
  note e = config_marinade_effect [OF assms(1)]
  with config_marinade_params_ok [OF assms] show ?thesis by blast
qed

text \<open>
  Only the admin changes the authorities, and the change is exactly the given keys: no
  balance, supply, list or parameter moves.
\<close>
lemma change_authority_exact:
  assumes "change_authority cx key admin d st = Inr st'"
  shows "admin = admin_authority st \<and> cx_signer cx admin
    \<and> st' = st\<lparr>admin_authority := or_keep (ca_admin d) (admin_authority st),
      validator_system := (validator_system st)\<lparr>manager_authority :=
         or_keep (ca_validator_manager d) (manager_authority (validator_system st))\<rparr>,
      operational_sol_account := or_keep (ca_operational_sol_account d) (operational_sol_account st),
      treasury_msol_account := or_keep (ca_treasury_msol_account d) (treasury_msol_account st)\<rparr>"
  using change_authority_effect [OF assms] by blast

section \<open>Runs\<close>

definition ex_init_world :: world where
  "ex_init_world = \<lparr>acc_lamports = (\<lambda>_. 0)(1 := 10000000, 20 := 10000000, 21 := 10000000,
       ex_reserve := 2039280, ex_sol_leg := 2039280),
     acc_owner = (\<lambda>_. 0)(1 := ID, 10 := 6, 11 := 6, 12 := 6, 13 := 6, 20 := ID, 21 := ID),
     acc_data = (\<lambda>_. [])(1 := replicate 100 0, 20 := replicate 106 0, 21 := replicate 114 0),
     acc_token = Map.empty(11 \<mapsto> ex_token 10 ex_leg_auth 0, 13 \<mapsto> ex_token 10 15 0),
     acc_mint = Map.empty(10 \<mapsto> \<lparr>mt_supply = 0, mt_authority = Some ex_mint_auth,
         mt_freeze = None\<rparr>,
       12 \<mapsto> \<lparr>mt_supply = 0, mt_authority = Some ex_lp_auth, mt_freeze = None\<rparr>),
     acc_stake = Map.empty, acc_ticket = Map.empty\<rparr>"

definition ex_init :: initialize_accounts where
  "ex_init = \<lparr>in_creator_authority = CREATOR_AUTHORITY, in_reserve_pda = ex_reserve,
     in_stake_list = 20, in_validator_list = 21, in_msol_mint = 10,
     in_operational_sol_account = 14,
     in_liq_pool = \<lparr>il_lp_mint = 12, il_sol_leg_pda = ex_sol_leg, il_msol_leg = 11\<rparr>,
     in_treasury_msol_account = 13\<rparr>"

definition ex_init_data :: initialize_data where
  "ex_init_data = \<lparr>id_admin_authority = 30, id_validator_manager_authority = 31,
     id_min_stake = 1000, id_reward_fee = from_basis_points 200,
     id_liq_pool = \<lparr>ld_lp_liquidity_target = 100000000000, ld_lp_max_fee = from_basis_points 300,
       ld_lp_min_fee = from_basis_points 30, ld_lp_treasury_cut = from_basis_points 2500\<rparr>,
     id_additional_stake_record_space = 0, id_additional_validator_record_space = 0,
     id_slots_for_stake_delta = 24000\<rparr>"

definition ex_creator_cx :: call_context where
  "ex_creator_cx = ex_cx\<lparr>cx_signer := \<lambda>k. k = CREATOR_AUTHORITY\<rparr>"

lemma ex_find [simp]:
  "fst (find_reserve_address ref_rt ex_key) = ex_reserve"
  "fst (find_msol_mint_authority ref_rt ex_key) = ex_mint_auth"
  "fst (find_sol_leg_address ref_rt ex_key) = ex_sol_leg"
  "fst (find_lp_mint_authority ref_rt ex_key) = ex_lp_auth"
  "fst (find_msol_leg_authority ref_rt ex_key) = ex_leg_auth"
  by (simp_all only: ex_reserve_def ex_mint_auth_def ex_sol_leg_def ex_lp_auth_def ex_leg_auth_def)

lemmas ex_init_simps = run_simps ex_init_world_def ex_init_def ex_init_data_def ex_token_def
  ref_minimum_balance_def split_beta from_basis_points_def fee_check_def fee_check_max_def
  MAX_REWARD_FEE_def

lemma ex_init_runs:
  obtains st' w' where "initialize ref_rt ex_creator_cx ex_key ex_init ex_init_data ex_init_world
    = Inr (st', w')"
proof -
  let ?m = "\<lparr>mt_supply = 0, mt_authority = Some ex_mint_auth, mt_freeze = None\<rparr>"
    and ?lm = "\<lparr>mt_supply = 0, mt_authority = Some ex_lp_auth, mt_freeze = None\<rparr>"
  have c: "\<exists>st1. initialize_checks ref_rt ex_key ex_init ?m (ex_token 10 15 0) ex_init_data
      ex_init_world state_zero = Inr st1 \<and> rent_exempt_for_token_acc st1 = 2039280"
    by (simp add: initialize_checks_def check_reserve_pda_def initialize_check_msol_mint_def
        check_treasury_accounts_def ex_init_simps)
  have l: "\<not> isl (liq_pool_initialize_process ref_rt ex_key ex_init ?lm (ex_token 10 ex_leg_auth 0)
      (id_liq_pool ex_init_data) (put_data 21 vd (put_data 20 sd ex_init_world)) st)"
    if "rent_exempt_for_token_acc st = 2039280" for vd sd st
    using that by (simp add: liq_pool_initialize_process_def check_liq_mint_def
        check_sol_account_pda_def check_msol_account_def check_fees_def ex_init_simps)
  have k: "check_zero_account ref_rt ex_init_world ex_key = Inr ()"
    by (simp add: check_zero_account_def ex_init_simps ex_key_def byte_slice_def)
  obtain st1 where c1: "initialize_checks ref_rt ex_key ex_init ?m (ex_token 10 15 0) ex_init_data
      ex_init_world state_zero = Inr st1" and r: "rent_exempt_for_token_acc st1 = 2039280"
    using c by blast
  obtain ss sd where s: "stake_system_new ref_rt ex_key 20 (replicate 106 0) 24000 1000 0 0
      = Inr (ss, sd)"
    by (simp add: stake_system_new_def list_new_def init_account_def run_simps)
  obtain vs vd where v: "validator_system_new ref_rt 21 (replicate 114 0) 31 0 = Inr (vs, vd)"
    by (simp add: validator_system_new_def list_new_def init_account_def run_simps)
  have a: "acc_data ex_init_world 20 = replicate 106 0" "acc_data ex_init_world 21 = replicate 114 0"
    "acc_mint ex_init_world 10 = Some ?m" "acc_mint ex_init_world 12 = Some ?lm"
    "acc_token ex_init_world 11 = Some (ex_token 10 ex_leg_auth 0)"
    "acc_token ex_init_world 13 = Some (ex_token 10 15 0)"
    "acc_lamports ex_init_world 20 = 10000000" "acc_lamports ex_init_world 21 = 10000000"
    by (simp_all add: ex_init_world_def)
  have i: "in_creator_authority ex_init = CREATOR_AUTHORITY" "in_stake_list ex_init = 20"
    "in_validator_list ex_init = 21" "in_msol_mint ex_init = 10"
    "il_lp_mint (in_liq_pool ex_init) = 12" "il_msol_leg (in_liq_pool ex_init) = 11"
    "in_treasury_msol_account ex_init = 13" "in_operational_sol_account ex_init = 14"
    "id_slots_for_stake_delta ex_init_data = 24000" "id_min_stake ex_init_data = 1000"
    "id_additional_stake_record_space ex_init_data = 0"
    "id_validator_manager_authority ex_init_data = 31"
    "id_additional_validator_record_space ex_init_data = 0"
    by (simp_all add: ex_init_def ex_init_data_def)
  have d: "acc_data (put_data 20 sd ex_init_world) 21 = replicate 114 0" by (simp add: a)
  have "\<not> isl (initialize_process ref_rt ex_key ex_init ?m (ex_token 10 15 0) ?lm
      (ex_token 10 ex_leg_auth 0) ex_init_data state_zero ex_init_world)"
    using l [of "st1\<lparr>msol_mint := 10, admin_authority := id_admin_authority ex_init_data,
           operational_sol_account := 14,
           reward_fee := id_reward_fee ex_init_data, stake_system := ss, validator_system := vs,
           msol_price := PRICE_DENOMINATOR, treasury_msol_account := 13,
           min_deposit := 1, min_withdraw := 1, staking_sol_cap := - 1\<rparr>" vd sd]
    by (simp only: initialize_process_def c1 bindR_simps Let_def i a s d v prod.case)
      (auto simp: r isl_def bindR_Inl)
  then have "\<not> isl (initialize ref_rt ex_creator_cx ex_key ex_init ex_init_data ex_init_world)"
    by (simp add: initialize_def k a i load_mint_def load_token_def check_attributes_def
        check_context_def check_rent_exempt_def ex_creator_cx_def ref_minimum_balance_def)
  then show ?thesis
    using that
    by (cases "initialize ref_rt ex_creator_cx ex_key ex_init ex_init_data ex_init_world") auto
qed

lemma initialize_establishes_witness:
  "\<exists>st' w'. initialize ref_rt ex_creator_cx ex_key ex_init ex_init_data ex_init_world = Inr (st', w')
    \<and> params_ok st' \<and> validators_held ref_rt st' w' []"
proof -
  obtain st' w' where
    r: "initialize ref_rt ex_creator_cx ex_key ex_init ex_init_data ex_init_world = Inr (st', w')"
    by (rule ex_init_runs)
  have "small_lists ref_rt ex_init ex_init_world"
    by (simp add: small_lists_def ex_init_def ex_init_world_def)
  from initialize_establishes [OF ref.marinade_runtime_axioms this r] r show ?thesis by blast
qed

definition ex_config :: config_marinade_params where
  "ex_config = \<lparr>cp_rewards_fee = Some (from_basis_points 1000), cp_slots_for_stake_delta = Some 3000,
     cp_min_stake = None, cp_min_deposit = Some 5, cp_min_withdraw = Some 100000000,
     cp_staking_sol_cap = None, cp_liquidity_sol_cap = None,
     cp_auto_add_validator_enabled = Some False\<rparr>"

lemma ex_params_ok: "params_ok ex_state"
  by (simp add: params_ok_def MAX_REWARD_FEE_def from_basis_points_def pool_fees_ok_def
      fees_ordered_def MIN_WITHDRAW_CAP_def)

lemma config_marinade_valid_witness:
  "\<exists>st'. config_marinade ex_cx ex_key 30 ex_config ex_state = Inr st' \<and> params_ok st'
    \<and> min_withdraw st' = 100000000"
proof -
  have "\<not> isl (config_marinade ex_cx ex_key 30 ex_config ex_state)"
    by (simp add: config_defs ex_config_def run_simps if_some_def fee_check_max_def
        check_admin_authority_def from_basis_points_def)
  then obtain st' where r: "config_marinade ex_cx ex_key 30 ex_config ex_state = Inr st'"
    by (cases "config_marinade ex_cx ex_key 30 ex_config ex_state") auto
  note e = config_marinade_valid [OF r ex_params_ok]
  have "min_withdraw st' = 100000000" using e by (simp add: ex_config_def)
  with e r show ?thesis by blast
qed

lemma change_authority_exact_witness:
  "\<exists>st'. change_authority ex_cx ex_key 30 \<lparr>ca_admin = Some 35, ca_validator_manager = None,
      ca_operational_sol_account = None, ca_treasury_msol_account = Some 36\<rparr> ex_state = Inr st'
    \<and> admin_authority st' = 35 \<and> manager_authority (validator_system st') = 31"
proof -
  let ?d = "\<lparr>ca_admin = Some 35, ca_validator_manager = None,
      ca_operational_sol_account = None, ca_treasury_msol_account = Some 36\<rparr>"
  have "\<not> isl (change_authority ex_cx ex_key 30 ?d ex_state)"
    by (simp add: change_authority_def change_authority_process_def run_simps if_some_def
        check_admin_authority_def)
  then obtain st' where r: "change_authority ex_cx ex_key 30 ?d ex_state = Inr st'"
    by (cases "change_authority ex_cx ex_key 30 ?d ex_state") auto
  note e = change_authority_exact [OF r]
  have "admin_authority st' = 35" "manager_authority (validator_system st') = 31"
    using e by simp_all
  with r show ?thesis by blast
qed

end
