(* ===== verification/DeactivateStake.thy ===== *)
theory DeactivateStake
  imports StakeReserve
begin

text \<open>
  Unstaking at the end of an epoch (\<open>stake_system/deactivate_stake.rs\<close>): a negative stake delta is
  taken from the stakes of validators above their target, by deactivating a whole stake account or
  a part split off it.
\<close>

section \<open>The handler\<close>

record deactivate_stake_accounts =
  ds_reserve_pda :: pubkey
  ds_validator_list :: pubkey
  ds_stake_list :: pubkey
  ds_stake_account :: pubkey
  ds_stake_deposit_authority :: pubkey
  ds_split_stake_account :: pubkey
  ds_split_stake_rent_payer :: pubkey
  ds_system_program :: pubkey
  ds_stake_program :: pubkey

definition deactivate_stake_checks ::
  "runtime \<Rightarrow> pubkey \<Rightarrow> deactivate_stake_accounts \<Rightarrow> state \<Rightarrow> world \<Rightarrow> unit result" where
  "deactivate_stake_checks rt key ac st w = all_ok
     [check_reserve_address rt key st (ds_reserve_pda ac),
      check_validator_list (validator_system st) w (ds_validator_list ac),
      check_stake_list (stake_system st) w (ds_stake_list ac),
      check_stake_deposit_authority rt key (stake_system st) (ds_stake_deposit_authority ac),
      check_owner_program w (ds_stake_account ac) (rt_stake_program rt),
      check_stake_deposit_authority rt key (stake_system st) (ds_stake_deposit_authority ac),
      check_address (ds_system_program ac) (rt_system_program rt),
      check_address (ds_stake_program ac) (rt_stake_program rt)]"

text \<open>
  Returning the rent of an unused split account: the withdrawal is tried only for an
  uninitialised stake account, and any other content is ignored.
\<close>

definition return_split_rent ::
  "runtime \<Rightarrow> deactivate_stake_accounts \<Rightarrow> world \<Rightarrow> world result" where
  "return_split_rent rt ac w =
     (let split = ds_split_stake_account ac in
      if acc_owner w split = rt_stake_program rt \<and> acc_stake w split = Some StakeUninitialized
      then rt_invoke rt (StakeWithdraw split split (ds_split_stake_rent_payer ac)
             (acc_lamports w split)) [] w
      else Inr w)"

definition deactivate_whole ::
  "runtime \<Rightarrow> pubkey \<Rightarrow> deactivate_stake_accounts \<Rightarrow> stake_record \<Rightarrow> state \<Rightarrow> world
    \<Rightarrow> (u64 \<times> world) result" where
  "deactivate_whole rt key ac r st w =
     bindR (rt_invoke rt (StakeDeactivate (ds_stake_account ac) (ds_stake_deposit_authority ac))
              [stake_deposit_seeds key (stake_system st)] w) (\<lambda>w1.
     bindR (return_split_rent rt ac w1) (\<lambda>w2.
     Inr (last_update_delegated_lamports r, w2)))"

text \<open>The account for the part that is split off: a new one, or a prepared uninitialised one.\<close>

definition prepare_split ::
  "runtime \<Rightarrow> deactivate_stake_accounts \<Rightarrow> world \<Rightarrow> world result" where
  "prepare_split rt ac w =
     (let split = ds_split_stake_account ac; len = rt_stake_state_size rt in
      if acc_owner w split = rt_system_program rt
      then rt_invoke rt (SystemCreateAccount (ds_split_stake_rent_payer ac) split
             (rt_minimum_balance rt len) (word_of_nat len) (rt_stake_program rt)) [] w
      else bindR (check_owner_program w split (rt_stake_program rt)) (\<lambda>_.
           bindR (require (\<not> length (acc_data w split) < len) InvalidAccountData) (\<lambda>_.
           bindR (require (rt_is_exempt rt (acc_lamports w split) (length (acc_data w split)))
                    InsufficientFunds) (\<lambda>_.
           bindR (ok_or (acc_stake w split) BorshIoError) (\<lambda>s.
           bindR (require (s = StakeUninitialized) InvalidAccountData) (\<lambda>_. Inr w))))))"

text \<open>
  The partial deactivation. \<open>None\<close>: the validator already had its stake delta in this epoch, and
  the instruction ends without an error. The third \<open>require\<close> is the code's \<open>assert!\<close>.
\<close>

definition deactivate_split ::
  "runtime \<Rightarrow> pubkey \<Rightarrow> clock \<Rightarrow> deactivate_stake_accounts \<Rightarrow> stake_record \<Rightarrow> u64 \<Rightarrow> u64 \<Rightarrow> state
    \<Rightarrow> world \<Rightarrow> (u64 \<times> stake_record \<times> state \<times> world) result" where
  "deactivate_split rt key ck ac r target unstake_delta st w =
     bindR (psub (last_update_delegated_lamports r) target) (\<lambda>split_amount.
     bindR (require (target < last_update_delegated_lamports r \<and> split_amount \<le> unstake_delta) Panic)
       (\<lambda>_.
     bindR (stake_add rt (stake_system st) (acc_data w (ds_stake_list ac))
              (ds_split_stake_account ac) split_amount ck) (\<lambda>(ss, sdata).
     let st1 = st\<lparr>stake_system := ss\<rparr>; w1 = put_data (ds_stake_list ac) sdata w in
     bindR (prepare_split rt ac w1) (\<lambda>w2.
     bindR (rt_invoke rt (StakeSplit (ds_stake_account ac) (ds_stake_deposit_authority ac)
              split_amount (ds_split_stake_account ac)) [stake_deposit_seeds key ss] w2) (\<lambda>w3.
     bindR (rt_invoke rt (StakeDeactivate (ds_split_stake_account ac)
              (ds_stake_deposit_authority ac)) [stake_deposit_seeds key ss] w3) (\<lambda>w4.
     bindR (psub (last_update_delegated_lamports r) split_amount) (\<lambda>left.
     Inr (split_amount, r\<lparr>last_update_delegated_lamports := left\<rparr>, st1, w4))))))))"

text \<open>The bookkeeping: the unstaked amount moves from the active to the cooling-down balance.\<close>

definition deactivate_record ::
  "runtime \<Rightarrow> clock \<Rightarrow> deactivate_stake_accounts \<Rightarrow> u32 \<Rightarrow> u32 \<Rightarrow> u64 \<Rightarrow> stake_record
    \<Rightarrow> validator_record \<Rightarrow> state \<Rightarrow> world \<Rightarrow> (state \<times> world) result" where
  "deactivate_record rt ck ac sindex vindex amount r v st w =
     (let v1 = v\<lparr>active_balance := saturating_sub (active_balance v) amount\<rparr>;
          vs = (validator_system st)\<lparr>total_active_balance :=
                 saturating_sub (total_active_balance (validator_system st)) amount\<rparr> in
     bindR (padd (delayed_unstake_cooling_down (stake_system st)) amount) (\<lambda>cooling.
     let ss = (stake_system st)\<lparr>last_stake_delta_epoch := epoch ck,
                delayed_unstake_cooling_down := cooling\<rparr>;
         st1 = st\<lparr>stake_system := ss, validator_system := vs\<rparr> in
     bindR (stake_set rt ss (acc_data w (ds_stake_list ac)) sindex r) (\<lambda>sdata.
     let w1 = put_data (ds_stake_list ac) sdata w in
     bindR (validator_set rt vs (acc_data w1 (ds_validator_list ac)) vindex v1) (\<lambda>vdata.
     Inr (st1, put_data (ds_validator_list ac) vdata w1)))))"

text \<open>\<open>unstake\<close>: the amount to take from the validator. What the stake account keeps decides.\<close>

definition deactivate_amount ::
  "runtime \<Rightarrow> pubkey \<Rightarrow> clock \<Rightarrow> deactivate_stake_accounts \<Rightarrow> u32 \<Rightarrow> u32 \<Rightarrow> stake_record
    \<Rightarrow> validator_record \<Rightarrow> u64 \<Rightarrow> u64 \<Rightarrow> state \<Rightarrow> world \<Rightarrow> (state \<times> world) result" where
  "deactivate_amount rt key ck ac sindex vindex r v unstake unstake_delta st w =
     (let target = saturating_sub (last_update_delegated_lamports r)
                     (if unstake > unstake_delta then unstake_delta else unstake) in
     bindR (pmul 2 (min_stake (stake_system st))) (\<lambda>twice.
     if target < twice
     then bindR (deactivate_whole rt key ac r st w) (\<lambda>(amount, w1).
          deactivate_record rt ck ac sindex vindex amount r v st w1)
     else if vr_last_stake_delta_epoch v = epoch ck then Inr (st, w)
     else bindR (deactivate_split rt key ck ac r target unstake_delta st w)
            (\<lambda>(amount, r1, st1, w1).
          deactivate_record rt ck ac sindex vindex amount r1
            (v\<lparr>vr_last_stake_delta_epoch := epoch ck\<rparr>) st1 w1)))"

definition deactivate_stake_process ::
  "runtime \<Rightarrow> pubkey \<Rightarrow> clock \<Rightarrow> deactivate_stake_accounts \<Rightarrow> stake_state \<Rightarrow> u32 \<Rightarrow> u32 \<Rightarrow> state
    \<Rightarrow> world \<Rightarrow> (state \<times> world) result" where
  "deactivate_stake_process rt key ck ac stake sindex vindex st w =
     bindR (deactivate_stake_checks rt key ac st w) (\<lambda>_.
     bindR (stake_get rt (stake_system st) (acc_data w (ds_stake_list ac)) sindex) (\<lambda>r.
     bindR (require (ds_stake_account ac = stake_account r) InvalidAccountData) (\<lambda>_.
     bindR (validator_get rt (validator_system st) (acc_data w (ds_validator_list ac)) vindex)
       (\<lambda>v.
     bindR (check_delta_window rt ck (stake_system st)) (\<lambda>_.
     bindR (stake_delta st (acc_lamports w (ds_reserve_pda ac))) (\<lambda>delta.
     bindR (require (\<not> delta \<ge> 0) InvalidAccountData) (\<lambda>_.
     bindR (u64_of (- delta)) (\<lambda>unstake_delta.
     let total_stake_target =
       saturating_sub (total_active_balance (validator_system st)) unstake_delta in
     bindR (ok_or (stake_delegation stake) InvalidAccountData) (\<lambda>d.
     bindR (require (voter_pubkey d = validator_account v) InvalidInstructionData) (\<lambda>_.
     bindR (validator_stake_target (validator_system st) v total_stake_target) (\<lambda>vtarget.
     if active_balance v \<le> vtarget then Inr (st, w)
     else bindR (psub (active_balance v) vtarget) (\<lambda>unstake.
          deactivate_amount rt key ck ac sindex vindex r v unstake unstake_delta st w))))))))))))"

definition deactivate_stake ::
  "runtime \<Rightarrow> call_context \<Rightarrow> pubkey \<Rightarrow> deactivate_stake_accounts \<Rightarrow> u32 \<Rightarrow> u32 \<Rightarrow> state \<Rightarrow> world
    \<Rightarrow> (state \<times> world) result" where
  "deactivate_stake rt cx key ac sindex vindex st w =
     bindR (check_attributes cx [ds_split_stake_account ac, ds_split_stake_rent_payer ac]
       [key, ds_validator_list ac, ds_stake_list ac, ds_stake_account ac,
        ds_split_stake_account ac, ds_split_stake_rent_payer ac]) (\<lambda>_.
     bindR (load_stake w (ds_stake_account ac)) (\<lambda>stake.
     bindR (check_context cx) (\<lambda>_.
     deactivate_stake_process rt key (cx_clock cx) ac stake sindex vindex st w)))"

section \<open>Facts\<close>

lemma deactivate_checks_Inr:
  assumes "deactivate_stake_checks rt key ac st w = Inr u"
  shows "reserve_address rt key st = Inr (ds_reserve_pda ac)"
    and "ds_validator_list ac = account (validator_list (validator_system st))"
    and "ds_stake_list ac = account (stake_list (stake_system st))"
    and "ds_validator_list ac \<noteq> ds_stake_list ac"
proof -
  from assms have l: "check_validator_list (validator_system st) w (ds_validator_list ac) = Inr ()"
    "check_stake_list (stake_system st) w (ds_stake_list ac) = Inr ()"
    and r: "reserve_address rt key st = Inr (ds_reserve_pda ac)"
    by (auto simp: deactivate_stake_checks_def bindR_Inr state_checks_Inr)
  from l r show "reserve_address rt key st = Inr (ds_reserve_pda ac)"
    "ds_validator_list ac = account (validator_list (validator_system st))"
    "ds_stake_list ac = account (stake_list (stake_system st))"
    by (simp_all add: check_validator_list_Inr check_stake_list_Inr)
  show "ds_validator_list ac \<noteq> ds_stake_list ac" by (rule lists_apart [OF l])
qed

text \<open>How the recorded stakes and the totals change when \<open>amount\<close> starts cooling down.\<close>

definition cooling :: "u64 \<Rightarrow> state \<Rightarrow> state \<Rightarrow> bool" where
  "cooling amount st st' \<longleftrightarrow>
     unat (total_active_balance (validator_system st')) + unat amount
       = unat (total_active_balance (validator_system st))
     \<and> unat (delayed_unstake_cooling_down (stake_system st'))
       = unat (delayed_unstake_cooling_down (stake_system st)) + unat amount
     \<and> available_reserve_balance st' = available_reserve_balance st
     \<and> emergency_cooling_down st' = emergency_cooling_down st
     \<and> circulating_ticket_balance st' = circulating_ticket_balance st
     \<and> msol_supply st' = msol_supply st"

lemma cooling_keeps_value: "cooling n st st' \<Longrightarrow> virtual_staked st' = virtual_staked st"
proof -
  assume c: "cooling n st st'"
  then have "under_control st' = under_control st" by (simp add: cooling_def under_control_def)
  with c show ?thesis by (simp add: virtual_staked_def cooling_def)
qed

text \<open>
  The split amount: between two and the last update, so that the code's assertion cannot fail
  when a minimum stake is set.
\<close>

lemma split_assertion:
  assumes "0 < unstake" and "0 < unstake_delta" and "0 < min_st"
    and "target = saturating_sub lst (if unstake > unstake_delta then unstake_delta else unstake)"
    and "2 * unat (min_st :: u64) \<le> unat (target :: u64)"
  shows "target < lst" and "unat lst - unat target \<le> unat unstake_delta"
    and "unat lst - unat target \<le> unat unstake"
  using assms by (auto simp: word_less_nat_alt word_le_nat_alt split: if_splits)

text \<open>
  The outcome of a run for the record at \<open>i\<close>, of which up to \<open>most\<close> is to be unstaked: when less than
  twice the minimum stake would stay, the whole stake starts cooling down; otherwise exactly that
  part is split off into a new stake that does, once per validator and epoch.
\<close>

definition deactivated ::
  "clock \<Rightarrow> deactivate_stake_accounts \<Rightarrow> nat \<Rightarrow> nat \<Rightarrow> nat \<Rightarrow> stake_record list \<Rightarrow> validator_record
    \<Rightarrow> u64 \<Rightarrow> stake_record list \<Rightarrow> validator_record \<Rightarrow> bool" where
  "deactivated ck ac i most twice ys v n ys' v' \<longleftrightarrow>
     (let r = ys ! i; left = unat (last_update_delegated_lamports r) - most in
      if left < twice
      then n = last_update_delegated_lamports r \<and> ys' = ys
        \<and> v' = v\<lparr>active_balance := active_balance v - n\<rparr>
      else vr_last_stake_delta_epoch v \<noteq> epoch ck \<and> 0 < n
        \<and> unat n = min (unat (last_update_delegated_lamports r)) most
        \<and> ys' = ys[i := r\<lparr>last_update_delegated_lamports := last_update_delegated_lamports r - n\<rparr>]
               @ [stake_record_new (ds_split_stake_account ac) n ck]
        \<and> v' = v\<lparr>vr_last_stake_delta_epoch := epoch ck, active_balance := active_balance v - n\<rparr>)"

lemma deactivated_le:
  "deactivated ck ac i most twice ys v n ys' v' \<Longrightarrow> unat n \<le> unat (last_update_delegated_lamports (ys ! i))"
  by (auto simp: deactivated_def Let_def split: if_splits)

lemma deactivated_sum:
  assumes "deactivated ck ac i most twice ys v n ys' v'" and "i < length ys"
  shows "sum_list (map (unat \<circ> last_update_delegated_lamports) ys')
    = sum_list (map (unat \<circ> last_update_delegated_lamports) ys)"
proof -
  let ?f = "unat \<circ> last_update_delegated_lamports" and ?r = "ys ! i"
  let ?r' = "?r\<lparr>last_update_delegated_lamports := last_update_delegated_lamports ?r - n\<rparr>"
  have "sum_list (map ?f (ys[i := ?r'])) + ?f ?r = sum_list (map ?f ys) + ?f ?r'"
    by (rule sum_list_update_nat [OF assms(2)])
  moreover have "n \<le> last_update_delegated_lamports ?r"
    using deactivated_le [OF assms(1)] by (simp only: word_le_nat_alt)
  ultimately show ?thesis
    using assms(1) by (auto simp: deactivated_def Let_def stake_record_new_def unat_diff_le split: if_splits)
qed

lemma deactivated_active:
  assumes "deactivated ck ac i most twice ys v n ys' v'"
    and "last_update_delegated_lamports (ys ! i) \<le> active_balance v"
  shows "unat (active_balance v') + unat n = unat (active_balance v)" and "score v' = score v"
    and "validator_account v' = validator_account v"
proof -
  have "n \<le> active_balance v"
    using deactivated_le [OF assms(1)] assms(2) unfolding word_le_nat_alt by linarith
  then show "unat (active_balance v') + unat n = unat (active_balance v)" "score v' = score v"
    "validator_account v' = validator_account v"
    using assms(1) by (auto simp: deactivated_def Let_def unat_diff_le word_le_nat_alt split: if_splits)
qed

lemma deactivated_amount:
  assumes "deactivated ck ac i most twice ys v n ys' v'"
  shows "unat n \<le> most + twice"
  using assms by (auto simp: deactivated_def Let_def split: if_splits)

text \<open>
  The outcome for the validator at \<open>j\<close>, of which up to \<open>most\<close> is to be unstaked: nothing happens when that
  is nothing, or when a part would have to be split off a second time in the epoch.
\<close>

definition unstake_outcome ::
  "call_context \<Rightarrow> deactivate_stake_accounts \<Rightarrow> nat \<Rightarrow> nat \<Rightarrow> runtime \<Rightarrow> state \<Rightarrow> world
    \<Rightarrow> validator_record list \<Rightarrow> stake_record list \<Rightarrow> nat \<Rightarrow> state \<Rightarrow> world \<Rightarrow> bool" where
  "unstake_outcome cx ac i most rt st w xs ys j st' w' \<longleftrightarrow>
     (let twice = 2 * unat (min_stake (stake_system st)) in
      if most = 0 then st' = st \<and> w' = w
      else st' = st \<and> w' = w \<and> vr_last_stake_delta_epoch (xs ! j) = epoch (cx_clock cx)
          \<and> twice \<le> unat (last_update_delegated_lamports (ys ! i)) - most
        \<or> (\<exists>n v' ys'. validators_held rt st' w' (xs[j := v']) \<and> stakes_held rt st' w' ys'
          \<and> deactivated (cx_clock cx) ac i most twice ys (xs ! j) n ys' v'
          \<and> cooling n st st' \<and> last_stake_delta_epoch (stake_system st') = epoch (cx_clock cx)))"

text \<open>The stake that a validator's score gives it of the total that is left after unstaking \<open>d\<close>.\<close>

definition unstake_target :: "validator_system \<Rightarrow> validator_record \<Rightarrow> nat \<Rightarrow> nat" where
  "unstake_target vs v d =
     (if total_validator_score vs = 0 then 0
      else (unat (total_active_balance vs) - d) * unat (score v) div unat (total_validator_score vs))"

lemma unstake_outcome_facts:
  assumes "unstake_outcome cx ac i most rt st w xs ys j st' w'"
    and "last_update_delegated_lamports (ys ! i) \<le> active_balance (xs ! j)"
    and "i < length ys" and "most \<noteq> 0"
  shows "let r = ys ! i; lst = unat (last_update_delegated_lamports r);
      twice = 2 * unat (min_stake (stake_system st)); now = epoch (cx_clock cx)
    in st' = st \<and> w' = w \<and> vr_last_stake_delta_epoch (xs ! j) = now \<and> twice \<le> lst - most
    \<or> (\<exists>(n::u64) v' ys'. unat n = (if lst - most < twice then lst else min lst most)
      \<and> unat n \<le> most + twice
      \<and> validators_held rt st' w' (xs[j := v'])
      \<and> unat (active_balance v') + unat n = unat (active_balance (xs ! j))
      \<and> stakes_held rt st' w' ys'
      \<and> (if lst - most < twice then ys' = ys
         else vr_last_stake_delta_epoch (xs ! j) \<noteq> now \<and> vr_last_stake_delta_epoch v' = now
           \<and> ys' = ys[i := r\<lparr>last_update_delegated_lamports := last_update_delegated_lamports r - n\<rparr>]
               @ [stake_record_new (ds_split_stake_account ac) n (cx_clock cx)])
      \<and> sum_list (map (unat \<circ> last_update_delegated_lamports) ys')
          = sum_list (map (unat \<circ> last_update_delegated_lamports) ys)
      \<and> unat (total_active_balance (validator_system st')) + unat n
          = unat (total_active_balance (validator_system st))
      \<and> unat (delayed_unstake_cooling_down (stake_system st'))
          = unat (delayed_unstake_cooling_down (stake_system st)) + unat n
      \<and> virtual_staked st' = virtual_staked st \<and> msol_supply st' = msol_supply st)"
proof (cases "st' = st \<and> w' = w \<and> vr_last_stake_delta_epoch (xs ! j) = epoch (cx_clock cx)
    \<and> 2 * unat (min_stake (stake_system st)) \<le> unat (last_update_delegated_lamports (ys ! i)) - most")
  case True
  then show ?thesis by (simp add: Let_def)
next
  case False
  with assms(1,4) obtain n v' ys' where o: "validators_held rt st' w' (xs[j := v'])" "stakes_held rt st' w' ys'"
    and de: "deactivated (cx_clock cx) ac i most (2 * unat (min_stake (stake_system st))) ys (xs ! j) n ys' v'"
    and co: "cooling n st st'"
    unfolding unstake_outcome_def Let_def by auto
  note facts = deactivated_active(1) [OF de assms(2)] deactivated_sum [OF de assms(3)] deactivated_amount [OF de]
    cooling_keeps_value [OF co]
  have c: "unat (total_active_balance (validator_system st')) + unat n
          = unat (total_active_balance (validator_system st))"
    "unat (delayed_unstake_cooling_down (stake_system st'))
          = unat (delayed_unstake_cooling_down (stake_system st)) + unat n" "msol_supply st' = msol_supply st"
    using co by (simp_all add: cooling_def)
  show ?thesis
    unfolding Let_def
    by (intro disjI2 exI [of _ n] exI [of _ v'] exI [of _ ys'] conjI)
      (use o facts c de in \<open>auto simp: deactivated_def Let_def split: if_splits\<close>)
qed

context marinade_runtime
begin

lemma deactivate_record_effect:
  assumes run: "deactivate_record rt ck ac sindex vindex amount r v st w = Inr (st', w')"
    and vh: "validators_held rt st w xs" and sh: "stakes_held rt st w ys"
    and vl: "ds_validator_list ac = account (validator_list (validator_system st))"
    and sl: "ds_stake_list ac = account (stake_list (stake_system st))"
    and apart: "ds_validator_list ac \<noteq> ds_stake_list ac"
    and v: "score v = score (xs ! unat vindex)" "active_balance v = active_balance (xs ! unat vindex)"
    and i: "unat vindex < length xs" and le: "amount \<le> active_balance v"
  shows "validators_held rt st' w'
      (xs[unat vindex := v\<lparr>active_balance := active_balance v - amount\<rparr>])"
    and "stakes_held rt st' w' (ys[unat sindex := r])" and "unat sindex < length ys"
    and "cooling amount st st'"
    and "last_stake_delta_epoch (stake_system st') = epoch ck"
proof -
  let ?vs = "(validator_system st)\<lparr>total_active_balance :=
      saturating_sub (total_active_balance (validator_system st)) amount\<rparr>"
  let ?v = "v\<lparr>active_balance := active_balance v - amount\<rparr>"
  from run obtain c sdata vdata where
    c: "checked_add (delayed_unstake_cooling_down (stake_system st)) amount = Some c"
    and sset: "stake_set rt ((stake_system st)\<lparr>last_stake_delta_epoch := epoch ck,
        delayed_unstake_cooling_down := c\<rparr>) (acc_data w (ds_stake_list ac)) sindex r = Inr sdata"
    and vset: "validator_set rt ?vs
        (acc_data (put_data (ds_stake_list ac) sdata w) (ds_validator_list ac)) vindex ?v = Inr vdata"
    and st': "st' = st\<lparr>stake_system := (stake_system st)\<lparr>last_stake_delta_epoch := epoch ck,
        delayed_unstake_cooling_down := c\<rparr>, validator_system := ?vs\<rparr>"
    and w': "w' = put_data (ds_validator_list ac) vdata (put_data (ds_stake_list ac) sdata w)"
    using le by (auto simp: deactivate_record_def bindR_Inr ok_or_Inr Let_def saturating_sub_def
        simp del: put_data_simps)
  have total: "active_balance v \<le> total_active_balance (validator_system st)"
    using active_le_total [OF vh i] v by simp
  have "stake_set rt (stake_system st) (acc_data w (ds_stake_list ac)) sindex r = Inr sdata"
    using sset by (simp add: stake_set_def)
  note s = stake_set_held [OF sh sl this]
  show "unat sindex < length ys" by (rule s(2))
  show "stakes_held rt st' w' (ys[unat sindex := r])"
    using s(1) by (rule stakes_held_cong) (use apart sl in \<open>simp_all add: st' w'\<close>)
  have vh1: "validators_held rt st (put_data (ds_stake_list ac) sdata w) xs"
    using put_data_validators_held [OF vh] apart vl by simp
  have "validators_held rt (st\<lparr>validator_system := ?vs\<rparr>) w' (xs[unat vindex := ?v])"
    unfolding w'
    by (rule validator_set_held(1) [OF vh1 vl vset])
      (use v total le in \<open>simp_all add: word_le_nat_alt unat_diff_le\<close>)
  then show "validators_held rt st' w' (xs[unat vindex := ?v])"
    by (rule validators_held_cong) (simp_all add: st')
  show "cooling amount st st'"
    using total le c by (auto simp: cooling_def st' word_le_nat_alt checked_add_Some)
  show "last_stake_delta_epoch (stake_system st') = epoch ck" by (simp add: st')
qed

lemma return_split_rent_held:
  assumes "return_split_rent rt ac w = Inr w'"
  shows "validators_held rt st w xs \<Longrightarrow> validators_held rt st w' xs"
    and "stakes_held rt st w ys \<Longrightarrow> stakes_held rt st w' ys"
  using assms invoke_validators_held invoke_stakes_held
  by (auto simp: return_split_rent_def Let_def split: if_splits)

lemma prepare_split_held:
  assumes "prepare_split rt ac w = Inr w'"
  shows "validators_held rt st w xs \<Longrightarrow> validators_held rt st w' xs"
    and "stakes_held rt st w ys \<Longrightarrow> stakes_held rt st w' ys"
  using assms invoke_validators_held invoke_stakes_held
  by (auto simp: prepare_split_def Let_def bindR_Inr split: if_splits)

lemma deactivate_amount_effect:
  assumes run: "deactivate_amount rt key ck ac sindex vindex r v unstake delta st w = Inr (st', w')"
    and vh: "validators_held rt st w xs" and sh: "stakes_held rt st w ys"
    and vl: "ds_validator_list ac = account (validator_list (validator_system st))"
    and sl: "ds_stake_list ac = account (stake_list (stake_system st))"
    and apart: "ds_validator_list ac \<noteq> ds_stake_list ac"
    and v: "v = xs ! unat vindex" and r: "r = ys ! unat sindex"
    and i: "unat vindex < length xs" and si: "unat sindex < length ys"
    and le: "last_update_delegated_lamports r \<le> active_balance v"
    and pos: "0 < unstake" "0 < delta"
  shows "st' = st \<and> w' = w \<and> vr_last_stake_delta_epoch v = epoch ck
      \<and> 2 * unat (min_stake (stake_system st))
        \<le> unat (last_update_delegated_lamports r) - min (unat unstake) (unat delta) \<or>
    (\<exists>n v' ys'. validators_held rt st' w' (xs[unat vindex := v']) \<and> stakes_held rt st' w' ys'
       \<and> deactivated ck ac (unat sindex) (min (unat unstake) (unat delta))
           (2 * unat (min_stake (stake_system st))) ys v n ys' v'
       \<and> cooling n st st' \<and> last_stake_delta_epoch (stake_system st') = epoch ck)"
proof -
  let ?m = "min_stake (stake_system st)" and ?lst = "last_update_delegated_lamports r"
  let ?most = "if unstake > delta then delta else unstake"
  let ?target = "saturating_sub ?lst ?most"
  have most: "unat ?most = min (unat unstake) (unat delta)" by (simp add: word_less_nat_alt)
  have target: "unat ?target = unat ?lst - min (unat unstake) (unat delta)"
    by (simp only: unat_saturating_sub most)
  from run obtain twice where twice: "unat twice = 2 * unat ?m"
    and run1: "(if ?target < twice
     then bindR (deactivate_whole rt key ac r st w) (\<lambda>(amount, w1).
          deactivate_record rt ck ac sindex vindex amount r v st w1)
     else if vr_last_stake_delta_epoch v = epoch ck then Inr (st, w)
     else bindR (deactivate_split rt key ck ac r ?target delta st w) (\<lambda>(amount, r1, st1, w1).
          deactivate_record rt ck ac sindex vindex amount r1
            (v\<lparr>vr_last_stake_delta_epoch := epoch ck\<rparr>) st1 w1)) = Inr (st', w')"
    by (auto simp: deactivate_amount_def bindR_Inr ok_or_Inr checked_mul_Some Let_def)
  consider (whole) "?target < twice" | (double) "\<not> ?target < twice" "vr_last_stake_delta_epoch v = epoch ck"
    | (split) "\<not> ?target < twice" "vr_last_stake_delta_epoch v \<noteq> epoch ck" by blast
  then show ?thesis
  proof cases
    case whole
    with run1 obtain w1 w2 where
      d: "rt_invoke rt (StakeDeactivate (ds_stake_account ac) (ds_stake_deposit_authority ac))
        [stake_deposit_seeds key (stake_system st)] w = Inr w1"
      and ret: "return_split_rent rt ac w1 = Inr w2"
      and rec: "deactivate_record rt ck ac sindex vindex ?lst r v st w2 = Inr (st', w')"
      by (auto simp: deactivate_whole_def bindR_Inr)
    have h: "validators_held rt st w2 xs" "stakes_held rt st w2 ys"
      using return_split_rent_held [OF ret] invoke_validators_held [OF d vh]
        invoke_stakes_held [OF d sh] by blast+
    note e = deactivate_record_effect [OF rec h vl sl apart _ _ i le]
    let ?v = "v\<lparr>active_balance := active_balance v - ?lst\<rparr>"
    have ys: "ys[unat sindex := r] = ys" by (simp add: r)
    have "unat ?target < 2 * unat ?m" using whole twice by (simp only: word_less_nat_alt)
    then have "deactivated ck ac (unat sindex) (min (unat unstake) (unat delta)) (2 * unat ?m) ys v ?lst ys ?v"
      by (simp only: target) (simp add: deactivated_def r [symmetric] Let_def)
    then show ?thesis
      using e [unfolded ys] v by (intro disjI2 exI [of _ ?lst] exI [of _ ?v] exI [of _ ys]) simp
  next
    case double
    have "2 * unat ?m \<le> unat ?target" using double(1) twice by (simp only: word_less_nat_alt)
    with run1 double show ?thesis by (simp only: target) simp
  next
    case split
    let ?n = "?lst - ?target"
    have tw: "2 * unat ?m \<le> unat ?target" using split(1) twice by (simp only: word_less_nat_alt)
    have tle: "?target \<le> ?lst" by (simp add: word_le_nat_alt)
    then have n: "unat ?n = unat ?lst - unat ?target" by (rule unat_diff_le)
    from split run1 obtain r1 st1 w1 amount where
      ds: "deactivate_split rt key ck ac r ?target delta st w = Inr (amount, r1, st1, w1)"
      and rec: "deactivate_record rt ck ac sindex vindex amount r1
            (v\<lparr>vr_last_stake_delta_epoch := epoch ck\<rparr>) st1 w1 = Inr (st', w')"
      by (auto simp: bindR_Inr)
    from ds tle obtain ss sdata w2 w3 left where
      lt: "?target < ?lst" and amount: "amount = ?n"
      and add: "stake_add rt (stake_system st) (acc_data w (ds_stake_list ac))
              (ds_split_stake_account ac) ?n ck = Inr (ss, sdata)"
      and prep: "prepare_split rt ac (put_data (ds_stake_list ac) sdata w) = Inr w2"
      and sp: "rt_invoke rt (StakeSplit (ds_stake_account ac) (ds_stake_deposit_authority ac)
              ?n (ds_split_stake_account ac)) [stake_deposit_seeds key ss] w2 = Inr w3"
      and de: "rt_invoke rt (StakeDeactivate (ds_split_stake_account ac)
              (ds_stake_deposit_authority ac)) [stake_deposit_seeds key ss] w3 = Inr w1"
      and r1: "r1 = r\<lparr>last_update_delegated_lamports := ?lst - ?n\<rparr>"
      and st1: "st1 = st\<lparr>stake_system := ss\<rparr>"
      by (auto simp: deactivate_split_def bindR_Inr ok_or_Inr checked_sub_def Let_def
          split: if_splits)
    note a = stake_add_held [OF sh sl add]
    have vh0: "validators_held rt st1 (put_data (ds_stake_list ac) sdata w) xs"
      using put_data_validators_held [OF vh] apart vl by (simp add: st1)
    have h: "validators_held rt st1 w1 xs"
      "stakes_held rt st1 w1 (ys @ [stake_record_new (ds_split_stake_account ac) ?n ck])"
      using prepare_split_held [OF prep] invoke_validators_held [OF de]
        invoke_validators_held [OF sp] invoke_stakes_held [OF de] invoke_stakes_held [OF sp]
        vh0 a(1) by (auto simp: st1)
    have nle: "?n \<le> active_balance v" using n le by (simp add: word_le_nat_alt)
    let ?v = "v\<lparr>vr_last_stake_delta_epoch := epoch ck, active_balance := active_balance v - ?n\<rparr>"
    let ?ys = "ys[unat sindex := r1] @ [stake_record_new (ds_split_stake_account ac) ?n ck]"
    have ys: "(ys @ [stake_record_new (ds_split_stake_account ac) ?n ck])[unat sindex := r1] = ?ys"
      using si by (simp add: list_update_append)
    have e: "validators_held rt st' w' (xs[unat vindex := ?v])" "stakes_held rt st' w' ?ys"
      "cooling ?n st1 st'" "last_stake_delta_epoch (stake_system st') = epoch ck"
      using deactivate_record_effect [OF rec [unfolded amount] h] vl sl apart v i nle a(3) ys
      by (simp_all add: st1)
    have "min_stake ss = ?m \<and> delayed_unstake_cooling_down ss = delayed_unstake_cooling_down (stake_system st)"
      by (subst (1 2) a(2)) simp
    then have co: "cooling ?n st st'" using e(3) by (simp add: cooling_def st1)
    have "0 < ?n" using n lt by (simp only: word_less_nat_alt unat_0)
    moreover have "\<not> unat ?lst - min (unat unstake) (unat delta) < 2 * unat ?m"
      using tw unfolding target by linarith
    moreover have "unat ?n = min (unat ?lst) (min (unat unstake) (unat delta))"
      unfolding n target by arith
    ultimately have "deactivated ck ac (unat sindex) (min (unat unstake) (unat delta)) (2 * unat ?m) ys v ?n ?ys ?v"
      using split(2) by (simp only: deactivated_def r [symmetric] Let_def r1 if_False simp_thms)
    then show ?thesis
      using e co by (intro disjI2 exI [of _ ?n] exI [of _ ?v] exI [of _ ?ys]) simp
  qed
qed

lemma deactivate_stake_effect:
  assumes run: "deactivate_stake rt cx key ac sindex vindex st w = Inr (st', w')"
    and vh: "validators_held rt st w xs" and sh: "stakes_held rt st w ys"
    and le: "last_update_delegated_lamports (ys ! unat sindex) \<le> active_balance (xs ! unat vindex)"
  obtains d vtarget where
    "unat vindex < length xs" and "unat sindex < length ys"
    and "stake_account (ys ! unat sindex) = ds_stake_account ac"
    and "int (unat d) = - delta_spec st (unat (acc_lamports w (ds_reserve_pda ac)))" and "0 < d"
    and "unat (rt_last_slot_in_epoch rt (epoch (cx_clock cx)))
      \<le> unat (slot (cx_clock cx)) + unat (slots_for_stake_delta (stake_system st))"
    and "\<exists>s dl. acc_stake w (ds_stake_account ac) = Some s \<and> stake_delegation s = Some dl
      \<and> voter_pubkey dl = validator_account (xs ! unat vindex)"
    and "validator_stake_target (validator_system st) (xs ! unat vindex)
      (saturating_sub (total_active_balance (validator_system st)) d) = Inr vtarget"
    and "unstake_outcome cx ac (unat sindex) (min (unat (active_balance (xs ! unat vindex)) - unat vtarget) (unat d))
      rt st w xs ys (unat vindex) st' w'"
proof -
  let ?ck = "cx_clock cx" and ?vs = "validator_system st"
  from run obtain stake r v delta d dl vtarget where
    stake: "acc_stake w (ds_stake_account ac) = Some stake"
    and chk: "deactivate_stake_checks rt key ac st w = Inr ()"
    and r: "stake_get rt (stake_system st) (acc_data w (ds_stake_list ac)) sindex = Inr r"
    and acct: "ds_stake_account ac = stake_account r"
    and v: "validator_get rt ?vs (acc_data w (ds_validator_list ac)) vindex = Inr v"
    and win: "check_delta_window rt ?ck (stake_system st) = Inr ()"
    and delta: "stake_delta st (acc_lamports w (ds_reserve_pda ac)) = Inr delta"
    and neg: "\<not> delta \<ge> 0" and d: "u64_of (- delta) = Inr d"
    and dl: "stake_delegation stake = Some dl" and voter: "voter_pubkey dl = validator_account v"
    and vt: "validator_stake_target ?vs v (saturating_sub (total_active_balance ?vs) d) = Inr vtarget"
    and run1: "(if active_balance v \<le> vtarget then Inr (st, w)
     else bindR (psub (active_balance v) vtarget) (\<lambda>unstake.
          deactivate_amount rt key ?ck ac sindex vindex r v unstake d st w)) = Inr (st', w')"
    by (simp only: deactivate_stake_def deactivate_stake_process_def bindR_Inr load_stake_def
        ok_or_Inr require_Inr Let_def) (elim exE conjE, rule that, (assumption | simp)+)
  note c = deactivate_checks_Inr [OF chk]
  have r': "unat sindex < length ys" "r = ys ! unat sindex"
    using r stake_get_Inr [OF sh c(3)] by auto
  have v': "unat vindex < length xs" "v = xs ! unat vindex"
    using v validator_get_Inr [OF vh c(2)] by auto
  have spec: "delta = delta_spec st (unat (acc_lamports w (ds_reserve_pda ac)))"
    using delta stake_delta_eq [of st "acc_lamports w (ds_reserve_pda ac)"] by simp
  have dn: "- delta = int (unat d)" using d by (simp only: u64_of_Inr)
  have d0: "0 < d" using neg dn by (simp add: word_gt_0_unat del: of_nat_unat)
  have out: "unstake_outcome cx ac (unat sindex) (min (unat (active_balance v) - unat vtarget) (unat d))
      rt st w xs ys (unat vindex) st' w'"
  proof (cases "active_balance v \<le> vtarget")
    case True
    with run1 show ?thesis by (simp add: unstake_outcome_def word_le_nat_alt)
  next
    case False
    have "checked_sub (active_balance v) vtarget = Some (active_balance v - vtarget)"
      using False by (simp add: checked_sub_def not_le less_imp_le)
    then have run2: "deactivate_amount rt key ?ck ac sindex vindex r v (active_balance v - vtarget) d st w
        = Inr (st', w')"
      using run1 False by simp
    have x: "unat (active_balance v - vtarget) = unat (active_balance v) - unat vtarget"
      using False by (simp add: unat_diff_le word_le_nat_alt)
    have "0 < active_balance v - vtarget" using False x by (simp add: word_gt_0_unat word_le_nat_alt)
    from deactivate_amount_effect [OF run2 vh sh c(2,3,4) v'(2) r'(2) v'(1) r'(1) _ this d0]
    have "unstake_outcome cx ac (unat sindex) (min (unat (active_balance v - vtarget)) (unat d))
        rt st w xs ys (unat vindex) st' w'"
      using le False v' r' d0 x by (simp add: unstake_outcome_def word_gt_0_unat word_le_nat_alt)
    then show ?thesis by (simp only: x)
  qed
  show thesis
    by (rule that [OF v'(1) r'(1) _ _ d0, of vtarget])
      (use acct r' v' dn spec win stake dl voter vt out in
        \<open>simp_all add: check_delta_window_Inr del: of_nat_unat\<close>)
qed

end

section \<open>Properties\<close>

text \<open>
  C16. A successful \<open>deactivate_stake\<close> happens only in the delta window, with a negative stake
  delta, for a recorded stake that is delegated to the given validator. The validator's target is its
  score's share of what stays active after the outstanding delta. A validator at or below its target
  is left alone. Otherwise up to its excess over the target, and up to the delta, is to be unstaked
  (\<open>most\<close>): exactly this is split off the stake, only once per validator and epoch (a second time nothing
  changes); or the whole stake is deactivated, if less than twice the minimum stake would be left of it.
  The amount moves from the active to the cooling-down balances, the stakes recorded keep their sum, and the
  price of mSOL is unchanged. The stake's record must not exceed the active balance of its validator:
  beyond that the code's saturating subtraction would lose the difference.
\<close>
theorem deactivate_stake_moves:
  assumes "marinade_runtime rt"
    and "deactivate_stake rt cx key ac sindex vindex st w = Inr (st', w')"
    and "validators_held rt st w xs" and "stakes_held rt st w ys"
    and "last_update_delegated_lamports (ys ! unat sindex) \<le> active_balance (xs ! unat vindex)"
  shows "let d = - delta_spec st (unat (acc_lamports w (ds_reserve_pda ac)));
      v = xs ! unat vindex; r = ys ! unat sindex; lst = unat (last_update_delegated_lamports r);
      target = unstake_target (validator_system st) v (nat d);
      most = min (unat (active_balance v) - target) (nat d);
      twice = 2 * unat (min_stake (stake_system st)); now = epoch (cx_clock cx)
    in 0 < d
    \<and> unat (rt_last_slot_in_epoch rt now)
        \<le> unat (slot (cx_clock cx)) + unat (slots_for_stake_delta (stake_system st))
    \<and> stake_account r = ds_stake_account ac
    \<and> (\<exists>s dl. acc_stake w (ds_stake_account ac) = Some s \<and> stake_delegation s = Some dl
        \<and> voter_pubkey dl = validator_account v)
    \<and> (if unat (active_balance v) \<le> target then st' = st \<and> w' = w
       else st' = st \<and> w' = w \<and> vr_last_stake_delta_epoch v = now \<and> twice \<le> lst - most
       \<or> (\<exists>(n::u64) v' ys'. unat n = (if lst - most < twice then lst else min lst most)
         \<and> unat n \<le> most + twice
         \<and> validators_held rt st' w' (xs[unat vindex := v'])
         \<and> unat (active_balance v') + unat n = unat (active_balance v)
         \<and> stakes_held rt st' w' ys'
         \<and> (if lst - most < twice then ys' = ys
            else vr_last_stake_delta_epoch v \<noteq> now \<and> vr_last_stake_delta_epoch v' = now
              \<and> ys' = ys[unat sindex := r\<lparr>last_update_delegated_lamports :=
                      last_update_delegated_lamports r - n\<rparr>]
                  @ [stake_record_new (ds_split_stake_account ac) n (cx_clock cx)])
         \<and> sum_list (map (unat \<circ> last_update_delegated_lamports) ys')
             = sum_list (map (unat \<circ> last_update_delegated_lamports) ys)
         \<and> unat (total_active_balance (validator_system st')) + unat n
             = unat (total_active_balance (validator_system st))
         \<and> unat (delayed_unstake_cooling_down (stake_system st'))
             = unat (delayed_unstake_cooling_down (stake_system st)) + unat n
         \<and> virtual_staked st' = virtual_staked st \<and> msol_supply st' = msol_supply st))"
proof (rule marinade_runtime.deactivate_stake_effect [OF assms], goal_cases)
  case (1 d vtarget)
  let ?v = "xs ! unat vindex"
  have d: "nat (- delta_spec st (unat (acc_lamports w (ds_reserve_pda ac)))) = unat d"
    by (simp only: 1(4) [symmetric] nat_int)
  have pos: "0 < - delta_spec st (unat (acc_lamports w (ds_reserve_pda ac)))" "0 < unat d"
    using 1(4,5) by (simp_all add: word_gt_0_unat del: of_nat_unat)
  have t: "unat vtarget = unstake_target (validator_system st) ?v (unat d)"
    using validator_stake_target_Inr [OF 1(8)] by (simp add: unstake_target_def)
  have low: "st' = st \<and> w' = w" if "unat (active_balance ?v) \<le> unat vtarget"
    using 1(9) that by (simp add: unstake_outcome_def)
  have "min (unat (active_balance ?v) - unat vtarget) (unat d) \<noteq> 0"
    if "\<not> unat (active_balance ?v) \<le> unat vtarget" using that pos(2) by simp
  note high = unstake_outcome_facts [OF 1(9) assms(5) 1(2) this]
  show ?case
    using 1(3,6,7) pos(1) low high unfolding Let_def d t by (simp only: if_bool_eq_conj) blast
qed

section \<open>Runs\<close>

text \<open>The example with more tickets outstanding: 400000 lamports have to be unstaked.\<close>

definition ex_state_due :: state where
  "ex_state_due = ex_state\<lparr>circulating_ticket_balance := 900000\<rparr>"

definition ex_deactivate :: deactivate_stake_accounts where
  "ex_deactivate = \<lparr>ds_reserve_pda = ex_reserve, ds_validator_list = 21, ds_stake_list = 20,
     ds_stake_account = 61, ds_stake_deposit_authority = ex_deposit_auth,
     ds_split_stake_account = 46, ds_split_stake_rent_payer = 40, ds_system_program = 0,
     ds_stake_program = 7\<rparr>"

lemma ex_due_held:
  "validators_held ref_rt ex_state_due ex_world ex_validators"
  "stakes_held ref_rt ex_state_due ex_world ex_stakes"
  using ex_held by (simp_all add: ex_state_due_def validators_held_def stakes_held_def Let_def)

lemma ex_due_delta: "delta_spec ex_state_due 2339280 = - 400000"
  by (simp add: delta_spec_def ex_state_due_def)

lemma ex_due_sel [simp]:
  "stake_system ex_state_due = stake_system ex_state"
  "validator_system ex_state_due = validator_system ex_state"
  "reserve_address ref_rt ex_key ex_state_due = reserve_address ref_rt ex_key ex_state"
  by (simp_all add: ex_state_due_def reserve_address_def reserve_seeds_def)

lemma ex_deactivate_runs:
  obtains st' w' where
    "deactivate_stake ref_rt ex_cx ex_key ex_deactivate 1 0 ex_state_due ex_world = Inr (st', w')"
    "st' \<noteq> ex_state_due"
proof -
  let ?v = "ex_validators ! 0" and ?r = "ex_stakes ! 1"
  have v: "validator_account ?v = 50" "active_balance ?v = 1000000" "score ?v = 30"
    "stake_account ?r = 61" "last_update_delegated_lamports ?r = 400000"
    by (simp_all add: ex_validators_def ex_stakes_def)
  obtain d1 where d1: "list_set borsh_stake ex_stake_header ex_stake_data 1 ?r = Inr d1"
    by (rule ex_stake_set_ok [of 1 ?r]) simp
  obtain d2 where d2: "list_set borsh_validator ex_validator_header ex_validator_data 0
      (?v\<lparr>active_balance := 600000\<rparr>) = Inr d2"
    by (rule ex_validator_set_ok [of 0 "?v\<lparr>active_balance := 600000\<rparr>"]) simp
  have t: "validator_stake_target (validator_system ex_state) ?v 600000 = Inr 450000"
    by (simp add: validator_stake_target_def v run_simps)
  have c: "deactivate_stake_checks ref_rt ex_key ex_deactivate ex_state_due ex_world = Inr ()"
    using ex_lists_ok [of ex_world]
    by (simp add: deactivate_stake_checks_def ex_deactivate_def check_stake_deposit_authority_def
        run_simps ex_world_def)
  have w: "acc_data ex_world 20 = ex_stake_data" "acc_data ex_world 21 = ex_validator_data"
    "acc_owner ex_world 46 = 0" "acc_lamports ex_world ex_reserve = 2339280"
    "acc_stake ex_world 61 = Some (StakeDelegated ex_meta (ex_delegation 50 400000 (- 1)))"
    by (simp_all add: ex_world_def)
  have m: "staker ex_meta = ex_deposit_auth" "voter_pubkey (ex_delegation a b c) = a"
    "deactivation_epoch (ex_delegation a b c) = c" for a b c
    by (simp_all add: ex_meta_def ex_delegation_def)
  have ac: "ds_reserve_pda ex_deactivate = ex_reserve" "ds_validator_list ex_deactivate = 21"
    "ds_stake_list ex_deactivate = 20" "ds_stake_account ex_deactivate = 61"
    "ds_stake_deposit_authority ex_deactivate = ex_deposit_auth"
    "ds_split_stake_account ex_deactivate = 46" "ds_split_stake_rent_payer ex_deactivate = 40"
    by (simp_all only: ex_deactivate_def deactivate_stake_accounts.simps)
  have "\<exists>st' w'. deactivate_amount ref_rt ex_key ex_clock ex_deactivate 1 0 ?r ?v 550000 400000
      ex_state_due ex_world = Inr (st', w') \<and> delayed_unstake_cooling_down (stake_system st') = 600000"
    using d1 d2
    by (simp add: deactivate_amount_def deactivate_whole_def return_split_rent_def
        deactivate_record_def ac w v [unfolded One_nat_def] m ref_deactivate_def put_stake_def saturating_sub_def
        checked_mul_def checked_add_def stake_set_def validator_set_def Let_def del: ex_addresses)
  moreover have "deactivate_stake ref_rt ex_cx ex_key ex_deactivate 1 0 ex_state_due ex_world
      = deactivate_amount ref_rt ex_key ex_clock ex_deactivate 1 0 ?r ?v 550000 400000
          ex_state_due ex_world"
    by (simp add: deactivate_stake_def deactivate_stake_process_def c stake_get_def
        validator_get_def ac w v [unfolded One_nat_def] m ex_get check_delta_window_def load_stake_def
        stake_delta_eq ex_due_delta u64_of_def t saturating_sub_def check_attributes_def
        check_context_def checked_sub_def Let_def del: ex_addresses)
  ultimately obtain st' w' where
    r: "deactivate_stake ref_rt ex_cx ex_key ex_deactivate 1 0 ex_state_due ex_world = Inr (st', w')"
    and c: "delayed_unstake_cooling_down (stake_system st') = 600000"
    by auto
  show ?thesis by (rule that [OF r]) (use c in auto)
qed

lemma deactivate_stake_moves_witness:
  "\<exists>st' w'. deactivate_stake ref_rt ex_cx ex_key ex_deactivate 1 0 ex_state_due ex_world
      = Inr (st', w')
    \<and> st' \<noteq> ex_state_due \<and> virtual_staked st' = virtual_staked ex_state_due"
proof -
  obtain st' w' where
    r: "deactivate_stake ref_rt ex_cx ex_key ex_deactivate 1 0 ex_state_due ex_world = Inr (st', w')"
    and ne: "st' \<noteq> ex_state_due"
    by (rule ex_deactivate_runs)
  have "last_update_delegated_lamports (ex_stakes ! unat (1::u32))
      \<le> active_balance (ex_validators ! unat (0::u32))"
    by (simp add: ex_validators_def ex_stakes_def)
  from deactivate_stake_moves [OF ref.marinade_runtime_axioms r ex_due_held this] r ne
  have "virtual_staked st' = virtual_staked ex_state_due"
    by (auto simp only: Let_def split: if_splits)
  with r ne show ?thesis by blast
qed

end
