(* ===== verification/DepositStake.thy ===== *)
theory DepositStake
  imports StakeReserve
begin

text \<open>
  The \<open>deposit_stake_account\<close> instruction (\<open>stake_system/deposit_stake_account.rs\<close>): a user
  hands over an active stake account and receives mSOL for its delegated lamports. The validator
  of the stake is looked up at the given index, or added to the list at its end.
\<close>

section \<open>The handler\<close>

record deposit_stake_accounts =
  dsa_validator_list :: pubkey
  dsa_stake_list :: pubkey
  dsa_stake_account :: pubkey
  dsa_stake_authority :: pubkey
  dsa_duplication_flag :: pubkey
  dsa_rent_payer :: pubkey
  dsa_msol_mint :: pubkey
  dsa_mint_to :: pubkey
  dsa_msol_mint_authority :: pubkey
  dsa_system_program :: pubkey
  dsa_token_program :: pubkey
  dsa_stake_program :: pubkey

definition WAIT_EPOCHS_deposit :: u64 where
  "WAIT_EPOCHS_deposit = 2"

definition deposit_stake_checks ::
  "runtime \<Rightarrow> pubkey \<Rightarrow> deposit_stake_accounts \<Rightarrow> mint \<Rightarrow> token_account \<Rightarrow> state \<Rightarrow> world \<Rightarrow> unit result"
where
  "deposit_stake_checks rt key ac msol to st w = all_ok
     [check_validator_list (validator_system st) w (dsa_validator_list ac),
      check_stake_list (stake_system st) w (dsa_stake_list ac),
      check_msol_mint st (dsa_msol_mint ac),
      check_msol_mint_authority rt key st (dsa_msol_mint_authority ac),
      check_owner_program w (dsa_stake_account ac) (rt_stake_program rt),
      check_token_mint to (msol_mint st),
      check_owner_program w (dsa_rent_payer ac) (rt_system_program rt),
      check_address (dsa_system_program ac) (rt_system_program rt),
      check_address (dsa_token_program ac) (rt_spl_token rt),
      check_address (dsa_stake_program ac) (rt_stake_program rt),
      require (\<not> mt_supply msol > msol_supply st) InvalidAccountData]"

text \<open>The conditions on the stake: active long enough, large enough, and with no extra lamports.\<close>

definition deposit_stake_accept ::
  "runtime \<Rightarrow> clock \<Rightarrow> state \<Rightarrow> stake_meta \<Rightarrow> delegation \<Rightarrow> u64 \<Rightarrow> unit result" where
  "deposit_stake_accept rt ck st m d lamports =
     bindR (require (deactivation_epoch d = - 1) InvalidAccountData) (\<lambda>_.
     bindR (ok_or (checked_add (activation_epoch d) WAIT_EPOCHS_deposit) Panic) (\<lambda>ready.
     bindR (require (\<not> epoch ck < ready) InvalidAccountData) (\<lambda>_.
     bindR (require (\<not> delegated_stake d < min_stake (stake_system st)) InsufficientFunds) (\<lambda>_.
     bindR (padd (delegated_stake d) (rent_exempt_reserve m)) (\<lambda>total.
     bindR (require (\<not> lamports > total) (Custom 6212)) (\<lambda>_.
     bindR (check_staking_cap st (delegated_stake d)) (\<lambda>_.
     require (\<not> rt_lockup_in_force rt (meta_lockup m) ck) (Common AccountWithLockup))))))))"

definition deposit_stake_add_validator ::
  "runtime \<Rightarrow> pubkey \<Rightarrow> deposit_stake_accounts \<Rightarrow> delegation \<Rightarrow> state \<Rightarrow> world \<Rightarrow> (state \<times> world) result"
where
  "deposit_stake_add_validator rt key ac d st w =
     bindR (require (auto_add_validator_enabled (validator_system st) \<noteq> 0) (Common InvalidValidator))
       (\<lambda>_.
     bindR (check_owner_program w (dsa_duplication_flag ac) (rt_system_program rt)) (\<lambda>_.
     bindR (require (rt_is_exempt rt (acc_lamports w (dsa_rent_payer ac)) 0) InsufficientFunds) (\<lambda>_.
     bindR (validator_add_with_balance rt (validator_system st) (acc_data w (dsa_validator_list ac))
              (voter_pubkey d) 0 (delegated_stake d) key (dsa_duplication_flag ac)) (\<lambda>(vs, data).
     let w1 = put_data (dsa_validator_list ac) data w in
     bindR (psub (validator_count vs) 1) (\<lambda>i.
     bindR (validator_get rt vs data i) (\<lambda>v.
     bindR (rt_invoke rt (SystemCreateAccount (dsa_rent_payer ac) (dsa_duplication_flag ac)
              (rt_minimum_balance rt 0) 0 ID) [duplication_flag_seeds key v] w1) (\<lambda>w2.
     Inr (st\<lparr>validator_system := vs\<rparr>, w2))))))))"

definition deposit_stake_validator ::
  "runtime \<Rightarrow> pubkey \<Rightarrow> deposit_stake_accounts \<Rightarrow> u32 \<Rightarrow> delegation \<Rightarrow> state \<Rightarrow> world
    \<Rightarrow> (state \<times> world) result" where
  "deposit_stake_validator rt key ac index d st w =
     (if index = validator_count (validator_system st)
      then deposit_stake_add_validator rt key ac d st w
      else bindR (validator_get rt (validator_system st) (acc_data w (dsa_validator_list ac)) index)
        (\<lambda>v.
      bindR (require (voter_pubkey d = validator_account v) (Common InvalidValidator)) (\<lambda>_.
      bindR (ok_or (checked_add (active_balance v) (delegated_stake d)) (Common CalculationFailure))
        (\<lambda>b.
      bindR (validator_set rt (validator_system st) (acc_data w (dsa_validator_list ac)) index
               (v\<lparr>active_balance := b\<rparr>)) (\<lambda>data.
      Inr (st, put_data (dsa_validator_list ac) data w))))))"

text \<open>The stake changes hands: first the staker, then the withdrawer.\<close>

definition deposit_stake_take ::
  "runtime \<Rightarrow> pubkey \<Rightarrow> deposit_stake_accounts \<Rightarrow> stake_meta \<Rightarrow> state \<Rightarrow> world \<Rightarrow> world result" where
  "deposit_stake_take rt key ac m st w =
     bindR (stake_deposit_authority rt key (stake_system st)) (\<lambda>new_staker.
     bindR (require (staker m \<noteq> new_staker) InvalidAccountData) (\<lambda>_.
     bindR (if lk_custodian (meta_lockup m) \<noteq> pubkey_default
            then rt_invoke rt (StakeClearLockup (dsa_stake_account ac) (dsa_stake_authority ac)) [] w
            else Inr w) (\<lambda>w1.
     bindR (rt_invoke rt (StakeAuthorizeStaker (dsa_stake_account ac) (dsa_stake_authority ac)
              new_staker) [] w1) (\<lambda>w2.
     bindR (stake_withdraw_authority rt key (stake_system st)) (\<lambda>new_withdrawer.
     bindR (require (withdrawer m \<noteq> new_withdrawer) InvalidAccountData) (\<lambda>_.
     rt_invoke rt (StakeAuthorizeWithdrawer (dsa_stake_account ac) (dsa_stake_authority ac)
              new_withdrawer) [] w2))))))"

definition deposit_stake_mint ::
  "runtime \<Rightarrow> pubkey \<Rightarrow> clock \<Rightarrow> deposit_stake_accounts \<Rightarrow> delegation \<Rightarrow> state \<Rightarrow> world
    \<Rightarrow> (state \<times> world) result" where
  "deposit_stake_mint rt key ck ac d st w =
     bindR (stake_add rt (stake_system st) (acc_data w (dsa_stake_list ac)) (dsa_stake_account ac)
              (delegated_stake d) ck) (\<lambda>(ss, data).
     let st1 = st\<lparr>stake_system := ss\<rparr>; w1 = put_data (dsa_stake_list ac) data w in
     bindR (calc_msol_from_lamports st1 (delegated_stake d)) (\<lambda>msol_to_mint.
     bindR (rt_invoke rt (TokenMintTo (dsa_msol_mint ac) (dsa_mint_to ac)
              (dsa_msol_mint_authority ac) msol_to_mint) [msol_mint_authority_seeds key st1] w1) (\<lambda>w2.
     bindR (on_msol_mint st1 msol_to_mint) (\<lambda>st2.
     bindR (ok_or (checked_add (total_active_balance (validator_system st2)) (delegated_stake d))
              (Common CalculationFailure)) (\<lambda>t.
     Inr (st2\<lparr>validator_system := (validator_system st2)\<lparr>total_active_balance := t\<rparr>\<rparr>, w2))))))"

definition deposit_stake_account_process ::
  "runtime \<Rightarrow> pubkey \<Rightarrow> clock \<Rightarrow> deposit_stake_accounts \<Rightarrow> stake_state \<Rightarrow> mint \<Rightarrow> token_account \<Rightarrow> u32
    \<Rightarrow> state \<Rightarrow> world \<Rightarrow> (state \<times> world) result" where
  "deposit_stake_account_process rt key ck ac stake msol to index st w =
     bindR (deposit_stake_checks rt key ac msol to st w) (\<lambda>_.
     bindR (ok_or (stake_delegation stake) InvalidAccountData) (\<lambda>d.
     bindR (ok_or (stake_meta_of stake) Panic) (\<lambda>m.
     bindR (deposit_stake_accept rt ck st m d (acc_lamports w (dsa_stake_account ac))) (\<lambda>_.
     bindR (deposit_stake_validator rt key ac index d st w) (\<lambda>(st1, w1).
     bindR (deposit_stake_take rt key ac m st1 w1) (\<lambda>w2.
     deposit_stake_mint rt key ck ac d st1 w2))))))"

definition deposit_stake_account ::
  "runtime \<Rightarrow> call_context \<Rightarrow> pubkey \<Rightarrow> deposit_stake_accounts \<Rightarrow> u32 \<Rightarrow> state \<Rightarrow> world
    \<Rightarrow> (state \<times> world) result" where
  "deposit_stake_account rt cx key ac index st w =
     bindR (check_attributes cx [dsa_stake_authority ac, dsa_rent_payer ac]
       [key, dsa_validator_list ac, dsa_stake_list ac, dsa_stake_account ac, dsa_duplication_flag ac,
        dsa_rent_payer ac, dsa_msol_mint ac, dsa_mint_to ac]) (\<lambda>_.
     bindR (load_stake w (dsa_stake_account ac)) (\<lambda>stake.
     bindR (load_mint w (dsa_msol_mint ac)) (\<lambda>msol.
     bindR (load_token w (dsa_mint_to ac)) (\<lambda>to.
     bindR (check_context cx) (\<lambda>_.
     deposit_stake_account_process rt key (cx_clock cx) ac stake msol to index st w)))))"

section \<open>What happens to the validator list\<close>

definition joined ::
  "validator_system \<Rightarrow> nat \<Rightarrow> delegation \<Rightarrow> validator_record list \<Rightarrow> validator_record list \<Rightarrow> bool" where
  "joined vs i d xs xs' \<longleftrightarrow>
     i < length xs \<and> validator_account (xs ! i) = voter_pubkey d
       \<and> (\<exists>b. unat b = unat (active_balance (xs ! i)) + unat (delegated_stake d)
            \<and> xs' = xs[i := (xs ! i)\<lparr>active_balance := b\<rparr>])
     \<or> i = length xs \<and> auto_add_validator_enabled vs \<noteq> 0
       \<and> (\<exists>v. validator_account v = voter_pubkey d \<and> score v = 0
            \<and> active_balance v = delegated_stake d \<and> xs' = xs @ [v])"

text \<open>The totals of a changed list, before the total of the balances is updated.\<close>

definition rep_before :: "runtime \<Rightarrow> validator_system \<Rightarrow> bytes \<Rightarrow> delegation \<Rightarrow> validator_record list \<Rightarrow> bool"
where
  "rep_before rt vs data d xs \<longleftrightarrow>
     list_rep (rt_de_validator rt) (validator_record_len rt) (validator_list vs) data xs
     \<and> unat (total_validator_score vs) = sum_list (map (unat \<circ> score) xs)
     \<and> unat (total_active_balance vs) + unat (delegated_stake d) = sum_list (map (unat \<circ> active_balance) xs)"

lemma rep_before_total:
  "rep_before rt vs data d xs \<Longrightarrow> unat t = unat (total_active_balance vs) + unat (delegated_stake d) \<Longrightarrow>
   validators_rep rt (vs\<lparr>total_active_balance := t\<rparr>) data xs"
  by (simp add: rep_before_def validators_rep_def)

lemma deposit_stake_accept_Inr:
  "deposit_stake_accept rt ck st m d lamports = Inr u \<longleftrightarrow>
     deactivation_epoch d = - 1 \<and> unat (activation_epoch d) + 2 < 2 ^ 64
     \<and> unat (activation_epoch d) + 2 \<le> unat (epoch ck)
     \<and> min_stake (stake_system st) \<le> delegated_stake d
     \<and> unat (delegated_stake d) + unat (rent_exempt_reserve m) < 2 ^ 64
     \<and> unat lamports \<le> unat (delegated_stake d) + unat (rent_exempt_reserve m)
     \<and> under_control st + unat (delegated_stake d) \<le> unat (staking_sol_cap st)
     \<and> \<not> rt_lockup_in_force rt (meta_lockup m) ck"
  using unat_add_le [of "2" "activation_epoch d"]
    unat_add_le [of "delegated_stake d" "rent_exempt_reserve m"]
  by (auto simp: deposit_stake_accept_def bindR_Inr ok_or_Inr checked_add_Some WAIT_EPOCHS_deposit_def
      ex_unat_eq check_staking_cap_Inr not_less word_le_nat_alt unat_of_nat_small)

context marinade_runtime
begin

lemma add_with_balance_before:
  assumes rep: "validators_rep rt vs data xs"
    and run: "validator_add_with_balance rt vs data vote 0 n key flag = Inr (vs', data')"
    and d: "voter_pubkey d = vote" "delegated_stake d = n"
  obtains v where "validator_account v = vote" and "score v = 0" and "active_balance v = n"
    and "flag = fst (find_duplication_flag rt key vote)"
    and "rep_before rt vs' data' d (xs @ [v])"
    and "total_active_balance vs' = total_active_balance vs"
    and "account (validator_list vs') = account (validator_list vs)"
proof -
  obtain a b where f: "find_duplication_flag rt key vote = (a, b)" by fastforce
  let ?v = "\<lparr>validator_account = vote, active_balance = n, score = 0,
      vr_last_stake_delta_epoch = - 1, duplication_flag_bump_seed = b\<rparr>"
  from run f obtain l t where flag: "flag = a"
    and push: "list_push (rt_ser_validator rt) (validator_list vs) data ?v = Inr (l, data')"
    and t: "unat t = unat (total_validator_score vs)"
    and vs': "vs' = vs\<lparr>validator_list := l, total_validator_score := t\<rparr>"
    by (auto simp: validator_add_with_balance_def validator_record_new_def result_simps)
  have "account l = account (validator_list vs)"
    using push by (auto simp: list_push_def result_simps)
  moreover have "rep_before rt vs' data' d (xs @ [?v])"
    using rep t d validators.store.push_Inr [OF validators_rep_list [OF rep] push]
    by (simp add: validators_rep_def rep_before_def vs')
  ultimately show ?thesis using that [of ?v] f flag vs' by simp
qed

text \<open>Everything the validator phase leaves for the rest of the handler.\<close>

lemma deposit_stake_validator_effect:
  assumes run: "deposit_stake_validator rt key ac index d st w = Inr (st', w')"
    and vh: "validators_held rt st w xs" and sh: "stakes_held rt st w ys"
    and lists: "check_validator_list (validator_system st) w (dsa_validator_list ac) = Inr ()"
      "check_stake_list (stake_system st) w (dsa_stake_list ac) = Inr ()"
    and sys: "rt_system_program rt \<noteq> ID"
  obtains vs xs' where "st' = st\<lparr>validator_system := vs\<rparr>"
    and "joined (validator_system st) (unat index) d xs xs'"
    and "total_active_balance vs = total_active_balance (validator_system st)"
    and "account (validator_list vs) = dsa_validator_list ac"
    and "acc_owner w' (dsa_validator_list ac) = ID"
    and "rep_before rt vs (acc_data w' (dsa_validator_list ac)) d xs'"
    and "stakes_held rt st w' ys"
    and "acc_token w' = acc_token w" and "acc_mint w' = acc_mint w"
    and "flags_held rt key w xs \<Longrightarrow> flags_held rt key w' xs'"
proof -
  let ?vs = "validator_system st" and ?k = "dsa_validator_list ac"
  have k: "?k = account (validator_list ?vs)" using lists by (simp add: check_validator_list_Inr)
  have apart: "?k \<noteq> account (stake_list (stake_system st))"
    using lists_apart [OF lists] lists(2) by (simp add: check_stake_list_Inr)
  note own = validators_held_D(1) [OF vh k] and rep = validators_held_D(2) [OF vh k]
  have n: "unat (validator_count ?vs) = length xs"
    using list_rep_count [OF validators_rep_list [OF rep]] by (simp add: validator_count_def)
  have sh1: "stakes_held rt st (put_data ?k data w) ys" for data
    using put_data_stakes_held [OF sh] apart by simp
  show thesis
  proof (cases "index = validator_count ?vs")
    case True
    with run have "deposit_stake_add_validator rt key ac d st w = Inr (st', w')"
      by (simp add: deposit_stake_validator_def)
    then obtain vs data v w2 seeds where auto: "auto_add_validator_enabled ?vs \<noteq> 0"
      and flag: "acc_owner w (dsa_duplication_flag ac) = rt_system_program rt"
      and add: "validator_add_with_balance rt ?vs (acc_data w ?k) (voter_pubkey d) 0
        (delegated_stake d) key (dsa_duplication_flag ac) = Inr (vs, data)"
      and inv: "rt_invoke rt (SystemCreateAccount (dsa_rent_payer ac) (dsa_duplication_flag ac)
        (rt_minimum_balance rt 0) 0 ID) seeds (put_data ?k data w) = Inr w2"
      and res: "st' = st\<lparr>validator_system := vs\<rparr>" "w' = w2"
      by (auto simp: deposit_stake_add_validator_def bindR_Inr check_Inr)
    from add_with_balance_before [OF rep add refl refl] obtain v where
      v: "validator_account v = voter_pubkey d" "score v = 0" "active_balance v = delegated_stake d"
      and fl: "dsa_duplication_flag ac = fst (find_duplication_flag rt key (voter_pubkey d))"
      and before: "rep_before rt vs data d (xs @ [v])"
      and tot: "total_active_balance vs = total_active_balance ?vs"
      and acct: "account (validator_list vs) = account (validator_list ?vs)"
      by metis
    have keep: "acc_owner w2 a = ID" "acc_data w2 a = (if a = ?k then data else acc_data w a)"
      if "acc_owner w a = ID" for a
      using invoke_keeps_owner [OF inv] invoke_keeps_data [OF inv] that by auto
    note new = create_account [OF inv]
    have flags: "flags_held rt key w' (xs @ [v])" if "flags_held rt key w xs"
    proof -
      have "voter_pubkey d \<notin> validator_account ` set xs"
        using that fl flag sys by (auto simp: flags_held_def)
      then show ?thesis using that keep(1) new by (auto simp: flags_held_def v fl res)
    qed
    have "joined ?vs (unat index) d xs (xs @ [v])"
      using True n auto v by (auto simp: joined_def)
    then show thesis
      by (rule that [OF res(1) _ tot _ _ _ _ _ _ flags])
        (use acct k keep own before invoke_stakes_held [OF inv sh1] new in \<open>simp_all add: res\<close>)
  next
    case False
    with run obtain v b data where
      v: "validator_get rt ?vs (acc_data w ?k) index = Inr v"
      and vote: "voter_pubkey d = validator_account v"
      and b: "unat b = unat (active_balance v) + unat (delegated_stake d)"
      and set: "validator_set rt ?vs (acc_data w ?k) index (v\<lparr>active_balance := b\<rparr>) = Inr data"
      and res: "st' = st" "w' = put_data ?k data w"
      by (auto simp: deposit_stake_validator_def bindR_Inr ok_or_Inr checked_add_Some
          simp del: put_data_simps)
    have i: "unat index < length xs" "v = xs ! unat index"
      using v validator_get_Inr [OF vh k] by auto
    let ?xs = "xs[unat index := v\<lparr>active_balance := b\<rparr>]"
    have lrep: "list_rep (rt_de_validator rt) (validator_record_len rt) (validator_list ?vs) data ?xs"
      using validators.store.put_Inr [OF validators_rep_list [OF rep]] set by (auto simp: validator_set_def)
    have "sum_list (map f ?xs) + f v = sum_list (map f xs) + f (v\<lparr>active_balance := b\<rparr>)"
      for f :: "validator_record \<Rightarrow> nat"
      unfolding i(2) by (rule sum_list_update_nat [OF i(1)])
    from this [of "unat \<circ> score"] this [of "unat \<circ> active_balance"]
    have "rep_before rt ?vs data d ?xs"
      using lrep rep b by (simp add: rep_before_def validators_rep_def)
    moreover have "flags_held rt key w' ?xs" if f: "flags_held rt key w xs"
    proof -
      have "map validator_account ?xs = map validator_account xs"
        using i by (simp add: map_update list_update_same_conv)
      then show ?thesis using flags_held_map [OF _ f] by (simp add: flags_held_def res)
    qed
    moreover have "joined ?vs (unat index) d xs ?xs" using i vote b by (auto simp: joined_def)
    ultimately show thesis
      by (intro that [of ?vs ?xs]) (use res k own sh1 in simp_all)
  qed
qed

lemma deposit_stake_take_effect:
  assumes "deposit_stake_take rt key ac m st w = Inr w'"
  shows "acc_token w' = acc_token w \<and> acc_mint w' = acc_mint w \<and> acc_lamports w' = acc_lamports w
    \<and> (\<forall>k. acc_owner w k = ID \<longrightarrow> acc_owner w' k = ID \<and> acc_data w' k = acc_data w k)
    \<and> stake_deposit_authority rt key (stake_system st) \<noteq> Inr (staker m)
    \<and> stake_withdraw_authority rt key (stake_system st) \<noteq> Inr (withdrawer m)"
proof -
  let ?s = "dsa_stake_account ac" and ?a = "dsa_stake_authority ac"
  from assms obtain x y w1 w2 where
    x: "stake_deposit_authority rt key (stake_system st) = Inr x" "staker m \<noteq> x"
    and w1: "(if lk_custodian (meta_lockup m) \<noteq> pubkey_default
      then rt_invoke rt (StakeClearLockup ?s ?a) [] w else Inr w) = Inr w1"
    and w2: "rt_invoke rt (StakeAuthorizeStaker ?s ?a x) [] w1 = Inr w2"
    and y: "stake_withdraw_authority rt key (stake_system st) = Inr y" "withdrawer m \<noteq> y"
    and w3: "rt_invoke rt (StakeAuthorizeWithdrawer ?s ?a y) [] w2 = Inr w'"
    by (auto simp: deposit_stake_take_def bindR_Inr)
  have 1: "acc_token w1 = acc_token w \<and> acc_mint w1 = acc_mint w \<and> acc_lamports w1 = acc_lamports w
      \<and> (\<forall>k. acc_owner w k = ID \<longrightarrow> acc_owner w1 k = ID \<and> acc_data w1 k = acc_data w k)"
    using w1 stake_admin [of "StakeClearLockup ?s ?a" "[]" w w1 ?s ?a ?a] program_accounts [of _ _ w w1]
    by (auto simp: stakes_only_def split: if_splits)
  show ?thesis
    using 1 x y stake_admin [OF w2, of ?s ?a x] stake_admin [OF w3, of ?s ?a y]
      program_accounts [OF w2] program_accounts [OF w3]
    by (auto simp: stakes_only_def)
qed

lemma deposit_stake_mint_effect:
  assumes run: "deposit_stake_mint rt key ck ac d st w = Inr (st', w')"
    and k: "k = account (validator_list (validator_system st))" "acc_owner w k = ID"
      "k \<noteq> dsa_stake_list ac"
    and rep: "rep_before rt (validator_system st) (acc_data w k) d xs"
    and sh: "stakes_held rt st w ys" and sl: "dsa_stake_list ac = account (stake_list (stake_system st))"
  obtains m and t and ss where "unat m = msol_for st (unat (delegated_stake d))"
    and "st' = st\<lparr>stake_system := ss, msol_supply := msol_supply st + m, validator_system :=
      (validator_system st)\<lparr>total_active_balance := t\<rparr>\<rparr>"
    and "unat t = unat (total_active_balance (validator_system st)) + unat (delegated_stake d)"
    and "ss = (stake_system st)\<lparr>stake_list := stake_list ss\<rparr>"
    and "unat (msol_supply st) + unat m < 2 ^ 64"
    and "unat (mint_supply w (dsa_msol_mint ac)) + unat m < 2 ^ 64"
    and "unat (token_amount w (dsa_mint_to ac)) + unat m < 2 ^ 64"
    and "mint_supply w' = (mint_supply w)(dsa_msol_mint ac := mint_supply w (dsa_msol_mint ac) + m)"
    and "token_amount w' = (token_amount w)(dsa_mint_to ac := token_amount w (dsa_mint_to ac) + m)"
    and "validators_held rt st' w' xs"
    and "stakes_held rt st' w' (ys @ [stake_record_new (dsa_stake_account ac) (delegated_stake d) ck])"
    and "\<And>a. acc_owner w a = ID \<Longrightarrow> acc_owner w' a = ID"
proof -
  let ?l = "dsa_stake_list ac" and ?vs = "validator_system st"
  from run obtain ss data m w2 t where
    add: "stake_add rt (stake_system st) (acc_data w ?l) (dsa_stake_account ac) (delegated_stake d) ck
      = Inr (ss, data)"
    and m: "calc_msol_from_lamports (st\<lparr>stake_system := ss\<rparr>) (delegated_stake d) = Inr m"
    and inv: "rt_invoke rt (TokenMintTo (dsa_msol_mint ac) (dsa_mint_to ac)
      (dsa_msol_mint_authority ac) m) [msol_mint_authority_seeds key (st\<lparr>stake_system := ss\<rparr>)]
      (put_data ?l data w) = Inr w'"
    and sup: "unat (msol_supply st) + unat m < 2 ^ 64"
    and t: "unat t = unat (total_active_balance ?vs) + unat (delegated_stake d)"
    and st': "st' = st\<lparr>stake_system := ss, msol_supply := msol_supply st + m, validator_system :=
      ?vs\<lparr>total_active_balance := t\<rparr>\<rparr>"
    by (auto simp: deposit_stake_mint_def Let_def bindR_Inr on_msol_mint_Inr ok_or_Inr checked_add_Some
        simp del: put_data_simps)
  note held = stake_add_held [OF sh sl add]
  have "delayed_unstake_cooling_down ss = delayed_unstake_cooling_down (stake_system st)"
    by (subst held(2)) simp
  then have price: "msol_for (st\<lparr>stake_system := ss\<rparr>) n = msol_for st n" for n
    by (simp add: msol_for_def virtual_staked_def under_control_def)
  note tok = token_mint_to [OF inv]
  have keep: "acc_owner w' a = ID" if "acc_owner w a = ID" for a
    using invoke_keeps_owner [OF inv] that by simp
  have "validators_held rt st' w' xs"
    using rep_before_total [OF rep t] keep [OF k(2)] invoke_keeps_data [OF inv, of k] k
    by (simp add: validators_held_def st' Let_def)
  moreover have "stakes_held rt st' w'
      (ys @ [stake_record_new (dsa_stake_account ac) (delegated_stake d) ck])"
    using invoke_stakes_held [OF inv held(1)] by (rule stakes_held_cong) (simp_all add: st')
  ultimately show thesis
    by (intro that [of m t ss]) (use m price st' t sup tok keep held(2) in \<open>simp_all add: calc_msol_Inr\<close>)
qed

text \<open>The whole handler.\<close>

lemma deposit_stake_account_effect:
  assumes run: "deposit_stake_account rt cx key ac index st w = Inr (st', w')"
    and vh: "validators_held rt st w xs" and sh: "stakes_held rt st w ys"
    and sys: "rt_system_program rt \<noteq> ID"
  obtains sm d m xs' where "acc_stake w (dsa_stake_account ac) = Some (StakeDelegated sm d)"
    and "deposit_stake_accept rt (cx_clock cx) st sm d (acc_lamports w (dsa_stake_account ac)) = Inr ()"
    and "cx_signer cx (dsa_stake_authority ac)"
    and "stake_deposit_authority rt key (stake_system st) \<noteq> Inr (staker sm)"
    and "stake_withdraw_authority rt key (stake_system st) \<noteq> Inr (withdrawer sm)"
    and "dsa_msol_mint ac = msol_mint st"
    and "unat m = msol_for st (unat (delegated_stake d))"
    and "unat (msol_supply st') = unat (msol_supply st) + unat m"
    and "unat (mint_supply w (msol_mint st)) + unat m < 2 ^ 64"
    and "unat (token_amount w (dsa_mint_to ac)) + unat m < 2 ^ 64"
    and "mint_supply w' = (mint_supply w)(msol_mint st := mint_supply w (msol_mint st) + m)"
    and "token_amount w' = (token_amount w)(dsa_mint_to ac := token_amount w (dsa_mint_to ac) + m)"
    and "under_control st' = under_control st + unat (delegated_stake d)"
    and "circulating_ticket_balance st' = circulating_ticket_balance st"
    and "joined (validator_system st) (unat index) d xs xs'"
    and "validators_held rt st' w' xs'"
    and "stakes_held rt st' w'
      (ys @ [stake_record_new (dsa_stake_account ac) (delegated_stake d) (cx_clock cx)])"
    and "flags_held rt key w xs \<Longrightarrow> flags_held rt key w' xs'"
proof -
  let ?k = "dsa_validator_list ac" and ?vs = "validator_system st"
  from run obtain stake msol to d sm st1 w1 w2 where
    stake: "acc_stake w (dsa_stake_account ac) = Some stake"
    and sign: "cx_signer cx (dsa_stake_authority ac)"
    and chk: "deposit_stake_checks rt key ac msol to st w = Inr ()"
    and d: "stake_delegation stake = Some d" and sm: "stake_meta_of stake = Some sm"
    and acc: "deposit_stake_accept rt (cx_clock cx) st sm d (acc_lamports w (dsa_stake_account ac)) = Inr ()"
    and val: "deposit_stake_validator rt key ac index d st w = Inr (st1, w1)"
    and take: "deposit_stake_take rt key ac sm st1 w1 = Inr w2"
    and mint: "deposit_stake_mint rt key (cx_clock cx) ac d st1 w2 = Inr (st', w')"
    by (auto simp: deposit_stake_account_def deposit_stake_account_process_def bindR_Inr ok_or_Inr
        load_stake_def check_attributes_Inr)
  have stake': "stake = StakeDelegated sm d" using d sm by (cases stake) auto
  have lists: "check_validator_list ?vs w ?k = Inr ()"
    "check_stake_list (stake_system st) w (dsa_stake_list ac) = Inr ()"
    and mm: "dsa_msol_mint ac = msol_mint st"
    using chk by (auto simp: deposit_stake_checks_def bindR_Inr state_checks_Inr)
  from deposit_stake_validator_effect [OF val vh sh lists sys] obtain vs xs' where
    st1: "st1 = st\<lparr>validator_system := vs\<rparr>" and j: "joined ?vs (unat index) d xs xs'"
    and tot: "total_active_balance vs = total_active_balance ?vs"
    and k: "account (validator_list vs) = ?k" and own: "acc_owner w1 ?k = ID"
    and rep: "rep_before rt vs (acc_data w1 ?k) d xs'"
    and sh1: "stakes_held rt st w1 ys"
    and tok1: "acc_token w1 = acc_token w" "acc_mint w1 = acc_mint w"
    and fl: "flags_held rt key w xs \<Longrightarrow> flags_held rt key w1 xs'"
    by blast
  note tk = deposit_stake_take_effect [OF take]
  have k2: "?k = account (validator_list (validator_system st1))" "acc_owner w2 ?k = ID"
    "?k \<noteq> dsa_stake_list ac" and sl: "dsa_stake_list ac = account (stake_list (stake_system st1))"
    using k tk own lists_apart [OF lists] lists(2) by (simp_all add: st1 check_stake_list_Inr)
  have rep2: "rep_before rt (validator_system st1) (acc_data w2 ?k) d xs'"
    using rep tk own by (simp add: st1)
  have sh2: "stakes_held rt st1 w2 ys"
    using sh1 by (rule stakes_held_cong) (use tk in \<open>simp_all add: st1\<close>)
  have price: "msol_for st1 n = msol_for st n" for n
    by (simp add: st1 msol_for_def virtual_staked_def under_control_def tot)
  have views: "mint_supply w2 = mint_supply w" "token_amount w2 = token_amount w"
    using tk tok1 by (simp_all add: mint_supply_def token_amount_def fun_eq_iff)
  from deposit_stake_mint_effect [OF mint k2 rep2 sh2 sl] obtain m t ss where
    m: "unat m = msol_for st1 (unat (delegated_stake d))"
    and st': "st' = st1\<lparr>stake_system := ss, msol_supply := msol_supply st1 + m, validator_system :=
      (validator_system st1)\<lparr>total_active_balance := t\<rparr>\<rparr>"
    and t: "unat t = unat (total_active_balance (validator_system st1)) + unat (delegated_stake d)"
    and ss: "ss = (stake_system st1)\<lparr>stake_list := stake_list ss\<rparr>"
    and b: "unat (msol_supply st1) + unat m < 2 ^ 64"
      "unat (mint_supply w2 (dsa_msol_mint ac)) + unat m < 2 ^ 64"
      "unat (token_amount w2 (dsa_mint_to ac)) + unat m < 2 ^ 64"
    and tok: "mint_supply w' = (mint_supply w2)(dsa_msol_mint ac := mint_supply w2 (dsa_msol_mint ac) + m)"
      "token_amount w' = (token_amount w2)(dsa_mint_to ac := token_amount w2 (dsa_mint_to ac) + m)"
    and held: "validators_held rt st' w' xs'"
      "stakes_held rt st' w'
        (ys @ [stake_record_new (dsa_stake_account ac) (delegated_stake d) (cx_clock cx)])"
    and keep: "\<And>a. acc_owner w2 a = ID \<Longrightarrow> acc_owner w' a = ID"
    by blast
  have dc: "delayed_unstake_cooling_down ss = delayed_unstake_cooling_down (stake_system st)"
    by (subst ss) (simp add: st1)
  have uc: "under_control st' = under_control st + unat (delegated_stake d)"
    using t by (simp add: under_control_def st' st1 tot dc)
  have fl': "flags_held rt key w' xs'" if "flags_held rt key w xs"
    using fl [OF that] tk keep by (auto simp: flags_held_def)
  show thesis
    by (rule that [OF _ acc sign _ _ mm _ _ _ _ _ _ uc _ j held fl'])
      (use stake stake' m price b tok mm tk views in \<open>simp_all add: st' st1 unat_add_le\<close>)
qed

end

section \<open>Properties\<close>

text \<open>
  C14. Depositing a stake account is fair and admits only suitable stakes. The account must be
  delegated, not deactivating, active for two epochs, of at least \<open>min_stake\<close>, without extra lamports
  or a lockup in force, not yet under control, and within the staking cap; its authority must sign.
  The user receives mSOL for the delegated lamports at the price before the deposit, rounded down,
  worth no more than the stake; the value under control grows by exactly the delegated lamports, and
  the price of the other holders' mSOL does not fall.
\<close>
theorem deposit_stake_account_fair:
  assumes "marinade_runtime rt" and "rt_system_program rt \<noteq> ID"
    and "deposit_stake_account rt cx key ac index st w = Inr (st', w')"
    and "validators_held rt st w xs" and "stakes_held rt st w ys"
    and "unat (circulating_ticket_balance st) \<le> under_control st" and "0 < msol_supply st"
  shows "\<exists>sm d m. acc_stake w (dsa_stake_account ac) = Some (StakeDelegated sm d)
    \<and> cx_signer cx (dsa_stake_authority ac)
    \<and> deactivation_epoch d = - 1 \<and> unat (activation_epoch d) + 2 \<le> unat (epoch (cx_clock cx))
    \<and> min_stake (stake_system st) \<le> delegated_stake d
    \<and> unat (acc_lamports w (dsa_stake_account ac))
        \<le> unat (delegated_stake d) + unat (rent_exempt_reserve sm)
    \<and> \<not> rt_lockup_in_force rt (meta_lockup sm) (cx_clock cx)
    \<and> stake_deposit_authority rt key (stake_system st) \<noteq> Inr (staker sm)
    \<and> stake_withdraw_authority rt key (stake_system st) \<noteq> Inr (withdrawer sm)
    \<and> under_control st' \<le> unat (staking_sol_cap st)
    \<and> m = msol_for st (unat (delegated_stake d)) \<and> lamports_for st m \<le> unat (delegated_stake d)
    \<and> unat (token_amount w' (dsa_mint_to ac)) = unat (token_amount w (dsa_mint_to ac)) + m
    \<and> unat (mint_supply w' (msol_mint st)) = unat (mint_supply w (msol_mint st)) + m
    \<and> unat (msol_supply st') = unat (msol_supply st) + m
    \<and> virtual_staked st' = virtual_staked st + unat (delegated_stake d)
    \<and> virtual_staked st * unat (msol_supply st') \<le> virtual_staked st' * unat (msol_supply st)"
proof (rule marinade_runtime.deposit_stake_account_effect [OF assms(1,3,4,5,2)], goal_cases)
  case (1 sm d m xs')
  let ?n = "unat (delegated_stake d)" and ?T = "virtual_staked st" and ?S = "unat (msol_supply st)"
  have v: "virtual_staked st' = ?T + ?n" using 1(13,14) assms(6) by (simp add: virtual_staked_def)
  have S: "0 < ?S" using assms(7) by (simp add: word_gt_0_unat)
  have "?T * (?S + msol_for st ?n) \<le> (?T + ?n) * ?S"
    unfolding msol_for_def by (rule mint_keeps_price [OF S])
  moreover have "lamports_for st (msol_for st ?n) \<le> ?n"
    unfolding msol_for_def lamports_for_def by (rule prop_floor_of_shares)
  ultimately show ?case
    using 1 v by (intro exI [of _ sm] exI [of _ d] exI [of _ "msol_for st ?n"])
      (simp add: deposit_stake_accept_Inr unat_add_le)
qed

text \<open>
  Depositing a stake account keeps both lists and their totals exact. Either the named validator,
  which must be the one the stake is delegated to, gains the delegated lamports, or, at the end of
  the list and only if automatic adding is enabled, a new validator of score zero is added with its
  flag account, so no validator is listed twice; the stake is recorded with its delegated lamports.
\<close>
lemma deposit_stake_account_keeps:
  assumes "marinade_runtime rt" and "rt_system_program rt \<noteq> ID"
    and "deposit_stake_account rt cx key ac index st w = Inr (st', w')"
    and "validators_held rt st w xs" and "stakes_held rt st w ys" and "flags_held rt key w xs"
  shows "\<exists>sm d xs'. acc_stake w (dsa_stake_account ac) = Some (StakeDelegated sm d)
    \<and> joined (validator_system st) (unat index) d xs xs'
    \<and> validators_held rt st' w' xs' \<and> flags_held rt key w' xs'
    \<and> stakes_held rt st' w'
        (ys @ [stake_record_new (dsa_stake_account ac) (delegated_stake d) (cx_clock cx)])"
  by (rule marinade_runtime.deposit_stake_account_effect [OF assms(1,3,4,5,2)]) (use assms(6) in blast)

section \<open>Runs\<close>

text \<open>The stake 64 of the example, delegated to validator 51, is deposited by its owner 40.\<close>

definition ex_deposit_stake :: deposit_stake_accounts where
  "ex_deposit_stake = \<lparr>dsa_validator_list = 21, dsa_stake_list = 20, dsa_stake_account = 64,
     dsa_stake_authority = 40, dsa_duplication_flag = 3031, dsa_rent_payer = 40, dsa_msol_mint = 10,
     dsa_mint_to = 41, dsa_msol_mint_authority = ex_mint_auth, dsa_system_program = 0,
     dsa_token_program = 6, dsa_stake_program = 7\<rparr>"

lemma ex_flags_stakes_held: "stakes_held ref_rt ex_state ex_world_flags ex_stakes"
  using ex_held(2) by (simp add: stakes_held_def ex_world_flags_def ex_world_def Let_def)

lemma ex_deposit_stake_checks:
  "mt_supply msol = 700000 \<Longrightarrow> tk_mint to = 10 \<Longrightarrow>
   deposit_stake_checks ref_rt ex_key ex_deposit_stake msol to ex_state ex_world_flags = Inr ()"
  using ex_stake_disc ex_validator_disc
  by (simp add: deposit_stake_checks_def ex_deposit_stake_def check_validator_list_def
      check_stake_list_def run_simps ex_world_flags_def ex_world_def)

lemma ex_deposit_stake_runs:
  obtains st' w' where
    "deposit_stake_account ref_rt ex_cx ex_key ex_deposit_stake 1 ex_state ex_world_flags = Inr (st', w')"
proof -
  let ?v = "ex_validators ! 1" and ?ac = ex_deposit_stake
  let ?m = "ex_meta\<lparr>staker := 40, withdrawer := 40\<rparr>" and ?d = "ex_delegation 51 1000000 (- 1)"
  have v: "validator_account ?v = 51" "active_balance ?v = 0" by (simp_all add: ex_validators_def)
  obtain e where e: "list_set borsh_validator ex_validator_header ex_validator_data 1
      (?v\<lparr>active_balance := 1000000\<rparr>) = Inr e"
    by (rule ex_validator_set_ok [of 1 "?v\<lparr>active_balance := 1000000\<rparr>"]) simp
  obtain l d where p: "list_push borsh_stake ex_stake_header ex_stake_data
      (stake_record_new 64 1000000 ex_clock) = Inr (l, d)"
    by (rule ex_stake_push)
  have w: "acc_data ex_world_flags 20 = ex_stake_data" "acc_data ex_world_flags 21 = ex_validator_data"
    "acc_stake ex_world_flags 64 = Some (StakeDelegated ?m ?d)"
    "acc_lamports ex_world_flags 64 = 3282880"
    "acc_token ex_world_flags 41 = Some (ex_token 10 40 5000)"
    "acc_mint ex_world_flags 10 = Some \<lparr>mt_supply = 700000, mt_authority = Some ex_mint_auth,
       mt_freeze = None\<rparr>"
    by (simp_all add: ex_world_flags_def ex_world_def)
  have m: "staker ?m = 40" "withdrawer ?m = 40" "rent_exempt_reserve ?m = 2282880"
    "meta_lockup ?m = no_lockup" "voter_pubkey ?d = 51" "delegated_stake ?d = 1000000"
    "activation_epoch ?d = 90" "deactivation_epoch ?d = - 1"
    by (simp_all add: ex_meta_def ex_delegation_def)
  have acc: "deposit_stake_accept ref_rt ex_clock ex_state ?m ?d 3282880 = Inr ()"
    by (simp add: deposit_stake_accept_Inr m under_control_def no_lockup_def
        unsigned_minus_1_eq_mask mask_eq_exp_minus_1)
  have ac: "dsa_validator_list ?ac = 21" "dsa_stake_list ?ac = 20" "dsa_stake_account ?ac = 64"
    "dsa_stake_authority ?ac = 40" "dsa_rent_payer ?ac = 40" "dsa_msol_mint ?ac = 10"
    "dsa_mint_to ?ac = 41" "dsa_msol_mint_authority ?ac = ex_mint_auth" "dsa_duplication_flag ?ac = 3031"
    by (simp_all only: ex_deposit_stake_def deposit_stake_accounts.simps)
  let ?w1 = "put_data 21 e ex_world_flags"
  have 1: "deposit_stake_validator ref_rt ex_key ?ac 1 ?d ex_state ex_world_flags = Inr (ex_state, ?w1)"
    using e by (simp add: deposit_stake_validator_def validator_count_def validator_get_def
        validator_set_def ac w v [unfolded One_nat_def] m ex_get run_simps)
  have "\<exists>w2. deposit_stake_take ref_rt ex_key ?ac ?m ex_state ?w1 = Inr w2
      \<and> acc_data w2 20 = ex_stake_data \<and> acc_token w2 = acc_token ex_world_flags
      \<and> acc_mint w2 = acc_mint ex_world_flags"
    by (simp add: deposit_stake_take_def ac m no_lockup_def pubkey_default_def put_meta_def w
        put_stake_def)
  then obtain w2 where 2: "deposit_stake_take ref_rt ex_key ?ac ?m ex_state ?w1 = Inr w2"
    and w2: "acc_data w2 20 = ex_stake_data" "acc_token w2 = acc_token ex_world_flags"
      "acc_mint w2 = acc_mint ex_world_flags"
    by blast
  have "\<exists>r. deposit_stake_mint ref_rt ex_key ex_clock ?ac ?d ex_state w2 = Inr r"
    using p by (simp add: deposit_stake_mint_def stake_add_def ac w w2 m run_simps ex_token_def
        del: ex_addresses)
  then obtain st' w' where 3: "deposit_stake_mint ref_rt ex_key ex_clock ?ac ?d ex_state w2 = Inr (st', w')"
    by auto
  have "deposit_stake_account ref_rt ex_cx ex_key ?ac 1 ex_state ex_world_flags = Inr (st', w')"
    using acc 1 2 3
    by (simp add: deposit_stake_account_def deposit_stake_account_process_def load_stake_def
        load_mint_def load_token_def check_attributes_def check_context_def ac w
        ex_deposit_stake_checks ex_token_def)
  then show ?thesis by (rule that)
qed

lemma deposit_stake_account_fair_witness:
  "\<exists>st' w'. deposit_stake_account ref_rt ex_cx ex_key ex_deposit_stake 1 ex_state ex_world_flags
      = Inr (st', w')
    \<and> virtual_staked ex_state * unat (msol_supply st') \<le> virtual_staked st' * unat (msol_supply ex_state)"
proof -
  obtain st' w' where r: "deposit_stake_account ref_rt ex_cx ex_key ex_deposit_stake 1 ex_state
      ex_world_flags = Inr (st', w')"
    by (rule ex_deposit_stake_runs)
  have s: "rt_system_program ref_rt \<noteq> ID" using ID_not_system by simp
  have c: "unat (circulating_ticket_balance ex_state) \<le> under_control ex_state" "0 < msol_supply ex_state"
    by (simp_all add: under_control_def)
  from deposit_stake_account_fair [OF ref.marinade_runtime_axioms s r ex_validators_held(1)
      ex_flags_stakes_held c] r
  show ?thesis by blast
qed

lemma deposit_stake_account_keeps_witness:
  "\<exists>st' w' xs'. deposit_stake_account ref_rt ex_cx ex_key ex_deposit_stake 1 ex_state ex_world_flags
      = Inr (st', w')
    \<and> validators_held ref_rt st' w' xs' \<and> flags_held ref_rt ex_key w' xs'"
proof -
  obtain st' w' where r: "deposit_stake_account ref_rt ex_cx ex_key ex_deposit_stake 1 ex_state
      ex_world_flags = Inr (st', w')"
    by (rule ex_deposit_stake_runs)
  have s: "rt_system_program ref_rt \<noteq> ID" using ID_not_system by simp
  from deposit_stake_account_keeps [OF ref.marinade_runtime_axioms s r ex_validators_held(1)
      ex_flags_stakes_held ex_validators_held(2)] r
  show ?thesis by blast
qed

end
