(* ===== verification/Frame.thy ===== *)
theory Frame
  imports Admin DeactivateStake EmergencyMerge DepositStake Update
begin

text \<open>
  What the instructions leave alone. \<open>settings\<close> are the parameters and authorities of an
  instance; \<open>quiet\<close> relates two situations with the same settings and the same tickets. Every
  instruction that is neither a configuration nor about tickets is quiet; the theory proves it phase
  by phase, from the fact that no invoked program can touch a ticket.
\<close>

section \<open>Settings and tickets\<close>

text \<open>
  The staking cap and the extra runs are left out: the program itself lowers them
  (\<open>update_begin\<close>, \<open>stake_reserve_run\<close>).
\<close>

record settings =
  set_admin :: pubkey
  set_manager :: pubkey
  set_accounts :: "pubkey list"
  set_bumps :: "u8 list"
  set_reward_fee :: fee
  set_limits :: "u64 list"
  set_auto_add :: u8
  set_pool_fees :: "fee list"
  set_pool_limits :: "u64 list"

definition settings :: "state \<Rightarrow> settings" where
  "settings st = \<lparr>set_admin = admin_authority st,
     set_manager = manager_authority (validator_system st),
     set_accounts = [msol_mint st, operational_sol_account st, treasury_msol_account st,
       account (stake_list (stake_system st)), account (validator_list (validator_system st)),
       lp_mint (liq_pool st), msol_leg (liq_pool st)],
     set_bumps = [reserve_bump_seed st, msol_mint_authority_bump_seed st,
       stake_deposit_bump_seed (stake_system st), stake_withdraw_bump_seed (stake_system st),
       lp_mint_authority_bump_seed (liq_pool st), sol_leg_bump_seed (liq_pool st),
       msol_leg_authority_bump_seed (liq_pool st)],
     set_reward_fee = reward_fee st,
     set_limits = [rent_exempt_for_token_acc st, min_deposit st, min_withdraw st,
       slots_for_stake_delta (stake_system st), min_stake (stake_system st)],
     set_auto_add = auto_add_validator_enabled (validator_system st),
     set_pool_fees = [lp_min_fee (liq_pool st), lp_max_fee (liq_pool st), treasury_cut (liq_pool st)],
     set_pool_limits = [lp_liquidity_target (liq_pool st), liquidity_sol_cap (liq_pool st)]\<rparr>"

definition quiet :: "state \<Rightarrow> world \<Rightarrow> state \<Rightarrow> world \<Rightarrow> bool" where
  "quiet st w st' w' \<longleftrightarrow> settings st' = settings st \<and> acc_ticket w' = acc_ticket w
     \<and> circulating_ticket_balance st' = circulating_ticket_balance st
     \<and> circulating_ticket_count st' = circulating_ticket_count st"

named_theorems quiet_dest \<comment> \<open>the phases of the handlers are quiet\<close>

lemma quiet_refl [simp]: "quiet st w st w"
  by (simp add: quiet_def)

lemma quiet_trans [trans]: "quiet st w st1 w1 \<Longrightarrow> quiet st1 w1 st2 w2 \<Longrightarrow> quiet st w st2 w2"
  by (simp add: quiet_def)

lemma quiet_tickets: "quiet st w st' w' \<Longrightarrow> acc_ticket w' = acc_ticket w"
  by (simp add: quiet_def)

lemma virtual_quiet [quiet_dest]:
  "on_transfer_to_reserve st n = Inr st' \<Longrightarrow> settings st' = settings st
    \<and> circulating_ticket_balance st' = circulating_ticket_balance st
    \<and> circulating_ticket_count st' = circulating_ticket_count st"
  "on_msol_mint st n = Inr st' \<Longrightarrow> settings st' = settings st
    \<and> circulating_ticket_balance st' = circulating_ticket_balance st
    \<and> circulating_ticket_count st' = circulating_ticket_count st"
  by (auto simp: on_transfer_to_reserve_def on_msol_mint_def bindR_Inr settings_def)

lemma virtual_quiet_simps [simp]:
  "settings (on_transfer_from_reserve st n) = settings st"
  "circulating_ticket_balance (on_transfer_from_reserve st n) = circulating_ticket_balance st"
  "circulating_ticket_count (on_transfer_from_reserve st n) = circulating_ticket_count st"
  "settings (on_msol_burn st n) = settings st"
  "circulating_ticket_balance (on_msol_burn st n) = circulating_ticket_balance st"
  "circulating_ticket_count (on_msol_burn st n) = circulating_ticket_count st"
  by (simp_all add: on_transfer_from_reserve_def on_msol_burn_def settings_def)

text \<open>The list operations keep the list's account and the parameters beside the list.\<close>

lemma list_push_account: "list_push ser l d x = Inr (l', d') \<Longrightarrow> account l' = account l"
  by (auto simp: list_push_def bindR_Inr)

lemma list_remove_account: "list_remove l d i = Inr (l', d') \<Longrightarrow> account l' = account l"
  by (auto simp: list_remove_def result_simps Let_def split: if_splits)

lemma stake_lists_quiet [quiet_dest]:
  "stake_add rt ss d k n ck = Inr (ss', d') \<Longrightarrow> settings (st\<lparr>stake_system := ss'\<rparr>) = settings (st\<lparr>stake_system := ss\<rparr>)"
  "stake_remove ss d i = Inr (ss', d') \<Longrightarrow> settings (st\<lparr>stake_system := ss'\<rparr>) = settings (st\<lparr>stake_system := ss\<rparr>)"
  by (auto simp: stake_add_Inr stake_remove_Inr settings_def dest: list_push_account list_remove_account)

lemma validator_lists_quiet [quiet_dest]:
  "validator_add rt vs d k sc key f = Inr (vs', d') \<Longrightarrow>
   settings (st\<lparr>validator_system := vs'\<rparr>) = settings (st\<lparr>validator_system := vs\<rparr>)"
  "validator_add_with_balance rt vs d k sc b key f = Inr (vs', d') \<Longrightarrow>
   settings (st\<lparr>validator_system := vs'\<rparr>) = settings (st\<lparr>validator_system := vs\<rparr>)"
  "validator_remove vs d i r = Inr (vs', d') \<Longrightarrow>
   settings (st\<lparr>validator_system := vs'\<rparr>) = settings (st\<lparr>validator_system := vs\<rparr>)"
  by (auto simp: validator_add_def validator_add_with_balance_def validator_remove_def bindR_Inr
      Let_def settings_def dest: list_push_account list_remove_account)

lemma put_data_ticket [simp]: "acc_ticket (put_data k d w) = acc_ticket w"
  by (simp add: put_data_def)

context marinade_runtime
begin

text \<open>No invoked program can write a ticket: it belongs to this program.\<close>

lemma invoke_tickets: "rt_invoke rt ix sg w = Inr w' \<Longrightarrow> acc_ticket w' = acc_ticket w"
proof (cases ix)
  case (SystemTransfer f t n)
  then show "rt_invoke rt ix sg w = Inr w' \<Longrightarrow> acc_ticket w' = acc_ticket w"
    by (auto dest: system_transfer)
next
  case (SystemCreateAccount f k n sp own)
  then show "rt_invoke rt ix sg w = Inr w' \<Longrightarrow> acc_ticket w' = acc_ticket w"
    by (auto dest: create_account)
qed (auto dest!: token_transfer token_mint_to token_burn stake_withdraw stake_split stake_merge
    dest: stake_admin simp: tokens_only_def stakes_only_def)

lemmas quiet_simps = bindR_Inr Let_def quiet_def

subsection \<open>Deposits and the pool\<close>

lemma deposit_quiet:
  assumes "deposit rt cx key ac n st w = Inr (st', w')"
  shows "quiet st w st' w'"
proof -
  from assms obtain leg rest w1 where
    swap: "deposit_swap rt key ac leg st n w = Inr (rest, w1)"
    and stake: "deposit_stake rt key ac st rest w1 = Inr (st', w')"
    by (auto simp: deposit_def deposit_process_def bindR_Inr)
  from swap have "acc_ticket w1 = acc_ticket w"
    by (auto simp: deposit_swap_def deposit_sale_def quiet_simps dest!: invoke_tickets split: if_splits)
  with stake show ?thesis
    by (auto simp: deposit_stake_def quiet_simps dest!: invoke_tickets virtual_quiet split: if_splits)
qed

lemma liquid_unstake_quiet:
  "liquid_unstake rt cx key ac m st w = Inr (st', w') \<Longrightarrow> quiet st w st' w'"
  by (auto simp: liquid_unstake_def liquid_unstake_process_def liquid_unstake_pay_def quiet_simps
      dest!: invoke_tickets split: if_splits)

lemma add_liquidity_quiet:
  "add_liquidity rt cx key ac n st w = Inr (st', w') \<Longrightarrow> quiet st w st' w'"
  by (auto simp: add_liquidity_def add_liquidity_process_def on_lp_mint_def quiet_simps settings_def
      dest!: invoke_tickets)

lemma remove_liquidity_quiet:
  assumes "remove_liquidity rt cx key ac n st w = Inr (st', w')"
  shows "quiet st w st' w'"
proof -
  from assms obtain lpm :: mint and x y where
    pay: "remove_liquidity_pay rt key ac x y n (sync_lp_supply (mt_supply lpm) st) w = Inr (st', w')"
    unfolding remove_liquidity_def remove_liquidity_process_def Let_def
    by (auto simp: bindR_Inr)
  have "quiet st w (sync_lp_supply (mt_supply lpm) st) w"
    by (simp add: sync_lp_supply_def quiet_def settings_def)
  also have "quiet (sync_lp_supply (mt_supply lpm) st) w st' w'"
    using pay unfolding remove_liquidity_pay_def
    by (auto simp: on_lp_burn_def quiet_simps settings_def dest!: invoke_tickets split: if_splits)
  finally show ?thesis .
qed

subsection \<open>Validators\<close>

lemma add_validator_quiet:
  assumes "add_validator rt cx key ac sc st w = Inr (st', w')"
  shows "quiet st w st' w'"
proof -
  from assms obtain vs d v w1 where
    add: "validator_add rt (validator_system st) (acc_data w (av_validator_list ac))
      (av_validator_vote ac) sc key (av_duplication_flag ac) = Inr (vs, d)"
    and cpi: "rt_invoke rt (SystemCreateAccount (av_rent_payer ac) (av_duplication_flag ac)
      (rt_minimum_balance rt 0) 0 ID) [duplication_flag_seeds key v]
      (put_data (av_validator_list ac) d w) = Inr w1"
    and "st' = st\<lparr>validator_system := vs\<rparr>" "w' = w1"
    by (auto simp: add_validator_def add_validator_process_def quiet_simps)
  then show ?thesis
    using validator_lists_quiet(1) [OF add, of st] invoke_tickets [OF cpi] by (simp add: quiet_def)
qed

lemma remove_validator_quiet:
  assumes "remove_validator rt cx key ac i vote st w = Inr (st', w')"
  shows "quiet st w st' w'"
proof -
  from assms obtain v vs d where
    "validator_remove (validator_system st) (acc_data w (rv_validator_list ac)) i v = Inr (vs, d)"
    "st' = st\<lparr>validator_system := vs\<rparr>" "acc_ticket w' = acc_ticket w"
    by (auto simp: remove_validator_def remove_validator_process_def quiet_simps)
  then show ?thesis
    using validator_lists_quiet(3) [where st = st] by (auto simp: quiet_def)
qed

lemma set_validator_score_quiet:
  "set_validator_score rt cx key m l i vote sc st w = Inr (st', w') \<Longrightarrow> quiet st w st' w'"
  by (auto simp: set_validator_score_def set_validator_score_process_def quiet_simps settings_def)

lemma config_validator_system_quiet:
  "config_validator_system cx key m n st w = Inr (st', w') \<Longrightarrow> quiet st w st' w'"
  by (auto simp: config_validator_system_def quiet_simps settings_def)

subsection \<open>Stakes\<close>

lemma stake_reserve_quiet:
  assumes "stake_reserve rt cx key ac i st w = Inr (st', w')"
  shows "quiet st w st' w'"
proof -
  have stake: "quiet st w st' w'"
    if s: "stake_reserve_stake rt key ck ac sk wk i v n st w = Inr (st', w')" for ck sk wk v n st
  proof -
    from s obtain w1 w2 w3 ss d t where
      cpi: "rt_invoke rt (SystemTransfer (sr_reserve_pda ac) (sr_stake_account ac) n)
          [reserve_seeds key st] w = Inr w1"
        "rt_invoke rt (StakeInitialize (sr_stake_account ac) sk wk) [] w1 = Inr w2"
        "rt_invoke rt (StakeDelegate (sr_stake_account ac) (sr_validator_vote ac) sk)
          [stake_deposit_seeds key (stake_system (on_transfer_from_reserve st n))] w2 = Inr w3"
      and add: "stake_add rt (stake_system (on_transfer_from_reserve st n))
          (acc_data w3 (sr_stake_list ac)) (sr_stake_account ac) n ck = Inr (ss, d)"
      and st': "st' = (on_transfer_from_reserve st n)
          \<lparr>stake_system := ss\<lparr>last_stake_delta_epoch := epoch ck\<rparr>,
           validator_system := (validator_system st)\<lparr>total_active_balance := t\<rparr>\<rparr>"
      and w': "acc_ticket w' = acc_ticket w3"
      by (auto simp: stake_reserve_stake_def quiet_simps on_transfer_from_reserve_def)
    have "settings st' = settings ((on_transfer_from_reserve st n)\<lparr>stake_system := ss\<rparr>)"
      by (simp add: st' settings_def on_transfer_from_reserve_def)
    also have "\<dots> = settings st"
      using stake_lists_quiet(1) [OF add, of "on_transfer_from_reserve st n"] by simp
    finally show ?thesis
      using cpi [THEN invoke_tickets] w' by (simp add: quiet_def st' on_transfer_from_reserve_def)
  qed
  have run: "quiet st w st1 w" if "stake_reserve_run ck st v = Inr (Some (st1, v1))" for ck v st1 v1
    using that by (auto simp: stake_reserve_run_def quiet_simps settings_def split: if_splits)
  have "quiet st w st' w'"
    if "stake_reserve_delta rt key ck ac sk wk i d st w = Inr (st', w')" for ck sk wk d
    using that run stake quiet_trans
    by (auto simp: stake_reserve_delta_def bindR_Inr Let_def split: if_splits option.splits prod.splits;
        blast)
  with assms show ?thesis
    by (auto simp: stake_reserve_def stake_reserve_process_def bindR_Inr split: if_splits)
qed

lemma return_split_rent_tickets:
  "return_split_rent rt ac w = Inr w' \<Longrightarrow> acc_ticket w' = acc_ticket w"
  by (auto simp: return_split_rent_def Let_def dest: invoke_tickets split: if_splits)

lemma prepare_split_tickets: "prepare_split rt ac w = Inr w' \<Longrightarrow> acc_ticket w' = acc_ticket w"
  by (auto simp: prepare_split_def Let_def bindR_Inr dest: invoke_tickets split: if_splits)

lemma deactivate_record_quiet:
  "deactivate_record rt ck ac si vi n r v st w = Inr (st', w') \<Longrightarrow> quiet st w st' w'"
  by (auto simp: deactivate_record_def quiet_simps settings_def)

lemma deactivate_split_quiet:
  assumes "deactivate_split rt key ck ac r target delta st w = Inr (n, r', st', w')"
  shows "quiet st w st' w'"
proof -
  from assms obtain x ss d w2 w3 w4 where
    add: "stake_add rt (stake_system st) (acc_data w (ds_stake_list ac))
        (ds_split_stake_account ac) x ck = Inr (ss, d)"
    and prep: "prepare_split rt ac (put_data (ds_stake_list ac) d w) = Inr w2"
    and cpi: "rt_invoke rt (StakeSplit (ds_stake_account ac) (ds_stake_deposit_authority ac) x
        (ds_split_stake_account ac)) [stake_deposit_seeds key ss] w2 = Inr w3"
      "rt_invoke rt (StakeDeactivate (ds_split_stake_account ac) (ds_stake_deposit_authority ac))
        [stake_deposit_seeds key ss] w3 = Inr w4"
    and e: "st' = st\<lparr>stake_system := ss\<rparr>" "w' = w4"
    by (auto simp: deactivate_split_def bindR_Inr Let_def)
  then show ?thesis
    using stake_lists_quiet(1) [OF add, of st] prepare_split_tickets [OF prep]
      cpi [THEN invoke_tickets] by (simp add: quiet_def)
qed

lemma deactivate_stake_quiet:
  assumes "deactivate_stake rt cx key ac si vi st w = Inr (st', w')"
  shows "quiet st w st' w'"
proof -
  have whole: "quiet st w st w1" if "deactivate_whole rt key ac r st w = Inr (n, w1)" for r n w1
    using that
    by (auto simp: deactivate_whole_def quiet_simps dest!: invoke_tickets return_split_rent_tickets)
  have "quiet st w st' w'"
    if "deactivate_amount rt key ck ac si vi r v n d st w = Inr (st', w')" for ck r v n d
    using that
    by (auto simp: deactivate_amount_def bindR_Inr Let_def split: if_splits
        dest!: whole deactivate_split_quiet deactivate_record_quiet intro: quiet_trans)
  with assms show ?thesis
    unfolding deactivate_stake_def deactivate_stake_process_def Let_def
    by (auto simp: bindR_Inr split: if_splits)
qed

lemma emergency_unstake_quiet:
  "emergency_unstake rt cx key ac si vi st w = Inr (st', w') \<Longrightarrow> quiet st w st' w'"
  by (auto simp: emergency_unstake_def emergency_unstake_process_def quiet_simps settings_def
      dest!: invoke_tickets)

lemma merge_stakes_quiet:
  assumes "merge_stakes rt cx key ac di si vi st w = Inr (st', w')"
  shows "quiet st w st' w'"
proof (rule merge_stakes_trace [OF assms], goal_cases)
  case (1 source v dinfo sinfo w1 merged stake extra returned b vdata t sdata ss d)
  let ?st1 = "st\<lparr>validator_system := (validator_system st)\<lparr>total_active_balance := t\<rparr>\<rparr>"
  from 1(13) have "st' = ?st1\<lparr>stake_system := ss\<rparr>" "acc_ticket w' = acc_ticket w"
    using invoke_tickets [OF 1(6)]
    by (auto simp: bindR_Inr dest!: invoke_tickets split: if_splits)
  moreover have "settings (?st1\<lparr>stake_system := ss\<rparr>) = settings (st\<lparr>stake_system := ss\<rparr>)"
    by (simp add: settings_def)
  ultimately show ?case
    using stake_lists_quiet(2) [OF 1(12), of st] by (simp add: quiet_def)
qed

lemma deposit_stake_account_quiet:
  assumes "deposit_stake_account rt cx key ac i st w = Inr (st', w')"
  shows "quiet st w st' w'"
proof -
  from assms obtain d and m :: stake_meta and st1 w1 w2 where
    val: "deposit_stake_validator rt key ac i d st w = Inr (st1, w1)"
    and take: "deposit_stake_take rt key ac m st1 w1 = Inr w2"
    and mint: "deposit_stake_mint rt key (cx_clock cx) ac d st1 w2 = Inr (st', w')"
    by (auto simp: deposit_stake_account_def deposit_stake_account_process_def bindR_Inr)
  have "quiet st w st1 w1"
  proof (cases "i = validator_count (validator_system st)")
    case True
    with val obtain vs data v where
      add: "validator_add_with_balance rt (validator_system st) (acc_data w (dsa_validator_list ac))
        (voter_pubkey d) 0 (delegated_stake d) key (dsa_duplication_flag ac) = Inr (vs, data)"
      and cpi: "rt_invoke rt (SystemCreateAccount (dsa_rent_payer ac) (dsa_duplication_flag ac)
        (rt_minimum_balance rt 0) 0 ID) [duplication_flag_seeds key v]
        (put_data (dsa_validator_list ac) data w) = Inr w1"
      and "st1 = st\<lparr>validator_system := vs\<rparr>"
      by (auto simp: deposit_stake_validator_def deposit_stake_add_validator_def bindR_Inr Let_def)
    then show ?thesis
      using validator_lists_quiet(2) [OF add, of st] invoke_tickets [OF cpi] by (simp add: quiet_def)
  next
    case False
    with val show ?thesis by (auto simp: deposit_stake_validator_def bindR_Inr quiet_def)
  qed
  also have "quiet st1 w1 st1 w2"
    using take by (auto simp: deposit_stake_take_def quiet_simps dest!: invoke_tickets split: if_splits)
  also have "quiet st1 w2 st' w'"
  proof -
    from mint obtain ss data m w3 st2 t where
      add: "stake_add rt (stake_system st1) (acc_data w2 (dsa_stake_list ac)) (dsa_stake_account ac)
        (delegated_stake d) (cx_clock cx) = Inr (ss, data)"
      and cpi: "rt_invoke rt (TokenMintTo (dsa_msol_mint ac) (dsa_mint_to ac)
        (dsa_msol_mint_authority ac) m) [msol_mint_authority_seeds key (st1\<lparr>stake_system := ss\<rparr>)]
        (put_data (dsa_stake_list ac) data w2) = Inr w3"
      and on: "on_msol_mint (st1\<lparr>stake_system := ss\<rparr>) m = Inr st2"
      and st': "st' = st2\<lparr>validator_system := (validator_system st2)\<lparr>total_active_balance := t\<rparr>\<rparr>"
      and "w' = w3"
      by (auto simp: deposit_stake_mint_def bindR_Inr Let_def)
    moreover have "settings st' = settings st2" by (simp add: st' settings_def)
    ultimately show ?thesis
      using stake_lists_quiet(1) [OF add, of st1] invoke_tickets [OF cpi] virtual_quiet(2) [OF on]
      by (simp add: quiet_def)
  qed
  finally show ?thesis .
qed

subsection \<open>Updates\<close>

lemma withdraw_to_reserve_quiet:
  "withdraw_to_reserve rt key c n st w = Inr (st', w') \<Longrightarrow> quiet st w st' w'"
  by (auto simp: withdraw_to_reserve_def quiet_simps dest!: invoke_tickets virtual_quiet
      split: if_splits)

lemma update_treasury_quiet:
  "update_treasury rt key c ready n st w = Inr (st', w') \<Longrightarrow> quiet st w st' w'"
  by (auto simp: update_treasury_def mint_to_treasury_def quiet_simps
      dest!: invoke_tickets virtual_quiet split: if_splits)

lemma update_begin_quiet:
  "update_begin rt key c msol i st w = Inr (x, st') \<Longrightarrow> quiet st w st' w"
  by (auto simp: update_begin_def quiet_simps update_sync_def settings_def)

lemma update_rewards_quiet:
  assumes "update_rewards rt key c ready n prev v st w = Inr (v', st', w')"
  shows "quiet st w st' w'"
proof (cases "prev \<le> n")
  case True
  with assms obtain st1 w1 t where
    "update_treasury rt key c ready (fee_apply (reward_fee st) (n - prev)) st w = Inr (st1, w1)"
    "st' = st1\<lparr>validator_system := (validator_system st1)\<lparr>total_active_balance := t\<rparr>\<rparr>" "w' = w1"
    by (auto simp: update_rewards_def bindR_Inr Let_def)
  then show ?thesis
    using update_treasury_quiet by (fastforce simp: quiet_def settings_def)
next
  case False
  with assms show ?thesis by (auto simp: update_rewards_def quiet_simps settings_def)
qed

lemma update_active_quiet:
  assumes "update_active rt cx key ac si vi st w = Inr (st', w')"
  shows "quiet st w st' w'"
proof -
  from assms obtain stake and msol :: mint where
    "update_active_run rt key (cx_clock cx) ac stake msol si vi st w = Inr (st', w')"
    by (auto simp: update_active_def update_active_process_def bindR_Inr Let_def)
  then show ?thesis
  proof (rule update_active_run_trace, goal_cases)
    case (1 r ready st1 v d sm bal st2 w2 st3 w3 v' st4 w4 vdata price sdata)
    have "quiet st w st1 w" by (rule update_begin_quiet [OF 1(1)])
    also have "quiet st1 w st2 w2" by (rule withdraw_to_reserve_quiet [OF 1(7)])
    also have "quiet st2 w2 st3 w3" by (rule update_treasury_quiet [OF 1(8)])
    also have "quiet st3 w3 st4 w4" by (rule update_rewards_quiet [OF 1(9)])
    also have "quiet st4 w4 st' w'"
      by (simp add: quiet_def settings_def flip: 1(13,14))
    finally show ?case .
  qed
qed

lemma update_deactivated_quiet:
  assumes "update_deactivated rt cx key ac i st w = Inr (st', w')"
  shows "quiet st w st' w'"
proof (rule update_deactivated_trace [OF assms], goal_cases)
  case (1 stake msol r ready st1 d sm bal st2 w2 st3 w3 w4 price ss sdata)
  let ?c = "ud_common ac"
  let ?st4 = "leave_cooling_down r (on_transfer_from_reserve st3 (rent_exempt_reserve sm))"
  have "quiet st w st1 w" by (rule update_begin_quiet [OF 1(3)])
  also have "quiet st1 w st2 w2"
    using 1(9) by (auto simp: update_deactivated_fees_def bindR_Inr split: if_splits
        dest!: update_treasury_quiet intro: quiet_trans)
  also have "quiet st2 w2 st3 w3" by (rule withdraw_to_reserve_quiet [OF 1(10)])
  also have "quiet st3 w3 (?st4\<lparr>msol_price := price\<rparr>) w4"
    using invoke_tickets [OF 1(11)]
    by (simp add: quiet_def leave_cooling_down_def settings_def on_transfer_from_reserve_def)
  also have "quiet (?st4\<lparr>msol_price := price\<rparr>) w4 st' w'"
    using stake_lists_quiet(2) [OF 1(13), of "?st4\<lparr>msol_price := price\<rparr>"]
    by (simp add: quiet_def flip: 1(14,15))
  finally show ?case .
qed

end

end
