(* ===== verification/Books.thy ===== *)
theory Books
  imports Frame
begin

text \<open>
  The two record lists as an invariant of the whole program. \<open>lists_ok\<close> says that both list
  accounts belong to the program, are different, and hold a well-formed list, and that the total
  score is the sum of the validators' scores. It depends on three fields of the state, the
  \<open>books\<close>, and on the bytes of the two accounts; every handler keeps it, provided that
  \<open>update_active\<close> is given the program's own validator list (which the code does not check).
\<close>

section \<open>The invariant\<close>

definition books :: "state \<Rightarrow> list_header \<times> u32 \<times> list_header" where
  "books st = (validator_list (validator_system st), total_validator_score (validator_system st),
     stake_list (stake_system st))"

definition scores_held :: "runtime \<Rightarrow> state \<Rightarrow> world \<Rightarrow> validator_record list \<Rightarrow> bool" where
  "scores_held rt st w xs \<longleftrightarrow>
     (let vs = validator_system st; k = account (validator_list vs) in
      acc_owner w k = ID
      \<and> list_rep (rt_de_validator rt) (validator_record_len rt) (validator_list vs) (acc_data w k) xs
      \<and> unat (total_validator_score vs) = sum_list (map (unat \<circ> score) xs))"

definition lists_ok :: "runtime \<Rightarrow> state \<Rightarrow> world \<Rightarrow> bool" where
  "lists_ok rt st w \<longleftrightarrow>
     account (validator_list (validator_system st)) \<noteq> account (stake_list (stake_system st))
     \<and> (\<exists>xs. scores_held rt st w xs) \<and> (\<exists>ys. stakes_held rt st w ys)"

lemma scores_held_cong:
  assumes "scores_held rt st w xs"
    and "validator_list (validator_system st') = validator_list (validator_system st)"
    and "total_validator_score (validator_system st') = total_validator_score (validator_system st)"
    and "\<And>k. k = account (validator_list (validator_system st)) \<Longrightarrow> acc_owner w k = ID \<Longrightarrow>
      acc_owner w' k = ID \<and> acc_data w' k = acc_data w k"
  shows "scores_held rt st' w' xs"
  using assms by (simp add: scores_held_def Let_def)

lemma lists_ok_cong:
  assumes "lists_ok rt st w" and "books st' = books st"
    and "\<And>k. acc_owner w k = ID \<Longrightarrow> k \<in> {account (stake_list (stake_system st)),
        account (validator_list (validator_system st))} \<Longrightarrow>
      acc_owner w' k = ID \<and> acc_data w' k = acc_data w k"
  shows "lists_ok rt st' w'"
proof -
  from assms(1) obtain xs ys where "scores_held rt st w xs" "stakes_held rt st w ys"
    by (auto simp: lists_ok_def)
  with assms(2,3) have "scores_held rt st' w' xs" "stakes_held rt st' w' ys"
    by (auto intro: scores_held_cong stakes_held_cong simp: books_def)
  with assms(1,2) show ?thesis by (auto simp: lists_ok_def books_def)
qed

lemma lists_ok_books: "lists_ok rt st w \<Longrightarrow> books st' = books st \<Longrightarrow> lists_ok rt st' w"
  by (erule lists_ok_cong) auto

lemma lists_ok_kept:
  "lists_ok rt st w \<Longrightarrow> books st' = books st \<Longrightarrow> program_data_kept w w' \<Longrightarrow> lists_ok rt st' w'"
  by (erule lists_ok_cong) (auto simp: program_data_kept_def)

lemma books_simps [simp]:
  "books (st\<lparr>available_reserve_balance := a\<rparr>) = books st"
  "books (st\<lparr>emergency_cooling_down := a\<rparr>) = books st"
  "books (st\<lparr>msol_supply := a\<rparr>) = books st"
  "books (st\<lparr>msol_price := a\<rparr>) = books st"
  "books (st\<lparr>liq_pool := lp\<rparr>) = books st"
  "books (st\<lparr>circulating_ticket_balance := a\<rparr>) = books st"
  "books (st\<lparr>circulating_ticket_count := a\<rparr>) = books st"
  "books (on_transfer_from_reserve st a) = books st"
  "books (on_msol_burn st a) = books st"
  "books (update_sync a b st) = books st"
  by (simp_all add: books_def on_transfer_from_reserve_def on_msol_burn_def update_sync_def)

lemma virtual_books:
  "on_transfer_to_reserve st n = Inr st' \<Longrightarrow> books st' = books st"
  "on_msol_mint st n = Inr st' \<Longrightarrow> books st' = books st"
  by (auto simp: on_transfer_to_reserve_def on_msol_mint_def bindR_Inr books_def)

lemma kept_updates [simp]:
  "program_data_kept w (w1\<lparr>acc_ticket := t\<rparr>) = program_data_kept w w1"
  "program_data_kept w (w1\<lparr>acc_lamports := l\<rparr>) = program_data_kept w w1"
  "program_data_kept (w\<lparr>acc_ticket := t\<rparr>) w1 = program_data_kept w w1"
  by (simp_all add: program_data_kept_def)

section \<open>The list operations keep it\<close>

context marinade_runtime
begin

lemma lists_ok_invoke:
  "rt_invoke rt ix sg w = Inr w' \<Longrightarrow> lists_ok rt st w \<Longrightarrow> lists_ok rt st w'"
  using lists_ok_kept [OF _ refl invoke_kept] by blast

lemma scores_held_D:
  assumes "scores_held rt st w xs" and "k = account (validator_list (validator_system st))"
  shows "acc_owner w k = ID"
    and "list_rep (rt_de_validator rt) (validator_record_len rt)
           (validator_list (validator_system st)) (acc_data w k) xs"
    and "unat (total_validator_score (validator_system st)) = sum_list (map (unat \<circ> score) xs)"
  using assms by (simp_all add: scores_held_def Let_def)

text \<open>A new validator list in place of the old one; the stake list is untouched.\<close>

lemma lists_ok_new_validators:
  assumes ok: "lists_ok rt st w" and k: "k = account (validator_list (validator_system st))"
    and vs: "account (validator_list vs) = k"
    and rep: "list_rep (rt_de_validator rt) (validator_record_len rt) (validator_list vs) d xs'"
    and sum: "unat (total_validator_score vs) = sum_list (map (unat \<circ> score) xs')"
  shows "lists_ok rt (st\<lparr>validator_system := vs\<rparr>) (put_data k d w)"
proof -
  from ok obtain xs ys where xs: "scores_held rt st w xs" and ys: "stakes_held rt st w ys"
    and ne: "k \<noteq> account (stake_list (stake_system st))"
    by (auto simp: lists_ok_def k)
  have "scores_held rt (st\<lparr>validator_system := vs\<rparr>) (put_data k d w) xs'"
    using scores_held_D(1) [OF xs k] vs rep sum by (simp add: scores_held_def Let_def)
  moreover have "stakes_held rt (st\<lparr>validator_system := vs\<rparr>) (put_data k d w) ys"
    using put_data_stakes_held [OF ys ne] by simp
  ultimately show ?thesis using ne vs by (auto simp: lists_ok_def)
qed

lemma lists_ok_validator_set:
  assumes ok: "lists_ok rt st w" and k: "k = account (validator_list (validator_system st))"
    and get: "validator_get rt vs0 (acc_data w k) i = Inr v0"
    and set: "validator_set rt vs (acc_data w k) i v = Inr d"
    and vs0: "validator_list vs0 = validator_list (validator_system st)"
    and vs: "validator_list vs = validator_list (validator_system st)"
    and sc: "score v = score v0"
  shows "lists_ok rt st (put_data k d w)"
proof -
  from ok obtain xs where xs: "scores_held rt st w xs" by (auto simp: lists_ok_def)
  note rep = scores_held_D [OF xs k]
  have put: "unat i < length xs \<and> list_rep (rt_de_validator rt) (validator_record_len rt)
      (validator_list vs) d (xs[unat i := v])"
    using validators.store.put_Inr [OF rep(2)] set vs by (simp add: validator_set_def)
  have "v0 = xs ! unat i"
    using validators.store.get_Inr [OF rep(2)] get vs0 by (simp add: validator_get_def)
  with sc put have "sum_list (map (unat \<circ> score) (xs[unat i := v])) = sum_list (map (unat \<circ> score) xs)"
    using sum_list_update_nat [of "unat i" xs "unat \<circ> score" v] by simp
  then have "lists_ok rt (st\<lparr>validator_system := validator_system st\<rparr>) (put_data k d w)"
    using put rep(3) vs k by (intro lists_ok_new_validators [OF ok k, of _ _ "xs[unat i := v]"]) auto
  then show ?thesis by simp
qed

lemma lists_ok_validator_push:
  assumes ok: "lists_ok rt st w" and k: "k = account (validator_list (validator_system st))"
    and push: "list_push (rt_ser_validator rt) (validator_list (validator_system st)) (acc_data w k) v
      = Inr (l, d)"
    and total: "padd (total_validator_score (validator_system st)) (score v) = Inr t"
    and vs: "validator_list vs = l" "total_validator_score vs = t"
  shows "lists_ok rt (st\<lparr>validator_system := vs\<rparr>) (put_data k d w)"
proof -
  from ok obtain xs where xs: "scores_held rt st w xs" by (auto simp: lists_ok_def)
  note rep = scores_held_D [OF xs k]
  show ?thesis
    using validators.store.push_Inr [OF rep(2) push] rep(3) total list_push_account [OF push] k vs
    by (intro lists_ok_new_validators [OF ok k, of _ _ "xs @ [v]"])
      (auto simp: ok_or_Inr checked_add_Some)
qed

lemma lists_ok_validator_remove:
  assumes ok: "lists_ok rt st w" and k: "k = account (validator_list (validator_system st))"
    and get: "validator_get rt (validator_system st) (acc_data w k) i = Inr v"
    and rem: "validator_remove (validator_system st) (acc_data w k) i v = Inr (vs, d)"
  shows "lists_ok rt (st\<lparr>validator_system := vs\<rparr>) (put_data k d w)"
proof -
  from ok obtain xs where xs: "scores_held rt st w xs" by (auto simp: lists_ok_def)
  note rep = scores_held_D [OF xs k]
  from rem obtain l where l: "list_remove (validator_list (validator_system st)) (acc_data w k) i
      = Inr (l, d)"
    and vs: "vs = (validator_system st)\<lparr>validator_list := l, total_validator_score :=
        saturating_sub (total_validator_score (validator_system st)) (score v)\<rparr>"
    by (auto simp: validator_remove_def bindR_Inr Let_def)
  note r = validators.store.remove_Inr [OF rep(2) l]
  have "v = xs ! unat i"
    using validators.store.get_Inr [OF rep(2)] get by (simp add: validator_get_def)
  then show ?thesis
    using r rep(3) list_remove_account [OF l] k vs
      sum_list_swap_remove [of "unat i" xs "unat \<circ> score"]
    by (intro lists_ok_new_validators [OF ok k, of _ _ "swap_remove xs (unat i)"]) auto
qed

text \<open>The stake list, whatever becomes of the records.\<close>

lemma lists_ok_stakes:
  assumes ok: "lists_ok rt st w" and k: "k = account (stake_list (stake_system st))"
    and ys: "stakes_held rt (st\<lparr>stake_system := ss\<rparr>) (put_data k d w) ys"
    and ss: "account (stake_list ss) = k"
  shows "lists_ok rt (st\<lparr>stake_system := ss\<rparr>) (put_data k d w)"
proof -
  from ok obtain xs where xs: "scores_held rt st w xs"
    and ne: "account (validator_list (validator_system st)) \<noteq> k"
    by (auto simp: lists_ok_def k)
  have "scores_held rt (st\<lparr>stake_system := ss\<rparr>) (put_data k d w) xs"
    using xs by (rule scores_held_cong) (use ne in simp_all)
  moreover have "account (validator_list (validator_system (st\<lparr>stake_system := ss\<rparr>)))
      \<noteq> account (stake_list (stake_system (st\<lparr>stake_system := ss\<rparr>)))"
    using ss ne by simp
  ultimately show ?thesis using ys unfolding lists_ok_def by blast
qed

lemma lists_ok_stake_add:
  assumes "lists_ok rt st w" and "k = account (stake_list (stake_system st))"
    and "stake_add rt (stake_system st) (acc_data w k) s n ck = Inr (ss, d)"
  shows "lists_ok rt (st\<lparr>stake_system := ss\<rparr>) (put_data k d w)"
proof -
  from assms(1) obtain ys where ys: "stakes_held rt st w ys" by (auto simp: lists_ok_def)
  note a = stake_add_held [OF ys assms(2,3)]
  show ?thesis by (rule lists_ok_stakes [OF assms(1,2) a(1) a(3)])
qed

lemma lists_ok_stake_set:
  assumes ok: "lists_ok rt st w" and k: "k = account (stake_list (stake_system st))"
    and set: "stake_set rt ss (acc_data w k) i r = Inr d"
    and ss: "stake_list ss = stake_list (stake_system st)"
  shows "lists_ok rt st (put_data k d w)"
proof -
  from ok obtain ys where ys: "stakes_held rt st w ys" by (auto simp: lists_ok_def)
  have "stake_set rt (stake_system st) (acc_data w k) i r = Inr d"
    using set ss by (simp add: stake_set_def)
  from stake_set_held(1) [OF ys k this]
  have "stakes_held rt (st\<lparr>stake_system := stake_system st\<rparr>) (put_data k d w) (ys[unat i := r])"
    by simp
  from lists_ok_stakes [OF ok k this k [symmetric]] show ?thesis by simp
qed

lemma lists_ok_stake_remove:
  assumes "lists_ok rt st w" and "k = account (stake_list (stake_system st))"
    and "stake_remove (stake_system st) (acc_data w k) i = Inr (ss, d)"
  shows "lists_ok rt (st\<lparr>stake_system := ss\<rparr>) (put_data k d w)"
proof -
  from assms(1) obtain ys where ys: "stakes_held rt st w ys" by (auto simp: lists_ok_def)
  note a = stake_remove_held [OF ys assms(2,3)]
  show ?thesis by (rule lists_ok_stakes [OF assms(1,2) a(1) a(4)])
qed

section \<open>The handlers keep it\<close>

lemma kept_after:
  "program_data_kept w w1 \<Longrightarrow> rt_invoke rt ix sg w1 = Inr w2 \<Longrightarrow> program_data_kept w w2"
  by (rule kept_trans [OF _ invoke_kept])

text \<open>Deposits, the pool and the tickets do not touch the lists.\<close>

lemma deposit_kept:
  assumes "deposit rt cx key ac n st w = Inr (st', w')"
  shows "books st' = books st \<and> program_data_kept w w'"
proof -
  from assms obtain leg rest w1 where
    swap: "deposit_swap rt key ac leg st n w = Inr (rest, w1)"
    and stake: "deposit_stake rt key ac st rest w1 = Inr (st', w')"
    by (auto simp: deposit_def deposit_process_def bindR_Inr)
  from swap have "program_data_kept w w1"
    by (auto simp: deposit_swap_def deposit_sale_def bindR_Inr Let_def
        dest: invoke_kept kept_after split: if_splits)
  with stake show ?thesis
    by (auto simp: deposit_stake_def bindR_Inr dest!: virtual_books dest: kept_after split: if_splits)
qed

lemma liquid_unstake_kept:
  "liquid_unstake rt cx key ac m st w = Inr (st', w') \<Longrightarrow> books st' = books st \<and> program_data_kept w w'"
  by (auto simp: liquid_unstake_def liquid_unstake_process_def liquid_unstake_pay_def bindR_Inr Let_def
      dest: invoke_kept kept_after split: if_splits)

lemma add_liquidity_kept:
  "add_liquidity rt cx key ac n st w = Inr (st', w') \<Longrightarrow> books st' = books st \<and> program_data_kept w w'"
  by (auto simp: add_liquidity_def add_liquidity_process_def bindR_Inr Let_def
      dest: invoke_kept kept_after)

lemma remove_liquidity_kept:
  assumes "remove_liquidity rt cx key ac n st w = Inr (st', w')"
  shows "books st' = books st \<and> program_data_kept w w'"
proof -
  from assms obtain lpm :: mint and x y where
    pay: "remove_liquidity_pay rt key ac x y n (sync_lp_supply (mt_supply lpm) st) w = Inr (st', w')"
    unfolding remove_liquidity_def remove_liquidity_process_def Let_def
    by (auto simp: bindR_Inr)
  then have "books st' = books (sync_lp_supply (mt_supply lpm) st) \<and> program_data_kept w w'"
    unfolding remove_liquidity_pay_def
    by (auto simp: bindR_Inr dest: invoke_kept kept_after split: if_splits)
  then show ?thesis by (simp add: sync_lp_supply_def)
qed

lemma order_unstake_kept:
  "order_unstake rt cx key ac m st w = Inr (st', w') \<Longrightarrow> books st' = books st \<and> program_data_kept w w'"
  by (auto simp: order_unstake_def order_unstake_process_def bindR_Inr Let_def dest: invoke_kept)

lemma claim_kept:
  "claim rt cx key ac st w = Inr (st', w') \<Longrightarrow> books st' = books st \<and> program_data_kept w w'"
  by (auto simp: claim_def claim_process_def close_ticket_def bindR_Inr Let_def dest!: invoke_kept)

text \<open>The validator list.\<close>

lemma lists_ok_validator_added:
  assumes ok: "lists_ok rt st w" and k: "k = account (validator_list (validator_system st))"
    and add: "validator_add rt (validator_system st) (acc_data w k) a sc key f = Inr (vs, d)
      \<or> validator_add_with_balance rt (validator_system st) (acc_data w k) a sc b key f = Inr (vs, d)"
  shows "lists_ok rt (st\<lparr>validator_system := vs\<rparr>) (put_data k d w)"
proof -
  from add obtain v l t where
    push: "list_push (rt_ser_validator rt) (validator_list (validator_system st)) (acc_data w k) v
      = Inr (l, d)" and sc: "score v = sc"
    and t: "padd (total_validator_score (validator_system st)) sc = Inr t"
    and vs: "vs = (validator_system st)\<lparr>validator_list := l, total_validator_score := t\<rparr>"
    by (auto simp: validator_add_def validator_add_with_balance_def validator_record_new_def
        bindR_Inr split: prod.splits)
  show ?thesis
    using lists_ok_validator_push [OF ok k push] t sc vs by simp
qed

lemma add_validator_lists:
  assumes "add_validator rt cx key ac sc st w = Inr (st', w')" and ok: "lists_ok rt st w"
  shows "lists_ok rt st' w'"
proof -
  from assms(1) obtain vs d v where
    chk: "check_validator_list (validator_system st) w (av_validator_list ac) = Inr ()"
    and add: "validator_add rt (validator_system st) (acc_data w (av_validator_list ac))
      (av_validator_vote ac) sc key (av_duplication_flag ac) = Inr (vs, d)"
    and cpi: "rt_invoke rt (SystemCreateAccount (av_rent_payer ac) (av_duplication_flag ac)
      (rt_minimum_balance rt 0) 0 ID) [duplication_flag_seeds key v]
      (put_data (av_validator_list ac) d w) = Inr w'"
    and st': "st' = st\<lparr>validator_system := vs\<rparr>"
    by (auto simp: add_validator_def add_validator_process_def add_validator_checks_def
        all_ok_Inr bindR_Inr Let_def)
  have "av_validator_list ac = account (validator_list (validator_system st))"
    using chk by (simp add: check_validator_list_Inr)
  from lists_ok_validator_added [OF ok this disjI1 [OF add]] show ?thesis
    unfolding st' by (rule lists_ok_invoke [OF cpi])
qed

lemma remove_validator_lists:
  assumes "remove_validator rt cx key ac i vote st w = Inr (st', w')" and ok: "lists_ok rt st w"
  shows "lists_ok rt st' w'"
proof -
  from assms(1) obtain v vs d m where
    chk: "check_validator_list (validator_system st) w (rv_validator_list ac) = Inr ()"
    and get: "validator_get rt (validator_system st) (acc_data w (rv_validator_list ac)) i = Inr v"
    and rem: "validator_remove (validator_system st) (acc_data w (rv_validator_list ac)) i v = Inr (vs, d)"
    and st': "st' = st\<lparr>validator_system := vs\<rparr>"
    and w': "w' = (put_data (rv_validator_list ac) d w)\<lparr>acc_lamports := m\<rparr>"
    by (auto simp: remove_validator_def remove_validator_process_def remove_validator_checks_def
        all_ok_Inr bindR_Inr Let_def)
  have k: "rv_validator_list ac = account (validator_list (validator_system st))"
    using chk by (simp add: check_validator_list_Inr)
  show ?thesis
    using lists_ok_validator_remove [OF ok k get rem]
    by (rule lists_ok_kept) (simp_all add: st' w' program_data_kept_def)
qed

lemma set_validator_score_lists:
  assumes "set_validator_score rt cx key manager vlist i vote sc st w = Inr (st', w')"
    and ok: "lists_ok rt st w"
  shows "lists_ok rt st' w'"
proof -
  let ?vs = "validator_system st"
  from assms(1) obtain v and t1 t2 :: u32 and d where
    chk: "check_validator_list ?vs w vlist = Inr ()"
    and get: "validator_get rt ?vs (acc_data w vlist) i = Inr v"
    and t: "unat (total_validator_score ?vs) = unat (score v) + unat t1"
      "unat t2 = unat t1 + unat sc"
    and set: "list_set (rt_ser_validator rt) (validator_list ?vs) (acc_data w vlist) i
      (v\<lparr>score := sc\<rparr>) = Inr d"
    and st': "st' = st\<lparr>validator_system := ?vs\<lparr>total_validator_score := t2\<rparr>\<rparr>"
    and w': "w' = put_data vlist d w"
    by (auto simp: set_validator_score_def set_validator_score_process_def
        set_validator_score_checks_def validator_set_def all_ok_Inr bindR_Inr Let_def ok_or_Inr
        checked_sub_Some checked_add_Some)
  have k: "vlist = account (validator_list ?vs)" using chk by (simp add: check_validator_list_Inr)
  from ok obtain xs where xs: "scores_held rt st w xs" by (auto simp: lists_ok_def)
  note rep = scores_held_D [OF xs k]
  note put = validators.store.put_Inr [OF rep(2) set]
  have "v = xs ! unat i"
    using validators.store.get_Inr [OF rep(2)] get by (simp add: validator_get_def)
  then have "unat t2 = sum_list (map (unat \<circ> score) (xs[unat i := v\<lparr>score := sc\<rparr>]))"
    using t rep(3) put sum_list_update_nat [of "unat i" xs "unat \<circ> score" "v\<lparr>score := sc\<rparr>"] by simp
  then show ?thesis
    unfolding st' w' using put k
    by (intro lists_ok_new_validators [OF ok k, of _ _ "xs[unat i := v\<lparr>score := sc\<rparr>]"]) simp_all
qed

text \<open>The stake handlers: a validator is read, other programs run, both lists are written.\<close>

lemma lists_ok_D:
  assumes "lists_ok rt st w"
  shows "account (validator_list (validator_system st)) \<noteq> account (stake_list (stake_system st))"
    and "acc_owner w (account (validator_list (validator_system st))) = ID"
    and "acc_owner w (account (stake_list (stake_system st))) = ID"
  using assms by (auto simp: lists_ok_def scores_held_def stakes_held_def Let_def)

lemma kept_validator_get:
  assumes "program_data_kept w w'" and "lists_ok rt st w"
    and "k = account (validator_list (validator_system st))"
  shows "acc_data w' k = acc_data w k"
  using assms lists_ok_D(2) [OF assms(2)] by (simp add: program_data_kept_def)

lemma stake_reserve_stake_lists:
  assumes run: "stake_reserve_stake rt key ck ac sk wk i v n st w = Inr (st', w')"
    and ok: "lists_ok rt st w"
    and kv: "sr_validator_list ac = account (validator_list (validator_system st))"
    and ks: "sr_stake_list ac = account (stake_list (stake_system st))"
    and get: "validator_get rt (validator_system st) (acc_data w (sr_validator_list ac)) i = Inr v0"
    and sc: "score v = score v0"
  shows "lists_ok rt st' w'"
proof -
  let ?st1 = "on_transfer_from_reserve st n" and ?kv = "sr_validator_list ac" and ?ks = "sr_stake_list ac"
  from run obtain w1 w2 w3 ss sdata b vdata t where
    cpi: "rt_invoke rt (SystemTransfer (sr_reserve_pda ac) (sr_stake_account ac) n)
        [reserve_seeds key st] w = Inr w1"
      "rt_invoke rt (StakeInitialize (sr_stake_account ac) sk wk) [] w1 = Inr w2"
      "rt_invoke rt (StakeDelegate (sr_stake_account ac) (sr_validator_vote ac) sk)
        [stake_deposit_seeds key (stake_system ?st1)] w2 = Inr w3"
    and add: "stake_add rt (stake_system ?st1) (acc_data w3 ?ks) (sr_stake_account ac) n ck
      = Inr (ss, sdata)"
    and set: "validator_set rt (validator_system ?st1) (acc_data (put_data ?ks sdata w3) ?kv) i
      (v\<lparr>active_balance := b, vr_last_stake_delta_epoch := epoch ck\<rparr>) = Inr vdata"
    and st': "st' = ?st1\<lparr>stake_system := ss\<lparr>last_stake_delta_epoch := epoch ck\<rparr>,
        validator_system := (validator_system st)\<lparr>total_active_balance := t\<rparr>\<rparr>"
    and w': "w' = put_data ?kv vdata (put_data ?ks sdata w3)"
    by (auto simp: stake_reserve_stake_def bindR_Inr Let_def on_transfer_from_reserve_def)
  have kept: "program_data_kept w w3"
    using kept_after [OF kept_after [OF invoke_kept] ] cpi by blast
  have ok1: "lists_ok rt ?st1 w3" using lists_ok_kept [OF ok _ kept] by simp
  have data: "acc_data w3 ?kv = acc_data w ?kv" using kept_validator_get [OF kept ok kv] .
  have "?kv \<noteq> ?ks" using lists_ok_D(1) [OF ok] by (simp add: kv ks)
  have sel: "validator_system ?st1 = validator_system st" "stake_system ?st1 = stake_system st"
    by (simp_all add: on_transfer_from_reserve_def)
  have ok2: "lists_ok rt (?st1\<lparr>stake_system := ss\<rparr>) (put_data ?ks sdata w3)"
    using lists_ok_stake_add [OF ok1 _ add] ks by (simp add: sel)
  have "lists_ok rt (?st1\<lparr>stake_system := ss\<rparr>) w'"
    unfolding w'
    by (rule lists_ok_validator_set [OF ok2 _ _ set, of "validator_system st" v0])
      (use \<open>?kv \<noteq> ?ks\<close> in \<open>simp_all add: sel kv [symmetric] data get sc\<close>)
  then show ?thesis by (rule lists_ok_books) (simp add: st' books_def sel)
qed

lemma stake_reserve_lists:
  assumes run: "stake_reserve rt cx key ac i st w = Inr (st', w')" and ok: "lists_ok rt st w"
  shows "lists_ok rt st' w'"
proof (cases "st' = st \<and> w' = w")
  case False
  with run obtain stake ck sk wk d where
    chk: "stake_reserve_checks rt key ac stake st w = Inr ()"
    and delta: "stake_reserve_delta rt key ck ac sk wk i d st w = Inr (st', w')"
    by (auto simp: stake_reserve_def stake_reserve_process_def bindR_Inr split: if_splits)
  from chk have kv: "sr_validator_list ac = account (validator_list (validator_system st))"
    and ks: "sr_stake_list ac = account (stake_list (stake_system st))"
    by (auto simp: stake_reserve_checks_def bindR_Inr check_validator_list_Inr check_stake_list_Inr)
  from delta False obtain v st1 v1 where
    get: "validator_get rt (validator_system st) (acc_data w (sr_validator_list ac)) i = Inr v"
    and r: "stake_reserve_run ck st v = Inr (Some (st1, v1))"
    and fin: "st' = st1 \<and> w' = w
      \<or> (\<exists>n. stake_reserve_stake rt key ck ac sk wk i v1 n st1 w = Inr (st', w'))"
    by (auto simp: stake_reserve_delta_def bindR_Inr Let_def split: if_splits option.splits prod.splits;
        blast)
  from r have s1: "books st1 = books st" "validator_system st1 = validator_system st"
    "stake_list (stake_system st1) = stake_list (stake_system st)" "score v1 = score v"
    by (auto simp: stake_reserve_run_def books_def bindR_Inr split: if_splits)
  have ok1: "lists_ok rt st1 w" using lists_ok_books [OF ok s1(1)] .
  show ?thesis
    using fin ok1 stake_reserve_stake_lists [OF _ ok1, of key ck ac sk wk i v1 _ st' w' v] kv ks get s1
    by auto
qed (use ok in simp)

lemma deactivate_record_lists:
  assumes run: "deactivate_record rt ck ac si vi n r v st w = Inr (st', w')"
    and ok: "lists_ok rt st w"
    and kv: "ds_validator_list ac = account (validator_list (validator_system st))"
    and ks: "ds_stake_list ac = account (stake_list (stake_system st))"
    and get: "validator_get rt (validator_system st) (acc_data w (ds_validator_list ac)) vi = Inr v0"
    and sc: "score v = score v0"
  shows "lists_ok rt st' w'"
proof -
  let ?kv = "ds_validator_list ac" and ?ks = "ds_stake_list ac"
  from run obtain ss vs sdata vdata b where
    set: "stake_set rt ss (acc_data w ?ks) si r = Inr sdata"
    and vset: "validator_set rt vs (acc_data (put_data ?ks sdata w) ?kv) vi
      (v\<lparr>active_balance := b\<rparr>) = Inr vdata"
    and eq: "stake_list ss = stake_list (stake_system st)"
      "validator_list vs = validator_list (validator_system st)" "books st' = books st"
    and w': "w' = put_data ?kv vdata (put_data ?ks sdata w)"
    by (auto simp: deactivate_record_def bindR_Inr Let_def books_def)
  have ne: "?kv \<noteq> ?ks" using lists_ok_D(1) [OF ok] by (simp add: kv ks)
  have "lists_ok rt st w'"
    unfolding w'
    by (rule lists_ok_validator_set [OF lists_ok_stake_set [OF ok ks set eq(1)] kv _ vset])
      (use ne eq sc get in simp_all)
  then show ?thesis by (rule lists_ok_books [OF _ eq(3)])
qed

lemma return_split_rent_kept: "return_split_rent rt ac w = Inr w' \<Longrightarrow> program_data_kept w w'"
  by (auto simp: return_split_rent_def Let_def dest: invoke_kept split: if_splits)

lemma prepare_split_kept: "prepare_split rt ac w = Inr w' \<Longrightarrow> program_data_kept w w'"
  by (auto simp: prepare_split_def Let_def bindR_Inr dest: invoke_kept split: if_splits)

lemma deactivate_split_lists:
  assumes run: "deactivate_split rt key ck ac r target delta st w = Inr (n, r', st', w')"
    and ok: "lists_ok rt st w" and ks: "ds_stake_list ac = account (stake_list (stake_system st))"
    and kv: "kv = account (validator_list (validator_system st))"
  shows "lists_ok rt st' w'" and "validator_system st' = validator_system st"
    and "account (stake_list (stake_system st')) = ds_stake_list ac"
    and "acc_data w' kv = acc_data w kv"
proof -
  from run obtain x ss d w2 w3 where
    add: "stake_add rt (stake_system st) (acc_data w (ds_stake_list ac))
        (ds_split_stake_account ac) x ck = Inr (ss, d)"
    and prep: "prepare_split rt ac (put_data (ds_stake_list ac) d w) = Inr w2"
    and cpi: "rt_invoke rt (StakeSplit (ds_stake_account ac) (ds_stake_deposit_authority ac) x
        (ds_split_stake_account ac)) [stake_deposit_seeds key ss] w2 = Inr w3"
      "rt_invoke rt (StakeDeactivate (ds_split_stake_account ac) (ds_stake_deposit_authority ac))
        [stake_deposit_seeds key ss] w3 = Inr w'"
    and st': "st' = st\<lparr>stake_system := ss\<rparr>"
    by (auto simp: deactivate_split_def bindR_Inr Let_def)
  note ok1 = lists_ok_stake_add [OF ok ks add]
  have kept: "program_data_kept (put_data (ds_stake_list ac) d w) w'"
    using kept_after [OF kept_after [OF prepare_split_kept [OF prep] cpi(1)] cpi(2)] .
  show "lists_ok rt st' w'" using lists_ok_kept [OF ok1 refl kept] by (simp add: st')
  show "validator_system st' = validator_system st" by (simp add: st')
  show "account (stake_list (stake_system st')) = ds_stake_list ac"
    using add ks list_push_account by (fastforce simp: st' stake_add_Inr)
  show "acc_data w' kv = acc_data w kv"
    using kept_validator_get [OF kept ok1, of kv] kv ks lists_ok_D(1) [OF ok] by simp
qed

lemma deactivate_stake_lists:
  assumes run: "deactivate_stake rt cx key ac si vi st w = Inr (st', w')" and ok: "lists_ok rt st w"
  shows "lists_ok rt st' w'"
proof (cases "st' = st \<and> w' = w")
  case False
  let ?kv = "ds_validator_list ac"
  from run False obtain r v n d where
    chk: "deactivate_stake_checks rt key ac st w = Inr ()"
    and get: "validator_get rt (validator_system st) (acc_data w ?kv) vi = Inr v"
    and amount: "deactivate_amount rt key (cx_clock cx) ac si vi r v n d st w = Inr (st', w')"
    unfolding deactivate_stake_def deactivate_stake_process_def Let_def
    by (auto simp: bindR_Inr split: if_splits)
  from chk have kv: "?kv = account (validator_list (validator_system st))"
    and ks: "ds_stake_list ac = account (stake_list (stake_system st))"
    by (auto simp: deactivate_stake_checks_def bindR_Inr check_validator_list_Inr check_stake_list_Inr)
  from amount False consider
    (whole) n1 w1 where "deactivate_whole rt key ac r st w = Inr (n1, w1)"
      "deactivate_record rt (cx_clock cx) ac si vi n1 r v st w1 = Inr (st', w')"
  | (split) target n1 r1 st1 w1 where
      "deactivate_split rt key (cx_clock cx) ac r target d st w = Inr (n1, r1, st1, w1)"
      "deactivate_record rt (cx_clock cx) ac si vi n1 r1
        (v\<lparr>vr_last_stake_delta_epoch := epoch (cx_clock cx)\<rparr>) st1 w1 = Inr (st', w')"
    by (auto simp: deactivate_amount_def bindR_Inr Let_def split: if_splits)
  then show ?thesis
  proof cases
    case whole
    from whole(1) have kept: "program_data_kept w w1"
      by (auto simp: deactivate_whole_def bindR_Inr
          dest!: invoke_kept return_split_rent_kept intro: kept_trans)
    show ?thesis
      using deactivate_record_lists [OF whole(2) lists_ok_kept [OF ok refl kept] kv ks, of v]
        kept_validator_get [OF kept ok kv] get by simp
  next
    case split
    note s = deactivate_split_lists [OF split(1) ok ks kv]
    show ?thesis
      using deactivate_record_lists [OF split(2) s(1), of v] s(2-4) kv get by simp
  qed
qed (use ok in simp)

lemma emergency_unstake_lists:
  assumes run: "emergency_unstake rt cx key ac si vi st w = Inr (st', w')" and ok: "lists_ok rt st w"
  shows "lists_ok rt st' w'"
proof -
  let ?kv = "eu_validator_list ac" and ?ks = "eu_stake_list ac"
  from run obtain r v w1 ss vs sdata vdata b where
    chk: "emergency_unstake_checks rt key ac st w = Inr ()"
    and get: "validator_get rt (validator_system st) (acc_data w ?kv) vi = Inr v"
    and cpi: "rt_invoke rt (StakeDeactivate (eu_stake_account ac) (eu_stake_deposit_authority ac))
        [stake_deposit_seeds key (stake_system st)] w = Inr w1"
    and set: "stake_set rt ss (acc_data w1 ?ks) si r = Inr sdata"
    and vset: "validator_set rt vs (acc_data (put_data ?ks sdata w1) ?kv) vi
      (v\<lparr>active_balance := b\<rparr>) = Inr vdata"
    and eq: "stake_list ss = stake_list (stake_system st)"
      "validator_list vs = validator_list (validator_system st)" "books st' = books st"
    and w': "w' = put_data ?kv vdata (put_data ?ks sdata w1)"
    by (auto simp: emergency_unstake_def emergency_unstake_process_def bindR_Inr Let_def books_def)
  from chk have kv: "?kv = account (validator_list (validator_system st))"
    and ks: "?ks = account (stake_list (stake_system st))"
    by (auto simp: emergency_unstake_checks_def bindR_Inr check_validator_list_Inr check_stake_list_Inr)
  have ne: "?kv \<noteq> ?ks" using lists_ok_D(1) [OF ok] by (simp add: kv ks)
  have get1: "validator_get rt (validator_system st) (acc_data w1 ?kv) vi = Inr v"
    using get kept_validator_get [OF invoke_kept [OF cpi] ok kv] by simp
  have "lists_ok rt st w'"
    unfolding w'
    by (rule lists_ok_validator_set
        [OF lists_ok_stake_set [OF lists_ok_invoke [OF cpi ok] ks set eq(1)] kv _ vset])
      (use ne eq get1 in simp_all)
  then show ?thesis by (rule lists_ok_books [OF _ eq(3)])
qed

lemma merge_stakes_lists:
  assumes run: "merge_stakes rt cx key ac di si vi st w = Inr (st', w')" and ok: "lists_ok rt st w"
  shows "lists_ok rt st' w'"
proof (rule merge_stakes_trace [OF run], goal_cases)
  case (1 source v dinfo sinfo w1 merged stake extra returned b vdata t sdata ss d)
  let ?kv = "ms_validator_list ac" and ?ks = "ms_stake_list ac"
  let ?st1 = "st\<lparr>validator_system := (validator_system st)\<lparr>total_active_balance := t\<rparr>\<rparr>"
  let ?w2 = "put_data ?kv vdata w1"
  from 1(2) have kv: "?kv = account (validator_list (validator_system st))"
    and ks: "?ks = account (stake_list (stake_system st))"
    by (auto simp: merge_stakes_checks_def bindR_Inr check_validator_list_Inr check_stake_list_Inr)
  have get1: "validator_get rt (validator_system st) (acc_data w1 ?kv) vi = Inr v"
    using 1(3) kept_validator_get [OF invoke_kept [OF 1(6)] ok kv] by simp
  have "lists_ok rt st ?w2"
    by (rule lists_ok_validator_set [OF lists_ok_invoke [OF 1(6) ok] kv get1 1(9)]) simp_all
  then have "lists_ok rt ?st1 ?w2" by (rule lists_ok_books) (simp add: books_def)
  then have "lists_ok rt ?st1 (put_data ?ks sdata ?w2)"
    using ks by (intro lists_ok_stake_set [OF _ _ 1(11)]) simp_all
  then have ok3: "lists_ok rt (?st1\<lparr>stake_system := ss\<rparr>) (put_data ?ks d (put_data ?ks sdata ?w2))"
    using ks by (intro lists_ok_stake_remove [OF _ _ 1(12)]) simp_all
  from 1(13) show ?case
    using ok3 by (auto simp: bindR_Inr dest: lists_ok_invoke split: if_splits)
qed

lemma deposit_stake_account_lists:
  assumes run: "deposit_stake_account rt cx key ac i st w = Inr (st', w')" and ok: "lists_ok rt st w"
  shows "lists_ok rt st' w'"
proof -
  let ?kv = "dsa_validator_list ac" and ?ks = "dsa_stake_list ac"
  from run obtain msol and to :: token_account and d and m :: stake_meta and st1 w1 w2 where
    chk: "deposit_stake_checks rt key ac msol to st w = Inr ()"
    and val: "deposit_stake_validator rt key ac i d st w = Inr (st1, w1)"
    and take: "deposit_stake_take rt key ac m st1 w1 = Inr w2"
    and mint: "deposit_stake_mint rt key (cx_clock cx) ac d st1 w2 = Inr (st', w')"
    by (auto simp: deposit_stake_account_def deposit_stake_account_process_def bindR_Inr)
  from chk have kv: "?kv = account (validator_list (validator_system st))"
    and ks: "?ks = account (stake_list (stake_system st))"
    by (auto simp: deposit_stake_checks_def bindR_Inr check_validator_list_Inr check_stake_list_Inr)
  have "lists_ok rt st1 w1 \<and> stake_system st1 = stake_system st"
  proof (cases "i = validator_count (validator_system st)")
    case True
    with val obtain vs data v where
      add: "validator_add_with_balance rt (validator_system st) (acc_data w ?kv)
        (voter_pubkey d) 0 (delegated_stake d) key (dsa_duplication_flag ac) = Inr (vs, data)"
      and cpi: "rt_invoke rt (SystemCreateAccount (dsa_rent_payer ac) (dsa_duplication_flag ac)
        (rt_minimum_balance rt 0) 0 ID) [duplication_flag_seeds key v] (put_data ?kv data w) = Inr w1"
      and st1: "st1 = st\<lparr>validator_system := vs\<rparr>"
      by (auto simp: deposit_stake_validator_def deposit_stake_add_validator_def bindR_Inr Let_def)
    have "lists_ok rt st1 w1"
      unfolding st1
      by (rule lists_ok_invoke [OF cpi lists_ok_validator_added [OF ok kv disjI2 [OF add]]])
    then show ?thesis by (simp add: st1)
  next
    case False
    with val obtain v b data where
      get: "validator_get rt (validator_system st) (acc_data w ?kv) i = Inr v"
      and set: "validator_set rt (validator_system st) (acc_data w ?kv) i (v\<lparr>active_balance := b\<rparr>)
        = Inr data"
      and "st1 = st" "w1 = put_data ?kv data w"
      by (auto simp: deposit_stake_validator_def bindR_Inr)
    then show ?thesis using lists_ok_validator_set [OF ok kv get set] by simp
  qed
  then have ok1: "lists_ok rt st1 w1" and ks1: "?ks = account (stake_list (stake_system st1))"
    by (simp_all add: ks)
  have "program_data_kept w1 w2"
    using take by (auto simp: deposit_stake_take_def bindR_Inr dest: invoke_kept kept_after split: if_splits)
  then have ok2: "lists_ok rt st1 w2" by (rule lists_ok_kept [OF ok1 refl])
  from mint obtain ss data m w3 st2 t where
    add: "stake_add rt (stake_system st1) (acc_data w2 ?ks) (dsa_stake_account ac)
      (delegated_stake d) (cx_clock cx) = Inr (ss, data)"
    and cpi: "rt_invoke rt (TokenMintTo (dsa_msol_mint ac) (dsa_mint_to ac)
      (dsa_msol_mint_authority ac) m) [msol_mint_authority_seeds key (st1\<lparr>stake_system := ss\<rparr>)]
      (put_data ?ks data w2) = Inr w3"
    and on: "on_msol_mint (st1\<lparr>stake_system := ss\<rparr>) m = Inr st2"
    and st': "st' = st2\<lparr>validator_system := (validator_system st2)\<lparr>total_active_balance := t\<rparr>\<rparr>"
    and w': "w' = w3"
    by (auto simp: deposit_stake_mint_def bindR_Inr Let_def)
  have "lists_ok rt (st1\<lparr>stake_system := ss\<rparr>) w3"
    by (rule lists_ok_invoke [OF cpi lists_ok_stake_add [OF ok2 ks1 add]])
  moreover have "books st' = books (st1\<lparr>stake_system := ss\<rparr>)"
    using virtual_books(2) [OF on] by (simp add: st' books_def)
  ultimately show ?thesis unfolding w' by (rule lists_ok_books)
qed

text \<open>The updates; \<open>update_active\<close> with the validator list that the instance has.\<close>

lemma withdraw_to_reserve_kept:
  "withdraw_to_reserve rt key c n st w = Inr (st', w') \<Longrightarrow> books st' = books st \<and> program_data_kept w w'"
  by (auto simp: withdraw_to_reserve_def bindR_Inr dest: invoke_kept virtual_books split: if_splits)

lemma update_treasury_kept:
  "update_treasury rt key c ready n st w = Inr (st', w') \<Longrightarrow> books st' = books st \<and> program_data_kept w w'"
  by (auto simp: update_treasury_def mint_to_treasury_def bindR_Inr dest: invoke_kept virtual_books
      split: if_splits)

lemma update_begin_kept:
  "update_begin rt key c msol i st w = Inr (x, st') \<Longrightarrow> books st' = books st
    \<and> uc_stake_list c = account (stake_list (stake_system st))"
  by (auto simp: update_begin_def bindR_Inr Let_def check_stake_list_Inr)

lemma update_rewards_kept:
  assumes "update_rewards rt key c ready n prev v st w = Inr (v', st', w')"
  shows "books st' = books st \<and> program_data_kept w w' \<and> score v' = score v"
proof (cases "prev \<le> n")
  case True
  with assms obtain st1 w1 t b where
    "update_treasury rt key c ready (fee_apply (reward_fee st) (n - prev)) st w = Inr (st1, w1)"
    "st' = st1\<lparr>validator_system := (validator_system st1)\<lparr>total_active_balance := t\<rparr>\<rparr>" "w' = w1"
    "v' = v\<lparr>active_balance := b\<rparr>"
    by (auto simp: update_rewards_def bindR_Inr Let_def)
  then show ?thesis using update_treasury_kept by (fastforce simp: books_def)
next
  case False
  with assms show ?thesis by (auto simp: update_rewards_def Let_def books_def)
qed

lemma update_active_lists:
  assumes run: "update_active rt cx key ac si vi st w = Inr (st', w')" and ok: "lists_ok rt st w"
    and kv: "ua_validator_list ac = account (validator_list (validator_system st))"
  shows "lists_ok rt st' w'"
proof -
  let ?c = "ua_common ac" and ?kv = "ua_validator_list ac"
  from run obtain stake and msol :: mint where
    "update_active_run rt key (cx_clock cx) ac stake msol si vi st w = Inr (st', w')"
    by (auto simp: update_active_def update_active_process_def bindR_Inr Let_def)
  then show ?thesis
  proof (rule update_active_run_trace, goal_cases)
    case (1 r ready st1 v d sm bal st2 w2 st3 w3 v' st4 w4 vdata price sdata)
    note b = update_begin_kept [OF 1(1)] withdraw_to_reserve_kept [OF 1(7)]
      update_treasury_kept [OF 1(8)] update_rewards_kept [OF 1(9)]
    have kept: "program_data_kept w w4" using b by (blast intro: kept_trans)
    have bk: "books st1 = books st" "books st4 = books st" using b by simp_all
    have ok4: "lists_ok rt st4 w4" by (rule lists_ok_kept [OF ok bk(2) kept])
    have v4: "validator_list (validator_system st4) = validator_list (validator_system st)"
      "stake_list (stake_system st4) = stake_list (stake_system st)"
      "validator_list (validator_system st1) = validator_list (validator_system st)"
      using bk by (simp_all add: books_def)
    have get: "validator_get rt (validator_system st1) (acc_data w4 ?kv) vi = Inr v"
      using 1(2) kept_validator_get [OF kept ok kv] by simp
    have "lists_ok rt st4 (put_data ?kv vdata w4)"
      by (rule lists_ok_validator_set [OF ok4 _ get 1(10)]) (use v4 kv b in simp_all)
    then have "lists_ok rt (st4\<lparr>msol_price := price\<rparr>) (put_data ?kv vdata w4)"
      by (rule lists_ok_books) simp
    then have "lists_ok rt (st4\<lparr>msol_price := price\<rparr>)
        (put_data (uc_stake_list ?c) sdata (put_data ?kv vdata w4))"
      using b v4 by (intro lists_ok_stake_set [OF _ _ 1(12)]) simp_all
    then show ?case by (simp add: 1(13,14))
  qed
qed

lemma update_deactivated_lists:
  assumes run: "update_deactivated rt cx key ac i st w = Inr (st', w')" and ok: "lists_ok rt st w"
  shows "lists_ok rt st' w'"
proof (rule update_deactivated_trace [OF run], goal_cases)
  case (1 stake msol r ready st1 d sm bal st2 w2 st3 w3 w4 price ss sdata)
  let ?c = "ud_common ac"
  let ?st5 = "leave_cooling_down r (on_transfer_from_reserve st3 (rent_exempt_reserve sm))
    \<lparr>msol_price := price\<rparr>"
  have fees: "books st2 = books st1 \<and> program_data_kept w w2"
    using 1(9) by (auto simp: update_deactivated_fees_def bindR_Inr split: if_splits
        dest!: update_treasury_kept intro: kept_trans)
  note b = update_begin_kept [OF 1(3)] fees withdraw_to_reserve_kept [OF 1(10)]
  have kept: "program_data_kept w w4"
    using b kept_after [OF _ 1(11)] by (blast intro: kept_trans)
  have "books ?st5 = books st3" by (simp add: leave_cooling_down_def books_def on_transfer_from_reserve_def)
  then have bk: "books ?st5 = books st" using b by simp
  have ok5: "lists_ok rt ?st5 w4" by (rule lists_ok_kept [OF ok bk kept])
  have "lists_ok rt (?st5\<lparr>stake_system := ss\<rparr>) (put_data (uc_stake_list ?c) sdata w4)"
    using b bk by (intro lists_ok_stake_remove [OF ok5 _ 1(13)]) (simp add: books_def)
  then show ?case by (simp add: 1(14,15))
qed

end

end
