(* ===== verification/System.thy ===== *)
theory System
  imports Books
begin

text \<open>
  The program as a whole (the \<open>#[program]\<close> module of \<open>lib.rs\<close>): one \<open>instruction\<close> per entry
  point, their dispatch, transactions that fail without effect, and the situations that an
  instance can reach, with other programs acting in between. The invariants of the instance are
  proved over the reachable situations.
\<close>

section \<open>Instructions\<close>

datatype instruction =
    ChangeAuthority pubkey change_authority_data
  | AddValidator add_validator_accounts u32
  | RemoveValidator remove_validator_accounts u32 pubkey
  | SetValidatorScore pubkey pubkey u32 pubkey u32
  | ConfigValidatorSystem pubkey u32
  | DepositSol deposit_accounts u64
  | DepositStakeAccount deposit_stake_accounts u32
  | LiquidUnstake liquid_unstake_accounts u64
  | AddLiquidity add_liquidity_accounts u64
  | RemoveLiquidity remove_liquidity_accounts u64
  | SetLpParams set_lp_params_accounts fee fee u64
  | ConfigMarinade pubkey config_marinade_params
  | OrderUnstake order_unstake_accounts u64
  | Claim claim_accounts
  | StakeReserve stake_reserve_accounts u32
  | UpdateActive update_active_accounts u32 u32
  | UpdateDeactivated update_deactivated_accounts u32
  | DeactivateStake deactivate_stake_accounts u32 u32
  | EmergencyUnstake emergency_unstake_accounts u32 u32
  | MergeStakes merge_stakes_accounts u32 u32 u32

text \<open>The handlers that read and write nothing but the state account.\<close>

definition state_only :: "state result \<Rightarrow> world \<Rightarrow> (state \<times> world) result" where
  "state_only r w = bindR r (\<lambda>st. Inr (st, w))"

fun dispatch ::
  "runtime \<Rightarrow> call_context \<Rightarrow> pubkey \<Rightarrow> instruction \<Rightarrow> state \<Rightarrow> world \<Rightarrow> (state \<times> world) result" where
  "dispatch rt cx key (ChangeAuthority admin d) st w =
     state_only (change_authority cx key admin d st) w"
| "dispatch rt cx key (AddValidator ac sc) st w = add_validator rt cx key ac sc st w"
| "dispatch rt cx key (RemoveValidator ac i vote) st w = remove_validator rt cx key ac i vote st w"
| "dispatch rt cx key (SetValidatorScore manager vlist i vote sc) st w =
     set_validator_score rt cx key manager vlist i vote sc st w"
| "dispatch rt cx key (ConfigValidatorSystem manager n) st w =
     config_validator_system cx key manager n st w"
| "dispatch rt cx key (DepositSol ac n) st w = deposit rt cx key ac n st w"
| "dispatch rt cx key (DepositStakeAccount ac i) st w = deposit_stake_account rt cx key ac i st w"
| "dispatch rt cx key (LiquidUnstake ac m) st w = liquid_unstake rt cx key ac m st w"
| "dispatch rt cx key (AddLiquidity ac n) st w = add_liquidity rt cx key ac n st w"
| "dispatch rt cx key (RemoveLiquidity ac n) st w = remove_liquidity rt cx key ac n st w"
| "dispatch rt cx key (SetLpParams ac a b t) st w = state_only (set_lp_params cx key ac a b t st) w"
| "dispatch rt cx key (ConfigMarinade admin p) st w = state_only (config_marinade cx key admin p st) w"
| "dispatch rt cx key (OrderUnstake ac m) st w = order_unstake rt cx key ac m st w"
| "dispatch rt cx key (Claim ac) st w = claim rt cx key ac st w"
| "dispatch rt cx key (StakeReserve ac i) st w = stake_reserve rt cx key ac i st w"
| "dispatch rt cx key (UpdateActive ac i j) st w = update_active rt cx key ac i j st w"
| "dispatch rt cx key (UpdateDeactivated ac i) st w = update_deactivated rt cx key ac i st w"
| "dispatch rt cx key (DeactivateStake ac i j) st w = deactivate_stake rt cx key ac i j st w"
| "dispatch rt cx key (EmergencyUnstake ac i j) st w = emergency_unstake rt cx key ac i j st w"
| "dispatch rt cx key (MergeStakes ac i j k) st w = merge_stakes rt cx key ac i j k st w"

text \<open>What a transaction with one instruction does: an error leaves everything as it was.\<close>

definition execute ::
  "runtime \<Rightarrow> call_context \<Rightarrow> pubkey \<Rightarrow> instruction \<Rightarrow> state \<times> world \<Rightarrow> state \<times> world" where
  "execute rt cx key i s = (case dispatch rt cx key i (fst s) (snd s) of Inl _ \<Rightarrow> s | Inr s' \<Rightarrow> s')"

fun is_config :: "instruction \<Rightarrow> bool" where
  "is_config (ChangeAuthority _ _) = True"
| "is_config (SetLpParams _ _ _ _) = True"
| "is_config (ConfigMarinade _ _) = True"
| "is_config _ = False"

fun is_ticket :: "instruction \<Rightarrow> bool" where
  "is_ticket (OrderUnstake _ _) = True"
| "is_ticket (Claim _) = True"
| "is_ticket _ = False"

section \<open>Reachable situations\<close>

text \<open>What an open ticket of the instance is worth; 0 for every other account.\<close>

definition open_ticket :: "pubkey \<Rightarrow> world \<Rightarrow> pubkey \<Rightarrow> nat" where
  "open_ticket key w k = (case acc_ticket w k of None \<Rightarrow> 0
     | Some t \<Rightarrow> if state_address t = key then unat (lamports_amount t) else 0)"

definition open_tickets :: "pubkey \<Rightarrow> world \<Rightarrow> nat" where
  "open_tickets key w = (\<Sum>k \<in> UNIV. open_ticket key w k)"

text \<open>
  Between two instructions other programs and other instances run: accounts of this program keep
  their contents, so no open ticket and no list changes (a paid ticket without lamports disappears).
\<close>

definition environment :: "pubkey \<Rightarrow> state \<Rightarrow> world \<Rightarrow> world \<Rightarrow> bool" where
  "environment key st w w' \<longleftrightarrow> (\<forall>k. open_ticket key w' k = open_ticket key w k)
     \<and> (\<forall>k. acc_owner w k = ID \<and> k \<in> {account (stake_list (stake_system st)),
           account (validator_list (validator_system st))} \<longrightarrow>
          acc_owner w' k = ID \<and> acc_data w' k = acc_data w k)"

inductive step :: "runtime \<Rightarrow> pubkey \<Rightarrow> (state \<Rightarrow> instruction \<Rightarrow> bool) \<Rightarrow> state \<times> world \<Rightarrow> state \<times> world \<Rightarrow> bool"
  for rt key given where
  step_instruction: "given st i \<Longrightarrow> step rt key given (st, w) (execute rt cx key i (st, w))"
| step_environment: "environment key st w w' \<Longrightarrow> step rt key given (st, w) (st, w')"

inductive_cases step_cases: "step rt key given (st, w) s'"

text \<open>
  The state account is new when the instance is initialised, so there are no tickets for it yet.
  \<open>given\<close> restricts the accounts that are passed to an instruction.
\<close>

inductive reachable :: "runtime \<Rightarrow> pubkey \<Rightarrow> (state \<Rightarrow> instruction \<Rightarrow> bool) \<Rightarrow> state \<times> world \<Rightarrow> bool"
  for rt key given where
  reachable_init: "initialize rt cx key ac data w = Inr (st, w') \<Longrightarrow> small_lists rt ac w \<Longrightarrow>
     \<forall>k. open_ticket key w k = 0 \<Longrightarrow> reachable rt key given (st, w')"
| reachable_step: "reachable rt key given s \<Longrightarrow> step rt key given s s' \<Longrightarrow> reachable rt key given s'"

abbreviation any_call :: "state \<Rightarrow> instruction \<Rightarrow> bool" where
  "any_call \<equiv> \<lambda>_ _. True"

text \<open>An invariant of single instructions and of the environment holds in every reachable situation.\<close>

lemma reachable_invariant:
  assumes "reachable rt key given s"
    and "\<And>cx ac data w st w'. initialize rt cx key ac data w = Inr (st, w') \<Longrightarrow> small_lists rt ac w \<Longrightarrow>
      \<forall>k. open_ticket key w k = 0 \<Longrightarrow> I st w'"
    and "\<And>cx i st w st' w'. I st w \<Longrightarrow> given st i \<Longrightarrow> dispatch rt cx key i st w = Inr (st', w') \<Longrightarrow> I st' w'"
    and "\<And>st w w'. I st w \<Longrightarrow> environment key st w w' \<Longrightarrow> I st w'"
  shows "I (fst s) (snd s)"
  using assms(1)
proof (induction rule: reachable.induct)
  case (reachable_init cx ac data w st w')
  then show ?case using assms(2) by simp
next
  case (reachable_step s s')
  from reachable_step.hyps(2) show ?case
  proof cases
    case (step_instruction st i w cx)
    then show ?thesis
      using assms(3) [of st w i cx] reachable_step.IH
      by (cases "dispatch rt cx key i st w") (auto simp: execute_def)
  next
    case (step_environment st w w')
    then show ?thesis using assms(4) reachable_step.IH by simp
  qed
qed

section \<open>Effects of an instruction on settings and tickets\<close>

lemma state_only_Inr [simp]: "state_only r w = Inr (st', w') \<longleftrightarrow> r = Inr st' \<and> w' = w"
  by (auto simp: state_only_def bindR_Inr)

context marinade_runtime
begin

lemmas handlers_quiet = deposit_quiet liquid_unstake_quiet add_liquidity_quiet remove_liquidity_quiet
  add_validator_quiet remove_validator_quiet set_validator_score_quiet config_validator_system_quiet
  stake_reserve_quiet deactivate_stake_quiet emergency_unstake_quiet merge_stakes_quiet
  deposit_stake_account_quiet update_active_quiet update_deactivated_quiet

lemma dispatch_quiet:
  "dispatch rt cx key i st w = Inr (st', w') \<Longrightarrow> \<not> is_config i \<Longrightarrow> \<not> is_ticket i \<Longrightarrow> quiet st w st' w'"
  by (cases i) (simp_all add: handlers_quiet)

lemma ticket_settings:
  "dispatch rt cx key i st w = Inr (st', w') \<Longrightarrow> is_ticket i \<Longrightarrow> settings st' = settings st"
  by (cases i) (auto simp: order_unstake_def order_unstake_process_def claim_def claim_process_def
      quiet_simps settings_def on_msol_burn_def on_transfer_from_reserve_def)

lemma config_effect:
  assumes "dispatch rt cx key i st w = Inr (st', w')" and "is_config i"
  shows "cx_signer cx (admin_authority st)" and "w' = w"
    and "circulating_ticket_balance st' = circulating_ticket_balance st"
    and "circulating_ticket_count st' = circulating_ticket_count st"
    and "params_ok st \<Longrightarrow> params_ok st'"
proof -
  have auth: "cx_signer cx (admin_authority st) \<and>
      circulating_ticket_balance st' = circulating_ticket_balance st \<and>
      circulating_ticket_count st' = circulating_ticket_count st \<and> (params_ok st \<longrightarrow> params_ok st')"
    if "change_authority cx key admin d st = Inr st'" for admin d
    using change_authority_effect [OF that] by (simp add: params_ok_def)
  have pool: "cx_signer cx (admin_authority st) \<and>
      circulating_ticket_balance st' = circulating_ticket_balance st \<and>
      circulating_ticket_count st' = circulating_ticket_count st \<and> (params_ok st \<longrightarrow> params_ok st')"
    if "set_lp_params cx key ac a b t st = Inr st'" for ac a b t
  proof -
    have "cx_signer cx (admin_authority st)" "st' = st\<lparr>liq_pool := liq_pool st'\<rparr>"
      using that by (auto simp: set_lp_params_def result_simps)
    moreover have "pool_fees_ok (liq_pool st')" if "params_ok st"
      using set_lp_params_effect(3) [OF \<open>set_lp_params cx key ac a b t st = Inr st'\<close>] that
      by (simp add: params_ok_def pool_fees_ok_def)
    ultimately show ?thesis by (cases st, cases st') (auto simp: params_ok_def)
  qed
  have conf: "cx_signer cx (admin_authority st) \<and>
      circulating_ticket_balance st' = circulating_ticket_balance st \<and>
      circulating_ticket_count st' = circulating_ticket_count st \<and> (params_ok st \<longrightarrow> params_ok st')"
    if "config_marinade cx key admin p st = Inr st'" for admin p
    using config_marinade_effect [OF that] config_marinade_params_ok [OF that] by simp
  from assms auth pool conf show "cx_signer cx (admin_authority st)" "w' = w"
    "circulating_ticket_balance st' = circulating_ticket_balance st"
    "circulating_ticket_count st' = circulating_ticket_count st"
    "params_ok st \<Longrightarrow> params_ok st'"
    by (cases i; simp; blast)+
qed

text \<open>The two instructions on tickets change one ticket, and the totals by its amount.\<close>

lemma ticket_effect:
  assumes "dispatch rt cx key i st w = Inr (st', w')" and "is_ticket i"
  obtains k n where "open_ticket key w' = (open_ticket key w)(k := n)"
    and "unat (circulating_ticket_balance st') + open_ticket key w k
      = unat (circulating_ticket_balance st) + n"
    and "open_ticket key w k = 0 \<and> unat (circulating_ticket_count st')
        = unat (circulating_ticket_count st) + 1
      \<or> n = 0 \<and> open_ticket key w k \<noteq> 0 \<and> unat (circulating_ticket_count st') + 1
        = unat (circulating_ticket_count st)"
  using assms(2)
proof (cases i)
  case (OrderUnstake ac m)
  with assms(1) have run: "order_unstake rt cx key ac m st w = Inr (st', w')" by simp
  show thesis
  proof (rule order_unstake_effect [OF run], goal_cases)
    case (1 source n e)
    show ?case
    proof (rule that [of "ou_ticket ac" "unat n"])
      show "open_ticket key w' = (open_ticket key w)(ou_ticket ac := unat n)"
        by (simp add: 1(19) open_ticket_def fun_eq_iff)
      show "unat (circulating_ticket_balance st') + open_ticket key w (ou_ticket ac)
          = unat (circulating_ticket_balance st) + unat n"
        using 1(11) by (simp add: 1(5,13) open_ticket_def unat_add_le)
      show "open_ticket key w (ou_ticket ac) = 0 \<and> unat (circulating_ticket_count st')
          = unat (circulating_ticket_count st) + 1
        \<or> unat n = 0 \<and> open_ticket key w (ou_ticket ac) \<noteq> 0 \<and> unat (circulating_ticket_count st') + 1
          = unat (circulating_ticket_count st)"
        using 1(12) by (simp add: 1(5,13) open_ticket_def unat_add_le)
    qed
  qed
next
  case (Claim ac)
  with assms(1) obtain t w2 bal cnt where t: "acc_ticket w (cl_ticket ac) = Some t"
    and chk: "check_ticket_account key (cx_clock cx) ac t w = Inr ()"
    and bal: "psub (circulating_ticket_balance st) (lamports_amount t) = Inr bal"
    and cnt: "psub (circulating_ticket_count st) 1 = Inr cnt"
    and pay: "rt_invoke rt (SystemTransfer (cl_reserve ac) (cl_transfer_to ac) (lamports_amount t))
        [reserve_seeds key (st\<lparr>circulating_ticket_balance := bal, circulating_ticket_count := cnt\<rparr>)]
        (w\<lparr>acc_ticket := (acc_ticket w)(cl_ticket ac \<mapsto> t\<lparr>lamports_amount := 0\<rparr>)\<rparr>) = Inr w2"
    and close: "close_ticket (cl_ticket ac) (cl_transfer_to ac) w2 = Inr w'"
    and st': "st' = on_transfer_from_reserve
        (st\<lparr>circulating_ticket_balance := bal, circulating_ticket_count := cnt\<rparr>) (lamports_amount t)"
    by (auto simp: claim_def claim_process_def bindR_Inr ok_or_Inr Let_def all_ok_Inr)
  note tk = check_ticket_account_Inr [OF chk]
  have at: "acc_ticket w' = (acc_ticket w)(cl_ticket ac \<mapsto> t\<lparr>lamports_amount := 0\<rparr>)"
    using invoke_tickets [OF pay] close by (auto simp: close_ticket_def bindR_Inr)
  have old: "open_ticket key w (cl_ticket ac) = unat (lamports_amount t)" "unat (lamports_amount t) \<noteq> 0"
    using t tk by (simp_all add: open_ticket_def unat_eq_zero)
  show thesis
  proof (rule that [of "cl_ticket ac" 0])
    show "open_ticket key w' = (open_ticket key w)(cl_ticket ac := 0)"
      by (simp add: at open_ticket_def fun_eq_iff)
    show "unat (circulating_ticket_balance st') + open_ticket key w (cl_ticket ac)
        = unat (circulating_ticket_balance st) + 0"
      using bal old by (simp add: st' on_transfer_from_reserve_def ok_or_Inr checked_sub_Some)
    show "open_ticket key w (cl_ticket ac) = 0 \<and> unat (circulating_ticket_count st')
        = unat (circulating_ticket_count st) + 1
      \<or> 0 = (0::nat) \<and> open_ticket key w (cl_ticket ac) \<noteq> 0
        \<and> unat (circulating_ticket_count st') + 1 = unat (circulating_ticket_count st)"
      using cnt old by (simp add: st' on_transfer_from_reserve_def ok_or_Inr checked_sub_Some)
  qed
qed simp_all

end

section \<open>Invariants\<close>

lemma sum_upd_nat:
  fixes f :: "'a::finite \<Rightarrow> nat"
  shows "(\<Sum>j \<in> UNIV. (f(k := n)) j) + f k = (\<Sum>j \<in> UNIV. f j) + n"
proof -
  have "(\<Sum>j \<in> UNIV. (f(k := n)) j) = n + (\<Sum>j \<in> UNIV - {k}. f j)"
    by (subst sum.remove [of _ k]) (auto intro: sum.cong)
  moreover have "(\<Sum>j \<in> UNIV. f j) = f k + (\<Sum>j \<in> UNIV - {k}. f j)"
    by (rule sum.remove) auto
  ultimately show ?thesis by simp
qed

text \<open>The open tickets are the circulating ones; the count may include tickets worth nothing.\<close>

definition tickets_match :: "pubkey \<Rightarrow> state \<Rightarrow> world \<Rightarrow> bool" where
  "tickets_match key st w \<longleftrightarrow> open_tickets key w = unat (circulating_ticket_balance st)
     \<and> card {k. open_ticket key w k \<noteq> 0} \<le> unat (circulating_ticket_count st)"

lemma tickets_match_cong:
  assumes "tickets_match key st w" and "open_ticket key w' = open_ticket key w"
    and "circulating_ticket_balance st' = circulating_ticket_balance st"
    and "circulating_ticket_count st' = circulating_ticket_count st"
  shows "tickets_match key st' w'"
  using assms by (simp add: tickets_match_def open_tickets_def)

lemma open_ticket_cong: "acc_ticket w' = acc_ticket w \<Longrightarrow> open_ticket key w' = open_ticket key w"
  by (simp add: open_ticket_def fun_eq_iff)

lemma tickets_match_update:
  assumes "tickets_match key st w" and upd: "open_ticket key w' = (open_ticket key w)(k := n)"
    and bal: "unat (circulating_ticket_balance st') + open_ticket key w k
      = unat (circulating_ticket_balance st) + n"
    and cnt: "open_ticket key w k = 0 \<and> unat (circulating_ticket_count st')
        = unat (circulating_ticket_count st) + 1
      \<or> n = 0 \<and> open_ticket key w k \<noteq> 0 \<and> unat (circulating_ticket_count st') + 1
        = unat (circulating_ticket_count st)"
  shows "tickets_match key st' w'"
proof -
  let ?f = "open_ticket key w" and ?g = "open_ticket key w'"
  from assms(1) have sum: "(\<Sum>j \<in> UNIV. ?f j) = unat (circulating_ticket_balance st)"
    and card: "card {j. ?f j \<noteq> 0} \<le> unat (circulating_ticket_count st)"
    by (simp_all add: tickets_match_def open_tickets_def)
  have "(\<Sum>j \<in> UNIV. ?g j) = unat (circulating_ticket_balance st')"
    using sum_upd_nat [of ?f k n] sum bal by (simp only: upd)
  moreover have "card {j. ?g j \<noteq> 0} \<le> unat (circulating_ticket_count st')"
    using cnt
  proof
    assume c: "?f k = 0 \<and> unat (circulating_ticket_count st') = unat (circulating_ticket_count st) + 1"
    have "{j. ?g j \<noteq> 0} \<subseteq> insert k {j. ?f j \<noteq> 0}" by (auto simp: upd)
    from card_mono [OF _ this] card_insert_le_m1 [of "Suc (card {j. ?f j \<noteq> 0})" "{j. ?f j \<noteq> 0}" k]
    show ?thesis using c card by simp
  next
    assume c: "n = 0 \<and> ?f k \<noteq> 0 \<and> unat (circulating_ticket_count st') + 1
      = unat (circulating_ticket_count st)"
    then have "{j. ?g j \<noteq> 0} = {j. ?f j \<noteq> 0} - {k}" by (auto simp: upd)
    moreover have "k \<in> {j. ?f j \<noteq> 0}" using c by simp
    ultimately have "card {j. ?g j \<noteq> 0} = card {j. ?f j \<noteq> 0} - 1"
      by (simp only: card_Diff_singleton)
    with c card show ?thesis by linarith
  qed
  ultimately show ?thesis by (simp add: tickets_match_def open_tickets_def)
qed

lemma initialize_tickets:
  "initialize rt cx key ac data w = Inr (st', w') \<Longrightarrow> acc_ticket w' = acc_ticket w"
  by (auto simp: initialize_def initialize_process_def bindR_Inr Let_def)

text \<open>
  The system program's documented behaviour for the reserve: a funded transfer from an account of
  its own, signed by the seeds that derive the account, succeeds.
\<close>

definition transfers_work :: "runtime \<Rightarrow> bool" where
  "transfers_work rt \<longleftrightarrow> (\<forall>f t n s w. acc_owner w f = rt_system_program rt \<longrightarrow>
     rt_create_program_address rt s ID = Some f \<longrightarrow> can_move f t n (acc_lamports w) \<longrightarrow>
     (\<exists>w'. rt_invoke rt (SystemTransfer f t n) [s] w = Inr w'))"

context marinade_runtime
begin

lemma dispatch_tickets_match:
  assumes "dispatch rt cx key i st w = Inr (st', w')" and "tickets_match key st w"
  shows "tickets_match key st' w'"
proof -
  consider "is_config i" | "is_ticket i" | "\<not> is_config i \<and> \<not> is_ticket i" by blast
  then show ?thesis
  proof cases
    case 1
    from config_effect [OF assms(1) this] assms(2) show ?thesis by (auto elim: tickets_match_cong)
  next
    case 2
    from ticket_effect [OF assms(1) this] show ?thesis
      using tickets_match_update [OF assms(2)] by metis
  next
    case 3
    then have "quiet st w st' w'" using dispatch_quiet [OF assms(1)] by blast
    then show ?thesis
      using assms(2) by (auto simp: quiet_def intro: tickets_match_cong open_ticket_cong)
  qed
qed

lemma reachable_tickets_match:
  "reachable rt key given s \<Longrightarrow> tickets_match key (fst s) (snd s)"
proof (erule reachable_invariant, goal_cases)
  case (1 cx ac data w st w')
  have "open_ticket key w' k = 0" for k
    using 1(3) open_ticket_cong [OF initialize_tickets [OF 1(1)]] by simp
  then show ?case
    using initialize_effect(18) [OF 1(1,2)] by (simp add: tickets_match_def open_tickets_def)
next
  case (2 cx i st w st' w')
  then show ?case by (blast intro: dispatch_tickets_match)
next
  case (3 st w w')
  then show ?case by (auto simp: environment_def fun_eq_iff elim: tickets_match_cong)
qed

subsection \<open>Settings and lists\<close>

lemma settings_params: "settings st' = settings st \<Longrightarrow> params_ok st' = params_ok st
    \<and> auto_add_validator_enabled (validator_system st') = auto_add_validator_enabled (validator_system st)"
  by (simp add: settings_def params_ok_def pool_fees_ok_def fees_ordered_def)

lemma dispatch_settings:
  "dispatch rt cx key i st w = Inr (st', w') \<Longrightarrow> \<not> is_config i \<Longrightarrow> settings st' = settings st"
  using dispatch_quiet ticket_settings by (cases "is_ticket i") (auto simp: quiet_def)

lemma config_auto_add:
  "dispatch rt cx key i st w = Inr (st', w') \<Longrightarrow> is_config i \<Longrightarrow>
   auto_add_validator_enabled (validator_system st) \<le> 1 \<Longrightarrow>
   auto_add_validator_enabled (validator_system st') \<le> 1"
proof (cases i)
  case (ConfigMarinade admin p)
  assume "dispatch rt cx key i st w = Inr (st', w')"
    and le: "auto_add_validator_enabled (validator_system st) \<le> 1"
  with ConfigMarinade have "config_marinade cx key admin p st = Inr st'" by simp
  from config_marinade_effect(7) [OF this] le show ?thesis
    by (cases "cp_auto_add_validator_enabled p") simp_all
qed (auto simp: set_lp_params_def bindR_Inr dest: change_authority_effect)

lemma config_books:
  "dispatch rt cx key i st w = Inr (st', w') \<Longrightarrow> is_config i \<Longrightarrow> books st' = books st"
  by (cases i) (auto simp: books_def set_lp_params_def bindR_Inr
      dest: change_authority_effect config_marinade_effect(7))

lemma dispatch_lists:
  assumes "dispatch rt cx key i st w = Inr (st', w')" and "lists_ok rt st w"
    and "\<And>ac j k. i = UpdateActive ac j k \<Longrightarrow>
      ua_validator_list ac = account (validator_list (validator_system st))"
  shows "lists_ok rt st' w'"
proof (cases "is_config i")
  case True
  show ?thesis
    using lists_ok_books [OF assms(2) config_books [OF assms(1) True]] config_effect(2) [OF assms(1) True]
    by simp
next
  case False
  note kept = deposit_kept liquid_unstake_kept add_liquidity_kept remove_liquidity_kept
    order_unstake_kept claim_kept
  note lists = add_validator_lists remove_validator_lists set_validator_score_lists
    stake_reserve_lists deactivate_stake_lists emergency_unstake_lists merge_stakes_lists
    deposit_stake_account_lists update_deactivated_lists
  from False assms show ?thesis
  proof (cases i)
    case (ConfigValidatorSystem m n)
    with assms show ?thesis
      by (auto simp: config_validator_system_def bindR_Inr books_def intro: lists_ok_books)
  next
    case (UpdateActive ac j k)
    with assms show ?thesis by (auto intro: update_active_lists)
  qed (auto dest: kept lists_ok_kept lists)
qed

lemma reachable_lists_ok:
  assumes "reachable rt key given s"
    and "\<And>st ac j k. given st (UpdateActive ac j k) \<Longrightarrow>
      ua_validator_list ac = account (validator_list (validator_system st))"
  shows "lists_ok rt (fst s) (snd s)"
  using assms(1)
proof (rule reachable_invariant, goal_cases)
  case (1 cx ac data w st w')
  note e = initialize_effect [OF 1(1,2)]
  from e(4) have "scores_held rt st w' []"
    by (simp add: validators_held_def validators_rep_def scores_held_def Let_def)
  with e(5,21) show ?case by (auto simp: lists_ok_def)
next
  case (2 cx i st w st' w')
  with assms(2) show ?case by (blast intro: dispatch_lists)
next
  case (3 st w w')
  from 3(1) show ?case
    by (rule lists_ok_cong) (use 3(2) in \<open>auto simp: environment_def\<close>)
qed

lemma reachable_params_ok:
  "reachable rt key given s \<Longrightarrow> params_ok (fst s)
    \<and> auto_add_validator_enabled (validator_system (fst s)) \<le> 1"
proof (erule reachable_invariant [where I = "\<lambda>st w. params_ok st
    \<and> auto_add_validator_enabled (validator_system st) \<le> 1"], goal_cases)
  case (1 cx ac data w st w')
  show ?case using initialize_effect(3,22) [OF 1(1,2)] by simp
next
  case (2 cx i st w st' w')
  show ?case
  proof (cases "is_config i")
    case True
    then show ?thesis using 2 config_effect(5) [OF 2(3)] config_auto_add [OF 2(3)] by blast
  next
    case False
    then show ?thesis using 2 settings_params [OF dispatch_settings [OF 2(3)]] by simp
  qed
qed simp

subsection \<open>Claiming\<close>

text \<open>
  The claim of a due ticket, when the totals cover it: the last obstacle is the transfer itself.
\<close>

lemma claim_succeeds:
  assumes t: "acc_ticket w k = Some t" "state_address t = key" "lamports_amount t \<noteq> 0"
    and own: "acc_owner w k = ID" "acc_owner w (beneficiary t) = rt_system_program rt"
    and due: "ticket_due t (cx_clock cx)"
    and time: "- (2 ^ 63) \<le> unix_timestamp (cx_clock cx) - epoch_start_timestamp (cx_clock cx)"
      "unix_timestamp (cx_clock cx) - epoch_start_timestamp (cx_clock cx) < 2 ^ 63"
    and cx: "cx_program_id cx = ID" "cx_remaining cx = []" "cx_writable cx = (\<lambda>_. True)"
    and reserve: "reserve_address rt key st = Inr r"
      "unat (lamports_amount t) + unat (rent_exempt_for_token_acc st) \<le> unat (acc_lamports w r)"
    and totals: "lamports_amount t \<le> circulating_ticket_balance st"
      "circulating_ticket_count st \<noteq> 0"
    and pay: "\<And>w1. acc_lamports w1 = acc_lamports w \<Longrightarrow> acc_owner w1 = acc_owner w \<Longrightarrow>
      \<exists>w2. rt_invoke rt (SystemTransfer r (beneficiary t) (lamports_amount t)) [reserve_seeds key st] w1
        = Inr w2"
    and apart: "distinct [r, beneficiary t, k]"
    and room: "unat (acc_lamports w (beneficiary t)) + unat (lamports_amount t)
      + unat (acc_lamports w k) < 2 ^ 64"
  shows "\<exists>st' w'. claim rt cx key \<lparr>cl_reserve = r, cl_ticket = k, cl_transfer_to = beneficiary t,
      cl_system_program = rt_system_program rt\<rparr> st w = Inr (st', w')"
proof -
  let ?n = "lamports_amount t"
  let ?ac = "\<lparr>cl_reserve = r, cl_ticket = k, cl_transfer_to = beneficiary t,
      cl_system_program = rt_system_program rt\<rparr>"
  let ?w1 = "w\<lparr>acc_ticket := (acc_ticket w)(k \<mapsto> t\<lparr>lamports_amount := 0\<rparr>)\<rparr>"
  have le: "unat ?n \<le> unat (acc_lamports w r)" "unat (rent_exempt_for_token_acc st) \<le> unat (acc_lamports w r)"
    using reserve(2) by simp_all
  obtain due_epoch where de: "checked_add (created_epoch t) WAIT_EPOCHS = Some due_epoch"
    and de': "unat due_epoch = unat (created_epoch t) + 2"
  proof (cases "checked_add (created_epoch t) WAIT_EPOCHS")
    case None
    then show ?thesis
      using due unat_u64_less [of "epoch (cx_clock cx)"]
      by (simp add: checked_add_None WAIT_EPOCHS_def ticket_due_def)
  next
    case (Some e)
    then show ?thesis using that [of e] by (simp add: checked_add_Some WAIT_EPOCHS_def)
  qed
  have chk: "check_ticket_account key (cx_clock cx) ?ac t w = Inr ()"
    using t own due time de'
    by (auto simp: check_ticket_account_def bindR_Inr check_owner_program_def de i64_def
        EXTRA_WAIT_SECONDS_def ticket_due_def word_less_nat_alt)
  obtain bal where bal: "checked_sub (circulating_ticket_balance st) ?n = Some bal"
    using totals(1) by (simp add: checked_sub_def)
  obtain cnt where cnt: "checked_sub (circulating_ticket_count st) 1 = Some cnt"
    using totals(2) by (auto simp: checked_sub_def word_le_nat_alt unat_eq_zero Suc_le_eq
        simp flip: neq0_conv)
  obtain av where av: "checked_sub (acc_lamports w r) (rent_exempt_for_token_acc st) = Some av"
    using le by (simp add: checked_sub_def word_le_nat_alt)
  have av': "?n \<le> av" using av reserve(2) by (simp add: checked_sub_Some word_le_nat_alt)
  obtain w2 where w2: "rt_invoke rt (SystemTransfer r (beneficiary t) ?n) [reserve_seeds key st] ?w1 = Inr w2"
    using pay [of ?w1] by auto
  have moved: "acc_lamports w2 = move_u64 r (beneficiary t) ?n (acc_lamports w)"
    and cm: "can_move r (beneficiary t) ?n (acc_lamports w)"
    using system_transfer [OF w2] by simp_all
  have "unat (acc_lamports w2 (beneficiary t)) + unat (acc_lamports w2 k) < 2 ^ 64"
    using apart room move_target [OF cm] by (auto simp: moved)
  then obtain w3 where close: "close_ticket k (beneficiary t) w2 = Inr w3"
    by (simp add: close_ticket_def checked_add_def)
  have seeds: "reserve_seeds key (st\<lparr>circulating_ticket_balance := bal, circulating_ticket_count := cnt\<rparr>)
      = reserve_seeds key st"
    by (simp add: reserve_seeds_def)
  show ?thesis
    using t(1) own chk cx reserve(1) totals(1) av' w2 close
    by (simp add: claim_def claim_process_def check_attributes_def check_context_def
        check_owner_program_def check_address_def check_reserve_address_def bal cnt av seeds not_less)
qed

lemma due_ticket_claimed:
  assumes "transfers_work rt" and "tickets_match key st w"
    and t: "acc_ticket w k = Some t" "state_address t = key" "lamports_amount t \<noteq> 0"
    and own: "acc_owner w k = ID" "acc_owner w (beneficiary t) = rt_system_program rt"
    and due: "ticket_due t (cx_clock cx)"
    and time: "- (2 ^ 63) \<le> unix_timestamp (cx_clock cx) - epoch_start_timestamp (cx_clock cx)"
      "unix_timestamp (cx_clock cx) - epoch_start_timestamp (cx_clock cx) < 2 ^ 63"
    and cx: "cx_program_id cx = ID" "cx_remaining cx = []" "cx_writable cx = (\<lambda>_. True)"
    and reserve: "reserve_address rt key st = Inr r" "acc_owner w r = rt_system_program rt"
      "unat (lamports_amount t) + unat (rent_exempt_for_token_acc st) \<le> unat (acc_lamports w r)"
    and apart: "distinct [r, beneficiary t, k]"
    and room: "unat (acc_lamports w (beneficiary t)) + unat (lamports_amount t)
      + unat (acc_lamports w k) < 2 ^ 64"
  shows "\<exists>st' w'. dispatch rt cx key (Claim \<lparr>cl_reserve = r, cl_ticket = k,
      cl_transfer_to = beneficiary t, cl_system_program = rt_system_program rt\<rparr>) st w = Inr (st', w')
    \<and> unat (acc_lamports w' (beneficiary t)) = unat (acc_lamports w (beneficiary t))
        + unat (lamports_amount t) + unat (acc_lamports w k)
    \<and> open_ticket key w' k = 0 \<and> tickets_match key st' w'"
proof -
  let ?n = "lamports_amount t"
  let ?ac = "\<lparr>cl_reserve = r, cl_ticket = k, cl_transfer_to = beneficiary t,
      cl_system_program = rt_system_program rt\<rparr>"
  have o: "open_ticket key w k = unat ?n" "open_ticket key w k \<noteq> 0"
    using t by (simp_all add: open_ticket_def unat_eq_zero)
  have "open_ticket key w k \<le> unat (circulating_ticket_balance st)"
    using assms(2) member_le_sum [of k UNIV "open_ticket key w"]
    by (simp add: tickets_match_def open_tickets_def)
  then have bal: "?n \<le> circulating_ticket_balance st" by (simp add: o word_le_nat_alt)
  have "card {k} \<le> card {k. open_ticket key w k \<noteq> 0}" using o by (intro card_mono) auto
  then have cnt: "circulating_ticket_count st \<noteq> 0"
    using assms(2) by (auto simp: tickets_match_def)
  have "can_move r (beneficiary t) ?n (acc_lamports w)"
    using reserve(3) room by (simp add: can_move_def word_le_nat_alt)
  then have pay: "\<exists>w2. rt_invoke rt (SystemTransfer r (beneficiary t) ?n) [reserve_seeds key st] w1 = Inr w2"
    if "acc_lamports w1 = acc_lamports w" "acc_owner w1 = acc_owner w" for w1
    using assms(1) reserve(1,2) that by (auto simp: transfers_work_def reserve_address_def ok_or_Inr)
  obtain st' w' where run: "claim rt cx key ?ac st w = Inr (st', w')"
    using claim_succeeds [OF t own due time cx reserve(1,3) bal cnt pay apart room] by blast
  have d: "dispatch rt cx key (Claim ?ac) st w = Inr (st', w')" using run by simp
  have apart': "distinct [cl_reserve ?ac, cl_transfer_to ?ac, cl_ticket ?ac]" using apart by simp
  show ?thesis
  proof (rule claim_effect [OF run apart'], goal_cases)
    case (1 t')
    have "open_ticket key w' k = 0" using 1(12) by (simp add: open_ticket_def)
    moreover have "t' = t" using 1(1) t by simp
    ultimately show ?case using d 1(14) dispatch_tickets_match [OF d assms(2)] by auto
  qed
qed

end

section \<open>Properties\<close>

text \<open>The program's own validator list is passed to \<open>update_active\<close>.\<close>

fun own_list :: "state \<Rightarrow> instruction \<Rightarrow> bool" where
  "own_list st (UpdateActive ac i j) =
     (ua_validator_list ac = account (validator_list (validator_system st)))"
| "own_list st _ = True"

text \<open>
  C9. In every situation an instance can reach, whatever instructions were sent in whatever order
  and whatever other programs did in between, the amounts of its open tickets add up exactly to
  the recorded circulating balance, and their number is at most the recorded count: no ticket is
  lost, forged or paid twice.
\<close>
theorem tickets_are_covered:
  assumes "marinade_runtime rt" and "reachable rt key any_call (st, w)"
  shows "open_tickets key w = unat (circulating_ticket_balance st)
    \<and> card {k. open_ticket key w k \<noteq> 0} \<le> unat (circulating_ticket_count st)"
  using marinade_runtime.reachable_tickets_match [OF assms] by (simp add: tickets_match_def)



text \<open>
  C23. As long as every call of \<open>update_active\<close> names the program's own validator list, both lists stay
  well-formed after any sequence of calls from the initialisation. This is a condition on the callers: the
  program does not check it. Well-formed means: two different accounts of the program, every counted
  slot holds a record, and the total score is exactly the sum of the validators' scores.
\<close>
theorem lists_stay_valid:
  assumes "marinade_runtime rt" and "reachable rt key own_list (st, w)"
  shows "lists_ok rt st w"
  using marinade_runtime.reachable_lists_ok [OF assms] by simp


section \<open>Runs\<close>

text \<open>An initialised instance, after two further instructions.\<close>

definition ex_later :: "state \<times> world \<Rightarrow> state \<times> world" where
  "ex_later s = execute ref_rt ex_cx2 ex_key (Claim ex_claim)
     (execute ref_rt ex_cx ex_key (OrderUnstake ex_order 2500) s)"

lemma ex_reachable:
  assumes "\<And>st. given st (OrderUnstake ex_order 2500)" and "\<And>st. given st (Claim ex_claim)"
  obtains st w where "reachable ref_rt ex_key given (ex_later (st, w))"
    and "reachable ref_rt ex_key given (st, w)"
proof -
  obtain st w where
    r: "initialize ref_rt ex_creator_cx ex_key ex_init ex_init_data ex_init_world = Inr (st, w)"
    by (rule ex_init_runs)
  have "small_lists ref_rt ex_init ex_init_world"
    by (simp add: small_lists_def ex_init_def ex_init_world_def)
  moreover have "\<forall>k. open_ticket ex_key ex_init_world k = 0"
    by (simp add: open_ticket_def ex_init_world_def)
  ultimately have i: "reachable ref_rt ex_key given (st, w)"
    by (rule reachable_init [OF r])
  have step: "reachable ref_rt ex_key given (execute ref_rt cx ex_key ix s)"
    if "reachable ref_rt ex_key given s" "given (fst s) ix" for cx ix s
    using that reachable_step step_instruction [of given "fst s" ix ref_rt ex_key "snd s" cx]
    by fastforce
  have "reachable ref_rt ex_key given (ex_later (st, w))"
    unfolding ex_later_def using i assms by (intro step) simp_all
  with i that show thesis by blast
qed

lemma tickets_are_covered_witness:
  "\<exists>s. reachable ref_rt ex_key any_call (ex_later s)
    \<and> open_tickets ex_key (snd (ex_later s)) = unat (circulating_ticket_balance (fst (ex_later s)))"
proof -
  obtain st w where "reachable ref_rt ex_key any_call (ex_later (st, w))"
    by (rule ex_reachable [of any_call]) auto
  with tickets_are_covered [OF ref.marinade_runtime_axioms, of ex_key "fst (ex_later (st, w))"
      "snd (ex_later (st, w))"]
  show ?thesis by auto
qed


lemma lists_stay_valid_witness:
  "\<exists>s. reachable ref_rt ex_key own_list (ex_later s)
    \<and> lists_ok ref_rt (fst (ex_later s)) (snd (ex_later s))"
proof -
  obtain st w where "reachable ref_rt ex_key own_list (ex_later (st, w))"
    by (rule ex_reachable [of own_list]) auto
  with lists_stay_valid [OF ref.marinade_runtime_axioms, of ex_key "fst (ex_later (st, w))"
      "snd (ex_later (st, w))"]
  show ?thesis by auto
qed


lemma ex_tickets_match: "tickets_match ex_key ex_state ex_world"
proof -
  have o: "open_ticket ex_key ex_world = (\<lambda>_. 0)(43 := 100000)"
    by (simp add: open_ticket_def ex_world_def fun_eq_iff)
  have "open_tickets ex_key ex_world = 100000"
    using sum_upd_nat [of "\<lambda>_. 0" "43 :: pubkey" 100000] by (simp add: open_tickets_def o)
  moreover have "{k. open_ticket ex_key ex_world k \<noteq> 0} = {43}" by (auto simp: o)
  ultimately show ?thesis by (simp add: tickets_match_def)
qed

lemma ex_transfers_work: "transfers_work ref_rt"
  by (simp add: transfers_work_def ok_or_Inr move_lamports_Some)


end
