(* ===== verification/ValidatorCycle.thy ===== *)
theory ValidatorCycle
  imports Books
begin

text \<open>
  The round trip of the validator list (\<open>validator_system/add.rs\<close>, \<open>validator_system/remove.rs\<close>):
  a validator that was just added can be removed again, which restores the list.
\<close>

lemma list_push_prefix:
  "list_push ser l d x = Inr (l', d') \<Longrightarrow> byte_slice d' 0 8 = byte_slice d 0 8"
  by (auto simp: list_push_def write_item_def item_start_Inr bindR_Inr intro!: byte_slice_write_other)

lemma list_push_remove:
  assumes "list_push ser l d x = Inr (l', d')"
  shows "list_remove l' e (count l) = Inr (l, e)"
proof -
  obtain c where l': "l' = l\<lparr>count := c\<rparr>" and c: "padd (count l) 1 = Inr c"
    and new: "new_account l = pubkey_default"
    using assms by (auto simp: list_push_def bindR_Inr)
  have "psub c 1 = Inr (count l)" and "count l < c" using c by (simp_all add: result_simps word_less_nat_alt)
  then show ?thesis using new by (simp add: l' list_remove_def not_le)
qed

lemma saturating_sub_padd: "padd a b = Inr t \<Longrightarrow> saturating_sub t b = a"
  by (simp add: result_simps word_unat_eq_iff)

lemma swap_remove_last [simp]: "swap_remove (xs @ [x]) (length xs) = xs"
  by (simp add: swap_remove_def)

definition undo_add :: "add_validator_accounts \<Rightarrow> state \<Rightarrow> remove_validator_accounts" where
  "undo_add ac st = \<lparr>rv_manager_authority = av_manager_authority ac,
     rv_validator_list = av_validator_list ac, rv_duplication_flag = av_duplication_flag ac,
     rv_operational_sol_account = operational_sol_account st\<rparr>"

context marinade_runtime
begin

text \<open>The parts of an addition that the removal looks at again.\<close>

lemma add_validator_data:
  assumes run: "add_validator rt cx key ac sc st w = Inr (st', w')"
    and own: "acc_owner w (av_validator_list ac) = ID"
  shows "check_validator_list (validator_system st') w' (av_validator_list ac) = Inr ()"
    and "fst (find_duplication_flag rt key (av_validator_vote ac)) = av_duplication_flag ac"
    and "cx_writable cx key \<and> cx_writable cx (av_validator_list ac)
      \<and> cx_writable cx (av_duplication_flag ac)"
    and "cx_program_id cx = ID \<and> cx_remaining cx = []"
    and "\<exists>l t. validator_system st'
        = (validator_system st)\<lparr>validator_list := l, total_validator_score := t\<rparr>
      \<and> list_remove l (acc_data w' (av_validator_list ac)) (count (validator_list (validator_system st)))
        = Inr (validator_list (validator_system st), acc_data w' (av_validator_list ac))
      \<and> saturating_sub t sc = total_validator_score (validator_system st)"
proof -
  let ?k = "av_validator_list ac"
  from run obtain vs d seeds where
    attr: "cx_writable cx key \<and> cx_writable cx ?k \<and> cx_writable cx (av_duplication_flag ac)"
    and ctx: "cx_program_id cx = ID \<and> cx_remaining cx = []"
    and chk: "check_validator_list (validator_system st) w ?k = Inr ()"
    and add: "validator_add rt (validator_system st) (acc_data w ?k) (av_validator_vote ac) sc key
      (av_duplication_flag ac) = Inr (vs, d)"
    and cpi: "rt_invoke rt (SystemCreateAccount (av_rent_payer ac) (av_duplication_flag ac)
      (rt_minimum_balance rt 0) 0 ID) seeds (put_data ?k d w) = Inr w'"
    and st': "st' = st\<lparr>validator_system := vs\<rparr>"
    by (auto simp: add_validator_def add_validator_process_def add_validator_checks_def bindR_Inr
        check_attributes_Inr check_context_Inr)
  from add obtain l v t where
    push: "list_push (rt_ser_validator rt) (validator_list (validator_system st)) (acc_data w ?k) v
      = Inr (l, d)"
    and vs: "vs = (validator_system st)\<lparr>validator_list := l, total_validator_score := t\<rparr>"
    and total: "padd (total_validator_score (validator_system st)) sc = Inr t"
    and flag: "fst (find_duplication_flag rt key (av_validator_vote ac)) = av_duplication_flag ac"
    by (auto simp: validator_add_def validator_record_new_def bindR_Inr split: prod.splits)
  have "acc_data w' ?k = d" using invoke_keeps_data [OF cpi, of ?k] own by simp
  then show "check_validator_list (validator_system st') w' ?k = Inr ()"
    using chk list_push_prefix [OF push] list_push_account [OF push]
    by (auto simp: check_validator_list_Inr st' vs)
  show "\<exists>l t. validator_system st'
        = (validator_system st)\<lparr>validator_list := l, total_validator_score := t\<rparr>
      \<and> list_remove l (acc_data w' ?k) (count (validator_list (validator_system st)))
        = Inr (validator_list (validator_system st), acc_data w' ?k)
      \<and> saturating_sub t sc = total_validator_score (validator_system st)"
    using list_push_remove [OF push] saturating_sub_padd [OF total] by (auto simp: st' vs)
  show "fst (find_duplication_flag rt key (av_validator_vote ac)) = av_duplication_flag ac"
    by (rule flag)
  show "cx_writable cx key \<and> cx_writable cx ?k \<and> cx_writable cx (av_duplication_flag ac)"
    by (rule attr)
  show "cx_program_id cx = ID \<and> cx_remaining cx = []" by (rule ctx)
qed

lemma add_then_remove_runs:
  assumes run: "add_validator rt cx key ac sc st w = Inr (st1, w1)"
    and held: "validators_held rt st w xs" and sys: "rt_system_program rt \<noteq> ID"
    and op: "cx_writable cx (operational_sol_account st)"
      "av_duplication_flag ac \<noteq> operational_sol_account st"
    and room: "unat (acc_lamports w1 (operational_sol_account st))
      + unat (acc_lamports w1 (av_duplication_flag ac)) < 2 ^ 64"
  obtains w2 where "remove_validator rt cx key (undo_add ac st)
      (count (validator_list (validator_system st))) (av_validator_vote ac) st1 w1 = Inr (st, w2)"
    and "validators_held rt st w2 xs"
proof -
  let ?old = "validator_system st"
  let ?i = "count (validator_list ?old)" and ?rac = "undo_add ac st"
  let ?vs = "validator_system st1" and ?k = "av_validator_list ac"
  obtain v vs where v: "v = \<lparr>validator_account = av_validator_vote ac, active_balance = 0, score = sc,
      vr_last_stake_delta_epoch = - 1,
      duplication_flag_bump_seed = snd (find_duplication_flag rt key (av_validator_vote ac))\<rparr>"
    and held1: "validators_held rt st1 w1 (xs @ [v])"
    and auth: "av_manager_authority ac = manager_authority (validator_system st)"
      "cx_signer cx (av_manager_authority ac)"
    and st1: "st1 = st\<lparr>validator_system := vs\<rparr>"
    and man: "manager_authority vs = manager_authority (validator_system st)"
    using add_validator_effect [OF run held sys] by metis
  have k: "?k = account (validator_list (validator_system st))"
    using run by (auto simp: add_validator_def add_validator_process_def add_validator_checks_def
        bindR_Inr check_validator_list_Inr)
  note a = add_validator_data [OF run validators_held_D(1) [OF held k]]
  have k1: "?k = account (validator_list ?vs)" using a(1) by (simp add: check_validator_list_Inr)
  note rep = validators_held_D(2) [OF held1 k1]
  have i: "unat ?i = length xs"
    using validators_rep_list [OF validators_held_D(2) [OF held k]] by (rule list_rep_count)
  have get: "validator_get rt ?vs (acc_data w1 ?k) ?i = Inr v"
    using validator_get_Inr [OF held1 k1, of ?i v] i by simp
  have sel: "active_balance v = 0" "validator_account v = av_validator_vote ac"
    using v by simp_all
  have flag: "duplication_flag_address rt key v = Inr (av_duplication_flag ac)"
    using a(2) find_create [OF surjective_pairing, of "[pubkey_to_bytes key, DUPLICATE_FLAG_SEED,
        pubkey_to_bytes (av_validator_vote ac)]" ID]
    by (simp add: duplication_flag_address_def duplication_flag_seeds_def v find_duplication_flag_def)
  obtain l t where vs1: "?vs = ?old\<lparr>validator_list := l, total_validator_score := t\<rparr>"
    and rem: "list_remove l (acc_data w1 ?k) ?i = Inr (validator_list ?old, acc_data w1 ?k)"
    and total: "saturating_sub t sc = total_validator_score ?old"
    using a(5) by blast
  have undo: "validator_remove ?vs (acc_data w1 ?k) ?i v = Inr (?old, acc_data w1 ?k)"
    by (simp add: validator_remove_def vs1 rem total v)
  have "unat (((acc_lamports w1)(av_duplication_flag ac := 0)) (operational_sol_account st))
      + unat (acc_lamports w1 (av_duplication_flag ac)) < 2 ^ 64"
    using room op(2) by simp
  then have "\<exists>w2. remove_validator rt cx key ?rac ?i (av_validator_vote ac) st1 w1 = Inr (st, w2)"
    using a(1,3,4) op get flag undo auth man sel
    by (simp add: remove_validator_def remove_validator_process_def remove_validator_checks_def
        undo_add_def check_attributes_def check_context_def check_validator_manager_authority_def
        check_operational_sol_account_def check_address_def st1 checked_add_def)
  then obtain w2 where run2: "remove_validator rt cx key ?rac ?i (av_validator_vote ac) st1 w1
      = Inr (st, w2)" by blast
  from remove_validator_effect [OF run2 held1]
  have "validators_held rt st w2 (swap_remove (xs @ [v]) (unat ?i))" by blast
  then show thesis using that [OF run2] by (simp add: i)
qed

end

text \<open>
  C24. Round trip of the validator list: right after a validator was added, removing it (by the same
  manager, at the index that was the length of the list) succeeds, puts the whole program state back
  to what it was before the addition, and leaves the validators that were listed before, all
  provided the operational account can hold the rent of the duplication flag.
\<close>
theorem add_then_remove:
  assumes "marinade_runtime rt" and "rt_system_program rt \<noteq> ID"
    and "add_validator rt cx key ac sc st w = Inr (st1, w1)" and "validators_held rt st w xs"
    and "cx_writable cx (operational_sol_account st)"
    and "av_duplication_flag ac \<noteq> operational_sol_account st"
    and "unat (acc_lamports w1 (operational_sol_account st))
      + unat (acc_lamports w1 (av_duplication_flag ac)) < 2 ^ 64"
  shows "\<exists>w2. remove_validator rt cx key (undo_add ac st)
      (count (validator_list (validator_system st))) (av_validator_vote ac) st1 w1 = Inr (st, w2)
    \<and> validators_held rt st w2 xs"
  by (rule marinade_runtime.add_then_remove_runs [OF assms(1,3,4,2,5,6,7)]) blast

lemma add_then_remove_witness:
  "\<exists>st1 w1 w2. add_validator ref_rt ex_cx ex_key ex_add_validator 10 ex_state ex_world_flags
      = Inr (st1, w1)
    \<and> remove_validator ref_rt ex_cx ex_key (undo_add ex_add_validator ex_state) 2 52 st1 w1
      = Inr (ex_state, w2)"
proof -
  obtain st1 w1 where
    r: "add_validator ref_rt ex_cx ex_key ex_add_validator 10 ex_state ex_world_flags = Inr (st1, w1)"
    by (rule ex_add_validator_runs)
  have s: "rt_system_program ref_rt \<noteq> ID" using ID_not_system by simp
  have room: "unat (acc_lamports w1 14) + unat (acc_lamports w1 3032) < 2 ^ 64"
    using r
    by (auto simp: add_validator_def add_validator_process_def run_simps ex_add_validator_def bindR_Inr
        ref_minimum_balance_def ex_world_flags_def ex_world_def)
  have op: "cx_writable ex_cx (operational_sol_account ex_state)"
    "av_duplication_flag ex_add_validator \<noteq> operational_sol_account ex_state"
    "operational_sol_account ex_state = 14" "av_duplication_flag ex_add_validator = 3032"
    "av_validator_vote ex_add_validator = 52" "count (validator_list (validator_system ex_state)) = 2"
    by (simp_all add: ex_add_validator_def)
  show ?thesis
    using add_then_remove [OF ref.marinade_runtime_axioms s r ex_validators_held(1) op(1,2)] r room
    by (auto simp: op(3-6))
qed

end
