(* ===== verification/Sdk.thy ===== *)
theory Sdk
  imports System
begin

text \<open>
  The client side of the instructions (\<open>sdk/onchain/src/lib.rs\<close>): one function per instruction that fills in
  the accounts from the state of the instance. The addresses are derived from the bump seeds of
  the state (and \<open>unwrap\<close>ped, hence the results). The sysvar accounts (clock, rent, epoch
  schedule), which the handlers' models take from the call context, are left out, and so is the
  encoding of accounts and arguments that Anchor generates.
\<close>

section \<open>Liquidity and users\<close>

definition sdk_add_liquidity ::
  "runtime \<Rightarrow> pubkey \<Rightarrow> state \<Rightarrow> pubkey \<Rightarrow> pubkey \<Rightarrow> u64 \<Rightarrow> instruction result" where
  "sdk_add_liquidity rt key st transfer_from mint_to lamports =
     bindR (lp_mint_authority rt key (liq_pool st)) (\<lambda>authority.
     bindR (liq_pool_sol_leg_address rt key (liq_pool st)) (\<lambda>sol_leg.
     Inr (AddLiquidity \<lparr>al_lp_mint = lp_mint (liq_pool st), al_lp_mint_authority = authority,
       al_msol_leg = msol_leg (liq_pool st), al_sol_leg = sol_leg, al_transfer_from = transfer_from,
       al_mint_to = mint_to, al_system_program = rt_system_program rt,
       al_token_program = rt_spl_token rt\<rparr> lamports)))"

definition sdk_remove_liquidity ::
  "runtime \<Rightarrow> pubkey \<Rightarrow> state \<Rightarrow> pubkey \<Rightarrow> pubkey \<Rightarrow> pubkey \<Rightarrow> pubkey \<Rightarrow> u64 \<Rightarrow> instruction result" where
  "sdk_remove_liquidity rt key st burn_from burn_from_authority transfer_sol_to transfer_msol_to tokens =
     bindR (liq_pool_sol_leg_address rt key (liq_pool st)) (\<lambda>sol_leg.
     bindR (liq_pool_msol_leg_authority rt key (liq_pool st)) (\<lambda>authority.
     Inr (RemoveLiquidity \<lparr>rl_lp_mint = lp_mint (liq_pool st), rl_burn_from = burn_from,
       rl_burn_from_authority = burn_from_authority, rl_transfer_sol_to = transfer_sol_to,
       rl_transfer_msol_to = transfer_msol_to, rl_sol_leg = sol_leg, rl_msol_leg = msol_leg (liq_pool st),
       rl_msol_leg_authority = authority, rl_system_program = rt_system_program rt,
       rl_token_program = rt_spl_token rt\<rparr> tokens)))"

definition sdk_deposit ::
  "runtime \<Rightarrow> pubkey \<Rightarrow> state \<Rightarrow> pubkey \<Rightarrow> pubkey \<Rightarrow> u64 \<Rightarrow> instruction result" where
  "sdk_deposit rt key st transfer_from mint_to lamports =
     bindR (liq_pool_sol_leg_address rt key (liq_pool st)) (\<lambda>sol_leg.
     bindR (liq_pool_msol_leg_authority rt key (liq_pool st)) (\<lambda>leg_authority.
     bindR (reserve_address rt key st) (\<lambda>reserve.
     bindR (msol_mint_authority rt key st) (\<lambda>authority.
     Inr (DepositSol \<lparr>dep_msol_mint = msol_mint st, dep_sol_leg = sol_leg,
       dep_msol_leg = msol_leg (liq_pool st), dep_msol_leg_authority = leg_authority,
       dep_reserve = reserve, dep_transfer_from = transfer_from, dep_mint_to = mint_to,
       dep_msol_mint_authority = authority, dep_system_program = rt_system_program rt,
       dep_token_program = rt_spl_token rt\<rparr> lamports)))))"

definition sdk_liquid_unstake ::
  "runtime \<Rightarrow> pubkey \<Rightarrow> state \<Rightarrow> pubkey \<Rightarrow> pubkey \<Rightarrow> pubkey \<Rightarrow> u64 \<Rightarrow> instruction result" where
  "sdk_liquid_unstake rt key st get_msol_from get_msol_from_authority transfer_sol_to msol_amount =
     bindR (liq_pool_sol_leg_address rt key (liq_pool st)) (\<lambda>sol_leg.
     Inr (LiquidUnstake \<lparr>lu_msol_mint = msol_mint st, lu_sol_leg = sol_leg,
       lu_msol_leg = msol_leg (liq_pool st), lu_treasury = treasury_msol_account st,
       lu_get_from = get_msol_from, lu_get_from_authority = get_msol_from_authority,
       lu_transfer_to = transfer_sol_to, lu_system_program = rt_system_program rt,
       lu_token_program = rt_spl_token rt\<rparr> msol_amount))"

definition sdk_order_unstake ::
  "runtime \<Rightarrow> state \<Rightarrow> pubkey \<Rightarrow> pubkey \<Rightarrow> u64 \<Rightarrow> pubkey \<Rightarrow> instruction result" where
  "sdk_order_unstake rt st burn_msol_from burn_msol_authority msol_amount new_ticket_account =
     Inr (OrderUnstake \<lparr>ou_msol_mint = msol_mint st, ou_burn_from = burn_msol_from,
       ou_burn_authority = burn_msol_authority, ou_ticket = new_ticket_account,
       ou_token_program = rt_spl_token rt\<rparr> msol_amount)"

definition sdk_claim ::
  "runtime \<Rightarrow> pubkey \<Rightarrow> state \<Rightarrow> pubkey \<Rightarrow> pubkey \<Rightarrow> instruction result" where
  "sdk_claim rt key st ticket_account transfer_sol_to =
     bindR (reserve_address rt key st) (\<lambda>reserve.
     Inr (Claim \<lparr>cl_reserve = reserve, cl_ticket = ticket_account, cl_transfer_to = transfer_sol_to,
       cl_system_program = rt_system_program rt\<rparr>))"

definition sdk_deposit_stake_account ::
  "runtime \<Rightarrow> pubkey \<Rightarrow> state \<Rightarrow> pubkey \<Rightarrow> pubkey \<Rightarrow> pubkey \<Rightarrow> u32 \<Rightarrow> pubkey \<Rightarrow> pubkey
    \<Rightarrow> instruction result" where
  "sdk_deposit_stake_account rt key st stk stake_auth mint_to validator_index validator_vote rent_payer =
     bindR (msol_mint_authority rt key st) (\<lambda>authority.
     Inr (DepositStakeAccount \<lparr>dsa_validator_list = account (validator_list (validator_system st)),
       dsa_stake_list = account (stake_list (stake_system st)), dsa_stake_account = stk,
       dsa_stake_authority = stake_auth,
       dsa_duplication_flag = fst (find_duplication_flag rt key validator_vote),
       dsa_rent_payer = rent_payer, dsa_msol_mint = msol_mint st, dsa_mint_to = mint_to,
       dsa_msol_mint_authority = authority, dsa_system_program = rt_system_program rt,
       dsa_token_program = rt_spl_token rt, dsa_stake_program = rt_stake_program rt\<rparr> validator_index))"

section \<open>Administration\<close>

definition sdk_add_validator ::
  "runtime \<Rightarrow> pubkey \<Rightarrow> state \<Rightarrow> pubkey \<Rightarrow> u32 \<Rightarrow> pubkey \<Rightarrow> instruction result" where
  "sdk_add_validator rt key st validator_vote sc rent_payer =
     Inr (AddValidator \<lparr>av_manager_authority = manager_authority (validator_system st),
       av_validator_list = account (validator_list (validator_system st)),
       av_validator_vote = validator_vote,
       av_duplication_flag = fst (find_duplication_flag rt key validator_vote),
       av_rent_payer = rent_payer, av_system_program = rt_system_program rt\<rparr> sc)"

definition sdk_remove_validator ::
  "runtime \<Rightarrow> pubkey \<Rightarrow> state \<Rightarrow> u32 \<Rightarrow> pubkey \<Rightarrow> instruction result" where
  "sdk_remove_validator rt key st index validator_vote =
     Inr (RemoveValidator \<lparr>rv_manager_authority = manager_authority (validator_system st),
       rv_validator_list = account (validator_list (validator_system st)),
       rv_duplication_flag = fst (find_duplication_flag rt key validator_vote),
       rv_operational_sol_account = operational_sol_account st\<rparr> index validator_vote)"

definition sdk_set_validator_score :: "state \<Rightarrow> u32 \<Rightarrow> pubkey \<Rightarrow> u32 \<Rightarrow> instruction result" where
  "sdk_set_validator_score st index validator_vote sc =
     Inr (SetValidatorScore (manager_authority (validator_system st))
       (account (validator_list (validator_system st))) index validator_vote sc)"

definition sdk_config_validator_system :: "state \<Rightarrow> u32 \<Rightarrow> instruction result" where
  "sdk_config_validator_system st extra_runs =
     Inr (ConfigValidatorSystem (manager_authority (validator_system st)) extra_runs)"

definition sdk_change_authority :: "state \<Rightarrow> change_authority_data \<Rightarrow> instruction result" where
  "sdk_change_authority st d = Inr (ChangeAuthority (admin_authority st) d)"

definition sdk_set_lp_params :: "state \<Rightarrow> fee \<Rightarrow> fee \<Rightarrow> u64 \<Rightarrow> instruction result" where
  "sdk_set_lp_params st min_fee max_fee liquidity_target =
     Inr (SetLpParams \<lparr>slp_admin_authority = admin_authority st\<rparr> min_fee max_fee liquidity_target)"

definition sdk_config_marinade :: "state \<Rightarrow> config_marinade_params \<Rightarrow> instruction result" where
  "sdk_config_marinade st params = Inr (ConfigMarinade (admin_authority st) params)"

section \<open>Stakes\<close>

definition sdk_stake_reserve ::
  "runtime \<Rightarrow> pubkey \<Rightarrow> state \<Rightarrow> u32 \<Rightarrow> pubkey \<Rightarrow> pubkey \<Rightarrow> instruction result" where
  "sdk_stake_reserve rt key st validator_index validator_vote stk =
     bindR (reserve_address rt key st) (\<lambda>reserve.
     bindR (stake_deposit_authority rt key (stake_system st)) (\<lambda>authority.
     Inr (StakeReserve \<lparr>sr_validator_list = account (validator_list (validator_system st)),
       sr_stake_list = account (stake_list (stake_system st)), sr_validator_vote = validator_vote,
       sr_reserve_pda = reserve, sr_stake_account = stk, sr_stake_deposit_authority = authority,
       sr_stake_history = rt_stake_history rt, sr_stake_config = rt_stake_config rt,
       sr_system_program = rt_system_program rt, sr_stake_program = rt_stake_program rt\<rparr> validator_index)))"

definition sdk_deactivate_stake ::
  "runtime \<Rightarrow> pubkey \<Rightarrow> state \<Rightarrow> pubkey \<Rightarrow> pubkey \<Rightarrow> pubkey \<Rightarrow> u32 \<Rightarrow> u32 \<Rightarrow> instruction result" where
  "sdk_deactivate_stake rt key st stk split_stake_account split_stake_rent_payer stake_index validator_index =
     bindR (reserve_address rt key st) (\<lambda>reserve.
     bindR (stake_deposit_authority rt key (stake_system st)) (\<lambda>authority.
     Inr (DeactivateStake \<lparr>ds_reserve_pda = reserve,
       ds_validator_list = account (validator_list (validator_system st)),
       ds_stake_list = account (stake_list (stake_system st)), ds_stake_account = stk,
       ds_stake_deposit_authority = authority, ds_split_stake_account = split_stake_account,
       ds_split_stake_rent_payer = split_stake_rent_payer, ds_system_program = rt_system_program rt,
       ds_stake_program = rt_stake_program rt\<rparr> stake_index validator_index)))"

definition sdk_emergency_unstake ::
  "runtime \<Rightarrow> pubkey \<Rightarrow> state \<Rightarrow> pubkey \<Rightarrow> u32 \<Rightarrow> u32 \<Rightarrow> instruction result" where
  "sdk_emergency_unstake rt key st stk stake_index validator_index =
     bindR (stake_deposit_authority rt key (stake_system st)) (\<lambda>authority.
     Inr (EmergencyUnstake \<lparr>eu_validator_manager_authority = manager_authority (validator_system st),
       eu_validator_list = account (validator_list (validator_system st)),
       eu_stake_list = account (stake_list (stake_system st)), eu_stake_account = stk,
       eu_stake_deposit_authority = authority, eu_stake_program = rt_stake_program rt\<rparr>
       stake_index validator_index))"

definition sdk_merge_stakes ::
  "runtime \<Rightarrow> pubkey \<Rightarrow> state \<Rightarrow> pubkey \<Rightarrow> u32 \<Rightarrow> pubkey \<Rightarrow> u32 \<Rightarrow> u32 \<Rightarrow> instruction result" where
  "sdk_merge_stakes rt key st destination_stake destination_stake_index source_stake source_stake_index
     validator_index =
     bindR (stake_deposit_authority rt key (stake_system st)) (\<lambda>deposit_authority.
     bindR (stake_withdraw_authority rt key (stake_system st)) (\<lambda>withdraw_authority.
     Inr (MergeStakes \<lparr>ms_stake_list = account (stake_list (stake_system st)),
       ms_validator_list = account (validator_list (validator_system st)),
       ms_destination_stake = destination_stake, ms_source_stake = source_stake,
       ms_stake_deposit_authority = deposit_authority, ms_stake_withdraw_authority = withdraw_authority,
       ms_operational_sol_account = operational_sol_account st, ms_stake_program = rt_stake_program rt\<rparr>
       destination_stake_index source_stake_index validator_index)))"

definition sdk_update_common :: "runtime \<Rightarrow> pubkey \<Rightarrow> state \<Rightarrow> pubkey \<Rightarrow> update_common result" where
  "sdk_update_common rt key st stk =
     bindR (stake_withdraw_authority rt key (stake_system st)) (\<lambda>withdraw_authority.
     bindR (reserve_address rt key st) (\<lambda>reserve.
     bindR (msol_mint_authority rt key st) (\<lambda>authority.
     Inr \<lparr>uc_stake_list = account (stake_list (stake_system st)), uc_stake_account = stk,
       uc_stake_withdraw_authority = withdraw_authority, uc_reserve_pda = reserve,
       uc_msol_mint = msol_mint st, uc_msol_mint_authority = authority,
       uc_treasury_msol_account = treasury_msol_account st, uc_stake_program = rt_stake_program rt,
       uc_token_program = rt_spl_token rt\<rparr>)))"

definition sdk_update_active ::
  "runtime \<Rightarrow> pubkey \<Rightarrow> state \<Rightarrow> pubkey \<Rightarrow> u32 \<Rightarrow> u32 \<Rightarrow> instruction result" where
  "sdk_update_active rt key st stk stake_index validator_index =
     bindR (sdk_update_common rt key st stk) (\<lambda>common.
     Inr (UpdateActive \<lparr>ua_common = common,
       ua_validator_list = account (validator_list (validator_system st))\<rparr> stake_index validator_index))"

definition sdk_update_deactivated ::
  "runtime \<Rightarrow> pubkey \<Rightarrow> state \<Rightarrow> pubkey \<Rightarrow> u32 \<Rightarrow> instruction result" where
  "sdk_update_deactivated rt key st stk stake_index =
     bindR (sdk_update_common rt key st stk) (\<lambda>common.
     Inr (UpdateDeactivated \<lparr>ud_common = common,
       ud_operational_sol_account = operational_sol_account st,
       ud_system_program = rt_system_program rt\<rparr> stake_index))"

section \<open>Signatures\<close>

text \<open>The accounts with the attribute \<open>signer\<close> in the \<open>Accounts\<close> structs.\<close>

fun signers_of :: "instruction \<Rightarrow> pubkey list" where
  "signers_of (ChangeAuthority admin d) = [admin]"
| "signers_of (AddValidator ac sc) = [av_manager_authority ac, av_rent_payer ac]"
| "signers_of (RemoveValidator ac i vote) = [rv_manager_authority ac]"
| "signers_of (SetValidatorScore manager vlist i vote sc) = [manager]"
| "signers_of (ConfigValidatorSystem manager n) = [manager]"
| "signers_of (DepositSol ac n) = [dep_transfer_from ac]"
| "signers_of (DepositStakeAccount ac i) = [dsa_stake_authority ac, dsa_rent_payer ac]"
| "signers_of (LiquidUnstake ac m) = [lu_get_from_authority ac]"
| "signers_of (AddLiquidity ac n) = [al_transfer_from ac]"
| "signers_of (RemoveLiquidity ac n) = [rl_burn_from_authority ac]"
| "signers_of (SetLpParams ac a b t) = [slp_admin_authority ac]"
| "signers_of (ConfigMarinade admin p) = [admin]"
| "signers_of (OrderUnstake ac m) = [ou_burn_authority ac]"
| "signers_of (Claim ac) = []"
| "signers_of (StakeReserve ac i) = []"
| "signers_of (UpdateActive ac i j) = []"
| "signers_of (UpdateDeactivated ac i) = []"
| "signers_of (DeactivateStake ac i j) = [ds_split_stake_account ac, ds_split_stake_rent_payer ac]"
| "signers_of (EmergencyUnstake ac i j) = [eu_validator_manager_authority ac]"
| "signers_of (MergeStakes ac i j k) = []"

lemma dispatch_signers:
  "dispatch rt cx key i st w = Inr r \<Longrightarrow> \<forall>k \<in> set (signers_of i). cx_signer cx k"
  by (cases i) (auto simp: state_only_def bindR_Inr check_attributes_Inr change_authority_def
      add_validator_def remove_validator_def set_validator_score_def config_validator_system_def
      deposit_def deposit_stake_account_def liquid_unstake_def add_liquidity_def remove_liquidity_def
      set_lp_params_def config_marinade_def order_unstake_def deactivate_stake_def emergency_unstake_def)

section \<open>Instructions of the client\<close>

text \<open>The instructions that the functions above build for an instance.\<close>

inductive sdk_built :: "runtime \<Rightarrow> pubkey \<Rightarrow> state \<Rightarrow> instruction \<Rightarrow> bool" for rt key st where
  "sdk_add_liquidity rt key st a b n = Inr i \<Longrightarrow> sdk_built rt key st i"
| "sdk_remove_liquidity rt key st a b c d n = Inr i \<Longrightarrow> sdk_built rt key st i"
| "sdk_deposit rt key st a b n = Inr i \<Longrightarrow> sdk_built rt key st i"
| "sdk_liquid_unstake rt key st a b c n = Inr i \<Longrightarrow> sdk_built rt key st i"
| "sdk_order_unstake rt st a b n c = Inr i \<Longrightarrow> sdk_built rt key st i"
| "sdk_claim rt key st a b = Inr i \<Longrightarrow> sdk_built rt key st i"
| "sdk_deposit_stake_account rt key st a b c j d e = Inr i \<Longrightarrow> sdk_built rt key st i"
| "sdk_add_validator rt key st a sc b = Inr i \<Longrightarrow> sdk_built rt key st i"
| "sdk_remove_validator rt key st j a = Inr i \<Longrightarrow> sdk_built rt key st i"
| "sdk_set_validator_score st j a sc = Inr i \<Longrightarrow> sdk_built rt key st i"
| "sdk_config_validator_system st j = Inr i \<Longrightarrow> sdk_built rt key st i"
| "sdk_change_authority st ca = Inr i \<Longrightarrow> sdk_built rt key st i"
| "sdk_set_lp_params st f g n = Inr i \<Longrightarrow> sdk_built rt key st i"
| "sdk_config_marinade st p = Inr i \<Longrightarrow> sdk_built rt key st i"
| "sdk_stake_reserve rt key st j a b = Inr i \<Longrightarrow> sdk_built rt key st i"
| "sdk_deactivate_stake rt key st a b c j k = Inr i \<Longrightarrow> sdk_built rt key st i"
| "sdk_emergency_unstake rt key st a j k = Inr i \<Longrightarrow> sdk_built rt key st i"
| "sdk_merge_stakes rt key st a j b k l = Inr i \<Longrightarrow> sdk_built rt key st i"
| "sdk_update_active rt key st a j k = Inr i \<Longrightarrow> sdk_built rt key st i"
| "sdk_update_deactivated rt key st a j = Inr i \<Longrightarrow> sdk_built rt key st i"

lemmas sdk_defs = sdk_add_liquidity_def sdk_remove_liquidity_def sdk_deposit_def sdk_liquid_unstake_def
  sdk_order_unstake_def sdk_claim_def sdk_deposit_stake_account_def sdk_add_validator_def
  sdk_remove_validator_def sdk_set_validator_score_def sdk_config_validator_system_def
  sdk_change_authority_def sdk_set_lp_params_def sdk_config_marinade_def sdk_stake_reserve_def
  sdk_deactivate_stake_def sdk_emergency_unstake_def sdk_merge_stakes_def sdk_update_common_def
  sdk_update_active_def sdk_update_deactivated_def

lemma sdk_signers:
  "sdk_add_liquidity rt key st a b n = Inr i \<Longrightarrow> signers_of i = [a]"
  "sdk_remove_liquidity rt key st a b c d n = Inr i \<Longrightarrow> signers_of i = [b]"
  "sdk_deposit rt key st a b n = Inr i \<Longrightarrow> signers_of i = [a]"
  "sdk_liquid_unstake rt key st a b c n = Inr i \<Longrightarrow> signers_of i = [b]"
  "sdk_order_unstake rt st a b n c = Inr i \<Longrightarrow> signers_of i = [b]"
  "sdk_claim rt key st a b = Inr i \<Longrightarrow> signers_of i = []"
  "sdk_deposit_stake_account rt key st a b c j d e = Inr i \<Longrightarrow> signers_of i = [b, e]"
  "sdk_add_validator rt key st a sc b = Inr i \<Longrightarrow> signers_of i = [manager_authority (validator_system st), b]"
  "sdk_remove_validator rt key st j a = Inr i \<Longrightarrow> signers_of i = [manager_authority (validator_system st)]"
  "sdk_set_validator_score st j a sc = Inr i \<Longrightarrow> signers_of i = [manager_authority (validator_system st)]"
  "sdk_config_validator_system st j = Inr i \<Longrightarrow> signers_of i = [manager_authority (validator_system st)]"
  "sdk_change_authority st ca = Inr i \<Longrightarrow> signers_of i = [admin_authority st]"
  "sdk_set_lp_params st f g n = Inr i \<Longrightarrow> signers_of i = [admin_authority st]"
  "sdk_config_marinade st p = Inr i \<Longrightarrow> signers_of i = [admin_authority st]"
  "sdk_stake_reserve rt key st j a b = Inr i \<Longrightarrow> signers_of i = []"
  "sdk_deactivate_stake rt key st a b c j k = Inr i \<Longrightarrow> signers_of i = [b, c]"
  "sdk_emergency_unstake rt key st a j k = Inr i \<Longrightarrow> signers_of i = [manager_authority (validator_system st)]"
  "sdk_merge_stakes rt key st a j b k l = Inr i \<Longrightarrow> signers_of i = []"
  "sdk_update_active rt key st a j k = Inr i \<Longrightarrow> signers_of i = []"
  "sdk_update_deactivated rt key st a j = Inr i \<Longrightarrow> signers_of i = []"
  by (auto simp: sdk_defs bindR_Inr)

lemma sdk_built_own_list: "sdk_built rt key st i \<Longrightarrow> own_list st i"
  by (induction rule: sdk_built.induct) (auto simp: sdk_defs bindR_Inr)

lemma sdk_built_admin:
  "sdk_built rt key st i \<Longrightarrow> is_config i \<Longrightarrow> signers_of i = [admin_authority st]"
  by (induction rule: sdk_built.induct) (auto simp: sdk_defs bindR_Inr)

text \<open>The instructions of the validator manager.\<close>

fun is_managing :: "instruction \<Rightarrow> bool" where
  "is_managing (AddValidator ac sc) = True"
| "is_managing (RemoveValidator ac i vote) = True"
| "is_managing (SetValidatorScore manager vlist i vote sc) = True"
| "is_managing (ConfigValidatorSystem manager n) = True"
| "is_managing (EmergencyUnstake ac i j) = True"
| "is_managing _ = False"

lemma dispatch_manager:
  "dispatch rt cx key i st w = Inr r \<Longrightarrow> is_managing i \<Longrightarrow>
    hd (signers_of i) = manager_authority (validator_system st)"
  by (cases i) (auto simp: bindR_Inr add_validator_def add_validator_process_def add_validator_checks_def
      remove_validator_def remove_validator_process_def remove_validator_checks_def set_validator_score_def
      set_validator_score_process_def config_validator_system_def emergency_unstake_def
      emergency_unstake_process_def emergency_unstake_checks_def set_validator_score_checks_def Let_def
      check_validator_manager_authority_Inr)

lemma dispatch_admin:
  "dispatch rt cx key i st w = Inr r \<Longrightarrow> is_config i \<Longrightarrow> signers_of i = [admin_authority st]"
  by (cases i) (auto simp: bindR_Inr state_only_def change_authority_def change_authority_process_def
      set_lp_params_def config_marinade_def config_marinade_process_def result_simps)

lemmas sdk_accept_simps = sdk_defs bindR_Inr check_reserve_address_def check_msol_mint_def
  check_liq_pool_sol_leg_pda_def check_liq_pool_msol_leg_def check_liq_pool_msol_leg_authority_def
  check_lp_mint_def check_lp_mint_authority_def check_msol_mint_authority_def check_address_def
  check_token_mint_def check_owner_program_def

lemma sdk_deposit_accepted:
  "sdk_deposit rt key st from to n = Inr (DepositSol ac n) \<Longrightarrow>
   deposit_checks rt key ac msol tok n st w = Inr () \<longleftrightarrow>
    check_min_amount n (min_deposit st) = Inr () \<and> deposit_check_transfer_from rt ac w n = Inr ()
    \<and> tk_mint tok = msol_mint st \<and> mt_supply msol \<le> msol_supply st"
  by (auto simp: sdk_accept_simps deposit_checks_def)

lemma sdk_add_liquidity_accepted:
  "sdk_add_liquidity rt key st from to n = Inr (AddLiquidity ac n) \<Longrightarrow>
   add_liquidity_checks rt key ac lpm tok n st w = Inr () \<longleftrightarrow>
    check_min_amount n (min_deposit st) = Inr () \<and> add_liquidity_check_transfer_from rt ac w n = Inr ()
    \<and> check_liquidity_cap (liq_pool st) n (acc_lamports w (al_sol_leg ac)) = Inr ()
    \<and> tk_mint tok = lp_mint (liq_pool st) \<and> mt_supply lpm \<le> lp_supply (liq_pool st)"
  by (auto simp: sdk_accept_simps add_liquidity_checks_def)

lemma sdk_remove_liquidity_accepted:
  "sdk_remove_liquidity rt key st from authority to mto n = Inr (RemoveLiquidity ac n) \<Longrightarrow>
   remove_liquidity_checks rt key ac src tok n st w = Inr () \<longleftrightarrow>
    remove_liquidity_check_burn_from st src authority n = Inr ()
    \<and> acc_owner w to = rt_system_program rt \<and> tk_mint tok = msol_mint st"
  by (auto simp: sdk_accept_simps remove_liquidity_checks_def)

lemma sdk_order_unstake_accepted:
  "sdk_order_unstake rt st from authority n k = Inr (OrderUnstake ac n) \<Longrightarrow>
   order_unstake_checks rt ac src n st w = Inr () \<longleftrightarrow>
    acc_owner w k = ID \<and> check_burn_msol_from st src authority n = Inr ()"
  by (auto simp: sdk_accept_simps order_unstake_checks_def)

lemma sdk_liquid_unstake_accepted:
  "sdk_liquid_unstake rt key st from authority to n = Inr (LiquidUnstake ac n) \<Longrightarrow>
   liquid_unstake_checks rt key ac src n st w = Inr ready \<longleftrightarrow>
    check_get_msol_from st src authority n = Inr () \<and> acc_owner w to = rt_system_program rt
    \<and> check_treasury_msol_account rt st w (treasury_msol_account st) = Inr ready"
  by (auto simp: sdk_accept_simps liquid_unstake_checks_def)

section \<open>Properties\<close>

text \<open>
  C30. Whatever instruction succeeds was signed by everybody it concerns: by the user whose funds or
  tokens it moves and the payer of its rent, by the manager when it manages validators, and by
  the admin when it configures the instance.
\<close>
theorem instruction_needs_signers:
  assumes "dispatch rt cx key i st w = Inr (st', w')"
  shows "(\<forall>k \<in> set (signers_of i). cx_signer cx k)
    \<and> (is_managing i \<longrightarrow> cx_signer cx (manager_authority (validator_system st)))
    \<and> (is_config i \<longrightarrow> cx_signer cx (admin_authority st))"
proof -
  have "signers_of i \<noteq> []" if "is_managing i" using that by (cases i) auto
  then show ?thesis
    using dispatch_signers [OF assms] dispatch_manager [OF assms] dispatch_admin [OF assms]
    by (metis hd_in_set list.set_intros(1))
qed

text \<open>
  An instance that is only used through the client's functions keeps both lists well-formed, in
  every reachable situation: the functions always pass the program's own lists, also to
  \<open>update_active\<close>, which does not check it.
\<close>
theorem sdk_keeps_lists:
  assumes "marinade_runtime rt" and "reachable rt key (sdk_built rt key) (st, w)"
  shows "lists_ok rt st w"
  using marinade_runtime.reachable_lists_ok [OF assms] sdk_built_own_list by fastforce

text \<open>
  The accounts that the client fills in pass the checks of the handlers: a deposit, a liquid unstake
  and an order built by the client are refused in the checks only for what the user brings: the
  amount, the account the funds come from, the account they go to, the ticket account. (Besides,
  a deposit needs the mSOL supply not above the recorded one, and a liquid unstake
  needs the treasury account to be readable.)
\<close>
lemma sdk_accounts_accepted:
  assumes "sdk_deposit rt key st from to n = Inr (DepositSol dac n)"
    and "sdk_liquid_unstake rt key st from' authority to' m = Inr (LiquidUnstake lac m)"
    and "sdk_order_unstake rt st from' authority m k = Inr (OrderUnstake oac m)"
  shows "(deposit_checks rt key dac msol tok n st w = Inr () \<longleftrightarrow>
        check_min_amount n (min_deposit st) = Inr () \<and> deposit_check_transfer_from rt dac w n = Inr ()
        \<and> tk_mint tok = msol_mint st \<and> mt_supply msol \<le> msol_supply st)
    \<and> (liquid_unstake_checks rt key lac src m st w = Inr ready \<longleftrightarrow>
        check_get_msol_from st src authority m = Inr () \<and> acc_owner w to' = rt_system_program rt
        \<and> check_treasury_msol_account rt st w (treasury_msol_account st) = Inr ready)
    \<and> (order_unstake_checks rt oac src m st w = Inr () \<longleftrightarrow>
        acc_owner w k = ID \<and> check_burn_msol_from st src authority m = Inr ())"
  using sdk_deposit_accepted [OF assms(1)] sdk_liquid_unstake_accepted [OF assms(2)]
    sdk_order_unstake_accepted [OF assms(3)] by simp

section \<open>Runs\<close>

lemma instruction_needs_signers_witness:
  "\<exists>st' w'. dispatch ref_rt ex_cx ex_key (AddValidator ex_add_validator 10) ex_state ex_world_flags
      = Inr (st', w')
    \<and> cx_signer ex_cx 40 \<and> cx_signer ex_cx (manager_authority (validator_system ex_state))"
proof -
  obtain st' w' where
    r: "dispatch ref_rt ex_cx ex_key (AddValidator ex_add_validator 10) ex_state ex_world_flags = Inr (st', w')"
    by (rule ex_add_validator_runs) simp
  from instruction_needs_signers [OF r] r show ?thesis by (simp add: ex_add_validator_def)
qed

lemma sdk_keeps_lists_witness:
  "\<exists>st w i. sdk_config_validator_system st 1 = Inr i
    \<and> reachable ref_rt ex_key (sdk_built ref_rt ex_key) (execute ref_rt ex_cx ex_key i (st, w))
    \<and> lists_ok ref_rt (fst (execute ref_rt ex_cx ex_key i (st, w))) (snd (execute ref_rt ex_cx ex_key i (st, w)))"
proof -
  obtain st w where
    r: "initialize ref_rt ex_creator_cx ex_key ex_init ex_init_data ex_init_world = Inr (st, w)"
    by (rule ex_init_runs)
  have "small_lists ref_rt ex_init ex_init_world"
    by (simp add: small_lists_def ex_init_def ex_init_world_def)
  moreover have "\<forall>k. open_ticket ex_key ex_init_world k = 0"
    by (simp add: open_ticket_def ex_init_world_def)
  ultimately have i: "reachable ref_rt ex_key (sdk_built ref_rt ex_key) (st, w)"
    by (rule reachable_init [OF r])
  let ?i = "ConfigValidatorSystem (manager_authority (validator_system st)) 1"
  let ?s = "execute ref_rt ex_cx ex_key ?i (st, w)"
  have b: "sdk_config_validator_system st 1 = Inr ?i" by (simp add: sdk_config_validator_system_def)
  have reach: "reachable ref_rt ex_key (sdk_built ref_rt ex_key) (fst ?s, snd ?s)"
    using reachable_step [OF i step_instruction [of "sdk_built ref_rt ex_key" st ?i]] sdk_built.intros(11) [OF b]
    by simp
  from sdk_keeps_lists [OF ref.marinade_runtime_axioms reach] reach b show ?thesis by auto
qed

lemma sdk_accounts_accepted_witness:
  "sdk_deposit ref_rt ex_key ex_state 40 41 1000 = Inr (DepositSol ex_deposit 1000)
   \<and> (deposit_checks ref_rt ex_key ex_deposit \<lparr>mt_supply = 700001, mt_authority = None, mt_freeze = None\<rparr>
        \<lparr>tk_mint = 10, tk_owner = 41, tk_amount = 0, tk_delegate = None, tk_delegated_amount = 0\<rparr> 1000 ex_state ex_world \<noteq> Inr ())"
proof -
  have d: "sdk_deposit ref_rt ex_key ex_state 40 41 1000 = Inr (DepositSol ex_deposit 1000)"
    by (simp add: sdk_deposit_def ex_deposit_def)
  have l: "sdk_liquid_unstake ref_rt ex_key ex_state 41 40 40 1000 = Inr (LiquidUnstake
      \<lparr>lu_msol_mint = 10, lu_sol_leg = ex_sol_leg, lu_msol_leg = 11, lu_treasury = 13, lu_get_from = 41,
       lu_get_from_authority = 40, lu_transfer_to = 40, lu_system_program = 0, lu_token_program = 6\<rparr> 1000)"
    by (simp add: sdk_liquid_unstake_def)
  have o: "sdk_order_unstake ref_rt ex_state 41 40 1000 70 = Inr (OrderUnstake
      \<lparr>ou_msol_mint = 10, ou_burn_from = 41, ou_burn_authority = 40, ou_ticket = 70,
       ou_token_program = 6\<rparr> 1000)"
    by (simp add: sdk_order_unstake_def)
  show ?thesis using sdk_accounts_accepted [OF d l o] d by auto
qed

end
