(* ===== verification/TxBuilder.thy ===== *)
theory TxBuilder
  imports Solana
begin

text \<open>
  The builder of transactions that every command line tool of the repository uses
  (\<open>sdk/offchain-common/src/transaction_builder.rs\<close>, \<open>signature_builder.rs\<close>): instructions are
  collected in packs that must stay together, packs are combined greedily into transactions, and the
  signers of every instruction are known. What Solana's client libraries provide (the size of a
  serialized transaction, the keys that must sign it, the instructions of the system, token and
  associated token programs) is the parameter \<open>tx_lib\<close>.
\<close>

section \<open>Instructions and outside code\<close>

record account_meta =
  am_key :: pubkey
  am_signer :: bool
  am_writable :: bool

record tx_instruction =
  ti_program :: pubkey
  ti_accounts :: "account_meta list"
  ti_data :: bytes

definition signer_keys :: "tx_instruction \<Rightarrow> pubkey set" where
  "signer_keys i = am_key ` {a \<in> set (ti_accounts i). am_signer a}"

text \<open>
  \<open>tx_required p ins\<close> are the first \<open>num_required_signatures\<close> account keys of
  \<open>Transaction::new_with_payer(ins, Some(p))\<close>, \<open>tx_size p ins\<close> is the length of its \<open>bincode\<close>.
\<close>

record 's tx_lib =
  sig_key :: "'s \<Rightarrow> pubkey"
  tx_required :: "pubkey \<Rightarrow> tx_instruction list \<Rightarrow> pubkey list"
  tx_size :: "pubkey \<Rightarrow> tx_instruction list \<Rightarrow> nat"
  sys_transfer :: "pubkey \<Rightarrow> pubkey \<Rightarrow> u64 \<Rightarrow> tx_instruction"
  sys_create_account :: "pubkey \<Rightarrow> pubkey \<Rightarrow> u64 \<Rightarrow> nat \<Rightarrow> pubkey \<Rightarrow> tx_instruction"
  sys_create_account_with_seed ::
    "pubkey \<Rightarrow> pubkey \<Rightarrow> pubkey \<Rightarrow> string \<Rightarrow> u64 \<Rightarrow> nat \<Rightarrow> pubkey \<Rightarrow> tx_instruction"
  create_with_seed :: "pubkey \<Rightarrow> string \<Rightarrow> pubkey \<Rightarrow> pubkey option"
  spl_id :: pubkey
  spl_initialize_mint :: "pubkey \<Rightarrow> pubkey \<Rightarrow> pubkey option \<Rightarrow> nat \<Rightarrow> tx_instruction option"
  spl_initialize_account :: "pubkey \<Rightarrow> pubkey \<Rightarrow> pubkey \<Rightarrow> tx_instruction option"
  ata_address :: "pubkey \<Rightarrow> pubkey \<Rightarrow> pubkey"
  ata_create :: "pubkey \<Rightarrow> pubkey \<Rightarrow> pubkey \<Rightarrow> tx_instruction"
  packet_data_size :: nat
  mint_len :: nat
  token_account_len :: nat

section \<open>Signers\<close>

type_synonym 's signature_builder = "pubkey \<Rightarrow> 's option"

definition sb_add_signer :: "'s tx_lib \<Rightarrow> 's \<Rightarrow> 's signature_builder \<Rightarrow> 's signature_builder" where
  "sb_add_signer L s sb = sb(sig_key L s \<mapsto> s)"

definition sb_contains_key :: "'s signature_builder \<Rightarrow> pubkey \<Rightarrow> bool" where
  "sb_contains_key sb k = (case sb k of None \<Rightarrow> False | Some _ \<Rightarrow> True)"

text \<open>The iterator stops at the first key without a signer and returns that key.\<close>

fun signers_for_keys :: "'s signature_builder \<Rightarrow> pubkey list \<Rightarrow> pubkey + 's list" where
  "signers_for_keys sb [] = Inr []"
| "signers_for_keys sb (k # ks) = bindR (ok_or (sb k) k) (\<lambda>s.
     bindR (signers_for_keys sb ks) (\<lambda>ss. Inr (s # ss)))"

section \<open>The builder\<close>

datatype build_error = UnknownSigner pubkey | TooBigTransaction | BuilderPanic

type_synonym pack = "(tx_instruction \<times> string) list"

record 's tx_builder =
  fee_payer :: pubkey
  signature_builder :: "'s signature_builder"
  instruction_packs :: "pack list"
  current_pack :: "pack option"
  max_transaction_size :: nat

record transaction =
  tx_payer :: pubkey
  tx_instructions :: "tx_instruction list"

record 's prepared_transaction =
  prep_transaction :: transaction
  prep_signers :: "'s list"
  prep_descriptions :: "string list"

text \<open>A method takes \<open>&mut self\<close>: the builder is changed whether it returns an error or not.\<close>

type_synonym ('s, 'a) build = "'s tx_builder \<Rightarrow> (build_error + 'a) \<times> 's tx_builder"

definition thenB ::
  "('b \<Rightarrow> ('e + 'a) \<times> 'b) \<Rightarrow> ('a \<Rightarrow> 'b \<Rightarrow> ('e + 'c) \<times> 'b) \<Rightarrow> 'b \<Rightarrow> ('e + 'c) \<times> 'b" where
  "thenB m f b = (case m b of (Inl e, b') \<Rightarrow> (Inl e, b') | (Inr x, b') \<Rightarrow> f x b')"

definition builder_new :: "'s tx_lib \<Rightarrow> 's \<Rightarrow> nat \<Rightarrow> 's tx_builder" where
  "builder_new L payer n = \<lparr>fee_payer = sig_key L payer,
     signature_builder = sb_add_signer L payer (\<lambda>_. None), instruction_packs = [],
     current_pack = None, max_transaction_size = n\<rparr>"

definition builder_limited :: "'s tx_lib \<Rightarrow> 's \<Rightarrow> 's tx_builder" where
  "builder_limited L payer = builder_new L payer (packet_data_size L)"

definition builder_unlimited :: "'s tx_lib \<Rightarrow> 's \<Rightarrow> 's tx_builder" where
  "builder_unlimited L payer = builder_new L payer 0"

definition add_signer :: "'s tx_lib \<Rightarrow> 's \<Rightarrow> 's tx_builder \<Rightarrow> 's tx_builder" where
  "add_signer L s b = b\<lparr>signature_builder := sb_add_signer L s (signature_builder b)\<rparr>"

fun check_meta_signers :: "'s signature_builder \<Rightarrow> account_meta list \<Rightarrow> build_error + unit" where
  "check_meta_signers sb [] = Inr ()"
| "check_meta_signers sb (a # as) =
     (if am_signer a \<and> \<not> sb_contains_key sb (am_key a) then Inl (UnknownSigner (am_key a))
      else check_meta_signers sb as)"

definition check_signers :: "'s tx_builder \<Rightarrow> tx_instruction \<Rightarrow> build_error + unit" where
  "check_signers b i = check_meta_signers (signature_builder b) (ti_accounts i)"

definition begin_pack :: "('s, unit) build" where
  "begin_pack b = (case current_pack b of None \<Rightarrow> (Inr (), b\<lparr>current_pack := Some []\<rparr>)
     | Some _ \<Rightarrow> (Inl BuilderPanic, b))"

definition commit_pack :: "('s, unit) build" where
  "commit_pack b = (case current_pack b of None \<Rightarrow> (Inl BuilderPanic, b)
     | Some p \<Rightarrow> (Inr (), b\<lparr>instruction_packs := instruction_packs b @ [p], current_pack := None\<rparr>))"

definition rollback_pack :: "('s, unit) build" where
  "rollback_pack b = (case current_pack b of None \<Rightarrow> (Inl BuilderPanic, b)
     | Some _ \<Rightarrow> (Inr (), b\<lparr>current_pack := None\<rparr>))"

definition inside_transaction :: "'s tx_builder \<Rightarrow> bool" where
  "inside_transaction b \<longleftrightarrow> current_pack b \<noteq> None"

definition builder_is_empty :: "'s tx_builder \<Rightarrow> bool" where
  "builder_is_empty b \<longleftrightarrow> (case current_pack b of Some p \<Rightarrow> p = [] | None \<Rightarrow> True)
     \<and> instruction_packs b = []"

text \<open>
  \<open>begin\<close>, \<open>m\<close>, then \<open>commit\<close>, or \<open>rollback\<close> when \<open>m\<close> fails; inside an open pack just \<open>m\<close>.
\<close>

definition in_pack :: "('s, 'a) build \<Rightarrow> ('s, 'a) build" where
  "in_pack m b =
     (if inside_transaction b then m b
      else thenB begin_pack (\<lambda>_ b1.
        (case m b1 of
           (Inl e, b2) \<Rightarrow> (Inl e, snd (rollback_pack b2))
         | (Inr x, b2) \<Rightarrow> thenB commit_pack (\<lambda>_ b3. (Inr x, b3)) b2)) b)"

text \<open>Push onto the open pack; when the transaction gets too big, pop again.\<close>

definition push_instruction :: "'s tx_lib \<Rightarrow> tx_instruction \<Rightarrow> string \<Rightarrow> ('s, unit) build" where
  "push_instruction L i description b =
     (case current_pack b of
        None \<Rightarrow> (Inl BuilderPanic, b)
      | Some current \<Rightarrow>
          let pushed = current @ [(i, description)] in
          if max_transaction_size b > 0
            \<and> tx_size L (fee_payer b) (map fst pushed) > max_transaction_size b
          then (Inl TooBigTransaction, b\<lparr>current_pack := Some (butlast pushed)\<rparr>)
          else (Inr (), b\<lparr>current_pack := Some pushed\<rparr>))"

definition add_instruction :: "'s tx_lib \<Rightarrow> tx_instruction \<Rightarrow> string \<Rightarrow> ('s, unit) build" where
  "add_instruction L i description b =
     (case check_signers b i of
        Inl e \<Rightarrow> (Inl e, b)
      | Inr _ \<Rightarrow> in_pack (push_instruction L i description) b)"

section \<open>Building transactions\<close>

definition prepared_new ::
  "'s signature_builder \<Rightarrow> 's tx_lib \<Rightarrow> transaction \<Rightarrow> string list \<Rightarrow> pubkey + 's prepared_transaction"
where
  "prepared_new sb L tx descriptions =
     bindR (signers_for_keys sb (tx_required L (tx_payer tx) (tx_instructions tx))) (\<lambda>ss.
     Inr \<lparr>prep_transaction = tx, prep_signers = ss, prep_descriptions = descriptions\<rparr>)"

definition prepare ::
  "'s tx_lib \<Rightarrow> tx_instruction list \<Rightarrow> string list \<Rightarrow> ('s, 's prepared_transaction option) build" where
  "prepare L ins descriptions b =
     (case prepared_new (signature_builder b) L \<lparr>tx_payer = fee_payer b, tx_instructions = ins\<rparr> descriptions of
        Inl _ \<Rightarrow> (Inl BuilderPanic, b)
      | Inr p \<Rightarrow> (Inr (Some p), b))"

definition no_open_pack :: "'s tx_builder \<Rightarrow> bool" where
  "no_open_pack b \<longleftrightarrow> (case current_pack b of None \<Rightarrow> True | Some p \<Rightarrow> p = [])"

definition build_next :: "'s tx_lib \<Rightarrow> ('s, 's prepared_transaction option) build" where
  "build_next L b =
     (if \<not> no_open_pack b then (Inl BuilderPanic, b)
      else case instruction_packs b of
             [] \<Rightarrow> (Inr None, b)
           | p # ps \<Rightarrow> prepare L (map fst p) (map snd p) (b\<lparr>instruction_packs := ps\<rparr>))"

definition build_one :: "'s tx_lib \<Rightarrow> ('s, 's prepared_transaction) build" where
  "build_one L = thenB (build_next L) (\<lambda>t b. case t of
       None \<Rightarrow> (Inl BuilderPanic, b)
     | Some p \<Rightarrow> if instruction_packs b = [] then (Inr p, b) else (Inl BuilderPanic, b))"

text \<open>
  The \<open>while let\<close> loop: what the transaction contains, the descriptions, the packs that are left.
  The descriptions of the next pack are added before it is known whether the pack fits.
\<close>

fun combine_loop ::
  "(tx_instruction list \<Rightarrow> nat) \<Rightarrow> nat \<Rightarrow> tx_instruction list \<Rightarrow> string list \<Rightarrow> pack list
    \<Rightarrow> tx_instruction list \<times> string list \<times> pack list" where
  "combine_loop sz n ins descriptions [] = (ins, descriptions, [])"
| "combine_loop sz n ins descriptions (p # ps) =
     (if sz (ins @ map fst p) \<le> n
      then combine_loop sz n (ins @ map fst p) (descriptions @ map snd p) ps
      else (ins, descriptions @ map snd p, p # ps))"

definition build_next_combined :: "'s tx_lib \<Rightarrow> ('s, 's prepared_transaction option) build" where
  "build_next_combined L b =
     (if \<not> no_open_pack b then (Inl BuilderPanic, b)
      else case instruction_packs b of
        [] \<Rightarrow> (Inr None, b)
      | p # ps \<Rightarrow>
          if max_transaction_size b = 0
          then prepare L (map fst (concat (p # ps))) (map snd (concat (p # ps)))
                 (b\<lparr>instruction_packs := []\<rparr>)
          else case combine_loop (tx_size L (fee_payer b)) (max_transaction_size b)
                 (map fst p) (map snd p) ps of
            (ins, descriptions, rest) \<Rightarrow>
              prepare L ins descriptions (b\<lparr>instruction_packs := rest\<rparr>))"

definition build_one_combined :: "'s tx_lib \<Rightarrow> ('s, 's prepared_transaction option) build" where
  "build_one_combined L = thenB (build_next_combined L) (\<lambda>t b. case t of
       None \<Rightarrow> (Inr None, b)
     | Some p \<Rightarrow> if builder_is_empty b then (Inr (Some p), b) else (Inl BuilderPanic, b))"

text \<open>
  Running through the iterator \<open>CombinedSequence\<close> calls \<open>build_next_combined\<close> until it returns
  nothing; \<open>n\<close> bounds the number of calls.
\<close>

fun combined_sequence :: "nat \<Rightarrow> 's tx_lib \<Rightarrow> ('s, 's prepared_transaction list option) build" where
  "combined_sequence 0 L b = (Inr None, b)"
| "combined_sequence (Suc n) L b = thenB (build_next_combined L) (\<lambda>t. case t of
       None \<Rightarrow> (\<lambda>b. (Inr (Some []), b))
     | Some p \<Rightarrow> thenB (combined_sequence n L) (\<lambda>ts b. (Inr (map_option ((#) p) ts), b))) b"

definition fit_into_single_transaction :: "'s tx_lib \<Rightarrow> 's tx_builder \<Rightarrow> bool" where
  "fit_into_single_transaction L b \<longleftrightarrow>
     tx_size L (fee_payer b) (map fst (concat (instruction_packs b))
       @ (case current_pack b of None \<Rightarrow> [] | Some p \<Rightarrow> map fst p)) \<le> max_transaction_size b"

section \<open>Common instructions\<close>

text \<open>The descriptions, formatted from the arguments, are passed as \<open>d\<close>.\<close>

definition transfer_lamports ::
  "'s tx_lib \<Rightarrow> 's \<Rightarrow> pubkey \<Rightarrow> u64 \<Rightarrow> string \<Rightarrow> ('s, unit) build" where
  "transfer_lamports L source target amount d b =
     add_instruction L (sys_transfer L (sig_key L source) target amount) d (add_signer L source b)"

definition create_account_tx ::
  "'s tx_lib \<Rightarrow> 's \<Rightarrow> nat \<Rightarrow> pubkey \<Rightarrow> (nat \<Rightarrow> u64) \<Rightarrow> string \<Rightarrow> ('s, unit) build" where
  "create_account_tx L account space owner rent d b =
     add_instruction L (sys_create_account L (fee_payer b) (sig_key L account) (rent space) space owner) d
       (add_signer L account b)"

definition create_account_with_seed ::
  "'s tx_lib \<Rightarrow> 's \<Rightarrow> string \<Rightarrow> nat \<Rightarrow> pubkey \<Rightarrow> (nat \<Rightarrow> u64) \<Rightarrow> string \<Rightarrow> ('s, pubkey) build" where
  "create_account_with_seed L base seed space owner rent d b =
     (case create_with_seed L (sig_key L base) seed owner of
        None \<Rightarrow> (Inl BuilderPanic, b)
      | Some account \<Rightarrow>
          thenB (add_instruction L (sys_create_account_with_seed L (fee_payer b) account (sig_key L base)
                   seed (rent space) space owner) d) (\<lambda>_ b'. (Inr account, b')) b)"

text \<open>\<open>unwrap\<close> of an instruction that a library call builds.\<close>

definition add_built :: "'s tx_lib \<Rightarrow> tx_instruction option \<Rightarrow> string \<Rightarrow> ('s, unit) build" where
  "add_built L i d b = (case i of None \<Rightarrow> (Inl BuilderPanic, b) | Some j \<Rightarrow> add_instruction L j d b)"

definition create_mint_account ::
  "'s tx_lib \<Rightarrow> 's \<Rightarrow> pubkey \<Rightarrow> pubkey option \<Rightarrow> (nat \<Rightarrow> u64) \<Rightarrow> string \<Rightarrow> string \<Rightarrow> ('s, unit) build" where
  "create_mint_account L account mint_authority freeze_authority rent d1 d2 =
     in_pack (thenB (create_account_tx L account (mint_len L) (spl_id L) rent d1) (\<lambda>_.
       add_built L (spl_initialize_mint L (sig_key L account) mint_authority freeze_authority 9) d2))"

definition create_token_account ::
  "'s tx_lib \<Rightarrow> 's \<Rightarrow> pubkey \<Rightarrow> pubkey \<Rightarrow> (nat \<Rightarrow> u64) \<Rightarrow> string \<Rightarrow> string \<Rightarrow> ('s, unit) build" where
  "create_token_account L account mint authority rent d1 d2 =
     in_pack (thenB (create_account_tx L account (token_account_len L) (spl_id L) rent d1) (\<lambda>_.
       add_built L (spl_initialize_account L (sig_key L account) mint authority) d2))"

definition create_token_account_with_seed ::
  "'s tx_lib \<Rightarrow> 's \<Rightarrow> string \<Rightarrow> pubkey \<Rightarrow> pubkey \<Rightarrow> (nat \<Rightarrow> u64) \<Rightarrow> string \<Rightarrow> string \<Rightarrow> ('s, pubkey) build"
where
  "create_token_account_with_seed L base seed mint authority rent d1 d2 =
     in_pack (thenB (create_account_with_seed L base seed (token_account_len L) (spl_id L) rent d1) (\<lambda>account.
       thenB (add_built L (spl_initialize_account L account mint authority) d2) (\<lambda>_ b. (Inr account, b))))"

definition create_associated_token_account ::
  "'s tx_lib \<Rightarrow> pubkey \<Rightarrow> pubkey \<Rightarrow> string \<Rightarrow> ('s, pubkey) build" where
  "create_associated_token_account L wallet mint d b =
     thenB (add_instruction L (ata_create L (fee_payer b) wallet mint) d)
       (\<lambda>_ b'. (Inr (ata_address L wallet mint), b')) b"

section \<open>What the client libraries promise\<close>

text \<open>
  A message is signed by its payer and by every account that an instruction names as a signer;
  more instructions never make a transaction smaller. The instructions that create accounts are
  signed by the payer and by the new account (or by the base its address is derived from).
\<close>

locale client_library =
  fixes L :: "'s tx_lib"
  assumes required: "set (tx_required L p ins) = insert p (\<Union>i \<in> set ins. signer_keys i)"
begin

lemma required_known:
  assumes "sb p \<noteq> None" and "\<forall>i \<in> set ins. \<forall>k \<in> signer_keys i. sb k \<noteq> None"
  shows "\<forall>k \<in> set (tx_required L p ins). sb k \<noteq> None"
  using assms by (auto simp: required)

end

section \<open>Signers are known\<close>

lemma sb_contains_key_iff [simp]: "sb_contains_key sb k \<longleftrightarrow> sb k \<noteq> None"
  by (auto simp: sb_contains_key_def split: option.splits)

lemma check_meta_signers_Inr:
  "check_meta_signers sb as = Inr u \<longleftrightarrow> (\<forall>a \<in> set as. am_signer a \<longrightarrow> sb (am_key a) \<noteq> None)"
  by (induction as) auto

lemma check_signers_Inr:
  "check_signers b i = Inr u \<longleftrightarrow> (\<forall>k \<in> signer_keys i. signature_builder b k \<noteq> None)"
  by (auto simp: check_signers_def check_meta_signers_Inr signer_keys_def)

lemma check_meta_signers_Inl:
  "check_meta_signers sb as = Inl e \<Longrightarrow> \<exists>a \<in> set as. am_signer a \<and> sb (am_key a) = None \<and> e = UnknownSigner (am_key a)"
  by (induction as) (auto split: if_splits)

lemma signers_for_keys_Inr:
  "signers_for_keys sb ks = Inr ss \<longleftrightarrow> map sb ks = map Some ss"
proof (induction ks arbitrary: ss)
  case (Cons k ks)
  then show ?case by (cases ss) (auto simp: bindR_Inr result_simps)
qed auto

lemma signers_for_keys_ok:
  assumes "\<forall>k \<in> set ks. sb k \<noteq> None"
  shows "signers_for_keys sb ks = Inr (map (the \<circ> sb) ks)"
  using assms by (auto simp: signers_for_keys_Inr)

section \<open>The invariant\<close>

text \<open>
  Every signer sits under its own key, the payer and all signers of all collected instructions are
  known, and every pack fits a transaction.
\<close>

definition instructions_known :: "'s signature_builder \<Rightarrow> tx_instruction list \<Rightarrow> bool" where
  "instructions_known sb ins \<longleftrightarrow> (\<forall>i \<in> set ins. \<forall>k \<in> signer_keys i. sb k \<noteq> None)"

definition pack_fits :: "'s tx_lib \<Rightarrow> 's tx_builder \<Rightarrow> pack \<Rightarrow> bool" where
  "pack_fits L b p \<longleftrightarrow> max_transaction_size b = 0
     \<or> tx_size L (fee_payer b) (map fst p) \<le> max_transaction_size b"

definition pack_ok :: "'s tx_lib \<Rightarrow> 's tx_builder \<Rightarrow> pack \<Rightarrow> bool" where
  "pack_ok L b p \<longleftrightarrow> pack_fits L b p \<and> instructions_known (signature_builder b) (map fst p)"

definition builder_ok :: "'s tx_lib \<Rightarrow> 's tx_builder \<Rightarrow> bool" where
  "builder_ok L b \<longleftrightarrow> signature_builder b (fee_payer b) \<noteq> None
     \<and> (\<forall>k s. signature_builder b k = Some s \<longrightarrow> sig_key L s = k)
     \<and> pack_ok L b []
     \<and> (\<forall>p \<in> set (instruction_packs b). pack_ok L b p)
     \<and> (\<forall>p. current_pack b = Some p \<longrightarrow> pack_ok L b p)"

lemma instructions_known_append [simp]:
  "instructions_known sb (xs @ ys) \<longleftrightarrow> instructions_known sb xs \<and> instructions_known sb ys"
  by (auto simp: instructions_known_def)

lemma instructions_known_Nil [simp]: "instructions_known sb []"
  by (simp add: instructions_known_def)

lemma builder_new_ok:
  "n = 0 \<or> tx_size L (sig_key L payer) [] \<le> n \<Longrightarrow> builder_ok L (builder_new L payer n)"
  by (auto simp: builder_ok_def builder_new_def sb_add_signer_def pack_ok_def pack_fits_def)

lemma add_signer_known:
  "instructions_known sb ins \<Longrightarrow> instructions_known (sb_add_signer L s sb) ins"
  by (auto simp: instructions_known_def sb_add_signer_def)

lemma add_signer_ok: "builder_ok L b \<Longrightarrow> builder_ok L (add_signer L s b)"
  by (auto simp: builder_ok_def add_signer_def pack_ok_def pack_fits_def add_signer_known)
    (auto simp: sb_add_signer_def split: if_splits)

text \<open>Computations that keep the invariant; they may also open or close packs.\<close>

definition keeps :: "'s tx_lib \<Rightarrow> ('s, 'a) build \<Rightarrow> bool" where
  "keeps L m \<longleftrightarrow> (\<forall>b r b'. builder_ok L b \<longrightarrow> m b = (r, b') \<longrightarrow> builder_ok L b')"

lemma keepsI: "(\<And>b r b'. builder_ok L b \<Longrightarrow> m b = (r, b') \<Longrightarrow> builder_ok L b') \<Longrightarrow> keeps L m"
  by (simp add: keeps_def)

lemma keepsD: "keeps L m \<Longrightarrow> builder_ok L b \<Longrightarrow> m b = (r, b') \<Longrightarrow> builder_ok L b'"
  by (auto simp: keeps_def)

lemma keeps_thenB:
  assumes m: "keeps L m" and f: "\<And>x. keeps L (f x)"
  shows "keeps L (thenB m f)"
proof (rule keepsI)
  fix b r b' assume ok: "builder_ok L b" and run: "thenB m f b = (r, b')"
  obtain r1 b1 where r1: "m b = (r1, b1)" by (cases "m b")
  have ok1: "builder_ok L b1" by (rule keepsD [OF m ok r1])
  show "builder_ok L b'"
  proof (cases r1)
    case (Inl e)
    then show ?thesis using run r1 ok1 by (simp add: thenB_def)
  next
    case (Inr x)
    then show ?thesis using keepsD [OF f ok1] run r1 by (simp add: thenB_def)
  qed
qed

lemma keeps_return: "keeps L (\<lambda>b. (r, b))"
  by (simp add: keeps_def)

lemma pack_ok_upd [simp]:
  "pack_ok L (b\<lparr>instruction_packs := ps\<rparr>) p = pack_ok L b p"
  "pack_ok L (b\<lparr>current_pack := c\<rparr>) p = pack_ok L b p"
  by (simp_all add: pack_ok_def pack_fits_def)

lemma keeps_begin: "keeps L begin_pack"
  by (rule keepsI) (auto simp: begin_pack_def builder_ok_def split: option.splits)

lemma keeps_commit: "keeps L commit_pack"
  by (rule keepsI) (auto simp: commit_pack_def builder_ok_def split: option.splits)

lemma keeps_rollback: "keeps L rollback_pack"
  by (rule keepsI) (auto simp: rollback_pack_def builder_ok_def split: option.splits)

lemma in_pack_ok:
  assumes ok: "builder_ok L b" and run: "in_pack m b = (r, b')"
    and m: "\<And>c r b2. builder_ok L (b\<lparr>current_pack := c\<rparr>) \<Longrightarrow> m (b\<lparr>current_pack := c\<rparr>) = (r, b2)
      \<Longrightarrow> builder_ok L b2"
  shows "builder_ok L b'"
proof (cases "inside_transaction b")
  case True
  then show ?thesis using m [of "current_pack b" r b'] ok run by (simp add: in_pack_def)
next
  case False
  let ?b1 = "b\<lparr>current_pack := Some []\<rparr>"
  have beg: "begin_pack b = (Inr (), ?b1)"
    using False by (simp add: begin_pack_def inside_transaction_def)
  obtain r2 b2 where r2: "m ?b1 = (r2, b2)" by (cases "m ?b1")
  have ok2: "builder_ok L b2" using m [OF keepsD [OF keeps_begin ok beg] r2] .
  show ?thesis
  proof (cases r2)
    case (Inl e)
    then have "b' = snd (rollback_pack b2)"
      using run False r2 beg by (simp add: in_pack_def thenB_def)
    then show ?thesis using keepsD [OF keeps_rollback ok2, of "fst (rollback_pack b2)" b'] by simp
  next
    case (Inr x)
    obtain r3 b3 where c: "commit_pack b2 = (r3, b3)" by (cases "commit_pack b2")
    then have "b' = b3"
      using run False r2 beg Inr by (auto simp: in_pack_def thenB_def split: sum.splits)
    then show ?thesis using keepsD [OF keeps_commit ok2 c] by simp
  qed
qed

lemma keeps_in_pack: "keeps L m \<Longrightarrow> keeps L (in_pack m)"
  by (rule keepsI) (erule (1) in_pack_ok, rule keepsD)

lemma pushed_pack_ok:
  assumes ok: "builder_ok L b" and known: "instructions_known (signature_builder b) [i]"
    and run: "push_instruction L i d b = (r, b')"
  shows "builder_ok L b'"
proof (cases "current_pack b")
  case None
  then show ?thesis using ok run by (simp add: push_instruction_def)
next
  case (Some c)
  have c: "pack_ok L b c" using ok Some by (simp add: builder_ok_def)
  show ?thesis
  proof (cases "max_transaction_size b > 0
      \<and> tx_size L (fee_payer b) (map fst (c @ [(i, d)])) > max_transaction_size b")
    case True
    then have "b' = b\<lparr>current_pack := current_pack b\<rparr>" using run Some
      by (simp add: push_instruction_def)
    then show ?thesis using ok by simp
  next
    case False
    then have b': "b' = b\<lparr>current_pack := Some (c @ [(i, d)])\<rparr>"
      using run Some by (auto simp: push_instruction_def Let_def split: if_splits)
    have "pack_ok L b (c @ [(i, d)])"
      using c known False by (simp add: pack_ok_def pack_fits_def not_less)
    then show ?thesis using ok by (simp add: b' builder_ok_def)
  qed
qed

lemma keeps_add_instruction: "keeps L (add_instruction L i d)"
proof (rule keepsI)
  fix b r b' assume ok: "builder_ok L b" and run: "add_instruction L i d b = (r, b')"
  show "builder_ok L b'"
  proof (cases "check_signers b i")
    case (Inl e)
    then show ?thesis using ok run by (simp add: add_instruction_def)
  next
    case (Inr u)
    then have known: "instructions_known (signature_builder b) [i]"
      by (simp add: check_signers_Inr instructions_known_def)
    show ?thesis
    proof (rule in_pack_ok [OF ok])
      show "in_pack (push_instruction L i d) b = (r, b')" using run Inr by (simp add: add_instruction_def)
      show "builder_ok L b2" if "builder_ok L (b\<lparr>current_pack := c\<rparr>)"
        "push_instruction L i d (b\<lparr>current_pack := c\<rparr>) = (r, b2)" for c r b2
        using pushed_pack_ok [OF that(1) _ that(2)] known by simp
    qed
  qed
qed

lemma keeps_add_built: "keeps L (add_built L i d)"
proof (rule keepsI)
  fix b r b' assume "builder_ok L b" and "add_built L i d b = (r, b')"
  then show "builder_ok L b'"
    using keepsD [OF keeps_add_instruction] by (cases i) (auto simp: add_built_def)
qed

lemma keeps_transfer: "keeps L (transfer_lamports L s t n d)"
  by (rule keepsI) (metis add_signer_ok keepsD keeps_add_instruction transfer_lamports_def)

lemma keeps_create_account: "keeps L (create_account_tx L s n ow rent d)"
  by (rule keepsI) (metis add_signer_ok keepsD keeps_add_instruction create_account_tx_def)

lemma keeps_create_account_with_seed: "keeps L (create_account_with_seed L s seed n ow rent d)"
proof (rule keepsI)
  fix b r b' assume ok: "builder_ok L b" and run: "create_account_with_seed L s seed n ow rent d b = (r, b')"
  show "builder_ok L b'"
  proof (cases "create_with_seed L (sig_key L s) seed ow")
    case None
    then show ?thesis using ok run by (simp add: create_account_with_seed_def)
  next
    case (Some k)
    show ?thesis
      using keepsD [OF keeps_thenB [OF keeps_add_instruction keeps_return] ok] run Some
      by (auto simp: create_account_with_seed_def)
  qed
qed

lemma keeps_create_mint: "keeps L (create_mint_account L s a f rent d1 d2)"
  unfolding create_mint_account_def
  by (intro keeps_in_pack keeps_thenB keeps_create_account keeps_add_built)

lemma keeps_create_token: "keeps L (create_token_account L s m a rent d1 d2)"
  unfolding create_token_account_def
  by (intro keeps_in_pack keeps_thenB keeps_create_account keeps_add_built)

lemma keeps_create_token_with_seed: "keeps L (create_token_account_with_seed L s seed m a rent d1 d2)"
  unfolding create_token_account_with_seed_def
  by (intro keeps_in_pack keeps_thenB keeps_create_account_with_seed keeps_add_built keeps_return)

lemma keeps_create_ata: "keeps L (create_associated_token_account L k m d)"
proof (rule keepsI)
  fix b r b' assume "builder_ok L b" and "create_associated_token_account L k m d b = (r, b')"
  then show "builder_ok L b'"
    using keepsD [OF keeps_thenB [OF keeps_add_instruction keeps_return]]
    by (auto simp: create_associated_token_account_def)
qed

lemma prepare_keeps: "prepare L ins ds b = (r, b') \<Longrightarrow> b' = b"
  by (auto simp: prepare_def split: sum.splits)

lemma ok_fewer_packs:
  "builder_ok L b \<Longrightarrow> set ps \<subseteq> set (instruction_packs b) \<Longrightarrow> builder_ok L (b\<lparr>instruction_packs := ps\<rparr>)"
  by (auto simp: builder_ok_def)

lemma keeps_build_next: "keeps L (build_next L)"
proof (rule keepsI)
  fix b r b' assume ok: "builder_ok L b" and run: "build_next L b = (r, b')"
  show "builder_ok L b'"
  proof (cases "instruction_packs b")
    case Nil
    then show ?thesis using ok run by (simp add: build_next_def split: if_splits)
  next
    case (Cons p ps)
    then have "b' = b \<or> b' = b\<lparr>instruction_packs := ps\<rparr>"
      using run by (auto simp: build_next_def split: if_splits dest: prepare_keeps)
    then show ?thesis using ok ok_fewer_packs [OF ok, of ps] Cons by auto
  qed
qed

section \<open>Combining packs\<close>

lemma combine_loop_split:
  assumes "combine_loop sz n ins ds ps = (tx, ds', rest)"
  obtains qs where "ps = qs @ rest" and "tx = ins @ map fst (concat qs)"
    and "sz ins \<le> n \<Longrightarrow> sz tx \<le> n"
    and "rest = [] \<Longrightarrow> ds' = ds @ map snd (concat qs)"
    and "rest \<noteq> [] \<Longrightarrow> \<not> sz (tx @ map fst (hd rest)) \<le> n
      \<and> ds' = ds @ map snd (concat qs) @ map snd (hd rest)"
  using assms
proof (induction ps arbitrary: ins ds thesis)
  case Nil
  then show ?case by simp
next
  case (Cons p ps)
  show ?case
  proof (cases "sz (ins @ map fst p) \<le> n")
    case True
    with Cons.prems(2) have "combine_loop sz n (ins @ map fst p) (ds @ map snd p) ps = (tx, ds', rest)"
      by simp
    from Cons.IH [OF _ this] obtain qs where "ps = qs @ rest"
      "tx = (ins @ map fst p) @ map fst (concat qs)" "sz (ins @ map fst p) \<le> n \<Longrightarrow> sz tx \<le> n"
      "rest = [] \<Longrightarrow> ds' = (ds @ map snd p) @ map snd (concat qs)"
      "rest \<noteq> [] \<Longrightarrow> \<not> sz (tx @ map fst (hd rest)) \<le> n
        \<and> ds' = (ds @ map snd p) @ map snd (concat qs) @ map snd (hd rest)"
      by blast
    with True show ?thesis by (intro Cons.prems(1) [of "p # qs"]) auto
  next
    case False
    then show ?thesis using Cons.prems(2) by (intro Cons.prems(1) [of "[]"]) auto
  qed
qed

text \<open>The reference: fill a transaction with packs as long as they fit, then start the next one.\<close>

fun fill :: "('i list \<Rightarrow> bool) \<Rightarrow> 'i list \<Rightarrow> 'i list list \<Rightarrow> 'i list \<times> 'i list list" where
  "fill fits acc [] = (acc, [])"
| "fill fits acc (p # ps) = (if fits (acc @ p) then fill fits (acc @ p) ps else (acc, p # ps))"

lemma fill_length: "length (snd (fill fits acc ps)) \<le> length ps"
  by (induction fits acc ps rule: fill.induct) auto

function greedy :: "('i list \<Rightarrow> bool) \<Rightarrow> 'i list list \<Rightarrow> 'i list list" where
  "greedy fits [] = []"
| "greedy fits (p # ps) = fst (fill fits p ps) # greedy fits (snd (fill fits p ps))"
  by pat_completeness auto
termination
  by (relation "measure (length \<circ> snd)") (auto simp: fill_length less_Suc_eq_le)

lemma fill_split:
  assumes "fill fits acc ps = (t, rest)"
  obtains qs where "ps = qs @ rest" and "t = acc @ concat qs" and "fits acc \<Longrightarrow> fits t"
    and "rest \<noteq> [] \<Longrightarrow> \<not> fits (t @ hd rest)"
  using assms
proof (induction ps arbitrary: acc thesis)
  case Nil
  then show ?case by simp
next
  case (Cons p ps)
  show ?case
  proof (cases "fits (acc @ p)")
    case True
    with Cons.prems(2) have "fill fits (acc @ p) ps = (t, rest)" by simp
    from Cons.IH [OF _ this] obtain qs where "ps = qs @ rest" "t = (acc @ p) @ concat qs"
      "fits (acc @ p) \<Longrightarrow> fits t" "rest \<noteq> [] \<Longrightarrow> \<not> fits (t @ hd rest)" by blast
    with True show ?thesis by (intro Cons.prems(1) [of "p # qs"]) auto
  next
    case False
    then show ?thesis using Cons.prems(2) by (intro Cons.prems(1) [of "[]"]) auto
  qed
qed

lemma greedy_split:
  assumes "ps \<noteq> []"
  obtains qs rest where "ps = qs @ rest" and "qs \<noteq> []" and "greedy fits ps = concat qs # greedy fits rest"
    and "fits (hd ps) \<Longrightarrow> fits (concat qs)" and "rest \<noteq> [] \<Longrightarrow> \<not> fits (concat qs @ hd rest)"
proof -
  obtain p ps' where ps: "ps = p # ps'" using assms by (cases ps) auto
  obtain t rest where f: "fill fits p ps' = (t, rest)" by (cases "fill fits p ps'")
  from fill_split [OF f] obtain qs where "ps' = qs @ rest" "t = p @ concat qs"
    "fits p \<Longrightarrow> fits t" "rest \<noteq> [] \<Longrightarrow> \<not> fits (t @ hd rest)" by metis
  with ps f show thesis by (intro that [of "p # qs" rest]) auto
qed

lemma greedy_concat: "concat (greedy fits ps) = concat ps"
proof (induction fits ps rule: greedy.induct)
  case (2 fits p ps)
  obtain t rest where f: "fill fits p ps = (t, rest)" by (cases "fill fits p ps")
  from fill_split [OF f] obtain qs where "ps = qs @ rest" "t = p @ concat qs" by metis
  with f 2 show ?case by simp
qed simp

lemma greedy_fits: "\<forall>p \<in> set ps. fits p \<Longrightarrow> \<forall>t \<in> set (greedy fits ps). fits t"
proof (induction fits ps rule: greedy.induct)
  case (2 fits p ps)
  obtain t rest where f: "fill fits p ps = (t, rest)" by (cases "fill fits p ps")
  from fill_split [OF f] obtain qs where "ps = qs @ rest" "fits p \<Longrightarrow> fits t" by metis
  with f 2 show ?case by auto
qed simp

text \<open>No first transaction that fits holds more packs than the greedy one.\<close>

lemma greedy_first_longest:
  assumes mono: "\<And>xs ys. fits (xs @ ys) \<Longrightarrow> fits xs"
    and split: "g @ r = qs @ rest" and g: "fits (concat g)"
    and rest: "rest \<noteq> [] \<Longrightarrow> \<not> fits (concat qs @ hd rest)"
  shows "length g \<le> length qs"
proof (rule ccontr)
  assume "\<not> length g \<le> length qs"
  with split obtain us where us: "g = qs @ us" "us \<noteq> []" "rest = us @ r"
    by (auto simp: append_eq_append_conv2)
  then have "concat g = (concat qs @ hd rest) @ concat (tl us)" by (cases us) auto
  with g mono have "fits (concat qs @ hd rest)" by metis
  with rest us show False by simp
qed

lemma greedy_suffix:
  assumes mono: "\<And>xs ys. fits (xs @ ys) \<Longrightarrow> fits xs" "\<And>xs ys. fits (xs @ ys) \<Longrightarrow> fits ys"
  shows "\<forall>p \<in> set (us @ ps). fits p \<Longrightarrow> length (greedy fits ps) \<le> length (greedy fits (us @ ps))"
proof (induction "length (us @ ps)" arbitrary: us ps rule: less_induct)
  case less
  show ?case
  proof (cases "us = [] \<or> ps = []")
    case True
    then show ?thesis by auto
  next
    case False
    then have ne: "us @ ps \<noteq> []" "ps \<noteq> []" by auto
    obtain qs rest where q: "us @ ps = qs @ rest" "qs \<noteq> []"
      "greedy fits (us @ ps) = concat qs # greedy fits rest"
      "fits (hd (us @ ps)) \<Longrightarrow> fits (concat qs)" "rest \<noteq> [] \<Longrightarrow> \<not> fits (concat qs @ hd rest)"
      by (rule greedy_split [OF ne(1), where fits = fits]) metis
    have fq: "fits (concat qs)" using q(4) less.prems ne by (metis hd_in_set)
    have fits: "\<forall>p \<in> set ps. fits p" "\<forall>p \<in> set rest. fits p"
      using less.prems q(1) by (metis Un_iff set_append)+
    show ?thesis
    proof (cases "length qs \<le> length us")
      case True
      then obtain vs where vs: "us = qs @ vs" "rest = vs @ ps"
        using q(1) by (auto simp: append_eq_append_conv2)
      have "length (greedy fits ps) \<le> length (greedy fits (vs @ ps))"
        using vs q(2) fits by (intro less.hyps) auto
      then show ?thesis using q(3) vs by simp
    next
      case False
      then obtain vs where vs: "qs = us @ vs" "ps = vs @ rest" "vs \<noteq> []"
        using q(1) by (auto simp: append_eq_append_conv2)
      obtain qs2 rest2 where q2: "ps = qs2 @ rest2" "qs2 \<noteq> []"
        "greedy fits ps = concat qs2 # greedy fits rest2"
        "fits (hd ps) \<Longrightarrow> fits (concat qs2)" "rest2 \<noteq> [] \<Longrightarrow> \<not> fits (concat qs2 @ hd rest2)"
        by (rule greedy_split [OF ne(2), where fits = fits]) metis
      have "fits (concat vs)" using fq vs(1) mono(2) by simp
      then have "length vs \<le> length qs2"
        using greedy_first_longest [of fits vs rest qs2 rest2] mono(1) vs(2) q2 by metis
      then obtain ws where ws: "rest = ws @ rest2"
        using vs(2) q2(1) by (auto simp: append_eq_append_conv2)
      have "length (greedy fits rest2) \<le> length (greedy fits (ws @ rest2))"
        using ws q(1,2) fits by (intro less.hyps) auto
      then show ?thesis using q(3) q2(3) ws by simp
    qed
  qed
qed

lemma greedy_optimal:
  assumes mono: "\<And>xs ys. fits (xs @ ys) \<Longrightarrow> fits xs" "\<And>xs ys. fits (xs @ ys) \<Longrightarrow> fits ys"
  shows "\<forall>p \<in> set (concat gs). fits p \<Longrightarrow> \<forall>g \<in> set gs. fits (concat g) \<Longrightarrow>
    length (greedy fits (concat gs)) \<le> length gs"
proof (induction gs)
  case (Cons g gs)
  show ?case
  proof (cases "concat (g # gs) = []")
    case False
    obtain qs rest where q: "concat (g # gs) = qs @ rest" "qs \<noteq> []"
      "greedy fits (concat (g # gs)) = concat qs # greedy fits rest"
      "rest \<noteq> [] \<Longrightarrow> \<not> fits (concat qs @ hd rest)"
      by (rule greedy_split [OF False, where fits = fits]) metis
    have "length g \<le> length qs"
      using greedy_first_longest [of fits g "concat gs" qs rest] mono(1) q Cons.prems by auto
    then obtain ws where ws: "concat gs = ws @ rest" using q(1) by (auto simp: append_eq_append_conv2)
    have "length (greedy fits rest) \<le> length (greedy fits (ws @ rest))"
    proof (rule greedy_suffix [OF mono])
      show "\<forall>p \<in> set (ws @ rest). fits p" unfolding ws [symmetric]
        using Cons.prems(1) by simp
    qed
    also have "\<dots> \<le> length gs" using Cons ws by simp
    finally show ?thesis using q(3) by simp
  next
    case True
    then show ?thesis by (simp only: greedy.simps) simp
  qed
qed simp

text \<open>The builder's transactions are those of the reference.\<close>

definition tx_fits :: "'s tx_lib \<Rightarrow> 's tx_builder \<Rightarrow> tx_instruction list \<Rightarrow> bool" where
  "tx_fits L b ins \<longleftrightarrow> max_transaction_size b = 0 \<or> tx_size L (fee_payer b) ins \<le> max_transaction_size b"

lemma tx_fits_upd [simp]: "tx_fits L (b\<lparr>instruction_packs := ps\<rparr>) = tx_fits L b"
  by (simp add: tx_fits_def fun_eq_iff)

abbreviation pack_instructions :: "pack list \<Rightarrow> tx_instruction list list" where
  "pack_instructions ps \<equiv> map (map fst) ps"

lemma combine_loop_fill:
  "combine_loop sz n ins ds ps = (tx, ds', rest) \<Longrightarrow>
   fill (\<lambda>x. sz x \<le> n) ins (pack_instructions ps) = (tx, pack_instructions rest)"
  by (induction ps arbitrary: ins ds) (auto split: if_splits)

lemma fill_all: "(\<And>x. fits x) \<Longrightarrow> fill fits acc ps = (acc @ concat ps, [])"
  by (induction ps arbitrary: acc) auto

lemma concat_pack_instructions: "concat (pack_instructions ps) = map fst (concat ps)"
  by (simp add: map_concat)

context client_library
begin

lemma prepare_ok:
  assumes "signature_builder b (fee_payer b) \<noteq> None"
    and "\<forall>k s. signature_builder b k = Some s \<longrightarrow> sig_key L s = k"
    and "instructions_known (signature_builder b) ins"
  obtains pt where "prepare L ins ds b = (Inr (Some pt), b)"
    and "prep_transaction pt = \<lparr>tx_payer = fee_payer b, tx_instructions = ins\<rparr>"
    and "map (sig_key L) (prep_signers pt) = tx_required L (fee_payer b) ins"
    and "prep_descriptions pt = ds"
proof -
  let ?ks = "tx_required L (fee_payer b) ins"
  have known: "\<forall>k \<in> set ?ks. signature_builder b k \<noteq> None"
    using assms(1,3) by (intro required_known) (auto simp: instructions_known_def)
  have "map (sig_key L) (map (the \<circ> signature_builder b) ?ks) = ?ks"
    using known assms(2) by (auto simp: map_idI)
  then show thesis
    using signers_for_keys_ok [OF known]
    by (intro that [of "\<lparr>prep_transaction = \<lparr>tx_payer = fee_payer b, tx_instructions = ins\<rparr>,
          prep_signers = map (the \<circ> signature_builder b) ?ks, prep_descriptions = ds\<rparr>"])
      (simp_all add: prepare_def prepared_new_def)
qed

lemma build_next_combined_step:
  assumes ok: "builder_ok L b" and closed: "no_open_pack b" and packs: "instruction_packs b = p # ps"
  obtains pt rest where "build_next_combined L b = (Inr (Some pt), b\<lparr>instruction_packs := rest\<rparr>)"
    and "fill (tx_fits L b) (map fst p) (pack_instructions ps)
      = (tx_instructions (prep_transaction pt), pack_instructions rest)"
    and "tx_payer (prep_transaction pt) = fee_payer b"
    and "map (sig_key L) (prep_signers pt) = tx_required L (fee_payer b) (tx_instructions (prep_transaction pt))"
    and "set rest \<subseteq> set (instruction_packs b)" and "length rest < length (instruction_packs b)"
proof -
  have sigs: "signature_builder b (fee_payer b) \<noteq> None"
    "\<forall>k s. signature_builder b k = Some s \<longrightarrow> sig_key L s = k"
    using ok by (simp_all add: builder_ok_def)
  have known: "instructions_known (signature_builder b) (map fst (concat qs))"
    if "set qs \<subseteq> set (p # ps)" for qs
  proof -
    have "instructions_known (signature_builder b) (map fst q)" if "q \<in> set qs" for q
      using ok packs that \<open>set qs \<subseteq> set (p # ps)\<close> by (auto simp: builder_ok_def pack_ok_def)
    then show ?thesis by (auto simp: instructions_known_def)
  qed
  obtain tx ds rest qs where q: "p # ps = (p # qs) @ rest" "tx = map fst (concat (p # qs))"
    and f: "fill (tx_fits L b) (map fst p) (pack_instructions ps) = (tx, pack_instructions rest)"
    and run: "build_next_combined L b = prepare L tx ds (b\<lparr>instruction_packs := rest\<rparr>)"
  proof (cases "max_transaction_size b = 0")
    case True
    then have "build_next_combined L b = prepare L (map fst (concat (p # ps))) (map snd (concat (p # ps)))
        (b\<lparr>instruction_packs := []\<rparr>)"
      using closed packs by (simp add: build_next_combined_def)
    moreover have "fill (tx_fits L b) (map fst p) (pack_instructions ps)
        = (map fst (concat (p # ps)), pack_instructions [])"
      using True by (simp add: fill_all tx_fits_def concat_pack_instructions)
    ultimately show thesis using that [of ps "[]"] by simp
  next
    case False
    obtain tx ds rest where c: "combine_loop (tx_size L (fee_payer b)) (max_transaction_size b)
        (map fst p) (map snd p) ps = (tx, ds, rest)" by (metis prod_cases3)
    have fits: "tx_fits L b = (\<lambda>x. tx_size L (fee_payer b) x \<le> max_transaction_size b)"
      using False by (simp add: tx_fits_def fun_eq_iff)
    from combine_loop_split [OF c] obtain qs where "ps = qs @ rest" "tx = map fst p @ map fst (concat qs)"
      by metis
    then show thesis
      using that [of qs rest tx ds] False c closed packs combine_loop_fill [OF c]
      by (simp add: build_next_combined_def fits)
  qed
  have "instructions_known (signature_builder b) tx" using known [of "p # qs"] q by auto
  then obtain pt where pt: "prepare L tx ds (b\<lparr>instruction_packs := rest\<rparr>) = (Inr (Some pt), b\<lparr>instruction_packs := rest\<rparr>)"
    "prep_transaction pt = \<lparr>tx_payer = fee_payer b, tx_instructions = tx\<rparr>"
    "map (sig_key L) (prep_signers pt) = tx_required L (fee_payer b) tx"
    using prepare_ok [of "b\<lparr>instruction_packs := rest\<rparr>" tx ds] sigs by auto
  show thesis
    using that [of pt rest] pt run f packs q(1) by auto
qed

lemma combined_sequence_greedy:
  assumes "builder_ok L b" and "no_open_pack b" and "length (instruction_packs b) < n"
  obtains txs where "combined_sequence n L b = (Inr (Some txs), b\<lparr>instruction_packs := []\<rparr>)"
    and "map (tx_instructions \<circ> prep_transaction) txs = greedy (tx_fits L b) (pack_instructions (instruction_packs b))"
    and "\<forall>t \<in> set txs. tx_payer (prep_transaction t) = fee_payer b
      \<and> map (sig_key L) (prep_signers t) = tx_required L (fee_payer b) (tx_instructions (prep_transaction t))"
  using assms
proof (induction n arbitrary: b thesis)
  case (Suc n)
  show ?case
  proof (cases "instruction_packs b")
    case Nil
    then have "build_next_combined L b = (Inr None, b)"
      using Suc.prems by (simp add: build_next_combined_def)
    moreover have "b\<lparr>instruction_packs := []\<rparr> = b" using Nil by simp
    ultimately show ?thesis using Suc.prems(1) [of "[]"] Nil by (simp add: thenB_def)
  next
    case (Cons p ps)
    obtain pt rest where s: "build_next_combined L b = (Inr (Some pt), b\<lparr>instruction_packs := rest\<rparr>)"
      "fill (tx_fits L b) (map fst p) (pack_instructions ps)
        = (tx_instructions (prep_transaction pt), pack_instructions rest)"
      "tx_payer (prep_transaction pt) = fee_payer b"
      "map (sig_key L) (prep_signers pt) = tx_required L (fee_payer b) (tx_instructions (prep_transaction pt))"
      "set rest \<subseteq> set (instruction_packs b)" "length rest < length (instruction_packs b)"
      by (rule build_next_combined_step [OF Suc.prems(2,3) Cons])
    let ?b = "b\<lparr>instruction_packs := rest\<rparr>"
    have okb: "builder_ok L ?b" by (rule ok_fewer_packs [OF Suc.prems(2) s(5)])
    have closed: "no_open_pack ?b" using Suc.prems(3) by (simp add: no_open_pack_def)
    have len: "length (instruction_packs ?b) < n" using s(6) Suc.prems(4) by simp
    obtain txs where t: "combined_sequence n L ?b = (Inr (Some txs), ?b\<lparr>instruction_packs := []\<rparr>)"
      "map (tx_instructions \<circ> prep_transaction) txs
        = greedy (tx_fits L ?b) (pack_instructions (instruction_packs ?b))"
      "\<forall>t \<in> set txs. tx_payer (prep_transaction t) = fee_payer ?b
        \<and> map (sig_key L) (prep_signers t) = tx_required L (fee_payer ?b) (tx_instructions (prep_transaction t))"
      by (rule Suc.IH [OF _ okb closed len])
    show ?thesis
      using Suc.prems(1) [of "pt # txs"] s(1-4) t Cons by (simp add: thenB_def comp_def)
  qed
qed simp

end

declare combined_sequence.simps [simp del]

section \<open>Errors\<close>

definition open_pack :: "'s tx_builder \<Rightarrow> pack" where
  "open_pack b = (case current_pack b of None \<Rightarrow> [] | Some p \<Rightarrow> p)"

lemma open_pack_None [simp]: "current_pack b = None \<Longrightarrow> open_pack b = []"
  and open_pack_Some [simp]: "current_pack b = Some p \<Longrightarrow> open_pack b = p"
  by (simp_all add: open_pack_def)

lemma add_instruction_cases:
  "add_instruction L i d b =
     (case check_signers b i of Inl e \<Rightarrow> (Inl e, b)
      | Inr _ \<Rightarrow> if \<not> tx_fits L b (map fst (open_pack b) @ [i]) then (Inl TooBigTransaction, b)
          else case current_pack b of
            None \<Rightarrow> (Inr (), b\<lparr>instruction_packs := instruction_packs b @ [[(i, d)]]\<rparr>)
          | Some p \<Rightarrow> (Inr (), b\<lparr>current_pack := Some (p @ [(i, d)])\<rparr>))"
proof (cases "current_pack b")
  case None
  then have "b\<lparr>current_pack := None\<rparr> = b" by simp
  then show ?thesis using None
    by (auto simp: add_instruction_def in_pack_def inside_transaction_def begin_pack_def thenB_def
        push_instruction_def tx_fits_def rollback_pack_def commit_pack_def Let_def split: sum.splits)
next
  case (Some p)
  then have "b\<lparr>current_pack := Some p\<rparr> = b" by (cases b) simp
  then show ?thesis using Some
    by (auto simp: add_instruction_def in_pack_def inside_transaction_def push_instruction_def
        tx_fits_def Let_def split: sum.splits)
qed

lemma check_signers_Inl:
  "check_signers b i = Inl e \<Longrightarrow> \<exists>k \<in> signer_keys i. signature_builder b k = None \<and> e = UnknownSigner k"
  by (auto simp: check_signers_def signer_keys_def dest!: check_meta_signers_Inl)

text \<open>Computations that only append to the packs, or to the open pack.\<close>

definition same_packs :: "'s tx_builder \<Rightarrow> 's tx_builder \<Rightarrow> bool" where
  "same_packs b b' \<longleftrightarrow> instruction_packs b' = instruction_packs b \<and> current_pack b' = current_pack b"

lemma in_pack_error:
  assumes "in_pack m b = (Inl e, b')" and "current_pack b = None"
    and m: "\<And>b1 r b2. m b1 = (r, b2) \<Longrightarrow> current_pack b1 \<noteq> None \<Longrightarrow>
      instruction_packs b2 = instruction_packs b1 \<and> current_pack b2 \<noteq> None"
  shows "same_packs b b'"
proof -
  let ?b1 = "b\<lparr>current_pack := Some []\<rparr>"
  obtain r b2 where r: "m ?b1 = (r, b2)" by (cases "m ?b1")
  with m [OF r] have p: "instruction_packs b2 = instruction_packs b" "current_pack b2 \<noteq> None" by auto
  then show ?thesis
    using assms(1,2) r
    by (auto simp: in_pack_def inside_transaction_def begin_pack_def thenB_def same_packs_def
        rollback_pack_def commit_pack_def split: sum.splits)
qed

lemma add_instruction_inside:
  "add_instruction L i d b = (r, b') \<Longrightarrow> current_pack b \<noteq> None \<Longrightarrow>
    instruction_packs b' = instruction_packs b \<and> current_pack b' \<noteq> None"
  by (auto simp: add_instruction_cases split: sum.splits if_splits option.splits)

lemma add_signer_packs [simp]:
  "instruction_packs (add_signer L s b) = instruction_packs b"
  "current_pack (add_signer L s b) = current_pack b"
  by (simp_all add: add_signer_def)

lemma create_account_inside:
  "create_account_tx L s n ow rent d b = (r, b') \<Longrightarrow> current_pack b \<noteq> None \<Longrightarrow>
    instruction_packs b' = instruction_packs b \<and> current_pack b' \<noteq> None"
  unfolding create_account_tx_def by (drule add_instruction_inside) simp_all

lemma add_built_inside:
  "add_built L i d b = (r, b') \<Longrightarrow> current_pack b \<noteq> None \<Longrightarrow>
    instruction_packs b' = instruction_packs b \<and> current_pack b' \<noteq> None"
  by (cases i) (auto simp: add_built_def dest: add_instruction_inside)

lemma create_then_init_inside:
  assumes "thenB (create_account_tx L s n ow rent d1) (\<lambda>_. add_built L i d2) b = (r, b')"
    and "current_pack b \<noteq> None"
  shows "instruction_packs b' = instruction_packs b \<and> current_pack b' \<noteq> None"
proof -
  obtain r1 b1 where r1: "create_account_tx L s n ow rent d1 b = (r1, b1)"
    by (cases "create_account_tx L s n ow rent d1 b")
  from create_account_inside [OF r1 assms(2)] assms(1) r1 add_built_inside [of L i d2 b1 r b']
  show ?thesis by (auto simp: thenB_def split: sum.splits)
qed

lemma create_then_init_error:
  "in_pack (thenB (create_account_tx L s n ow rent d1) (\<lambda>_. add_built L i d2)) b = (Inl e, b') \<Longrightarrow>
    current_pack b = None \<Longrightarrow> same_packs b b'"
  by (erule (1) in_pack_error) (erule (1) create_then_init_inside)

section \<open>Properties\<close>

text \<open>Everything a caller can do with a builder, one operation after the other.\<close>

datatype 's builder_op =
    AddSigner 's | BeginPack | CommitPack | RollbackPack
  | AddInstruction tx_instruction string
  | TransferLamports 's pubkey u64 string
  | CreateAccount 's nat pubkey string
  | CreateAccountWithSeed 's string nat pubkey string
  | CreateMintAccount 's pubkey "pubkey option" string string
  | CreateTokenAccount 's pubkey pubkey string string
  | CreateTokenAccountWithSeed 's string pubkey pubkey string string
  | CreateAssociatedTokenAccount pubkey pubkey string
  | BuildNext | BuildNextCombined

fun run_op :: "'s tx_lib \<Rightarrow> (nat \<Rightarrow> u64) \<Rightarrow> 's builder_op \<Rightarrow> 's tx_builder \<Rightarrow> 's tx_builder" where
  "run_op L rent (AddSigner s) b = add_signer L s b"
| "run_op L rent BeginPack b = snd (begin_pack b)"
| "run_op L rent CommitPack b = snd (commit_pack b)"
| "run_op L rent RollbackPack b = snd (rollback_pack b)"
| "run_op L rent (AddInstruction i d) b = snd (add_instruction L i d b)"
| "run_op L rent (TransferLamports s t n d) b = snd (transfer_lamports L s t n d b)"
| "run_op L rent (CreateAccount s n ow d) b = snd (create_account_tx L s n ow rent d b)"
| "run_op L rent (CreateAccountWithSeed s seed n ow d) b =
     snd (create_account_with_seed L s seed n ow rent d b)"
| "run_op L rent (CreateMintAccount s a f d1 d2) b = snd (create_mint_account L s a f rent d1 d2 b)"
| "run_op L rent (CreateTokenAccount s m a d1 d2) b = snd (create_token_account L s m a rent d1 d2 b)"
| "run_op L rent (CreateTokenAccountWithSeed s seed m a d1 d2) b =
     snd (create_token_account_with_seed L s seed m a rent d1 d2 b)"
| "run_op L rent (CreateAssociatedTokenAccount k m d) b =
     snd (create_associated_token_account L k m d b)"
| "run_op L rent BuildNext b = snd (build_next L b)"
| "run_op L rent BuildNextCombined b = snd (build_next_combined L b)"

lemma keeps_snd: "keeps L m \<Longrightarrow> builder_ok L b \<Longrightarrow> builder_ok L (snd (m b))"
  by (metis keepsD prod.collapse)

lemma keeps_build_next_combined: "keeps L (build_next_combined L)"
proof (rule keepsI)
  fix b r b' assume ok: "builder_ok L b" and run: "build_next_combined L b = (r, b')"
  show "builder_ok L b'"
  proof (cases "instruction_packs b")
    case Nil
    then show ?thesis using ok run by (simp add: build_next_combined_def split: if_splits)
  next
    case (Cons p ps)
    obtain tx ds rest where c: "combine_loop (tx_size L (fee_payer b)) (max_transaction_size b)
        (map fst p) (map snd p) ps = (tx, ds, rest)" by (metis prod_cases3)
    from combine_loop_split [OF c] obtain qs where "ps = qs @ rest" by metis
    then have "b' = b \<or> b' = b\<lparr>instruction_packs := []\<rparr> \<or> b' = b\<lparr>instruction_packs := rest\<rparr>"
      using run c Cons by (auto simp: build_next_combined_def split: if_splits dest: prepare_keeps)
    moreover have "set rest \<subseteq> set (instruction_packs b)" using Cons \<open>ps = qs @ rest\<close> by auto
    ultimately show ?thesis
      using ok ok_fewer_packs [OF ok, of "[]"] ok_fewer_packs [OF ok, of rest] by auto
  qed
qed

lemma run_op_ok: "builder_ok L b \<Longrightarrow> builder_ok L (run_op L rent op b)"
  by (cases op) (simp_all add: keeps_snd add_signer_ok keeps_begin keeps_commit keeps_rollback
      keeps_add_instruction keeps_transfer keeps_create_account keeps_create_account_with_seed
      keeps_create_mint keeps_create_token keeps_create_token_with_seed keeps_create_ata
      keeps_build_next keeps_build_next_combined)

text \<open>
  Whatever operations are called on a transaction builder, in whatever order and whether they
  fail or not: the signers of every collected instruction are known under their own keys, and
  every pack fits a transaction of the builder's size.
\<close>
lemma builder_stays_ok:
  assumes "n = 0 \<or> tx_size L (sig_key L payer) [] \<le> n"
  shows "builder_ok L (fold (run_op L rent) ops (builder_new L payer n))"
proof -
  have "builder_ok L b \<Longrightarrow> builder_ok L (fold (run_op L rent) ops b)" for b
    by (induction ops arbitrary: b) (simp_all add: run_op_ok)
  then show ?thesis using builder_new_ok [OF assms] by blast
qed

text \<open>
  A failing \<open>add_instruction\<close> leaves the builder as it was, and fails only for one of two
  reasons: a signer of the instruction is unknown, or the transaction would be too big.
\<close>
theorem add_instruction_error:
  assumes "add_instruction L i d b = (Inl e, b')"
  shows "b' = b \<and> ((\<exists>k \<in> signer_keys i. signature_builder b k = None \<and> e = UnknownSigner k)
    \<or> (e = TooBigTransaction \<and> \<not> tx_fits L b (map fst (open_pack b) @ [i])))"
  using assms check_signers_Inl
  by (auto simp: add_instruction_cases split: sum.splits if_splits option.splits)

text \<open>
  C27. Running through the combined sequence of a builder without an open pack ends after at most as
  many transactions as there are packs, with the builder emptied; together the transactions
  contain every instruction once and in order, each fits the size, is paid by the fee payer and
  comes with exactly the signers it requires.
\<close>
theorem combined_sequence_ends:
  assumes "client_library L" and "builder_ok L b" and "no_open_pack b"
  shows "\<exists>txs. combined_sequence (Suc (length (instruction_packs b))) L b
      = (Inr (Some txs), b\<lparr>instruction_packs := []\<rparr>)
    \<and> concat (map (tx_instructions \<circ> prep_transaction) txs) = map fst (concat (instruction_packs b))
    \<and> (\<forall>t \<in> set txs. tx_fits L b (tx_instructions (prep_transaction t))
      \<and> tx_payer (prep_transaction t) = fee_payer b
      \<and> map (sig_key L) (prep_signers t)
          = tx_required L (fee_payer b) (tx_instructions (prep_transaction t)))"
proof -
  let ?ps = "pack_instructions (instruction_packs b)"
  obtain txs where t: "combined_sequence (Suc (length (instruction_packs b))) L b
      = (Inr (Some txs), b\<lparr>instruction_packs := []\<rparr>)"
    "map (tx_instructions \<circ> prep_transaction) txs = greedy (tx_fits L b) ?ps"
    "\<forall>t \<in> set txs. tx_payer (prep_transaction t) = fee_payer b
      \<and> map (sig_key L) (prep_signers t) = tx_required L (fee_payer b) (tx_instructions (prep_transaction t))"
    by (rule client_library.combined_sequence_greedy [OF assms lessI])
  have "\<forall>p \<in> set ?ps. tx_fits L b p"
    using assms(2) by (auto simp: builder_ok_def pack_ok_def pack_fits_def tx_fits_def)
  then have "\<forall>x \<in> set (map (tx_instructions \<circ> prep_transaction) txs). tx_fits L b x"
    unfolding t(2) by (rule greedy_fits)
  then have "\<forall>t \<in> set txs. tx_fits L b (tx_instructions (prep_transaction t))" by simp
  moreover have "concat (map (tx_instructions \<circ> prep_transaction) txs) = map fst (concat (instruction_packs b))"
    by (simp only: t(2) greedy_concat concat_pack_instructions)
  ultimately show ?thesis using t(1,3) by blast
qed

text \<open>
  C28. No way of dividing the packs, in their order, into transactions that fit needs fewer
  transactions than the combined sequence (where more instructions never make a transaction smaller).
\<close>
theorem combined_sequence_fewest:
  assumes "client_library L" and "builder_ok L b" and "no_open_pack b"
    and "\<And>p ins ins'. tx_size L p ins \<le> tx_size L p (ins @ ins')"
    and "\<And>p ins ins'. tx_size L p ins' \<le> tx_size L p (ins @ ins')"
    and "concat gs = map (map fst) (instruction_packs b)" and "\<forall>g \<in> set gs. tx_fits L b (concat g)"
    and "combined_sequence (Suc (length (instruction_packs b))) L b = (Inr (Some txs), b')"
  shows "length txs \<le> length gs"
proof -
  let ?ps = "pack_instructions (instruction_packs b)"
  obtain txs' where t: "combined_sequence (Suc (length (instruction_packs b))) L b
      = (Inr (Some txs'), b\<lparr>instruction_packs := []\<rparr>)"
    "map (tx_instructions \<circ> prep_transaction) txs' = greedy (tx_fits L b) ?ps"
    by (rule client_library.combined_sequence_greedy [OF assms(1-3) lessI])
  have mono: "tx_fits L b (xs @ ys) \<Longrightarrow> tx_fits L b xs" "tx_fits L b (xs @ ys) \<Longrightarrow> tx_fits L b ys" for xs ys
    unfolding tx_fits_def using assms(4,5) by (meson le_trans)+
  have "\<forall>p \<in> set (concat gs). tx_fits L b p"
    using assms(2) by (auto simp: assms(6) builder_ok_def pack_ok_def pack_fits_def tx_fits_def)
  from greedy_optimal [OF mono this assms(7)] have "length (greedy (tx_fits L b) ?ps) \<le> length gs"
    by (simp only: assms(6))
  moreover have "length txs' = length (greedy (tx_fits L b) ?ps)" by (metis length_map t(2))
  ultimately show ?thesis using t(1) assms(8) by simp
qed

text \<open>
  C29. Creating a mint or a token account outside an open pack is all or nothing: when the creation or
  the initialisation cannot be added, no instruction of it stays behind.
\<close>
theorem create_account_atomic:
  assumes "create_mint_account L s auth freeze rent d1 d2 b = (Inl e, b')
      \<or> create_token_account L s mint_key auth rent d1 d2 b = (Inl e, b')"
    and "current_pack b = None"
  shows "instruction_packs b' = instruction_packs b \<and> current_pack b' = None"
proof -
  have "same_packs b b'"
    using assms create_then_init_error
    unfolding create_mint_account_def create_token_account_def by metis
  then show ?thesis using assms(2) by (simp add: same_packs_def)
qed

section \<open>Runs\<close>

text \<open>
  A client library whose signers are their own keys, with transactions of 100 bytes and 300 for
  each instruction, so that three instructions fit a packet.
\<close>

definition ex_sign :: "pubkey list \<Rightarrow> tx_instruction" where
  "ex_sign ks = \<lparr>ti_program = 7, ti_accounts = map (\<lambda>k. \<lparr>am_key = k, am_signer = True, am_writable = True\<rparr>) ks,
     ti_data = []\<rparr>"

definition ex_lib :: "pubkey tx_lib" where
  "ex_lib = \<lparr>sig_key = (\<lambda>s. s),
     tx_required = (\<lambda>p ins. p # filter (\<lambda>k. k \<noteq> p) (remdups (concat (map (\<lambda>i. map am_key (filter am_signer (ti_accounts i))) ins)))),
     tx_size = (\<lambda>p ins. 100 + 300 * length ins),
     sys_transfer = (\<lambda>f t n. ex_sign [f]), sys_create_account = (\<lambda>f t n s ow. ex_sign [f, t]),
     sys_create_account_with_seed = (\<lambda>f t ba seed n s ow. ex_sign [f, ba]),
     create_with_seed = (\<lambda>ba seed ow. Some (ba + 1)), spl_id = 6,
     spl_initialize_mint = (\<lambda>m a f n. Some (ex_sign [])),
     spl_initialize_account = (\<lambda>k m ow. Some (ex_sign [])),
     ata_address = (\<lambda>k m. k + m), ata_create = (\<lambda>p k m. ex_sign [p]),
     packet_data_size = 1232, mint_len = 82, token_account_len = 165\<rparr>"

lemma signer_keys_ex_sign [simp]: "signer_keys (ex_sign ks) = set ks"
  by (force simp: signer_keys_def ex_sign_def)

lemma ex_lib_required: "set (tx_required ex_lib p ins) = insert p (\<Union>i \<in> set ins. signer_keys i)"
  by (auto simp: ex_lib_def signer_keys_def)

interpretation ex_client: client_library ex_lib
  by unfold_locales (rule ex_lib_required)

text \<open>Four packs of one, two, one and one instructions, collected by the payer 1.\<close>

definition ex_ops :: "pubkey builder_op list" where
  "ex_ops = [AddInstruction (ex_sign [1]) ''a'', AddSigner 2, BeginPack, AddInstruction (ex_sign [2]) ''b'',
     AddInstruction (ex_sign [1]) ''c'', CommitPack, AddInstruction (ex_sign [2]) ''d'',
     AddInstruction (ex_sign [3]) ''unknown'', AddInstruction (ex_sign []) ''e'']"

definition ex_builder :: "pubkey tx_builder" where
  "ex_builder = fold (run_op ex_lib (\<lambda>_. 0)) ex_ops (builder_limited ex_lib 1)"

lemma ex_builder_eq:
  "ex_builder = \<lparr>fee_payer = 1, signature_builder = [1 \<mapsto> 1, 2 \<mapsto> 2],
     instruction_packs = [[(ex_sign [1], ''a'')], [(ex_sign [2], ''b''), (ex_sign [1], ''c'')],
       [(ex_sign [2], ''d'')], [(ex_sign [], ''e'')]],
     current_pack = None, max_transaction_size = 1232\<rparr>"
  by (simp add: ex_builder_def ex_ops_def builder_limited_def builder_new_def sb_add_signer_def
      add_signer_def begin_pack_def commit_pack_def add_instruction_cases check_signers_def ex_sign_def
      tx_fits_def ex_lib_def)

lemma ex_builder_closed: "no_open_pack ex_builder"
  by (simp add: ex_builder_eq no_open_pack_def)

lemma builder_stays_ok_witness: "builder_ok ex_lib ex_builder"
  unfolding ex_builder_def builder_limited_def
  by (rule builder_stays_ok) (simp add: ex_lib_def)

lemma ex_builder_ok: "builder_ok ex_lib ex_builder"
  by (auto simp: ex_builder_eq builder_ok_def pack_ok_def pack_fits_def instructions_known_def ex_lib_def)

lemma add_instruction_error_witness:
  "add_instruction ex_lib (ex_sign [3]) ''unknown'' ex_builder = (Inl (UnknownSigner 3), ex_builder)"
proof -
  have r: "add_instruction ex_lib (ex_sign [3]) ''unknown'' ex_builder = (Inl (UnknownSigner 3), ex_builder)"
    by (simp add: add_instruction_cases check_signers_def ex_sign_def ex_builder_eq)
  from add_instruction_error [OF r] r show ?thesis by simp
qed

lemma ex_combined:
  "combined_sequence 5 ex_lib ex_builder = (Inr (Some
     [\<lparr>prep_transaction = \<lparr>tx_payer = 1, tx_instructions = [ex_sign [1], ex_sign [2], ex_sign [1]]\<rparr>,
       prep_signers = [1, 2], prep_descriptions = [''a'', ''b'', ''c'', ''d'']\<rparr>,
      \<lparr>prep_transaction = \<lparr>tx_payer = 1, tx_instructions = [ex_sign [2], ex_sign []]\<rparr>,
       prep_signers = [1, 2], prep_descriptions = [''d'', ''e'']\<rparr>]),
     ex_builder\<lparr>instruction_packs := []\<rparr>)"
  by (simp add: eval_nat_numeral combined_sequence.simps build_next_combined_def ex_builder_eq no_open_pack_def
      prepare_def prepared_new_def ex_sign_def ex_lib_def thenB_def)

lemma combined_sequence_ends_witness:
  "\<exists>txs. combined_sequence 5 ex_lib ex_builder = (Inr (Some txs), ex_builder\<lparr>instruction_packs := []\<rparr>)
    \<and> concat (map (tx_instructions \<circ> prep_transaction) txs)
      = [ex_sign [1], ex_sign [2], ex_sign [1], ex_sign [2], ex_sign []]"
proof -
  have "Suc (length (instruction_packs ex_builder)) = 5"
    "map fst (concat (instruction_packs ex_builder)) = [ex_sign [1], ex_sign [2], ex_sign [1], ex_sign [2], ex_sign []]"
    by (simp_all add: ex_builder_eq)
  with combined_sequence_ends [OF ex_client.client_library_axioms ex_builder_ok ex_builder_closed]
  show ?thesis by auto
qed

lemma combined_sequence_fewest_witness:
  "\<exists>txs. fst (combined_sequence 5 ex_lib ex_builder) = Inr (Some txs) \<and> length txs \<le> 2"
proof -
  have s: "Suc (length (instruction_packs ex_builder)) = 5" by (simp add: ex_builder_eq)
  have m: "tx_size ex_lib p ins \<le> tx_size ex_lib p (ins @ ins')" "tx_size ex_lib p ins' \<le> tx_size ex_lib p (ins @ ins')"
    for p ins ins' by (simp_all add: ex_lib_def)
  have g: "concat [[[ex_sign [1]], [ex_sign [2], ex_sign [1]]], [[ex_sign [2]], [ex_sign []]]]
      = map (map fst) (instruction_packs ex_builder)" by (simp add: ex_builder_eq)
  have f: "\<forall>g \<in> set [[[ex_sign [1]], [ex_sign [2], ex_sign [1]]], [[ex_sign [2]], [ex_sign []]]].
      tx_fits ex_lib ex_builder (concat g)"
    by (simp add: tx_fits_def ex_builder_eq ex_lib_def)
  show ?thesis
    using combined_sequence_fewest [OF ex_client.client_library_axioms ex_builder_ok ex_builder_closed m g f, unfolded s,
        OF ex_combined] ex_combined by simp
qed

lemma create_account_atomic_witness:
  "fst (create_mint_account ex_lib 4 5 None (\<lambda>_. 0) ''m'' ''i'' (builder_new ex_lib 1 500)) = Inl TooBigTransaction
   \<and> instruction_packs (snd (create_mint_account ex_lib 4 5 None (\<lambda>_. 0) ''m'' ''i'' (builder_new ex_lib 1 500))) = []"
proof -
  obtain b' where r: "create_mint_account ex_lib 4 5 None (\<lambda>_. 0) ''m'' ''i'' (builder_new ex_lib 1 500)
      = (Inl TooBigTransaction, b')"
    by (simp add: create_mint_account_def in_pack_def inside_transaction_def begin_pack_def rollback_pack_def
        thenB_def create_account_tx_def add_built_def add_instruction_cases check_signers_def builder_new_def
        add_signer_def sb_add_signer_def ex_sign_def tx_fits_def ex_lib_def)
  have "current_pack (builder_new ex_lib 1 500) = None" "instruction_packs (builder_new ex_lib 1 500) = []"
    by (simp_all add: builder_new_def)
  with create_account_atomic [OF disjI1 [OF r]] r show ?thesis by simp
qed

section \<open>Two surprises\<close>

text \<open>
  A combined transaction that leaves packs behind is described by one pack too many: the loop adds
  the descriptions of the pack that did not fit, and the first description below belongs to
  no instruction of its transaction.
\<close>

theorem combined_descriptions_extra:
  "\<exists>t. fst (build_next_combined ex_lib ex_builder) = Inr (Some t)
    \<and> tx_instructions (prep_transaction t) = [ex_sign [1], ex_sign [2], ex_sign [1]]
    \<and> prep_descriptions t = [''a'', ''b'', ''c'', ''d'']"
  by (simp add: build_next_combined_def ex_builder_eq no_open_pack_def prepare_def prepared_new_def
      ex_sign_def ex_lib_def)

text \<open>
  Inside an open pack the creation of a mint is not all or nothing: the account is created by the
  transaction although the caller got the error that it does not fit.
\<close>

theorem create_mint_half_done:
  "\<exists>b'. create_mint_account ex_lib 4 5 None (\<lambda>_. 0) ''m'' ''i''
      ((builder_new ex_lib 1 500)\<lparr>current_pack := Some []\<rparr>) = (Inl TooBigTransaction, b')
    \<and> current_pack b' = Some [(ex_sign [1, 4], ''m'')]"
  by (simp add: create_mint_account_def in_pack_def inside_transaction_def
      thenB_def create_account_tx_def add_built_def add_instruction_cases check_signers_def builder_new_def
      add_signer_def sb_add_signer_def ex_sign_def tx_fits_def ex_lib_def)

text \<open>
  A builder without a size limit (size 0) never admits to fitting into a single transaction, although
  its combined sequence is a single transaction.
\<close>

theorem unlimited_never_fits:
  assumes "tx_size L (fee_payer b) (map fst (concat (instruction_packs b)) @ map fst (open_pack b)) > 0"
    and "max_transaction_size b = 0"
  shows "\<not> fit_into_single_transaction L b"
  using assms by (auto simp: fit_into_single_transaction_def open_pack_def split: option.splits)

end
