(* ===== verification/Helpers.thy ===== *)
theory Helpers
  imports Sdk TxBuilder
begin

text \<open>
  The instruction helpers of the tools (\<open>sdk/offchain/src/instruction_helpers.rs\<close>): each takes
  the signers' keypairs, refuses a manager or an admin that is not the instance's, adds the
  signers to the transaction builder and adds the client's instruction to it. \<open>enc\<close> is the
  encoding that Anchor generates; its contract names the accounts that must sign. The description \<open>d\<close>
  of an instruction, formatted from the arguments, is an argument.
\<close>

section \<open>Common parts\<close>

datatype helper_error =
    InvalidValidatorManagerAuthority pubkey pubkey | InvalidAdminAuthority pubkey pubkey | HelperPanic

type_synonym encoder = "pubkey \<Rightarrow> instruction \<Rightarrow> tx_instruction"

type_synonym 's helper = "'s tx_builder \<Rightarrow> (helper_error + unit) \<times> 's tx_builder"

definition check_manager :: "'s tx_lib \<Rightarrow> 's \<Rightarrow> state \<Rightarrow> helper_error + unit" where
  "check_manager L s st =
     (if sig_key L s \<noteq> manager_authority (validator_system st)
      then Inl (InvalidValidatorManagerAuthority (manager_authority (validator_system st)) (sig_key L s))
      else Inr ())"

definition check_admin :: "'s tx_lib \<Rightarrow> 's \<Rightarrow> state \<Rightarrow> helper_error + unit" where
  "check_admin L s st =
     (if sig_key L s \<noteq> admin_authority st
      then Inl (InvalidAdminAuthority (admin_authority st) (sig_key L s))
      else Inr ())"

text \<open>\<open>add_instruction(...).unwrap()\<close>, with an instruction whose addresses are \<open>unwrap\<close>ped.\<close>

definition add_sdk ::
  "'s tx_lib \<Rightarrow> encoder \<Rightarrow> pubkey \<Rightarrow> instruction result \<Rightarrow> string \<Rightarrow> 's helper" where
  "add_sdk L enc key ins d b =
     (case ins of
        Inl _ \<Rightarrow> (Inl HelperPanic, b)
      | Inr i \<Rightarrow> (case add_instruction L (enc key i) d b of
            (Inl _, b') \<Rightarrow> (Inl HelperPanic, b')
          | (Inr _, b') \<Rightarrow> (Inr (), b')))"

text \<open>The guard, then \<open>add_signer\<close> for each keypair, then the instruction.\<close>

definition helper ::
  "'s tx_lib \<Rightarrow> encoder \<Rightarrow> pubkey \<Rightarrow> helper_error + unit \<Rightarrow> 's list \<Rightarrow> instruction result \<Rightarrow> string
    \<Rightarrow> 's helper" where
  "helper L enc key guard ss ins d b =
     (case guard of
        Inl e \<Rightarrow> (Inl e, b)
      | Inr _ \<Rightarrow> add_sdk L enc key ins d (fold (add_signer L) ss b))"

section \<open>The helpers\<close>

definition helper_add_liquidity where
  "helper_add_liquidity L enc rt key st transfer_from mint_to lamports =
     helper L enc key (Inr ()) [transfer_from]
       (sdk_add_liquidity rt key st (sig_key L transfer_from) mint_to lamports)"

definition helper_add_validator where
  "helper_add_validator L enc rt key st validator_manager_authority validator_vote sc rent_payer =
     helper L enc key (check_manager L validator_manager_authority st)
       [validator_manager_authority, rent_payer]
       (sdk_add_validator rt key st validator_vote sc (sig_key L rent_payer))"

definition helper_change_authority where
  "helper_change_authority L enc key st admin ca =
     helper L enc key (check_admin L admin st) [admin] (sdk_change_authority st ca)"

definition helper_deactivate_stake where
  "helper_deactivate_stake L enc rt key st stk split_stake_account split_stake_rent_payer stake_index
     validator_index =
     helper L enc key (Inr ()) [split_stake_account, split_stake_rent_payer]
       (sdk_deactivate_stake rt key st stk (sig_key L split_stake_account)
         (sig_key L split_stake_rent_payer) stake_index validator_index)"

definition helper_deposit where
  "helper_deposit L enc rt key st transfer_from mint_to lamports =
     helper L enc key (Inr ()) [transfer_from]
       (sdk_deposit rt key st (sig_key L transfer_from) mint_to lamports)"

definition helper_deposit_stake_account where
  "helper_deposit_stake_account L enc rt key st stk stake_auth mint_to validator_index validator_vote
     rent_payer =
     helper L enc key (Inr ()) [stake_auth, rent_payer]
       (sdk_deposit_stake_account rt key st stk (sig_key L stake_auth) mint_to validator_index
         validator_vote (sig_key L rent_payer))"

definition helper_emergency_unstake where
  "helper_emergency_unstake L enc rt key st validator_manager_authority stk stake_index validator_index =
     helper L enc key (check_manager L validator_manager_authority st) [validator_manager_authority]
       (sdk_emergency_unstake rt key st stk stake_index validator_index)"

definition helper_liquid_unstake where
  "helper_liquid_unstake L enc rt key st get_msol_from get_msol_from_authority transfer_sol_to msol_amount =
     helper L enc key (Inr ()) [get_msol_from_authority]
       (sdk_liquid_unstake rt key st get_msol_from (sig_key L get_msol_from_authority) transfer_sol_to
         msol_amount)"

definition helper_merge_stakes where
  "helper_merge_stakes L enc rt key st destination_stake destination_stake_index source_stake
     source_stake_index validator_index =
     helper L enc key (Inr ()) []
       (sdk_merge_stakes rt key st destination_stake destination_stake_index source_stake
         source_stake_index validator_index)"

definition helper_remove_liquidity where
  "helper_remove_liquidity L enc rt key st burn_from burn_from_authority transfer_sol_to transfer_msol_to
     tokens =
     helper L enc key (Inr ()) [burn_from_authority]
       (sdk_remove_liquidity rt key st burn_from (sig_key L burn_from_authority) transfer_sol_to
         transfer_msol_to tokens)"

definition helper_remove_validator where
  "helper_remove_validator L enc rt key st validator_manager_authority index validator_vote =
     helper L enc key (check_manager L validator_manager_authority st) [validator_manager_authority]
       (sdk_remove_validator rt key st index validator_vote)"

definition helper_set_lp_params where
  "helper_set_lp_params L enc key st admin min_fee max_fee liquidity_target =
     helper L enc key (check_admin L admin st) [admin]
       (sdk_set_lp_params st min_fee max_fee liquidity_target)"

definition helper_config_marinade where
  "helper_config_marinade L enc key st admin params =
     helper L enc key (check_admin L admin st) [admin] (sdk_config_marinade st params)"

definition helper_set_validator_score where
  "helper_set_validator_score L enc key st validator_manager_authority index validator_vote sc =
     helper L enc key (check_manager L validator_manager_authority st) [validator_manager_authority]
       (sdk_set_validator_score st index validator_vote sc)"

definition helper_config_validator_system where
  "helper_config_validator_system L enc key st validator_manager_authority extra_runs =
     helper L enc key (check_manager L validator_manager_authority st) [validator_manager_authority]
       (sdk_config_validator_system st extra_runs)"

definition helper_stake_reserve where
  "helper_stake_reserve L enc rt key st validator_index validator_vote stk =
     helper L enc key (Inr ()) [] (sdk_stake_reserve rt key st validator_index validator_vote stk)"

definition helper_update_active where
  "helper_update_active L enc rt key st stk stake_index validator_index =
     helper L enc key (Inr ()) [] (sdk_update_active rt key st stk stake_index validator_index)"

definition helper_update_deactivated where
  "helper_update_deactivated L enc rt key st stk stake_index =
     helper L enc key (Inr ()) [] (sdk_update_deactivated rt key st stk stake_index)"

definition helper_order_unstake where
  "helper_order_unstake L enc rt key st burn_msol_from burn_msol_authority msol_amount ticket_account =
     helper L enc key (Inr ()) [burn_msol_authority]
       (sdk_order_unstake rt st burn_msol_from (sig_key L burn_msol_authority) msol_amount ticket_account)"

definition helper_claim where
  "helper_claim L enc rt key st ticket_account beneficiary_key =
     helper L enc key (Inr ()) [] (sdk_claim rt key st ticket_account beneficiary_key)"

section \<open>Calls\<close>

text \<open>The helper trait as a whole: one constructor per method, with its arguments.\<close>

datatype 's helper_call =
    HAddLiquidity 's pubkey u64
  | HAddValidator 's pubkey u32 's
  | HChangeAuthority 's change_authority_data
  | HDeactivateStake pubkey 's 's u32 u32
  | HDeposit 's pubkey u64
  | HDepositStakeAccount pubkey 's pubkey u32 pubkey 's
  | HEmergencyUnstake 's pubkey u32 u32
  | HLiquidUnstake pubkey 's pubkey u64
  | HMergeStakes pubkey u32 pubkey u32 u32
  | HRemoveLiquidity pubkey 's pubkey pubkey u64
  | HRemoveValidator 's u32 pubkey
  | HSetLpParams 's fee fee u64
  | HConfigMarinade 's config_marinade_params
  | HSetValidatorScore 's u32 pubkey u32
  | HConfigValidatorSystem 's u32
  | HStakeReserve u32 pubkey pubkey
  | HUpdateActive pubkey u32 u32
  | HUpdateDeactivated pubkey u32
  | HOrderUnstake pubkey 's u64 pubkey
  | HClaim pubkey pubkey

fun run_helper ::
  "'s tx_lib \<Rightarrow> encoder \<Rightarrow> runtime \<Rightarrow> pubkey \<Rightarrow> state \<Rightarrow> 's helper_call \<Rightarrow> string \<Rightarrow> 's helper" where
  "run_helper L enc rt key st (HAddLiquidity s k n) = helper_add_liquidity L enc rt key st s k n"
| "run_helper L enc rt key st (HAddValidator s k sc p) = helper_add_validator L enc rt key st s k sc p"
| "run_helper L enc rt key st (HChangeAuthority s ca) = helper_change_authority L enc key st s ca"
| "run_helper L enc rt key st (HDeactivateStake k s p i j) = helper_deactivate_stake L enc rt key st k s p i j"
| "run_helper L enc rt key st (HDeposit s k n) = helper_deposit L enc rt key st s k n"
| "run_helper L enc rt key st (HDepositStakeAccount k s m i v p) =
     helper_deposit_stake_account L enc rt key st k s m i v p"
| "run_helper L enc rt key st (HEmergencyUnstake s k i j) = helper_emergency_unstake L enc rt key st s k i j"
| "run_helper L enc rt key st (HLiquidUnstake k s t n) = helper_liquid_unstake L enc rt key st k s t n"
| "run_helper L enc rt key st (HMergeStakes d i s j v) = helper_merge_stakes L enc rt key st d i s j v"
| "run_helper L enc rt key st (HRemoveLiquidity k s t m n) = helper_remove_liquidity L enc rt key st k s t m n"
| "run_helper L enc rt key st (HRemoveValidator s i v) = helper_remove_validator L enc rt key st s i v"
| "run_helper L enc rt key st (HSetLpParams s a c t) = helper_set_lp_params L enc key st s a c t"
| "run_helper L enc rt key st (HConfigMarinade s p) = helper_config_marinade L enc key st s p"
| "run_helper L enc rt key st (HSetValidatorScore s i v sc) = helper_set_validator_score L enc key st s i v sc"
| "run_helper L enc rt key st (HConfigValidatorSystem s n) = helper_config_validator_system L enc key st s n"
| "run_helper L enc rt key st (HStakeReserve i v k) = helper_stake_reserve L enc rt key st i v k"
| "run_helper L enc rt key st (HUpdateActive k i j) = helper_update_active L enc rt key st k i j"
| "run_helper L enc rt key st (HUpdateDeactivated k i) = helper_update_deactivated L enc rt key st k i"
| "run_helper L enc rt key st (HOrderUnstake k s n t) = helper_order_unstake L enc rt key st k s n t"
| "run_helper L enc rt key st (HClaim k t) = helper_claim L enc rt key st k t"

lemmas helper_defs = helper_add_liquidity_def helper_add_validator_def helper_change_authority_def
  helper_deactivate_stake_def helper_deposit_def helper_deposit_stake_account_def
  helper_emergency_unstake_def helper_liquid_unstake_def helper_merge_stakes_def
  helper_remove_liquidity_def helper_remove_validator_def helper_set_lp_params_def
  helper_config_marinade_def helper_set_validator_score_def helper_config_validator_system_def
  helper_stake_reserve_def helper_update_active_def helper_update_deactivated_def
  helper_order_unstake_def helper_claim_def

text \<open>What a call amounts to: a guard, the keypairs that it adds, the instruction.\<close>

text \<open>The stored bump seeds give addresses, as those that \<open>initialize\<close> stores do.\<close>

definition addresses_derivable :: "runtime \<Rightarrow> pubkey \<Rightarrow> state \<Rightarrow> bool" where
  "addresses_derivable rt key st \<longleftrightarrow> (\<exists>a b c d e f g. reserve_address rt key st = Inr a
     \<and> msol_mint_authority rt key st = Inr b
     \<and> liq_pool_sol_leg_address rt key (liq_pool st) = Inr c
     \<and> lp_mint_authority rt key (liq_pool st) = Inr d
     \<and> liq_pool_msol_leg_authority rt key (liq_pool st) = Inr e
     \<and> stake_deposit_authority rt key (stake_system st) = Inr f
     \<and> stake_withdraw_authority rt key (stake_system st) = Inr g)"

definition helper_parts ::
  "'s tx_lib \<Rightarrow> runtime \<Rightarrow> pubkey \<Rightarrow> state \<Rightarrow> helper_error + unit \<Rightarrow> 's list \<Rightarrow> instruction result \<Rightarrow> bool"
where
  "helper_parts L rt key st guard ss ins \<longleftrightarrow>
     (guard = Inr () \<or> (\<exists>s. guard = check_manager L s st \<or> guard = check_admin L s st))
     \<and> (guard = Inr () \<longrightarrow> (\<forall>i. ins = Inr i \<longrightarrow>
         set (signers_of i) \<subseteq> sig_key L ` set ss \<and> sdk_built rt key st i))
     \<and> (addresses_derivable rt key st \<longrightarrow> (\<exists>i. ins = Inr i))"

lemma check_authority_ok:
  "check_manager L s st = Inr () \<longleftrightarrow> sig_key L s = manager_authority (validator_system st)"
  "check_admin L s st = Inr () \<longleftrightarrow> sig_key L s = admin_authority st"
  by (simp_all add: check_manager_def check_admin_def)

lemma helper_partsI:
  assumes "guard = Inr () \<or> (\<exists>s. guard = check_manager L s st \<or> guard = check_admin L s st)"
    and "\<And>i. guard = Inr () \<Longrightarrow> ins = Inr i \<Longrightarrow> set (signers_of i) \<subseteq> sig_key L ` set ss"
    and "\<And>i. ins = Inr i \<Longrightarrow> sdk_built rt key st i"
    and "addresses_derivable rt key st \<Longrightarrow> \<exists>i. ins = Inr i"
  shows "helper_parts L rt key st guard ss ins"
  using assms by (auto simp: helper_parts_def)

lemma run_helper_parts:
  obtains guard ss ins where "run_helper L enc rt key st h = helper L enc key guard ss ins"
    and "helper_parts L rt key st guard ss ins"
proof -
  have "\<exists>guard ss ins. run_helper L enc rt key st h = helper L enc key guard ss ins
      \<and> helper_parts L rt key st guard ss ins"
    by (cases h, simp_all only: run_helper.simps helper_defs)
      ((intro exI conjI, rule refl, rule helper_partsI, blast,
        (auto simp: check_authority_ok dest!: sdk_signers)[1], (erule sdk_built.intros)[1],
        (auto simp: addresses_derivable_def sdk_defs)[1])+)
  with that show thesis by blast
qed

section \<open>Properties\<close>

text \<open>The builder after one more instruction: in the open pack, or as a pack of its own.\<close>

definition added :: "'s tx_builder \<Rightarrow> 's tx_builder \<Rightarrow> tx_instruction \<times> string \<Rightarrow> bool" where
  "added b b' x \<longleftrightarrow> (case current_pack b of
       None \<Rightarrow> instruction_packs b' = instruction_packs b @ [[x]] \<and> current_pack b' = None
     | Some p \<Rightarrow> instruction_packs b' = instruction_packs b \<and> current_pack b' = Some (p @ [x]))"

lemma add_signers_parts [simp]:
  "instruction_packs (fold (add_signer L) ss b) = instruction_packs b"
  "current_pack (fold (add_signer L) ss b) = current_pack b"
  "fee_payer (fold (add_signer L) ss b) = fee_payer b"
  "max_transaction_size (fold (add_signer L) ss b) = max_transaction_size b"
  by (induction ss arbitrary: b) (simp_all add: add_signer_def)

lemma add_signers_known:
  "signature_builder (fold (add_signer L) ss b) k \<noteq> None \<longleftrightarrow> k \<in> sig_key L ` set ss \<or> signature_builder b k \<noteq> None"
  by (induction ss arbitrary: b) (auto simp: add_signer_def sb_add_signer_def)

lemma add_signers_same [simp]:
  "tx_fits L (fold (add_signer L) ss b) = tx_fits L b" "open_pack (fold (add_signer L) ss b) = open_pack b"
  by (simp_all add: tx_fits_def open_pack_def fun_eq_iff)

lemma add_sdk_cases:
  assumes enc: "signer_keys (enc key i) = set (signers_of i)"
    and known: "set (signers_of i) \<subseteq> sig_key L ` set ss"
    and run: "add_sdk L enc key (Inr i) d (fold (add_signer L) ss b) = (r, b')"
  shows "(r = Inr () \<and> added b b' (enc key i, d) \<and> instructions_known (signature_builder b') [enc key i])
    \<or> (r = Inl HelperPanic \<and> \<not> tx_fits L b (map fst (open_pack b) @ [enc key i]) \<and> same_packs b b')"
proof -
  let ?b = "fold (add_signer L) ss b"
  have k: "instructions_known (signature_builder ?b) [enc key i]"
    unfolding instructions_known_def using known enc add_signers_known [of L ss b] by auto
  then have "check_signers ?b (enc key i) = Inr ()"
    by (simp add: check_signers_Inr instructions_known_def)
  then show ?thesis using run k
    by (auto simp: add_sdk_def add_instruction_cases added_def same_packs_def split: if_splits option.splits)
qed

text \<open>
  C31. Every helper of the client either adds exactly one instruction, built by the client for the
  instance, with all its signers known to the builder; or it reports that the given manager
  or admin is not the instance's, leaving the builder as it was; or it panics because the
  transaction gets too big, adding no instruction. It never misses a signer.
\<close>
theorem helper_adds_instruction:
  assumes "\<And>i. signer_keys (enc key i) = set (signers_of i)" and "addresses_derivable rt key st"
    and "run_helper L enc rt key st h d b = (r, b')"
  shows "(\<exists>i. r = Inr () \<and> sdk_built rt key st i \<and> added b b' (enc key i, d)
      \<and> instructions_known (signature_builder b') [enc key i])
    \<or> (\<exists>s. r = Inl (InvalidValidatorManagerAuthority (manager_authority (validator_system st)) (sig_key L s))
      \<and> sig_key L s \<noteq> manager_authority (validator_system st) \<and> b' = b)
    \<or> (\<exists>s. r = Inl (InvalidAdminAuthority (admin_authority st) (sig_key L s))
      \<and> sig_key L s \<noteq> admin_authority st \<and> b' = b)
    \<or> (\<exists>i. r = Inl HelperPanic \<and> sdk_built rt key st i
      \<and> \<not> tx_fits L b (map fst (open_pack b) @ [enc key i]) \<and> same_packs b b')"
proof -
  obtain guard ss ins where h: "run_helper L enc rt key st h = helper L enc key guard ss ins"
    and p: "helper_parts L rt key st guard ss ins" by (rule run_helper_parts)
  show ?thesis
  proof (cases "guard = Inr ()")
    case True
    then obtain i where i: "ins = Inr i" "set (signers_of i) \<subseteq> sig_key L ` set ss" "sdk_built rt key st i"
      using p assms(2) by (auto simp: helper_parts_def)
    have "add_sdk L enc key (Inr i) d (fold (add_signer L) ss b) = (r, b')"
      using assms(3) by (simp add: h helper_def True i(1))
    from add_sdk_cases [where enc = enc, OF assms(1) i(2) this] i(3) show ?thesis by blast
  next
    case False
    then obtain s where s: "guard = check_manager L s st \<or> guard = check_admin L s st"
      using p by (auto simp: helper_parts_def)
    have e: "\<exists>e. guard = Inl e \<and> r = Inl e \<and> b' = b"
      using assms(3) False by (cases guard) (auto simp: h helper_def)
    from s show ?thesis
    proof
      assume g: "guard = check_manager L s st"
      with False have "sig_key L s \<noteq> manager_authority (validator_system st)"
        by (simp add: check_authority_ok)
      with g e show ?thesis by (auto simp: check_manager_def)
    next
      assume g: "guard = check_admin L s st"
      with False have "sig_key L s \<noteq> admin_authority st" by (simp add: check_authority_ok)
      with g e show ?thesis by (auto simp: check_admin_def)
    qed
  qed
qed

section \<open>Runs\<close>

definition ex_enc :: encoder where
  "ex_enc key i = ex_sign (signers_of i)"

lemma helper_adds_instruction_witness:
  "run_helper ex_lib ex_enc ref_rt ex_key ex_state (HConfigValidatorSystem 40 3) ''c'' (builder_limited ex_lib 1)
     = (Inl (InvalidValidatorManagerAuthority 31 40), builder_limited ex_lib 1)
   \<and> (\<exists>i. sdk_built ref_rt ex_key ex_state i \<and> added (builder_limited ex_lib 1)
      (snd (run_helper ex_lib ex_enc ref_rt ex_key ex_state (HConfigValidatorSystem 31 3) ''c'' (builder_limited ex_lib 1)))
      (ex_enc ex_key i, ''c''))"
proof -
  have e: "signer_keys (ex_enc ex_key i) = set (signers_of i)" for i by (simp add: ex_enc_def)
  have a: "addresses_derivable ref_rt ex_key ex_state" by (simp add: addresses_derivable_def)
  obtain b1 where r1: "run_helper ex_lib ex_enc ref_rt ex_key ex_state (HConfigValidatorSystem 31 3) ''c''
      (builder_limited ex_lib 1) = (Inr (), b1)"
    by (simp add: helper_config_validator_system_def helper_def check_manager_def ex_lib_def
        sdk_config_validator_system_def add_sdk_def add_instruction_cases check_signers_def ex_enc_def
        ex_sign_def builder_limited_def builder_new_def add_signer_def sb_add_signer_def tx_fits_def)
  have r2: "run_helper ex_lib ex_enc ref_rt ex_key ex_state (HConfigValidatorSystem 40 3) ''c''
      (builder_limited ex_lib 1) = (Inl (InvalidValidatorManagerAuthority 31 40), builder_limited ex_lib 1)"
    by (simp add: helper_config_validator_system_def helper_def check_manager_def ex_lib_def)
  show ?thesis
    using helper_adds_instruction [OF e a r1] r1 r2
    by auto
qed

end
