(* ===== verification/InitBuilder.thy ===== *)
theory InitBuilder
  imports Helpers
begin

text \<open>
  The builder of the initialisation (\<open>sdk/offchain/src/instruction_helpers/initialize.rs\<close>): it collects the
  accounts and parameters of a new instance, each at most once, creates or funds the accounts that
  do not exist yet, and finally creates the state account and initialises it in one pack. The
  client's \<open>initialize\<close> (\<open>sdk/onchain/src/lib.rs\<close>) is here too.
\<close>

section \<open>The client's initialize\<close>

record initialize_input =
  ii_state :: pubkey
  ii_stake_list :: pubkey
  ii_validator_list :: pubkey
  ii_msol_mint :: pubkey
  ii_admin_authority :: pubkey
  ii_operational_sol_account :: pubkey
  ii_validator_manager_authority :: pubkey
  ii_treasury_msol_account :: pubkey
  ii_lp_mint :: pubkey
  ii_liq_pool_msol_leg :: pubkey
  ii_min_stake :: u64
  ii_reward_fee :: fee
  ii_lp_liquidity_target :: u64
  ii_lp_max_fee :: fee
  ii_lp_min_fee :: fee
  ii_lp_treasury_cut :: fee
  ii_additional_stake_record_space :: u32
  ii_additional_validator_record_space :: u32
  ii_slots_for_stake_delta :: u64

definition sdk_initialize :: "runtime \<Rightarrow> initialize_input \<Rightarrow> initialize_accounts \<times> initialize_data" where
  "sdk_initialize rt ii =
     (\<lparr>in_creator_authority = CREATOR_AUTHORITY,
       in_reserve_pda = fst (find_reserve_address rt (ii_state ii)),
       in_stake_list = ii_stake_list ii, in_validator_list = ii_validator_list ii,
       in_msol_mint = ii_msol_mint ii, in_operational_sol_account = ii_operational_sol_account ii,
       in_liq_pool = \<lparr>il_lp_mint = ii_lp_mint ii,
         il_sol_leg_pda = fst (find_sol_leg_address rt (ii_state ii)), il_msol_leg = ii_liq_pool_msol_leg ii\<rparr>,
       in_treasury_msol_account = ii_treasury_msol_account ii\<rparr>,
      \<lparr>id_admin_authority = ii_admin_authority ii,
       id_validator_manager_authority = ii_validator_manager_authority ii,
       id_min_stake = ii_min_stake ii, id_reward_fee = ii_reward_fee ii,
       id_liq_pool = \<lparr>ld_lp_liquidity_target = ii_lp_liquidity_target ii, ld_lp_max_fee = ii_lp_max_fee ii,
         ld_lp_min_fee = ii_lp_min_fee ii, ld_lp_treasury_cut = ii_lp_treasury_cut ii\<rparr>,
       id_additional_stake_record_space = ii_additional_stake_record_space ii,
       id_additional_validator_record_space = ii_additional_validator_record_space ii,
       id_slots_for_stake_delta = ii_slots_for_stake_delta ii\<rparr>)"

section \<open>The builder\<close>

datatype init_error =
    InitPanic | WrongCreatorAuthority | MintWithoutAuthority | MintWithFreezeAuthority | MintWithSupply
  | MintOwnerMissing | WrongMintOwner | TooHighBalance | InitTransaction build_error

text \<open>The \<open>OnceCell\<close>s are options; \<open>outside\<close> is the code that is not part of the repository.\<close>

record 's init_builder =
  ib_transaction :: "'s tx_builder"
  ib_state :: pubkey
  ib_msol_mint :: "pubkey option"
  ib_admin_authority :: "pubkey option"
  ib_operational_sol_account :: "pubkey option"
  ib_validator_manager_authority :: "pubkey option"
  ib_stake_list :: "pubkey option"
  ib_validator_list :: "pubkey option"
  ib_min_stake :: "u64 option"
  ib_reward_fee :: "fee option"
  ib_reserve_initialized :: bool
  ib_treasury_msol_account :: "pubkey option"
  ib_lp_mint :: "pubkey option"
  ib_liq_pool_sol_leg_initialized :: bool
  ib_liq_pool_msol_leg :: "pubkey option"
  ib_lp_liquidity_target :: "u64 option"
  ib_lp_max_fee :: "fee option"
  ib_lp_min_fee :: "fee option"
  ib_lp_treasury_cut :: "fee option"
  ib_additional_state_space :: "nat option"
  ib_additional_stake_record_space :: u32
  ib_additional_validator_record_space :: u32
  ib_slots_for_stake_delta :: u64

record 's outside =
  out_lib :: "'s tx_lib"
  out_runtime :: runtime
  out_rent :: "nat \<Rightarrow> u64"
  out_state_len :: nat
  out_set_authority :: "pubkey \<Rightarrow> pubkey \<Rightarrow> pubkey \<Rightarrow> tx_instruction"
  out_encode_init :: "pubkey \<Rightarrow> initialize_accounts \<Rightarrow> initialize_data \<Rightarrow> tx_instruction"

type_synonym ('s, 'a) init = "'s init_builder \<Rightarrow> (init_error + 'a) \<times> 's init_builder"

definition init_new ::
  "'s tx_lib \<Rightarrow> 's tx_builder \<Rightarrow> 's \<Rightarrow> 's \<Rightarrow> init_error + 's init_builder" where
  "init_new L transaction state creator_authority =
     (if sig_key L creator_authority \<noteq> CREATOR_AUTHORITY then Inl WrongCreatorAuthority
      else Inr \<lparr>ib_transaction = add_signer L state (add_signer L creator_authority transaction),
        ib_state = sig_key L state, ib_msol_mint = None, ib_admin_authority = None,
        ib_operational_sol_account = None, ib_validator_manager_authority = None,
        ib_stake_list = None, ib_validator_list = None, ib_min_stake = None, ib_reward_fee = None,
        ib_reserve_initialized = False, ib_treasury_msol_account = None, ib_lp_mint = None,
        ib_liq_pool_sol_leg_initialized = False, ib_liq_pool_msol_leg = None,
        ib_lp_liquidity_target = None, ib_lp_max_fee = None, ib_lp_min_fee = None,
        ib_lp_treasury_cut = None, ib_additional_state_space = None,
        ib_additional_stake_record_space = 8, ib_additional_validator_record_space = 8,
        ib_slots_for_stake_delta = 24000\<rparr>)"

text \<open>\<open>cell.set(v).expect(..)\<close>, and calls of the transaction builder with \<open>unwrap\<close> or \<open>?\<close>.\<close>

definition set_cell ::
  "('s init_builder \<Rightarrow> 'v option) \<Rightarrow> ('v option \<Rightarrow> 's init_builder \<Rightarrow> 's init_builder) \<Rightarrow> 'v \<Rightarrow> ('s, unit) init"
where
  "set_cell get put v b = (case get b of None \<Rightarrow> (Inr (), put (Some v) b) | Some _ \<Rightarrow> (Inl InitPanic, b))"

definition get_cell :: "('s init_builder \<Rightarrow> 'v option) \<Rightarrow> ('s, 'v) init" where
  "get_cell get b = (case get b of None \<Rightarrow> (Inl InitPanic, b) | Some v \<Rightarrow> (Inr v, b))"

definition expect_some :: "'v option \<Rightarrow> ('s, 'v) init" where
  "expect_some c b = (case c of None \<Rightarrow> (Inl InitPanic, b) | Some v \<Rightarrow> (Inr v, b))"

definition tx_unwrap :: "('s, 'a) build \<Rightarrow> ('s, 'a) init" where
  "tx_unwrap m b = (case m (ib_transaction b) of
       (Inl _, t) \<Rightarrow> (Inl InitPanic, b\<lparr>ib_transaction := t\<rparr>)
     | (Inr x, t) \<Rightarrow> (Inr x, b\<lparr>ib_transaction := t\<rparr>))"

definition tx_try :: "('s, 'a) build \<Rightarrow> ('s, 'a) init" where
  "tx_try m b = (case m (ib_transaction b) of
       (Inl e, t) \<Rightarrow> (Inl (InitTransaction e), b\<lparr>ib_transaction := t\<rparr>)
     | (Inr x, t) \<Rightarrow> (Inr x, b\<lparr>ib_transaction := t\<rparr>))"

definition fail_unless :: "bool \<Rightarrow> init_error \<Rightarrow> ('s, unit) init" where
  "fail_unless c e b = (if c then (Inr (), b) else (Inl e, b))"

definition state_signer :: "('s, 's) init" where
  "state_signer b = (case signature_builder (ib_transaction b) (ib_state b) of
     None \<Rightarrow> (Inl InitPanic, b) | Some s \<Rightarrow> (Inr s, b))"

subsection \<open>Mints\<close>

text \<open>
  The checks of an existing mint, and the instruction that hands it over. The current owner's
  keypair is compared with the mint's authority, but not added to the signers.
\<close>

definition take_over_mint ::
  "'s outside \<Rightarrow> pubkey \<Rightarrow> mint \<Rightarrow> 's option \<Rightarrow> pubkey \<Rightarrow> string \<Rightarrow> ('s, unit) init" where
  "take_over_mint X mint_pubkey mt mint_owner new_authority d =
     (case mt_authority mt of
        None \<Rightarrow> (\<lambda>b. (Inl MintWithoutAuthority, b))
      | Some authority \<Rightarrow>
     thenB (fail_unless (mt_freeze mt = None) MintWithFreezeAuthority) (\<lambda>_.
     thenB (fail_unless (\<not> mt_supply mt > 0) MintWithSupply) (\<lambda>_.
     if authority \<noteq> new_authority then
       (case mint_owner of
          None \<Rightarrow> (\<lambda>b. (Inl MintOwnerMissing, b))
        | Some owner \<Rightarrow>
            thenB (fail_unless (sig_key (out_lib X) owner = authority) WrongMintOwner) (\<lambda>_.
            tx_try (add_instruction (out_lib X) (out_set_authority X mint_pubkey new_authority authority) d)))
     else (\<lambda>b. (Inr (), b)))))"

definition use_msol_mint_pubkey :: "pubkey \<Rightarrow> ('s, unit) init" where
  "use_msol_mint_pubkey = set_cell ib_msol_mint (\<lambda>v. ib_msol_mint_update (\<lambda>_. v))"

definition use_msol_mint :: "'s outside \<Rightarrow> pubkey \<Rightarrow> mint \<Rightarrow> 's option \<Rightarrow> string \<Rightarrow> ('s, unit) init" where
  "use_msol_mint X mint_pubkey mt mint_owner d b =
     thenB (fail_unless (ib_msol_mint b = None) InitPanic) (\<lambda>_.
     thenB (take_over_mint X mint_pubkey mt mint_owner
              (fst (find_msol_mint_authority (out_runtime X) (ib_state b))) d) (\<lambda>_.
     set_cell ib_msol_mint (\<lambda>v. ib_msol_mint_update (\<lambda>_. v)) mint_pubkey)) b"

definition create_msol_mint :: "'s outside \<Rightarrow> 's \<Rightarrow> string \<Rightarrow> string \<Rightarrow> ('s, unit) init" where
  "create_msol_mint X mint d1 d2 b =
     thenB (set_cell ib_msol_mint (\<lambda>v. ib_msol_mint_update (\<lambda>_. v)) (sig_key (out_lib X) mint)) (\<lambda>_.
     tx_unwrap (create_mint_account (out_lib X) mint
       (fst (find_msol_mint_authority (out_runtime X) (ib_state b))) None (out_rent X) d1 d2)) b"

definition use_lp_mint_pubkey :: "pubkey \<Rightarrow> ('s, unit) init" where
  "use_lp_mint_pubkey = set_cell ib_lp_mint (\<lambda>v. ib_lp_mint_update (\<lambda>_. v))"

definition use_lp_mint :: "'s outside \<Rightarrow> pubkey \<Rightarrow> mint \<Rightarrow> 's option \<Rightarrow> string \<Rightarrow> ('s, unit) init" where
  "use_lp_mint X mint_pubkey mt mint_owner d b =
     thenB (fail_unless (ib_lp_mint b = None) InitPanic) (\<lambda>_.
     thenB (take_over_mint X mint_pubkey mt mint_owner
              (fst (find_lp_mint_authority (out_runtime X) (ib_state b))) d) (\<lambda>_.
     set_cell ib_lp_mint (\<lambda>v. ib_lp_mint_update (\<lambda>_. v)) mint_pubkey)) b"

definition create_lp_mint :: "'s outside \<Rightarrow> 's \<Rightarrow> string \<Rightarrow> string \<Rightarrow> ('s, unit) init" where
  "create_lp_mint X mint d1 d2 b =
     thenB (set_cell ib_lp_mint (\<lambda>v. ib_lp_mint_update (\<lambda>_. v)) (sig_key (out_lib X) mint)) (\<lambda>_.
     tx_unwrap (create_mint_account (out_lib X) mint
       (fst (find_lp_mint_authority (out_runtime X) (ib_state b))) None (out_rent X) d1 d2)) b"

subsection \<open>Lists\<close>

definition use_stake_list :: "pubkey \<Rightarrow> ('s, unit) init" where
  "use_stake_list = set_cell ib_stake_list (\<lambda>v. ib_stake_list_update (\<lambda>_. v))"

definition list_bytes :: "u32 result \<Rightarrow> ('s, nat) init" where
  "list_bytes r b = (case r of Inl _ \<Rightarrow> (Inl InitPanic, b) | Inr n \<Rightarrow> (Inr (unat n), b))"

definition create_stake_list :: "'s outside \<Rightarrow> 's \<Rightarrow> u32 \<Rightarrow> string \<Rightarrow> ('s, unit) init" where
  "create_stake_list X stake_list_signer max_stake_count d b =
     thenB (use_stake_list (sig_key (out_lib X) stake_list_signer)) (\<lambda>_.
     thenB (list_bytes (stake_bytes_for_list (out_runtime X) max_stake_count
              (ib_additional_stake_record_space b))) (\<lambda>n.
     tx_unwrap (create_account_tx (out_lib X) stake_list_signer n ID (out_rent X) d))) b"

definition create_stake_list_with_seed :: "'s outside \<Rightarrow> u32 \<Rightarrow> string \<Rightarrow> ('s, pubkey) init" where
  "create_stake_list_with_seed X max_stake_count d b =
     (case default_stake_list_address (out_runtime X) (ib_state b) of
        Inl _ \<Rightarrow> (Inl InitPanic, b)
      | Inr k \<Rightarrow>
     thenB (use_stake_list k) (\<lambda>_.
     thenB state_signer (\<lambda>s.
     thenB (list_bytes (stake_bytes_for_list (out_runtime X) max_stake_count
              (ib_additional_stake_record_space b))) (\<lambda>n.
     thenB (tx_unwrap (create_account_with_seed (out_lib X) s STAKE_LIST_SEED n ID (out_rent X) d)) (\<lambda>a.
     thenB (fail_unless (a = k) InitPanic) (\<lambda>_ b. (Inr k, b)))))) b)"

definition use_validator_list :: "pubkey \<Rightarrow> ('s, unit) init" where
  "use_validator_list = set_cell ib_validator_list (\<lambda>v. ib_validator_list_update (\<lambda>_. v))"

definition create_validator_list :: "'s outside \<Rightarrow> 's \<Rightarrow> u32 \<Rightarrow> string \<Rightarrow> ('s, unit) init" where
  "create_validator_list X validator_list_signer max_validator_count d b =
     thenB (use_validator_list (sig_key (out_lib X) validator_list_signer)) (\<lambda>_.
     thenB (list_bytes (validator_bytes_for_list (out_runtime X) max_validator_count
              (ib_additional_validator_record_space b))) (\<lambda>n.
     tx_unwrap (create_account_tx (out_lib X) validator_list_signer n ID (out_rent X) d))) b"

definition create_validator_list_with_seed :: "'s outside \<Rightarrow> u32 \<Rightarrow> string \<Rightarrow> ('s, pubkey) init" where
  "create_validator_list_with_seed X max_validator_count d b =
     (case default_validator_list_address (out_runtime X) (ib_state b) of
        Inl _ \<Rightarrow> (Inl InitPanic, b)
      | Inr k \<Rightarrow>
     thenB (use_validator_list k) (\<lambda>_.
     thenB state_signer (\<lambda>s.
     thenB (list_bytes (validator_bytes_for_list (out_runtime X) max_validator_count
              (ib_additional_validator_record_space b))) (\<lambda>n.
     thenB (tx_unwrap (create_account_with_seed (out_lib X) s VALIDATOR_LIST_SEED n ID (out_rent X) d)) (\<lambda>a.
     thenB (fail_unless (a = k) InitPanic) (\<lambda>_ b. (Inr k, b)))))) b)"

subsection \<open>Addresses, authorities and parameters\<close>

definition set_admin_authority :: "pubkey \<Rightarrow> ('s, unit) init" where
  "set_admin_authority = set_cell ib_admin_authority (\<lambda>v. ib_admin_authority_update (\<lambda>_. v))"

definition use_validator_manager_authority :: "pubkey \<Rightarrow> ('s, unit) init" where
  "use_validator_manager_authority =
     set_cell ib_validator_manager_authority (\<lambda>v. ib_validator_manager_authority_update (\<lambda>_. v))"

definition set_operational_sol_account :: "pubkey \<Rightarrow> ('s, unit) init" where
  "set_operational_sol_account =
     set_cell ib_operational_sol_account (\<lambda>v. ib_operational_sol_account_update (\<lambda>_. v))"

definition set_min_stake :: "u64 \<Rightarrow> ('s, unit) init" where
  "set_min_stake = set_cell ib_min_stake (\<lambda>v. ib_min_stake_update (\<lambda>_. v))"

definition set_reward_fee :: "fee \<Rightarrow> ('s, unit) init" where
  "set_reward_fee = set_cell ib_reward_fee (\<lambda>v. ib_reward_fee_update (\<lambda>_. v))"

definition set_additional_state_space :: "nat \<Rightarrow> ('s, unit) init" where
  "set_additional_state_space =
     set_cell ib_additional_state_space (\<lambda>v. ib_additional_state_space_update (\<lambda>_. v))"

definition set_slots_for_stake_delta :: "u64 \<Rightarrow> 's init_builder \<Rightarrow> 's init_builder" where
  "set_slots_for_stake_delta n b = b\<lparr>ib_slots_for_stake_delta := n\<rparr>"

subsection \<open>Funding the accounts that hold SOL\<close>

text \<open>The part that \<open>init_reserve\<close> and \<open>init_liq_pool_sol_leg\<close> share: fund up to the rent of a token account.\<close>

definition fund_up_to_rent :: "'s outside \<Rightarrow> pubkey \<Rightarrow> u64 \<Rightarrow> string \<Rightarrow> ('s, unit) init" where
  "fund_up_to_rent X k current_balance d b =
     (let target_balance = out_rent X (token_account_len (out_lib X)) in
      if current_balance > target_balance then (Inl TooHighBalance, b)
      else if current_balance < target_balance then
        (case signature_builder (ib_transaction b) (fee_payer (ib_transaction b)) of
           None \<Rightarrow> (Inl InitPanic, b)
         | Some payer \<Rightarrow>
             tx_unwrap (transfer_lamports (out_lib X) payer k (target_balance - current_balance) d) b)
      else (Inr (), b))"

definition init_reserve :: "'s outside \<Rightarrow> u64 \<Rightarrow> string \<Rightarrow> ('s, unit) init" where
  "init_reserve X current_balance d b =
     thenB (fail_unless (\<not> ib_reserve_initialized b) InitPanic) (\<lambda>_.
     thenB (fund_up_to_rent X (fst (find_reserve_address (out_runtime X) (ib_state b))) current_balance d)
       (\<lambda>_ b'. (Inr (), b'\<lparr>ib_reserve_initialized := True\<rparr>))) b"

definition assume_reserve_initialized :: "'s init_builder \<Rightarrow> 's init_builder" where
  "assume_reserve_initialized b = b\<lparr>ib_reserve_initialized := True\<rparr>"

definition init_liq_pool_sol_leg :: "'s outside \<Rightarrow> u64 \<Rightarrow> string \<Rightarrow> ('s, unit) init" where
  "init_liq_pool_sol_leg X current_balance d b =
     thenB (fail_unless (\<not> ib_liq_pool_sol_leg_initialized b) InitPanic) (\<lambda>_.
     thenB (fund_up_to_rent X (fst (find_sol_leg_address (out_runtime X) (ib_state b))) current_balance d)
       (\<lambda>_ b'. (Inr (), b'\<lparr>ib_liq_pool_sol_leg_initialized := True\<rparr>))) b"

subsection \<open>Token accounts\<close>

definition use_liq_pool_msol_leg :: "pubkey \<Rightarrow> ('s, unit) init" where
  "use_liq_pool_msol_leg = set_cell ib_liq_pool_msol_leg (\<lambda>v. ib_liq_pool_msol_leg_update (\<lambda>_. v))"

definition create_liq_pool_msol_leg :: "'s outside \<Rightarrow> 's \<Rightarrow> string \<Rightarrow> string \<Rightarrow> ('s, unit) init" where
  "create_liq_pool_msol_leg X leg d1 d2 b =
     thenB (use_liq_pool_msol_leg (sig_key (out_lib X) leg)) (\<lambda>_.
     thenB (get_cell ib_msol_mint) (\<lambda>mint_key.
     tx_unwrap (create_token_account (out_lib X) leg mint_key
       (fst (find_msol_leg_authority (out_runtime X) (ib_state b))) (out_rent X) d1 d2))) b"

definition create_liq_pool_msol_leg_with_seed :: "'s outside \<Rightarrow> string \<Rightarrow> string \<Rightarrow> ('s, pubkey) init" where
  "create_liq_pool_msol_leg_with_seed X d1 d2 b =
     (case default_msol_leg_address (out_runtime X) (ib_state b) of
        Inl _ \<Rightarrow> (Inl InitPanic, b)
      | Inr k \<Rightarrow>
     thenB (use_liq_pool_msol_leg k) (\<lambda>_.
     thenB state_signer (\<lambda>s.
     thenB (get_cell ib_msol_mint) (\<lambda>mint_key.
     thenB (tx_unwrap (create_token_account_with_seed (out_lib X) s MSOL_LEG_SEED mint_key
              (fst (find_msol_leg_authority (out_runtime X) (ib_state b))) (out_rent X) d1 d2)) (\<lambda>a.
     thenB (fail_unless (a = k) InitPanic) (\<lambda>_ b. (Inr k, b)))))) b)"

definition use_treasury_msol_account :: "pubkey \<Rightarrow> ('s, unit) init" where
  "use_treasury_msol_account =
     set_cell ib_treasury_msol_account (\<lambda>v. ib_treasury_msol_account_update (\<lambda>_. v))"

definition default_treasury_msol_account :: "'s outside \<Rightarrow> pubkey \<Rightarrow> ('s, pubkey) init" where
  "default_treasury_msol_account X authority =
     thenB (get_cell ib_msol_mint) (\<lambda>mint_key b. (Inr (ata_address (out_lib X) authority mint_key), b))"

definition create_treasury_msol_account :: "'s outside \<Rightarrow> pubkey \<Rightarrow> string \<Rightarrow> ('s, pubkey) init" where
  "create_treasury_msol_account X authority d =
     thenB (get_cell ib_msol_mint) (\<lambda>mint_key.
     thenB (default_treasury_msol_account X authority) (\<lambda>k.
     thenB (use_treasury_msol_account k) (\<lambda>_.
     thenB (tx_unwrap (create_associated_token_account (out_lib X) authority mint_key d)) (\<lambda>a.
     thenB (fail_unless (a = k) InitPanic) (\<lambda>_ b. (Inr k, b))))))"

section \<open>Building\<close>

definition LAMPORTS_PER_SOL :: u64 where
  "LAMPORTS_PER_SOL = 1000000000"

definition or_default :: "'a option \<Rightarrow> 'a \<Rightarrow> 'a" where
  "or_default c v = (case c of None \<Rightarrow> v | Some x \<Rightarrow> x)"

text \<open>The collected input; \<open>None\<close> where a cell without default is empty (\<open>expect\<close>).\<close>

definition init_input :: "'s init_builder \<Rightarrow> initialize_input option" where
  "init_input b =
     (case (ib_stake_list b, ib_validator_list b, ib_msol_mint b, ib_admin_authority b,
        ib_operational_sol_account b, ib_validator_manager_authority b, ib_treasury_msol_account b,
        ib_lp_mint b, ib_liq_pool_msol_leg b, ib_reward_fee b) of
        (Some sl, Some vl, Some mint_key, Some admin, Some op, Some manager, Some treasury, Some lpm, Some leg,
         Some rfee) \<Rightarrow>
          Some \<lparr>ii_state = ib_state b, ii_stake_list = sl, ii_validator_list = vl, ii_msol_mint = mint_key,
            ii_admin_authority = admin, ii_operational_sol_account = op,
            ii_validator_manager_authority = manager, ii_treasury_msol_account = treasury,
            ii_lp_mint = lpm, ii_liq_pool_msol_leg = leg,
            ii_min_stake = or_default (ib_min_stake b) LAMPORTS_PER_SOL, ii_reward_fee = rfee,
            ii_lp_liquidity_target = or_default (ib_lp_liquidity_target b) (10000 * LAMPORTS_PER_SOL),
            ii_lp_max_fee = or_default (ib_lp_max_fee b) (from_basis_points 300),
            ii_lp_min_fee = or_default (ib_lp_min_fee b) (from_basis_points 30),
            ii_lp_treasury_cut = or_default (ib_lp_treasury_cut b) (from_basis_points 2500),
            ii_additional_stake_record_space = ib_additional_stake_record_space b,
            ii_additional_validator_record_space = ib_additional_validator_record_space b,
            ii_slots_for_stake_delta = ib_slots_for_stake_delta b\<rparr>
      | _ \<Rightarrow> None)"

definition init_build :: "'s outside \<Rightarrow> string \<Rightarrow> string \<Rightarrow> ('s, unit) init" where
  "init_build X d1 d2 b =
     thenB (tx_unwrap begin_pack) (\<lambda>_.
     thenB state_signer (\<lambda>s.
     thenB (tx_unwrap (create_account_tx (out_lib X) s
              (out_state_len X + or_default (ib_additional_state_space b) 2048) ID (out_rent X) d1)) (\<lambda>_.
     thenB (expect_some (init_input b)) (\<lambda>ii.
     thenB (tx_unwrap (add_instruction (out_lib X)
              (out_encode_init X (ib_state b) (fst (sdk_initialize (out_runtime X) ii))
                 (snd (sdk_initialize (out_runtime X) ii))) d2)) (\<lambda>_.
     tx_unwrap commit_pack))))) b"

section \<open>Lemmas\<close>

lemma thenB_Inr:
  "thenB m f b = (Inr y, b2) \<longleftrightarrow> (\<exists>x b1. m b = (Inr x, b1) \<and> f x b1 = (Inr y, b2))"
  by (auto simp: thenB_def split: prod.splits sum.splits)

lemma set_cell_Inr: "set_cell get put v b = (Inr u, b') \<longleftrightarrow> get b = None \<and> b' = put (Some v) b"
  by (auto simp: set_cell_def split: option.splits)

lemma get_cell_Inr: "get_cell get b = (Inr v, b') \<longleftrightarrow> get b = Some v \<and> b' = b"
  by (auto simp: get_cell_def split: option.splits)

lemma expect_some_Inr: "expect_some c b = (Inr v, b') \<longleftrightarrow> c = Some v \<and> b' = b"
  by (auto simp: expect_some_def split: option.splits)

lemma tx_unwrap_Inr:
  "tx_unwrap m b = (Inr x, b') \<longleftrightarrow> (\<exists>t. m (ib_transaction b) = (Inr x, t) \<and> b' = b\<lparr>ib_transaction := t\<rparr>)"
  by (auto simp: tx_unwrap_def split: prod.splits sum.splits)

lemma fail_unless_Inr: "fail_unless c e b = (Inr u, b') \<longleftrightarrow> c \<and> b' = b"
  by (auto simp: fail_unless_def)

lemma state_signer_Inr:
  "state_signer b = (Inr s, b') \<longleftrightarrow> signature_builder (ib_transaction b) (ib_state b) = Some s \<and> b' = b"
  by (auto simp: state_signer_def split: option.splits)

lemma list_bytes_Inr: "list_bytes r b = (Inr n, b') \<longleftrightarrow> (\<exists>m. r = Inr m \<and> n = unat m) \<and> b' = b"
  by (auto simp: list_bytes_def split: sum.splits)

lemma begin_pack_Inr:
  "begin_pack t = (Inr u, t') \<longleftrightarrow> current_pack t = None \<and> t' = t\<lparr>current_pack := Some []\<rparr>"
  by (auto simp: begin_pack_def split: option.splits)

lemmas init_simps = thenB_Inr set_cell_Inr get_cell_Inr expect_some_Inr tx_unwrap_Inr fail_unless_Inr state_signer_Inr
  list_bytes_Inr begin_pack_Inr

lemma add_instruction_Inr:
  assumes "add_instruction L i d b = (Inr u, b')"
  shows "added b b' (i, d) \<and> signature_builder b' = signature_builder b \<and> fee_payer b' = fee_payer b
    \<and> max_transaction_size b' = max_transaction_size b
    \<and> instructions_known (signature_builder b) [i] \<and> tx_fits L b (map fst (open_pack b) @ [i])"
proof -
  obtain v where v: "check_signers b i = Inr v"
    using assms by (cases "check_signers b i") (auto simp: add_instruction_cases)
  have fits: "tx_fits L b (map fst (open_pack b) @ [i])"
    using assms v by (auto simp: add_instruction_cases split: if_splits)
  have "instructions_known (signature_builder b) [i]"
    using v by (simp add: instructions_known_def check_signers_Inr)
  with fits show ?thesis
    using assms v by (cases "current_pack b"; clarsimp simp: add_instruction_cases added_def)
qed

lemma create_account_Inr:
  assumes "create_account_tx L s n ow rent d b = (Inr u, b')"
  shows "added b b' (sys_create_account L (fee_payer b) (sig_key L s) (rent n) n ow, d)"
  using add_instruction_Inr [OF assms [unfolded create_account_tx_def]]
  by (simp add: added_def split: option.splits)

text \<open>An account of \<open>bytes_for\<close> bytes holds exactly the records it was computed for.\<close>

lemma bytes_for_capacity:
  assumes "bytes_for sz cnt = Inr n" and "sz \<noteq> 0" and "item_size l = sz"
  shows "capacity l (unat n) = Inr cnt"
proof -
  have n: "unat n = 8 + unat cnt * unat sz"
    using assms(1) by (auto simp: bytes_for_def bindR_Inr result_simps)
  have small: "unat cnt * unat sz < 2 ^ 32" using n unat_u32_less [of n] by simp
  have pos: "unat sz \<noteq> 0" using assms(2) by (simp add: unat_eq_0)
  have "unat (word_of_nat (unat cnt * unat sz) :: u32) = unat cnt * unat sz"
    using small by (intro unat_of_nat_small) simp
  then have "unat ((word_of_nat (unat cnt * unat sz) :: u32) div sz) = unat cnt"
    by (simp only: unat_div_distrib nonzero_mult_div_cancel_right [OF pos])
  then have q: "(word_of_nat (unat cnt * unat sz) :: u32) div sz = cnt" by (rule unat_eqD)
  have m: "unat n - 8 = unat cnt * unat sz" and le: "8 \<le> unat n" using n by simp_all
  show ?thesis
    unfolding capacity_def m assms(3) using le small assms(2) q by simp
qed

lemma init_input_transaction [simp]: "init_input (b\<lparr>ib_transaction := t\<rparr>) = init_input b"
  by (cases b, hypsubst, unfold init_input_def init_builder.simps, rule refl)

lemma list_new_size:
  "list_new disc sz acc d = Inr (l, d') \<Longrightarrow> length disc = 8 \<Longrightarrow> item_size l = sz \<and> length d' = length d"
  by (auto simp: list_new_def init_account_def bindR_Inr require_def split: if_splits)

section \<open>Properties\<close>

text \<open>
  C32. The list account that the builder creates for \<open>n\<close> stakes holds exactly \<open>n\<close> stake records once the
  program has initialised it with the same additional record space: sizes computed by the
  client and capacities computed by the program agree.
\<close>
theorem created_list_holds:
  assumes "marinade_runtime rt" and "stake_record_len rt < 2 ^ 32" and "out_runtime X = rt"
    and "create_stake_list X s n d b = (Inr u, b')"
  shows "\<exists>m. stake_bytes_for_list rt n (ib_additional_stake_record_space b) = Inr m
    \<and> added (ib_transaction b) (ib_transaction b')
      (sys_create_account (out_lib X) (fee_payer (ib_transaction b)) (sig_key (out_lib X) s)
        (out_rent X (unat m)) (unat m) ID, d)
    \<and> ib_stake_list b' = Some (sig_key (out_lib X) s)
    \<and> (\<forall>key data slots ms runs ss data'. length data = unat m \<and>
        stake_system_new rt key (sig_key (out_lib X) s) data slots ms runs
          (ib_additional_stake_record_space b) = Inr (ss, data') \<longrightarrow>
        capacity (stake_list ss) (length data') = Inr n)"
proof -
  let ?k = "sig_key (out_lib X) s" and ?extra = "ib_additional_stake_record_space b"
  obtain m t where m: "stake_bytes_for_list rt n ?extra = Inr m"
    and t: "create_account_tx (out_lib X) s (unat m) ID (out_rent X) d (ib_transaction b) = (Inr u, t)"
    and b': "b' = b\<lparr>ib_stake_list := Some ?k, ib_transaction := t\<rparr>"
    using assms(3,4) by (auto simp: create_stake_list_def use_stake_list_def init_simps)
  have cap: "capacity (stake_list ss) (length data') = Inr n"
    if len: "length data = unat m"
      and new: "stake_system_new rt key ?k data slots ms runs ?extra = Inr (ss, data')"
    for key data slots ms runs ss data'
  proof -
    obtain sz where sz: "padd (word_of_nat (stake_record_len rt)) ?extra = Inr sz"
      and l: "list_new STAKE_DISCRIMINATOR sz ?k data = Inr (stake_list ss, data')"
      using new by (rule stake_system_new_Inr)
    have "bytes_for sz n = Inr m" using m sz by (simp add: stake_bytes_for_list_def)
    moreover have "0 < stake_record_len rt"
      using assms(1) marinade_runtime.axioms(1) codec.codec_pos by blast
    then have "sz \<noteq> 0"
      using sz assms(2) unat_of_nat_small [of "stake_record_len rt", where 'a = 32]
      by (auto simp: result_simps)
    ultimately show ?thesis
      using list_new_size [OF l] bytes_for_capacity len by simp
  qed
  have "added (ib_transaction b) (ib_transaction b')
      (sys_create_account (out_lib X) (fee_payer (ib_transaction b)) ?k (out_rent X (unat m)) (unat m) ID, d)"
    using create_account_Inr [OF t] by (simp add: b')
  then show ?thesis using cap m by (intro exI [of _ m]) (auto simp: b')
qed

text \<open>
  A successful \<open>build\<close> puts the creation of the state account and its initialisation into one pack
  of their own, so that no transaction creates the account without initialising it; every
  parameter without a default has been given.
\<close>
theorem init_build_one_pack:
  assumes "init_build X d1 d2 b = (Inr u, b')"
  shows "\<exists>ii s space. init_input b = Some ii
    \<and> instruction_packs (ib_transaction b') = instruction_packs (ib_transaction b) @
        [[(sys_create_account (out_lib X) (fee_payer (ib_transaction b)) (sig_key (out_lib X) s)
             (out_rent X space) space ID, d1),
          (out_encode_init X (ib_state b) (fst (sdk_initialize (out_runtime X) ii))
             (snd (sdk_initialize (out_runtime X) ii)), d2)]]
    \<and> current_pack (ib_transaction b') = None
    \<and> signature_builder (ib_transaction b) (ib_state b) = Some s"
proof -
  let ?L = "out_lib X" and ?space = "out_state_len X + or_default (ib_additional_state_space b) 2048"
  let ?t = "ib_transaction b" and ?begun = "(ib_transaction b)\<lparr>current_pack := Some []\<rparr>"
  let ?init = "\<lambda>ii. out_encode_init X (ib_state b) (fst (sdk_initialize (out_runtime X) ii))
    (snd (sdk_initialize (out_runtime X) ii))"
  have "\<exists>s t1 ii t2. signature_builder ?t (ib_state b) = Some s \<and> init_input b = Some ii
    \<and> create_account_tx ?L s ?space ID (out_rent X) d1 ?begun = (Inr (), t1)
    \<and> add_instruction ?L (?init ii) d2 t1 = (Inr (), t2)
    \<and> commit_pack t2 = (Inr (), ib_transaction b')"
    using assms by (auto simp: init_build_def init_simps)
  then obtain s t1 ii t2 where s: "signature_builder ?t (ib_state b) = Some s"
    and ii: "init_input b = Some ii"
    and t1: "create_account_tx ?L s ?space ID (out_rent X) d1 ?begun = (Inr (), t1)"
    and t2: "add_instruction ?L (?init ii) d2 t1 = (Inr (), t2)"
    and "commit_pack t2 = (Inr (), ib_transaction b')"
    by blast
  then have b': "ib_transaction b' = snd (commit_pack t2)" by simp
  show ?thesis
    using create_account_Inr [OF t1] add_instruction_Inr [OF t2] b' s ii
    by (auto simp: added_def commit_pack_def)
qed

text \<open>
  What a builder without special pool parameters hands to the program is valid: its fees pass the
  checks of the initialisation, and as soon as the reward fee is within its limit, the accounts it
  derives pass too, so that the checks before the lists depend only on the state of the chain.
\<close>
theorem built_parameters_accepted:
  assumes "init_input b = Some ii" and "sdk_initialize rt ii = (ac, data)"
    and "ib_lp_max_fee b = None" and "ib_lp_min_fee b = None" and "ib_lp_treasury_cut b = None"
    and "basis_points (ii_reward_fee ii) \<le> MAX_REWARD_FEE"
  shows "check_fees (ld_lp_min_fee (id_liq_pool data)) (ld_lp_max_fee (id_liq_pool data)) = Inr ()
    \<and> fee_check (ld_lp_treasury_cut (id_liq_pool data)) = Inr ()
    \<and> ((\<exists>st. initialize_checks rt (ib_state b) ac mt treasury data w state_zero = Inr st) \<longleftrightarrow>
        acc_owner w (in_reserve_pda ac) = rt_system_program rt
        \<and> acc_lamports w (in_reserve_pda ac) = rt_minimum_balance rt (rt_token_account_len rt)
        \<and> acc_owner w (in_msol_mint ac) = rt_spl_token rt
        \<and> mt_authority mt = Some (fst (find_msol_mint_authority rt (ib_state b)))
        \<and> mt_supply mt = 0 \<and> mt_freeze mt = None
        \<and> check_treasury_accounts rt ac treasury w = Inr ()
        \<and> acc_owner w (in_operational_sol_account ac) = rt_system_program rt
        \<and> acc_owner w (in_stake_list ac) = ID \<and> acc_owner w (in_validator_list ac) = ID)"
proof -
  have i: "ii_state ii = ib_state b" "ii_lp_max_fee ii = from_basis_points 300"
    "ii_lp_min_fee ii = from_basis_points 30" "ii_lp_treasury_cut ii = from_basis_points 2500"
    using assms(1,3-5) by (auto simp: init_input_def or_default_def split: option.splits)
  have a: "in_creator_authority ac = CREATOR_AUTHORITY"
    "in_reserve_pda ac = fst (find_reserve_address rt (ib_state b))"
    "id_reward_fee data = ii_reward_fee ii" "id_liq_pool data
      = \<lparr>ld_lp_liquidity_target = ii_lp_liquidity_target ii, ld_lp_max_fee = from_basis_points 300,
         ld_lp_min_fee = from_basis_points 30, ld_lp_treasury_cut = from_basis_points 2500\<rparr>"
    using assms(2) i by (auto simp: sdk_initialize_def)
  have p: "(\<exists>st. initialize_checks rt (ib_state b) ac mt treasury data w state_zero = Inr st) \<longleftrightarrow>
        acc_owner w (in_reserve_pda ac) = rt_system_program rt
        \<and> acc_lamports w (in_reserve_pda ac) = rt_minimum_balance rt (rt_token_account_len rt)
        \<and> acc_owner w (in_msol_mint ac) = rt_spl_token rt
        \<and> mt_authority mt = Some (fst (find_msol_mint_authority rt (ib_state b)))
        \<and> mt_supply mt = 0 \<and> mt_freeze mt = None
        \<and> check_treasury_accounts rt ac treasury w = Inr ()
        \<and> acc_owner w (in_operational_sol_account ac) = rt_system_program rt
        \<and> acc_owner w (in_stake_list ac) = ID \<and> acc_owner w (in_validator_list ac) = ID"
    using assms(6)
    by (auto simp: a initialize_checks_def check_reserve_pda_def initialize_check_msol_mint_def
        fee_check_max_def bindR_Inr check_defs Let_def split: prod.splits)
  have f: "check_fees (from_basis_points 30) (from_basis_points 300) = Inr ()"
    "fee_check (from_basis_points 2500) = Inr ()"
    by (simp_all add: check_fees_def fee_check_def fee_check_max_def from_basis_points_def)
  show ?thesis using p f by (simp add: a)
qed

text \<open>
  Handing an existing mint over to the program never works unless its owner's key happens to be a
  signer already: the keypair that is passed for exactly this purpose is compared, but not added
  to the signers, so the builder refuses the instruction with an unknown signer.
\<close>
theorem mint_take_over_fails:
  assumes "\<And>m n a. a \<in> signer_keys (out_set_authority X m n a)"
    and "mt_authority mt = Some authority" and "mt_freeze mt = None" and "mt_supply mt = 0"
    and "authority \<noteq> fst (find_msol_mint_authority (out_runtime X) (ib_state b))"
    and "sig_key (out_lib X) owner = authority" and "ib_msol_mint b = None"
    and "signature_builder (ib_transaction b) authority = None"
  shows "\<exists>k b'. use_msol_mint X m mt (Some owner) d b = (Inl (InitTransaction (UnknownSigner k)), b')"
proof -
  let ?i = "out_set_authority X m (fst (find_msol_mint_authority (out_runtime X) (ib_state b))) authority"
  have "check_signers (ib_transaction b) ?i \<noteq> Inr ()"
    using assms(1,8) by (auto simp: check_signers_Inr)
  then obtain e where "check_signers (ib_transaction b) ?i = Inl e"
    by (cases "check_signers (ib_transaction b) ?i") auto
  with check_signers_Inl [OF this] obtain k where k: "check_signers (ib_transaction b) ?i = Inl (UnknownSigner k)"
    by auto
  show ?thesis using assms k
    by (simp add: use_msol_mint_def take_over_mint_def fail_unless_def thenB_def tx_try_def
        add_instruction_cases)
qed

section \<open>Runs\<close>

definition ex_out :: "pubkey outside" where
  "ex_out = \<lparr>out_lib = ex_lib, out_runtime = ref_rt, out_rent = (\<lambda>_. 100), out_state_len = 500,
     out_set_authority = (\<lambda>m n a. ex_sign [a]),
     out_encode_init = (\<lambda>k ac d. ex_sign [CREATOR_AUTHORITY])\<rparr>"

definition ex_init_tx :: "pubkey tx_builder" where
  "ex_init_tx = add_signer ex_lib 50 (add_signer ex_lib CREATOR_AUTHORITY (builder_limited ex_lib 1))"

text \<open>Everything is given but the stake list.\<close>

definition ex_ib :: "pubkey init_builder" where
  "ex_ib = \<lparr>ib_transaction = ex_init_tx, ib_state = 50, ib_msol_mint = Some 10,
     ib_admin_authority = Some 30, ib_operational_sol_account = Some 14,
     ib_validator_manager_authority = Some 31, ib_stake_list = None, ib_validator_list = Some 21,
     ib_min_stake = None, ib_reward_fee = Some (from_basis_points 200), ib_reserve_initialized = True,
     ib_treasury_msol_account = Some 13, ib_lp_mint = Some 12, ib_liq_pool_sol_leg_initialized = True,
     ib_liq_pool_msol_leg = Some 11, ib_lp_liquidity_target = None, ib_lp_max_fee = None,
     ib_lp_min_fee = None, ib_lp_treasury_cut = None, ib_additional_state_space = None,
     ib_additional_stake_record_space = 8, ib_additional_validator_record_space = 8,
     ib_slots_for_stake_delta = 24000\<rparr>"

lemma ex_out_sel [simp]:
  "out_lib ex_out = ex_lib" "out_runtime ex_out = ref_rt" "out_rent ex_out n = 100"
  "out_state_len ex_out = 500" "out_encode_init ex_out k ac d = ex_sign [CREATOR_AUTHORITY]"
  by (simp_all add: ex_out_def)

lemma ex_creator [simp]: "CREATOR_AUTHORITY \<noteq> 1" "CREATOR_AUTHORITY \<noteq> 20" "CREATOR_AUTHORITY \<noteq> 50"
  "1 \<noteq> CREATOR_AUTHORITY" "20 \<noteq> CREATOR_AUTHORITY" "50 \<noteq> CREATOR_AUTHORITY"
  by (simp_all add: CREATOR_AUTHORITY_def pubkey_new_from_array_def)

lemma ex_ib_tx [simp]: "ib_transaction ex_ib = ex_init_tx" "ib_state ex_ib = 50"
  "ib_stake_list ex_ib = None" "ib_additional_stake_record_space ex_ib = 8"
  "ib_additional_state_space ex_ib = None"
  by (simp_all add: ex_ib_def)

lemma ex_init_tx_eq: "ex_init_tx = \<lparr>fee_payer = 1,
    signature_builder = [1 \<mapsto> 1, CREATOR_AUTHORITY \<mapsto> CREATOR_AUTHORITY, 50 \<mapsto> 50],
    instruction_packs = [], current_pack = None, max_transaction_size = 1232\<rparr>"
  by (simp add: ex_init_tx_def builder_limited_def builder_new_def add_signer_def sb_add_signer_def ex_lib_def)

lemma ex_stake_bytes: "stake_bytes_for_list ref_rt 10 8 = Inr 578"
  by (simp add: stake_bytes_for_list_def bytes_for_def run_simps)

lemmas ex_build_simps = ex_init_tx_eq add_signer_def sb_add_signer_def
  create_account_tx_def add_built_def add_instruction_cases check_signers_def ex_sign_def tx_fits_def ex_lib_def
  begin_pack_def commit_pack_def

lemma created_list_holds_witness:
  "\<exists>ss data'. stake_system_new ref_rt ex_key 20 (replicate 578 0) 24000 1000 0 8 = Inr (ss, data')
    \<and> capacity (stake_list ss) (length data') = Inr 10"
proof -
  obtain b' where r: "create_stake_list ex_out 20 10 ''stakes'' ex_ib = (Inr (), b')"
    and i: "instruction_packs (ib_transaction b') \<noteq> []"
    by (simp add: create_stake_list_def use_stake_list_def set_cell_def thenB_def list_bytes_def
        ex_stake_bytes tx_unwrap_def ex_build_simps)
  obtain ss data' where s: "stake_system_new ref_rt ex_key 20 (replicate 578 0) 24000 1000 0 8 = Inr (ss, data')"
    by (simp add: stake_system_new_def list_new_def init_account_def run_simps)
  have k: "sig_key ex_lib 20 = 20" by (simp add: ex_lib_def)
  have "\<forall>key data slots ms runs ss data'. length data = 578 \<and>
      stake_system_new ref_rt key 20 data slots ms runs 8 = Inr (ss, data') \<longrightarrow>
      capacity (stake_list ss) (length data') = Inr 10"
    using created_list_holds [OF ref.marinade_runtime_axioms _ _ r] ex_stake_bytes by (auto simp: k)
  from this [rule_format, OF conjI, OF _ s] s show ?thesis by auto
qed

lemma init_build_one_pack_witness:
  "\<exists>b'. init_build ex_out ''create'' ''init'' (ex_ib\<lparr>ib_stake_list := Some 20\<rparr>) = (Inr (), b')
    \<and> map length (instruction_packs (ib_transaction b')) = [2]"
proof -
  have ii: "\<exists>ii. init_input (ex_ib\<lparr>ib_stake_list := Some 20\<rparr>) = Some ii"
    by (simp add: init_input_def ex_ib_def)
  obtain b' where r: "init_build ex_out ''create'' ''init'' (ex_ib\<lparr>ib_stake_list := Some 20\<rparr>) = (Inr (), b')"
    using ii
    by (elim exE) (simp add: init_build_def thenB_def state_signer_def expect_some_def
        tx_unwrap_def ex_build_simps or_default_def)
  have "instruction_packs (ib_transaction (ex_ib\<lparr>ib_stake_list := Some 20\<rparr>)) = []"
    by (simp add: ex_init_tx_eq)
  with init_build_one_pack [OF r] r show ?thesis by auto
qed

lemma built_parameters_accepted_witness:
  "\<exists>ii. init_input (ex_ib\<lparr>ib_stake_list := Some 20\<rparr>) = Some ii
    \<and> check_fees (ld_lp_min_fee (id_liq_pool (snd (sdk_initialize ref_rt ii))))
         (ld_lp_max_fee (id_liq_pool (snd (sdk_initialize ref_rt ii)))) = Inr ()"
proof -
  let ?b = "ex_ib\<lparr>ib_stake_list := Some 20\<rparr>"
  obtain ii where ii: "init_input ?b = Some ii" and f: "ii_reward_fee ii = from_basis_points 200"
    by (simp add: init_input_def ex_ib_def)
  have c: "ib_lp_max_fee ?b = None" "ib_lp_min_fee ?b = None" "ib_lp_treasury_cut ?b = None"
    by (simp_all add: ex_ib_def)
  have m: "basis_points (ii_reward_fee ii) \<le> MAX_REWARD_FEE"
    by (simp add: f from_basis_points_def MAX_REWARD_FEE_def)
  from built_parameters_accepted [OF ii prod.collapse [symmetric] c m] ii show ?thesis by blast
qed

end
