(* ===== verification/Registry.thy ===== *)
theory Registry
  imports TxBuilder Borsh
begin

text \<open>
  The registry of the delegation program (\<open>stake-o-matic/program/src\<close>: \<open>state.rs\<close>,
  \<open>instruction.rs\<close>, \<open>processor.rs\<close>): validators apply with their mainnet and testnet identities,
  an admin approves or rejects. The theory holds the byte formats of its account and of its
  instructions, the processor, the instructions that clients build and the registration runs of
  \<open>stake-o-matic/cli\<close>.
\<close>

section \<open>Public keys as bytes\<close>

definition pubkey_from_bytes :: "bytes \<Rightarrow> pubkey" where
  "pubkey_from_bytes bs = word_of_nat (le_value (rev bs))"

lemma le_bytes_nth: "i < k \<Longrightarrow> le_bytes k x ! i = word_of_nat (x div 256 ^ i)"
proof (induction k arbitrary: x i)
  case (Suc k)
  have "word_of_nat (x mod 256) = (word_of_nat x :: u8)"
    by (rule unat_eqD) (simp add: unsigned_of_nat take_bit_eq_mod)
  with Suc show ?case by (cases i) (simp_all add: div_mult2_eq)
qed simp

lemma le_bytes_map: "le_bytes k x = map (\<lambda>i. word_of_nat (x div 256 ^ i)) [0..<k]"
  by (rule nth_equalityI) (simp_all add: le_bytes_nth)

lemma le_bytes_le_value: "le_bytes (length bs) (le_value bs) = bs"
proof (induction bs)
  case (Cons b bs)
  have "unat b < 256" using unsigned_less [of b] by simp
  then have "(unat b + 256 * v) mod 256 = unat b" "(unat b + 256 * v) div 256 = v" for v by simp_all
  with Cons show ?case by simp
qed simp

lemma pubkey_to_bytes_le: "pubkey_to_bytes k = rev (le_bytes 32 (unat k))"
proof -
  have "ucast (drop_bit (8 * i) k) = (word_of_nat (unat k div 256 ^ i) :: u8)" for i
  proof -
    have "(2::nat) ^ (8 * i) = 256 ^ i" by (simp add: power_mult)
    then have "unat (drop_bit (8 * i) k) = unat k div 256 ^ i"
      using unat_drop_bit_eq [of "8 * i" k] drop_bit_eq_div [of "8 * i" "unat k"] by metis
    then show ?thesis by (simp only: ucast_via_nat)
  qed
  then show ?thesis by (simp add: pubkey_to_bytes_def le_bytes_map rev_map)
qed

lemma length_pubkey_to_bytes [simp]: "length (pubkey_to_bytes k) = 32"
  by (simp add: pubkey_to_bytes_def)

lemma pubkey_from_to_bytes [simp]: "pubkey_from_bytes (pubkey_to_bytes k) = k"
  by (simp add: pubkey_from_bytes_def pubkey_to_bytes_le le_value_word)

lemma le_value_less: "le_value bs < 256 ^ length bs"
proof (induction bs)
  case (Cons b bs)
  have "unat b < 256" using unsigned_less [of b] by simp
  moreover have "Suc (le_value bs) * 256 \<le> 256 ^ length bs * 256" using Cons by (intro mult_le_mono1) simp
  ultimately show ?case by simp
qed simp

lemma pubkey_to_from_bytes: "length bs = 32 \<Longrightarrow> pubkey_to_bytes (pubkey_from_bytes bs) = bs"
proof -
  assume len: "length bs = 32"
  have "le_value (rev bs) < 2 ^ LENGTH(256)"
    using le_value_less [of "rev bs"] len by simp
  then have "unat (pubkey_from_bytes bs) = le_value (rev bs)"
    unfolding pubkey_from_bytes_def by (rule unat_of_nat_small)
  then show ?thesis
    using le_bytes_le_value [of "rev bs"] len by (simp add: pubkey_to_bytes_le)
qed

section \<open>State\<close>

datatype participant_state = Uninitialized | Pending | Rejected | Approved

record participant =
  testnet_identity :: pubkey
  mainnet_identity :: pubkey
  pt_state :: participant_state

definition participant_default :: participant where
  "participant_default = \<lparr>testnet_identity = pubkey_default, mainnet_identity = pubkey_default,
     pt_state = Uninitialized\<rparr>"

definition PARTICIPANT_LEN :: nat where
  "PARTICIPANT_LEN = 65"

text \<open>Borsh writes a variant as its position; reading refuses a position that does not exist.\<close>

fun state_byte :: "participant_state \<Rightarrow> u8" where
  "state_byte Uninitialized = 0"
| "state_byte Pending = 1"
| "state_byte Rejected = 2"
| "state_byte Approved = 3"

definition byte_state :: "u8 \<Rightarrow> participant_state option" where
  "byte_state b = (if b = 0 then Some Uninitialized else if b = 1 then Some Pending
     else if b = 2 then Some Rejected else if b = 3 then Some Approved else None)"

definition participant_to_vec :: "participant \<Rightarrow> bytes" where
  "participant_to_vec p = pubkey_to_bytes (testnet_identity p) @ pubkey_to_bytes (mainnet_identity p)
     @ [state_byte (pt_state p)]"

text \<open>\<open>deserialize\<close> reads a prefix and leaves the rest.\<close>

definition participant_deserialize :: "bytes \<Rightarrow> participant option" where
  "participant_deserialize bs =
     (if length bs < 65 then None
      else map_option (\<lambda>s. \<lparr>testnet_identity = pubkey_from_bytes (take 32 bs),
                           mainnet_identity = pubkey_from_bytes (take 32 (drop 32 bs)), pt_state = s\<rparr>)
             (byte_state (bs ! 64)))"

datatype registry_error = NotEnoughAccountKeys | MissingRequiredSignature | Program program_error

definition participant_pack :: "participant \<Rightarrow> bytes \<Rightarrow> bytes" where
  "participant_pack p dst = participant_to_vec p @ drop (length (participant_to_vec p)) dst"

definition participant_unpack :: "bytes \<Rightarrow> registry_error + participant" where
  "participant_unpack src = ok_or (participant_deserialize src) (Program InvalidAccountData)"

section \<open>Instructions\<close>

datatype registry_instruction = Apply | Withdraw | Approve | Reject | Rewrite participant

fun registry_to_vec :: "registry_instruction \<Rightarrow> bytes" where
  "registry_to_vec Apply = [0]"
| "registry_to_vec Withdraw = [1]"
| "registry_to_vec Approve = [2]"
| "registry_to_vec Reject = [3]"
| "registry_to_vec (Rewrite p) = 4 # participant_to_vec p"

fun registry_deserialize :: "bytes \<Rightarrow> registry_instruction option" where
  "registry_deserialize [] = None"
| "registry_deserialize (t # bs) =
     (if t = 0 then Some Apply else if t = 1 then Some Withdraw else if t = 2 then Some Approve
      else if t = 3 then Some Reject
      else if t = 4 then map_option Rewrite (participant_deserialize bs) else None)"

definition registry_unpack :: "bytes \<Rightarrow> registry_error + registry_instruction" where
  "registry_unpack src = ok_or (registry_deserialize src) (Program InvalidInstructionData)"

section \<open>The processor\<close>

definition REGISTRY_ID :: pubkey where
  "REGISTRY_ID = pubkey_new_from_array
     [12, 184, 14, 250, 55, 47, 211, 199, 186, 134, 169, 167, 129, 225, 174, 174, 250, 97, 215, 170,
      96, 167, 130, 250, 116, 165, 191, 109, 254, 88, 193, 172]"

definition REGISTRY_ADMIN :: pubkey where
  "REGISTRY_ADMIN = pubkey_new_from_array
     [143, 36, 168, 60, 97, 188, 159, 48, 122, 69, 104, 217, 129, 41, 181, 3, 144, 40, 187, 121, 27,
      255, 231, 71, 115, 240, 93, 177, 138, 100, 47, 168]"

text \<open>
  An \<open>AccountInfo\<close> is its key, whether it signed, and the lamports and the data of that key:
  two entries with the same key share them.
\<close>

record account_info =
  ai_key :: pubkey
  ai_signer :: bool

record reg_world =
  rw_lamports :: "pubkey \<Rightarrow> u64"
  rw_data :: "pubkey \<Rightarrow> bytes"

definition next_account_info :: "account_info list \<Rightarrow> registry_error + account_info \<times> account_info list" where
  "next_account_info as = (case as of [] \<Rightarrow> Inl NotEnoughAccountKeys | a # rest \<Rightarrow> Inr (a, rest))"

definition authenticate_admin :: "account_info \<Rightarrow> registry_error + unit" where
  "authenticate_admin a =
     bindR (require (ai_key a = REGISTRY_ADMIN) (Program InvalidArgument)) (\<lambda>_.
     require (ai_signer a) MissingRequiredSignature)"

definition require_signer :: "account_info \<Rightarrow> registry_error + unit" where
  "require_signer a = require (ai_signer a) MissingRequiredSignature"

text \<open>
  The \<open>match\<close>: what each instruction makes of the participant and of the lamports. The sum of \<open>Withdraw\<close> wraps: this workspace is built without \<open>overflow-checks\<close>, unlike the program and
  the tools of \<open>marinade-anchor\<close>.
\<close>

fun run_registry ::
  "registry_instruction \<Rightarrow> account_info \<Rightarrow> account_info list \<Rightarrow> participant \<Rightarrow> reg_world
    \<Rightarrow> registry_error + participant \<times> reg_world" where
  "run_registry Apply pa as p w =
     bindR (require (pt_state p = Uninitialized) (Program AccountAlreadyInitialized)) (\<lambda>_.
     bindR (next_account_info as) (\<lambda>(mainnet, as).
     bindR (next_account_info as) (\<lambda>(testnet, as).
     bindR (require_signer mainnet) (\<lambda>_.
     bindR (require_signer testnet) (\<lambda>_.
     Inr (p\<lparr>testnet_identity := ai_key testnet, mainnet_identity := ai_key mainnet,
            pt_state := Pending\<rparr>, w))))))"
| "run_registry Withdraw pa as p w =
     bindR (next_account_info as) (\<lambda>(ident, as).
     bindR (next_account_info as) (\<lambda>(refundee, as).
     bindR (require_signer ident) (\<lambda>_.
     bindR (require (ai_key ident = testnet_identity p \<or> ai_key ident = mainnet_identity p)
              MissingRequiredSignature) (\<lambda>_.
     let l1 = (rw_lamports w)(ai_key refundee := rw_lamports w (ai_key refundee) + rw_lamports w (ai_key pa))
     in Inr (p, w\<lparr>rw_lamports := l1(ai_key pa := 0)\<rparr>)))))"
| "run_registry Approve pa as p w =
     bindR (next_account_info as) (\<lambda>(admin, as).
     bindR (authenticate_admin admin) (\<lambda>_.
     Inr (p\<lparr>pt_state := Approved\<rparr>, w)))"
| "run_registry Reject pa as p w =
     bindR (next_account_info as) (\<lambda>(admin, as).
     bindR (authenticate_admin admin) (\<lambda>_.
     Inr (p\<lparr>pt_state := Rejected\<rparr>, w)))"
| "run_registry (Rewrite p') pa as p w =
     bindR (next_account_info as) (\<lambda>(admin, as).
     bindR (authenticate_admin admin) (\<lambda>_.
     Inr (p', w)))"

definition process_instruction ::
  "account_info list \<Rightarrow> bytes \<Rightarrow> reg_world \<Rightarrow> registry_error + reg_world" where
  "process_instruction accounts input w =
     bindR (registry_unpack input) (\<lambda>ins.
     bindR (next_account_info accounts) (\<lambda>(pa, as).
     bindR (participant_unpack (rw_data w (ai_key pa))) (\<lambda>p.
     bindR (run_registry ins pa as p w) (\<lambda>(p', w').
     if testnet_identity p' = mainnet_identity p' then Inl (Program InvalidAccountData)
     else Inr (w'\<lparr>rw_data := (rw_data w')
                 (ai_key pa := participant_pack p' (rw_data w' (ai_key pa)))\<rparr>)))))"

section \<open>Byte formats\<close>

lemma length_participant_to_vec [simp]: "length (participant_to_vec p) = 65"
  by (simp add: participant_to_vec_def)

lemma byte_state_byte [simp]: "byte_state (state_byte s) = Some s"
  by (cases s) (simp_all add: byte_state_def)

lemma byte_state_Some: "byte_state b = Some s \<longleftrightarrow> b = state_byte s"
  by (cases s) (auto simp: byte_state_def split: if_splits)

lemma participant_deserialize_to_vec [simp]:
  "participant_deserialize (participant_to_vec p @ rest) = Some p"
proof -
  have "(participant_to_vec p @ rest) ! 64 = state_byte (pt_state p)"
    by (simp add: participant_to_vec_def nth_append)
  then show ?thesis
    by (simp add: participant_deserialize_def) (simp add: participant_to_vec_def)
qed

lemma participant_to_vec_deserialize:
  assumes "participant_deserialize bs = Some p"
  shows "participant_to_vec p = take 65 bs \<and> 65 \<le> length bs"
proof -
  have len: "65 \<le> length bs" using assms by (auto simp: participant_deserialize_def split: if_splits)
  obtain s where s: "bs ! 64 = state_byte s"
    and p: "p = \<lparr>testnet_identity = pubkey_from_bytes (take 32 bs),
        mainnet_identity = pubkey_from_bytes (take 32 (drop 32 bs)), pt_state = s\<rparr>"
    using assms len by (auto simp: participant_deserialize_def byte_state_Some)
  have "take 65 bs = take 32 bs @ take 32 (drop 32 bs) @ [bs ! 64]"
  proof -
    have "take 65 bs = take 64 bs @ [bs ! 64]" using len take_Suc_conv_app_nth [of 64 bs] by simp
    moreover have "take 64 bs = take 32 bs @ take 32 (drop 32 bs)"
      using take_add [of 32 32 bs] by simp
    ultimately show ?thesis by simp
  qed
  then show ?thesis
    using len by (simp add: p s participant_to_vec_def pubkey_to_from_bytes)
qed

lemma participant_unpack_pack: "participant_unpack (participant_pack p dst) = Inr p"
  by (simp add: participant_unpack_def participant_pack_def ok_or_def)

lemma registry_deserialize_to_vec [simp]: "registry_deserialize (registry_to_vec i @ rest) = Some i"
  by (cases i) simp_all

text \<open>
  C35. Both byte formats of the registry are read back exactly as they were written: a packed
  participant unpacks to itself whatever follows it, packing what was unpacked restores the
  65 bytes it was read from and touches nothing behind them, and an instruction with trailing bytes
  is read as itself.
\<close>
theorem registry_formats_roundtrip:
  "participant_unpack (participant_pack p dst) = Inr p
   \<and> (participant_unpack src = Inr q \<longrightarrow> participant_pack q src = src)
   \<and> registry_unpack (registry_to_vec i @ rest) = Inr i"
proof (intro conjI impI)
  assume "participant_unpack src = Inr q"
  then have "participant_deserialize src = Some q" by (simp add: participant_unpack_def ok_or_Inr)
  from participant_to_vec_deserialize [OF this] show "participant_pack q src = src"
    by (simp add: participant_pack_def)
qed (simp_all add: participant_unpack_pack registry_unpack_def ok_or_def)

section \<open>Instructions that clients build\<close>

definition writable :: "pubkey \<Rightarrow> bool \<Rightarrow> account_meta" where
  "writable k sg = \<lparr>am_key = k, am_signer = sg, am_writable = True\<rparr>"

definition readonly :: "pubkey \<Rightarrow> bool \<Rightarrow> account_meta" where
  "readonly k sg = \<lparr>am_key = k, am_signer = sg, am_writable = False\<rparr>"

definition registry_tx :: "account_meta list \<Rightarrow> registry_instruction \<Rightarrow> tx_instruction" where
  "registry_tx ms i = \<lparr>ti_program = REGISTRY_ID, ti_accounts = ms, ti_data = registry_to_vec i\<rparr>"

definition reg_apply :: "pubkey \<Rightarrow> pubkey \<Rightarrow> pubkey \<Rightarrow> tx_instruction" where
  "reg_apply participant mainnet testnet =
     registry_tx [writable participant False, readonly mainnet True, readonly testnet True] Apply"

definition reg_withdraw :: "pubkey \<Rightarrow> pubkey \<Rightarrow> pubkey \<Rightarrow> tx_instruction" where
  "reg_withdraw participant validator_identity refundee =
     registry_tx [writable participant False, readonly validator_identity True, writable refundee False] Withdraw"

definition reg_approve :: "pubkey \<Rightarrow> pubkey \<Rightarrow> tx_instruction" where
  "reg_approve participant admin = registry_tx [writable participant False, readonly admin True] Approve"

definition reg_reject :: "pubkey \<Rightarrow> pubkey \<Rightarrow> tx_instruction" where
  "reg_reject participant admin = registry_tx [writable participant False, readonly admin True] Reject"

definition reg_rewrite :: "pubkey \<Rightarrow> pubkey \<Rightarrow> participant \<Rightarrow> tx_instruction" where
  "reg_rewrite participant admin new_state =
     registry_tx [writable participant False, readonly admin True] (Rewrite new_state)"

text \<open>
  The runtime hands an instruction's accounts to the program in order; a transaction is only
  accepted when every account marked as a signer has signed.
\<close>

definition account_infos :: "account_meta list \<Rightarrow> account_info list" where
  "account_infos = map (\<lambda>m. \<lparr>ai_key = am_key m, ai_signer = am_signer m\<rparr>)"

definition registry_invoke :: "tx_instruction \<Rightarrow> reg_world \<Rightarrow> registry_error + reg_world" where
  "registry_invoke i = process_instruction (account_infos (ti_accounts i)) (ti_data i)"

section \<open>The tools' view\<close>

text \<open>
  \<open>accounts\<close> is what the cluster answers for all accounts of the program; the answer is filtered
  by size. A \<open>HashMap\<close> of participants is the list of its entries.
\<close>

definition get_participants_with_state ::
  "(pubkey \<times> bytes) list \<Rightarrow> participant_state option \<Rightarrow> (pubkey \<times> participant) list" where
  "get_participants_with_state accounts s =
     filter (\<lambda>(_, p). case s of Some st \<Rightarrow> pt_state p = st | None \<Rightarrow> True)
       (List.map_filter (\<lambda>(k, d). case participant_unpack d of Inl _ \<Rightarrow> None | Inr p \<Rightarrow> Some (k, p))
         (filter (\<lambda>(_, d). length d = PARTICIPANT_LEN) accounts))"

definition get_participants :: "(pubkey \<times> bytes) list \<Rightarrow> (pubkey \<times> participant) list" where
  "get_participants accounts = get_participants_with_state accounts None"

definition has_identity :: "pubkey set \<Rightarrow> participant \<Rightarrow> bool" where
  "has_identity ids p \<longleftrightarrow> testnet_identity p \<in> ids \<or> mainnet_identity p \<in> ids"

definition get_participants_with_identity ::
  "(pubkey \<times> bytes) list \<Rightarrow> pubkey set \<Rightarrow> (pubkey \<times> participant) list" where
  "get_participants_with_identity accounts ids = filter (\<lambda>(_, p). has_identity ids p) (get_participants accounts)"

datatype cli_error = MultipleParticipants | RegistrationExists | RegistrationNotFound

definition get_participant_by_identity ::
  "(pubkey \<times> bytes) list \<Rightarrow> pubkey \<Rightarrow> cli_error + (pubkey \<times> participant) option" where
  "get_participant_by_identity accounts ident =
     (case filter (\<lambda>(_, p). has_identity {ident} p) (get_participants accounts) of
        [] \<Rightarrow> Inr None | [x] \<Rightarrow> Inr (Some x) | _ # _ # _ \<Rightarrow> Inl MultipleParticipants)"

text \<open>
  The messages of the command line tool: the instructions it sends, or \<open>None\<close> when the user has not
  confirmed. \<open>create\<close> is the system program's \<open>create_account\<close> for the new participant.
\<close>

definition process_apply ::
  "(pubkey \<times> bytes) list \<Rightarrow> tx_instruction \<Rightarrow> pubkey \<Rightarrow> pubkey \<Rightarrow> pubkey \<Rightarrow> bool
    \<Rightarrow> cli_error + tx_instruction list option" where
  "process_apply accounts create participant mainnet testnet confirm =
     (if get_participants_with_identity accounts {mainnet, testnet} \<noteq> [] then Inl RegistrationExists
      else if \<not> confirm then Inr None
      else Inr (Some [create, reg_apply participant mainnet testnet]))"

definition find_registration ::
  "(pubkey \<times> bytes) list \<Rightarrow> pubkey \<Rightarrow> cli_error + pubkey \<times> participant" where
  "find_registration accounts ident =
     bindR (get_participant_by_identity accounts ident) (\<lambda>r. ok_or r RegistrationNotFound)"

definition process_withdraw ::
  "(pubkey \<times> bytes) list \<Rightarrow> pubkey \<Rightarrow> pubkey \<Rightarrow> bool \<Rightarrow> cli_error + tx_instruction list option" where
  "process_withdraw accounts ident refundee confirm =
     bindR (find_registration accounts ident) (\<lambda>r.
     Inr (if confirm then Some [reg_withdraw (fst r) ident refundee] else None))"

definition process_admin_approve ::
  "(pubkey \<times> bytes) list \<Rightarrow> pubkey \<Rightarrow> pubkey \<Rightarrow> cli_error + tx_instruction list" where
  "process_admin_approve accounts admin ident =
     bindR (find_registration accounts ident) (\<lambda>r. Inr [reg_approve (fst r) admin])"

definition process_admin_reject ::
  "(pubkey \<times> bytes) list \<Rightarrow> pubkey \<Rightarrow> pubkey \<Rightarrow> cli_error + tx_instruction list" where
  "process_admin_reject accounts admin ident =
     bindR (find_registration accounts ident) (\<lambda>r. Inr [reg_reject (fst r) admin])"

definition process_admin_import ::
  "(pubkey \<times> bytes) list \<Rightarrow> tx_instruction \<Rightarrow> pubkey \<Rightarrow> pubkey \<Rightarrow> pubkey \<Rightarrow> pubkey
    \<Rightarrow> cli_error + tx_instruction list" where
  "process_admin_import accounts create participant admin mainnet testnet =
     (if get_participants_with_identity accounts {mainnet, testnet} \<noteq> [] then Inl RegistrationExists
      else Inr [create, reg_rewrite participant admin
        \<lparr>testnet_identity = testnet, mainnet_identity = mainnet, pt_state = Approved\<rparr>])"

definition process_admin_rewrite :: "pubkey \<Rightarrow> pubkey \<Rightarrow> participant \<Rightarrow> tx_instruction list" where
  "process_admin_rewrite admin participant_address p = [reg_rewrite participant_address admin p]"

section \<open>What an instruction does\<close>

lemma next_account_info_Inr: "next_account_info as = Inr r \<longleftrightarrow> as = fst r # snd r"
  by (cases as; cases r) (auto simp: next_account_info_def)

lemma authenticate_admin_Inr: "authenticate_admin a = Inr u \<longleftrightarrow> ai_key a = REGISTRY_ADMIN \<and> ai_signer a"
  by (auto simp: authenticate_admin_def bindR_Inr)

lemma require_signer_Inr: "require_signer a = Inr u \<longleftrightarrow> ai_signer a"
  by (auto simp: require_signer_def)

lemma participant_unpack_Inr: "participant_unpack d = Inr p \<longleftrightarrow> participant_deserialize d = Some p"
  by (simp add: participant_unpack_def ok_or_Inr)

lemma registry_unpack_to_vec [simp]: "registry_unpack (registry_to_vec i) = Inr i"
  using registry_deserialize_to_vec [of i "[]"] by (simp add: registry_unpack_def ok_or_def)

lemmas registry_simps = bindR_Inr next_account_info_Inr authenticate_admin_Inr require_signer_Inr

text \<open>Nothing but \<open>Withdraw\<close> moves lamports, and no instruction touches data before the end.\<close>

lemma run_registry_data: "run_registry i pa as p w = Inr (p', w') \<Longrightarrow> rw_data w' = rw_data w"
  by (cases i) (auto simp: registry_simps Let_def)

lemma process_instruction_Inr:
  "process_instruction accounts input w = Inr w2 \<longleftrightarrow>
     (\<exists>i pa as p p' w1. registry_unpack input = Inr i \<and> accounts = pa # as
       \<and> participant_deserialize (rw_data w (ai_key pa)) = Some p \<and> run_registry i pa as p w = Inr (p', w1)
       \<and> testnet_identity p' \<noteq> mainnet_identity p'
       \<and> w2 = w1\<lparr>rw_data := (rw_data w1)
                  (ai_key pa := participant_pack p' (rw_data w1 (ai_key pa)))\<rparr>)"
  unfolding process_instruction_def
  by (fastforce simp: registry_simps participant_unpack_Inr split_beta split: if_splits)

lemma participant_deserialize_pack [simp]: "participant_deserialize (participant_pack p dst) = Some p"
  by (simp add: participant_pack_def)

text \<open>Whose data an instruction changes, and what the participant becomes.\<close>

lemma process_instruction_participant:
  assumes "process_instruction accounts input w = Inr w'"
  obtains i pa as p p' where "registry_unpack input = Inr i" and "accounts = pa # as"
    and "participant_deserialize (rw_data w (ai_key pa)) = Some p"
    and "participant_deserialize (rw_data w' (ai_key pa)) = Some p'"
    and "\<forall>k. k \<noteq> ai_key pa \<longrightarrow> rw_data w' k = rw_data w k"
    and "testnet_identity p' \<noteq> mainnet_identity p'"
    and "\<exists>w1. run_registry i pa as p w = Inr (p', w1)"
proof -
  obtain i pa as p p' w1 where "registry_unpack input = Inr i" "accounts = pa # as"
    "participant_deserialize (rw_data w (ai_key pa)) = Some p" "testnet_identity p' \<noteq> mainnet_identity p'"
    and r: "run_registry i pa as p w = Inr (p', w1)"
    and w': "w' = w1\<lparr>rw_data := (rw_data w1)(ai_key pa := participant_pack p' (rw_data w1 (ai_key pa)))\<rparr>"
    using assms unfolding process_instruction_Inr by blast
  then show ?thesis using run_registry_data [OF r] by (intro that) (auto simp: w')
qed

section \<open>Runs of the registry\<close>

text \<open>
  What may happen to the accounts: calls of the program, the creation of an account (its data are
  zeros), the removal of an account without lamports, and transfers from outside.
\<close>

datatype reg_event =
    RegCall "account_info list" bytes | RegCreate pubkey nat | RegPurge pubkey | RegFund pubkey u64

fun reg_step :: "reg_event \<Rightarrow> reg_world \<Rightarrow> reg_world option" where
  "reg_step (RegCall accounts input) w =
     (case process_instruction accounts input w of Inl _ \<Rightarrow> None | Inr w' \<Rightarrow> Some w')"
| "reg_step (RegCreate k n) w =
     (if rw_data w k = [] then Some (w\<lparr>rw_data := (rw_data w)(k := replicate n 0)\<rparr>) else None)"
| "reg_step (RegPurge k) w =
     (if rw_lamports w k = 0 then Some (w\<lparr>rw_data := (rw_data w)(k := [])\<rparr>) else None)"
| "reg_step (RegFund k n) w = Some (w\<lparr>rw_lamports := (rw_lamports w)(k := n)\<rparr>)"

fun reg_run :: "reg_event list \<Rightarrow> reg_world \<Rightarrow> reg_world option" where
  "reg_run [] w = Some w"
| "reg_run (e # es) w = (case reg_step e w of None \<Rightarrow> None | Some w' \<Rightarrow> reg_run es w')"

lemma reg_run_append:
  "reg_run (es @ es') w = (case reg_run es w of None \<Rightarrow> None | Some w' \<Rightarrow> reg_run es' w')"
  by (induction es arbitrary: w) (auto split: option.splits)

text \<open>The identities signed an application for account \<open>k\<close>; the admin signed an instruction on it.\<close>

definition signed_apply :: "reg_event list \<Rightarrow> pubkey \<Rightarrow> participant \<Rightarrow> bool" where
  "signed_apply es k p \<longleftrightarrow> (\<exists>pa mi ti rest input. RegCall (pa # mi # ti # rest) input \<in> set es
     \<and> registry_unpack input = Inr Apply \<and> ai_key pa = k \<and> ai_signer mi \<and> ai_signer ti
     \<and> ai_key mi = mainnet_identity p \<and> ai_key ti = testnet_identity p)"

definition admin_said :: "reg_event list \<Rightarrow> pubkey \<Rightarrow> registry_instruction \<Rightarrow> bool" where
  "admin_said es k i \<longleftrightarrow> (\<exists>pa ad rest input. RegCall (pa # ad # rest) input \<in> set es
     \<and> registry_unpack input = Inr i \<and> ai_key pa = k \<and> ai_key ad = REGISTRY_ADMIN \<and> ai_signer ad)"

lemma signed_apply_more: "signed_apply es k p \<Longrightarrow> signed_apply (es @ es') k p"
  by (fastforce simp: signed_apply_def)

lemma admin_said_more: "admin_said es k i \<Longrightarrow> admin_said (es @ es') k i"
  by (fastforce simp: admin_said_def)

lemma le_value_zeros: "le_value (replicate n 0) = 0"
  by (induction n) simp_all

lemma deserialize_zeros: "participant_deserialize (replicate n 0) = Some p \<Longrightarrow> p = participant_default"
  by (auto simp: participant_deserialize_def byte_state_def pubkey_from_bytes_def le_value_zeros
      participant_default_def pubkey_default_def min_def split: if_splits)

lemma deserialize_Nil [simp]: "participant_deserialize [] = None"
  by (simp add: participant_deserialize_def)

text \<open>The invariant of a run: \<open>es\<close> is what happened, \<open>w\<close> what it led to.\<close>

definition by_consent :: "reg_event list \<Rightarrow> pubkey \<Rightarrow> participant \<Rightarrow> bool" where
  "by_consent es k p \<longleftrightarrow> pt_state p \<noteq> Uninitialized \<and> signed_apply es k p
     \<and> (pt_state p = Approved \<longrightarrow> admin_said es k Approve)
     \<and> (pt_state p = Rejected \<longrightarrow> admin_said es k Reject)"

definition registry_inv :: "reg_event list \<Rightarrow> reg_world \<Rightarrow> bool" where
  "registry_inv es w \<longleftrightarrow> (\<forall>k p. participant_deserialize (rw_data w k) = Some p \<longrightarrow>
     p = participant_default \<or> testnet_identity p \<noteq> mainnet_identity p
       \<and> (by_consent es k p \<or> (\<exists>q. admin_said es k (Rewrite q))))"

lemma by_consent_more: "by_consent es k p \<Longrightarrow> by_consent (es @ es') k p"
  by (auto simp: by_consent_def signed_apply_more admin_said_more)

lemma run_registry_consent:
  assumes run: "run_registry i pa as p w = Inr (p', w1)" and ev: "RegCall (pa # as) input \<in> set es'"
    and un: "registry_unpack input = Inr i" and new: "testnet_identity p' \<noteq> mainnet_identity p'"
    and old: "p = participant_default \<or> by_consent es (ai_key pa) p \<or> (\<exists>q. admin_said es (ai_key pa) (Rewrite q))"
  shows "by_consent (es @ es') (ai_key pa) p' \<or> (\<exists>q. admin_said (es @ es') (ai_key pa) (Rewrite q))"
proof -
  have ne: "p \<noteq> participant_default" if "testnet_identity p = testnet_identity p'" "mainnet_identity p = mainnet_identity p'"
    using new that by (auto simp: participant_default_def)
  have said: "admin_said (es @ es') (ai_key pa) i"
    if "as = ad # rest" "ai_key ad = REGISTRY_ADMIN" "ai_signer ad" for ad rest
    using ev un that unfolding admin_said_def by fastforce
  have keep: "by_consent (es @ es') (ai_key pa) p \<or> (\<exists>q. admin_said (es @ es') (ai_key pa) (Rewrite q))"
    if "p \<noteq> participant_default"
    using old that by_consent_more admin_said_more by blast
  have moved: "by_consent (es @ es') (ai_key pa) (p\<lparr>pt_state := s\<rparr>)"
    if "by_consent (es @ es') (ai_key pa) p" "s = Approved \<and> i = Approve \<or> s = Rejected \<and> i = Reject"
      "as = ad # rest" "ai_key ad = REGISTRY_ADMIN" "ai_signer ad" for s ad rest
    using that said by (auto simp: by_consent_def signed_apply_def)
  show ?thesis
  proof (cases i)
    case Apply
    then obtain mi ti rest where "as = mi # ti # rest" "ai_signer mi" "ai_signer ti"
      "p' = p\<lparr>testnet_identity := ai_key ti, mainnet_identity := ai_key mi, pt_state := Pending\<rparr>"
      using run by (auto simp: registry_simps)
    then have "by_consent (es @ es') (ai_key pa) p'"
      using ev un Apply by (fastforce simp: by_consent_def signed_apply_def)
    then show ?thesis ..
  next
    case Withdraw
    then have "p' = p" using run by (auto simp: registry_simps Let_def)
    then show ?thesis using keep ne by simp
  next
    case Approve
    then obtain ad rest where "as = ad # rest" "ai_key ad = REGISTRY_ADMIN" "ai_signer ad"
      and p': "p' = p\<lparr>pt_state := Approved\<rparr>" using run by (auto simp: registry_simps)
    then show ?thesis using keep ne moved Approve by auto
  next
    case Reject
    then obtain ad rest where "as = ad # rest" "ai_key ad = REGISTRY_ADMIN" "ai_signer ad"
      and p': "p' = p\<lparr>pt_state := Rejected\<rparr>" using run by (auto simp: registry_simps)
    then show ?thesis using keep ne moved Reject by auto
  next
    case (Rewrite q)
    then show ?thesis using run said by (auto simp: registry_simps)
  qed
qed

lemma registry_inv_step:
  assumes inv: "registry_inv es w" and step: "reg_step e w = Some w'"
  shows "registry_inv (es @ [e]) w'"
proof -
  have old: "p = participant_default \<or> testnet_identity p \<noteq> mainnet_identity p
      \<and> (by_consent (es @ [e]) k p \<or> (\<exists>q. admin_said (es @ [e]) k (Rewrite q)))"
    if "participant_deserialize (rw_data w k) = Some p" for k p
    using inv that by_consent_more admin_said_more unfolding registry_inv_def by blast
  show ?thesis
  proof (cases "\<exists>accounts input. e = RegCall accounts input")
    case True
    then obtain accounts input where RegCall: "e = RegCall accounts input" by blast
    then have "process_instruction accounts input w = Inr w'" using step by (auto split: sum.splits)
    then obtain i pa as p p' where un: "registry_unpack input = Inr i" and ac: "accounts = pa # as"
      and p: "participant_deserialize (rw_data w (ai_key pa)) = Some p"
      and p': "participant_deserialize (rw_data w' (ai_key pa)) = Some p'"
      and rest: "\<forall>k. k \<noteq> ai_key pa \<longrightarrow> rw_data w' k = rw_data w k"
      and new: "testnet_identity p' \<noteq> mainnet_identity p'"
      and run: "\<exists>w1. run_registry i pa as p w = Inr (p', w1)"
      by (rule process_instruction_participant)
    obtain w1 where r: "run_registry i pa as p w = Inr (p', w1)" using run by blast
    have "p = participant_default \<or> by_consent es (ai_key pa) p \<or> (\<exists>q. admin_said es (ai_key pa) (Rewrite q))"
      using inv p unfolding registry_inv_def by blast
    from run_registry_consent [OF r _ un new this, of "[e]"]
    have "by_consent (es @ [e]) (ai_key pa) p' \<or> (\<exists>q. admin_said (es @ [e]) (ai_key pa) (Rewrite q))"
      by (simp add: RegCall ac)
    then show ?thesis
      unfolding registry_inv_def using old rest p' new by (metis option.inject)
  next
    case False
    have "rw_data w' k = rw_data w k \<or> (\<exists>n. rw_data w' k = replicate n 0)" for k
      using step False by (cases e) (auto split: if_splits intro: exI [of _ 0])
    then show ?thesis unfolding registry_inv_def using old deserialize_zeros by metis
  qed
qed

lemma registry_inv_run:
  assumes "reg_run es w0 = Some w" and "\<And>k. rw_data w0 k = []"
  shows "registry_inv es w"
  using assms(1)
proof (induction es arbitrary: w rule: rev_induct)
  case Nil
  then show ?case using assms(2) by (auto simp: registry_inv_def)
next
  case (snoc e es)
  then obtain w1 where "reg_run es w0 = Some w1" "reg_step e w1 = Some w"
    by (auto simp: reg_run_append split: option.splits)
  then show ?case using snoc.IH registry_inv_step by blast
qed

section \<open>Properties\<close>

text \<open>
  C33. Nobody is registered against their will: whatever happened since the registry was empty, an account
  that holds a registration (and was never rewritten by the admin) holds two different identities
  that both signed its application, and it is approved or rejected only if the admin signed that.
\<close>
theorem registered_by_consent:
  assumes "reg_run es w0 = Some w" and "\<And>k. rw_data w0 k = []"
    and "participant_unpack (rw_data w k) = Inr p" and "p \<noteq> participant_default"
    and "\<And>q. \<not> admin_said es k (Rewrite q)"
  shows "testnet_identity p \<noteq> mainnet_identity p \<and> by_consent es k p"
  using registry_inv_run [OF assms(1,2)] assms(3-5)
  unfolding registry_inv_def participant_unpack_Inr by blast

text \<open>The instructions that clients build do what they are named after.\<close>

lemma length_participant_pack: "65 \<le> length dst \<Longrightarrow> length (participant_pack p dst) = length dst"
  by (simp add: participant_pack_def)

definition put_participant :: "pubkey \<Rightarrow> participant \<Rightarrow> reg_world \<Rightarrow> reg_world" where
  "put_participant k p w = w\<lparr>rw_data := (rw_data w)(k := participant_pack p (rw_data w k))\<rparr>"

lemma deserialize_zeros_65: "participant_deserialize (replicate 65 0) = Some participant_default"
  using deserialize_zeros [of 65]
  by (cases "participant_deserialize (replicate 65 0)") (auto simp: participant_deserialize_def byte_state_def)

lemmas invoke_defs = registry_invoke_def registry_tx_def process_instruction_def account_infos_def
  writable_def readonly_def participant_unpack_def registry_unpack_def next_account_info_def require_signer_def
  authenticate_admin_def put_participant_def

lemma invoke_apply:
  assumes "rw_data w k = replicate 65 0" and "mainnet \<noteq> testnet"
  shows "registry_invoke (reg_apply k mainnet testnet) w = Inr (put_participant k
     \<lparr>testnet_identity = testnet, mainnet_identity = mainnet, pt_state = Pending\<rparr> w)"
  using assms by (simp add: reg_apply_def invoke_defs deserialize_zeros_65 participant_default_def ok_or_def)

lemma invoke_approve:
  assumes "participant_deserialize (rw_data w k) = Some p" and "testnet_identity p \<noteq> mainnet_identity p"
  shows "registry_invoke (reg_approve k REGISTRY_ADMIN) w = Inr (put_participant k (p\<lparr>pt_state := Approved\<rparr>) w)"
  using assms by (simp add: reg_approve_def invoke_defs ok_or_def)

lemma invoke_withdraw:
  assumes "participant_deserialize (rw_data w k) = Some p" and "testnet_identity p \<noteq> mainnet_identity p"
    and "ident \<in> {testnet_identity p, mainnet_identity p}" and "r \<noteq> k"
  shows "\<exists>w'. registry_invoke (reg_withdraw k ident r) w = Inr w'
    \<and> rw_lamports w' = (rw_lamports w)(r := rw_lamports w r + rw_lamports w k, k := 0)"
  using assms by (auto simp: reg_withdraw_def invoke_defs ok_or_def Let_def)

lemma get_participants_Cons:
  "get_participants ((k, d) # accounts) =
     (if length d = 65 then (case participant_deserialize d of None \<Rightarrow> [] | Some p \<Rightarrow> [(k, p)]) else [])
       @ get_participants accounts"
  by (simp add: get_participants_def get_participants_with_state_def PARTICIPANT_LEN_def map_filter_simps
      participant_unpack_def ok_or_def split: option.splits)

lemma find_new_registration:
  assumes "get_participants_with_identity others {mainnet, testnet} = []"
    and "participant_deserialize d = Some p" and "length d = 65"
    and "testnet_identity p = testnet" and "mainnet_identity p = mainnet"
  shows "find_registration ((k, d) # others) testnet = Inr (k, p)"
proof -
  have "filter (\<lambda>(_, p). has_identity {testnet} p) (get_participants others) = []"
    using assms(1) by (auto simp: get_participants_with_identity_def filter_empty_conv has_identity_def)
  then show ?thesis
    using assms(2-5)
    by (simp add: find_registration_def get_participant_by_identity_def get_participants_Cons
        has_identity_def ok_or_def)
qed


section \<open>Runs\<close>

definition ex_registry :: reg_world where
  "ex_registry = \<lparr>rw_lamports = (\<lambda>_. 0)(5 := 1000), rw_data = (\<lambda>_. [])(5 := replicate 65 0)\<rparr>"

lemma registry_formats_roundtrip_witness:
  "participant_unpack (replicate 65 0) = Inr participant_default
   \<and> participant_pack participant_default (replicate 65 0) = replicate 65 0"
proof -
  have u: "participant_unpack (replicate 65 0) = Inr participant_default"
    by (simp only: participant_unpack_def deserialize_zeros_65) (simp add: ok_or_def)
  from registry_formats_roundtrip [of _ _ "replicate 65 0" participant_default] u show ?thesis by blast
qed


text \<open>An application by 7 and 8, approved by the admin.\<close>

definition ex_registry_events :: "reg_event list" where
  "ex_registry_events = [RegCreate 5 65,
     RegCall (account_infos (ti_accounts (reg_apply 5 7 8))) [0],
     RegCall (account_infos (ti_accounts (reg_approve 5 REGISTRY_ADMIN))) [2]]"

lemma registered_by_consent_witness:
  "\<exists>w. reg_run ex_registry_events \<lparr>rw_lamports = (\<lambda>_. 0), rw_data = (\<lambda>_. [])\<rparr> = Some w
    \<and> by_consent ex_registry_events 5 \<lparr>testnet_identity = 8, mainnet_identity = 7, pt_state = Approved\<rparr>"
proof -
  let ?p = "\<lparr>testnet_identity = 8, mainnet_identity = 7, pt_state = Approved\<rparr>"
  let ?p1 = "\<lparr>testnet_identity = 8, mainnet_identity = 7, pt_state = Pending\<rparr>"
  let ?start = "\<lparr>rw_lamports = (\<lambda>_. 0), rw_data = (\<lambda>_. [])\<rparr> :: reg_world"
  let ?w = "?start\<lparr>rw_data := (rw_data ?start)(5 := replicate 65 0)\<rparr>"
  let ?w1 = "put_participant 5 ?p1 ?w"
  have a: "process_instruction (account_infos (ti_accounts (reg_apply 5 7 8))) [0] ?w = Inr ?w1"
    using invoke_apply [of ?w 5 7 8] by (simp add: registry_invoke_def reg_apply_def registry_tx_def)
  have d: "participant_deserialize (rw_data ?w1 5) = Some ?p1" by (simp add: put_participant_def)
  have b: "process_instruction (account_infos (ti_accounts (reg_approve 5 REGISTRY_ADMIN))) [2] ?w1
      = Inr (put_participant 5 ?p ?w1)"
    using invoke_approve [OF d] by (simp add: registry_invoke_def reg_approve_def registry_tx_def)
  have r: "reg_run ex_registry_events ?start = Some (put_participant 5 ?p ?w1)"
  proof -
    have c: "reg_step (RegCreate 5 65) ?start = Some ?w"
      unfolding reg_step.simps by (rule if_P) simp
    show ?thesis
      by (simp only: ex_registry_events_def reg_run.simps c reg_step.simps(1) a b option.case sum.case)
  qed
  have u: "participant_unpack (rw_data (put_participant 5 ?p ?w1) 5) = Inr ?p"
    by (simp add: participant_unpack_Inr put_participant_def)
  have "\<not> admin_said ex_registry_events 5 (Rewrite q)" for q
    by (auto simp: admin_said_def ex_registry_events_def registry_unpack_def ok_or_def)
  from registered_by_consent [OF r _ u _ this] r show ?thesis by (simp add: participant_default_def)
qed

end
