(* ===== verification/RpcView.thy ===== *)
theory RpcView
  imports Helpers
begin

text \<open>
  How the tools read the instance over RPC (\<open>cli/cli-common/src/rpc_marinade.rs\<close>): both record lists, and
  the stake accounts of the list in batches of 100. The RPC client is the parameter \<open>client\<close>;
  its functions take the state \<open>'c\<close> of the world outside, and \<open>None\<close> is an error of the client.
  The theory shows that what is read is what the chain holds.
\<close>

section \<open>The client\<close>

text \<open>
  \<open>cl_data\<close> is the content of an account. \<open>cl_accounts\<close> answers \<open>get_multiple_accounts\<close>: for each
  key, nothing if there is no account, else its content parsed as a stake (\<open>None\<close> if it is
  none) and its lamports.
\<close>

record 'c client =
  cl_data :: "pubkey \<Rightarrow> 'c \<Rightarrow> bytes option"
  cl_accounts :: "pubkey list \<Rightarrow> 'c \<Rightarrow> (stake_state option \<times> u64) option list option"

text \<open>\<open>RpcPanic\<close> ends the tool; the others are errors that are returned.\<close>

datatype rpc_error =
    RpcFailed | RpcBadData | RpcMissing pubkey | RpcProgram program_error | RpcRefused | RpcPanic

text \<open>\<open>collect::<Result<Vec<_>, _>>()\<close> stops at the first error.\<close>

fun collect :: "('e + 'a) list \<Rightarrow> 'e + 'a list" where
  "collect [] = Inr []"
| "collect (m # ms) = bindR m (\<lambda>x. bindR (collect ms) (\<lambda>xs. Inr (x # xs)))"

definition map_error :: "('e \<Rightarrow> 'f) \<Rightarrow> 'e + 'a \<Rightarrow> 'f + 'a" where
  "map_error f m = (case m of Inl e \<Rightarrow> Inl (f e) | Inr x \<Rightarrow> Inr x)"

definition map_result :: "('a \<Rightarrow> 'b) \<Rightarrow> 'e + 'a \<Rightarrow> 'e + 'b" where
  "map_result f m = (case m of Inl e \<Rightarrow> Inl e | Inr x \<Rightarrow> Inr (f x))"

section \<open>The lists\<close>

definition rpc_read_item ::
  "(bytes \<Rightarrow> 'a option) \<Rightarrow> list_header \<Rightarrow> bytes \<Rightarrow> nat \<Rightarrow> rpc_error + 'a" where
  "rpc_read_item de l data index =
     (let sz = unat (item_size l); start = 8 + index * sz in
      bindR (ok_or (byte_slice data start (start + sz)) RpcPanic) (\<lambda>item. ok_or (de item) RpcBadData))"

definition rpc_read_list ::
  "(bytes \<Rightarrow> 'a option) \<Rightarrow> list_header \<Rightarrow> bytes \<Rightarrow> rpc_error + 'a list \<times> u32" where
  "rpc_read_list de l data =
     bindR (collect (map (rpc_read_item de l data) [0..<unat (count l)])) (\<lambda>xs.
     bindR (map_error RpcProgram (capacity l (length data))) (\<lambda>cap.
     Inr (xs, cap)))"

definition rpc_validator_list ::
  "('c, 'z) client_scheme \<Rightarrow> runtime \<Rightarrow> state \<Rightarrow> 'c \<Rightarrow> rpc_error + validator_record list \<times> u32" where
  "rpc_validator_list C rt st c =
     (let l = validator_list (validator_system st) in
      bindR (ok_or (cl_data C (account l) c) RpcFailed) (\<lambda>data.
      rpc_read_list (rt_de_validator rt) l data))"

definition rpc_stake_list ::
  "('c, 'z) client_scheme \<Rightarrow> runtime \<Rightarrow> state \<Rightarrow> 'c \<Rightarrow> rpc_error + stake_record list \<times> u32" where
  "rpc_stake_list C rt st c =
     (let l = stake_list (stake_system st) in
      bindR (ok_or (cl_data C (account l) c) RpcFailed) (\<lambda>data.
      rpc_read_list (rt_de_stake rt) l data))"

section \<open>The stakes\<close>

record stake_info =
  si_index :: u32
  si_record :: stake_record
  si_stake :: stake_state
  si_balance :: u64

definition BATCH_SIZE :: nat where
  "BATCH_SIZE = 100"

definition stake_info_of ::
  "stake_record list \<Rightarrow> nat \<Rightarrow> nat \<times> (stake_state option \<times> u64) option \<Rightarrow> rpc_error + stake_info" where
  "stake_info_of recs processed ia =
     (let i = processed + fst ia in
      bindR (require (i < length recs) RpcPanic) (\<lambda>_.
      bindR (ok_or (snd ia) (RpcMissing (stake_account (recs ! i)))) (\<lambda>a.
      bindR (ok_or (fst a) RpcBadData) (\<lambda>s.
      Inr \<lparr>si_index = word_of_nat processed + word_of_nat (fst ia), si_record = recs ! i, si_stake = s,
            si_balance = snd a\<rparr>))))"

text \<open>The \<open>while\<close> loop over the batches.\<close>

function stakes_loop ::
  "('c, 'z) client_scheme \<Rightarrow> 'c \<Rightarrow> stake_record list \<Rightarrow> nat \<Rightarrow> stake_info list \<Rightarrow> rpc_error + stake_info list" where
  "stakes_loop C c recs processed result_vec =
     (if processed < length recs
      then bindR (ok_or (cl_accounts C (map stake_account (take BATCH_SIZE (drop processed recs))) c) RpcFailed) (\<lambda>as.
           bindR (collect (map (stake_info_of recs processed) (enumerate 0 as))) (\<lambda>infos.
           stakes_loop C c recs (processed + BATCH_SIZE) (result_vec @ infos)))
      else Inr result_vec)"
  by pat_completeness auto

termination
  by (relation "measure (\<lambda>(C, c, recs, processed, result_vec). length recs - processed)")
    (auto simp: BATCH_SIZE_def)

declare stakes_loop.simps [simp del]

definition stakes_info ::
  "('c, 'z) client_scheme \<Rightarrow> runtime \<Rightarrow> state \<Rightarrow> 'c \<Rightarrow> rpc_error + stake_info list \<times> u32" where
  "stakes_info C rt st c =
     bindR (rpc_stake_list C rt st c) (\<lambda>(recs, cap).
     bindR (stakes_loop C c recs 0 []) (\<lambda>result_vec. Inr (result_vec, cap)))"

definition stakes_info_reversed ::
  "('c, 'z) client_scheme \<Rightarrow> runtime \<Rightarrow> state \<Rightarrow> 'c \<Rightarrow> rpc_error + stake_info list \<times> u32" where
  "stakes_info_reversed C rt st c =
     bindR (stakes_info C rt st c) (\<lambda>(xs, cap). Inr (rev xs, cap))"

section \<open>Lemmas\<close>

lemma collect_Inr: "collect ms = Inr xs \<longleftrightarrow> ms = map Inr xs"
proof (induction ms arbitrary: xs)
  case (Cons m ms)
  then show ?case by (cases xs) (auto simp: bindR_Inr)
qed auto

lemma collect_append: "collect (ms @ ms') = bindR (collect ms) (\<lambda>xs. bindR (collect ms') (\<lambda>ys. Inr (xs @ ys)))"
proof (induction ms)
  case Nil
  then show ?case by (cases "collect ms'") simp_all
next
  case (Cons m ms)
  then show ?case by (cases m; cases "collect ms"; cases "collect ms'") simp_all
qed

lemma bindR_Inr_right: "bindR m Inr = m"
  by (cases m) simp_all

lemma enumerate_split:
  "enumerate n (xs @ ys) = enumerate n xs @ enumerate (n + length xs) ys"
  by (simp add: enumerate_append_eq)

lemma stake_info_of_shift:
  "map (stake_info_of recs n) (enumerate 0 as) = map (stake_info_of recs 0) (enumerate n as)"
  by (rule nth_equalityI) (simp_all add: nth_enumerate_eq stake_info_of_def Let_def)

text \<open>A list held in an account is read as it is, with its capacity.\<close>

lemma read_held:
  assumes cod: "codec ser de n" and rep: "list_rep de n l data xs"
  shows "\<exists>cap. rpc_read_list de l data = Inr (xs, cap) \<and> capacity l (length data) = Inr cap
    \<and> length xs \<le> unat cap"
proof -
  have item: "rpc_read_item de l data i = Inr (xs ! i)" if "i < length xs" for i
    using list_rep_slot(1) [OF rep that] list_rep_nth [OF rep that]
    by (simp add: rpc_read_item_def Let_def byte_slice_slot ok_or_def)
  have "collect (map (rpc_read_item de l data) [0..<unat (count l)]) = Inr xs"
    unfolding collect_Inr list_rep_count [OF rep]
    by (rule nth_equalityI) (simp_all add: item)
  moreover obtain cap where "capacity l (length data) = Inr cap" "unat cap = (length data - 8) div unat (item_size l)"
    using codec.capacity_nat [OF cod rep] by blast
  moreover have "length xs \<le> (length data - 8) div unat (item_size l)"
  proof -
    have "8 + length xs * unat (item_size l) \<le> length data" "0 < unat (item_size l)"
      using rep by (simp_all add: list_rep_def)
    then have "length xs * unat (item_size l) \<le> length data - 8" by linarith
    then show ?thesis using \<open>0 < unat (item_size l)\<close> by (simp add: less_eq_div_iff_mult_less_eq)
  qed
  ultimately show ?thesis by (simp add: rpc_read_list_def map_error_def)
qed

text \<open>Reading in batches is reading all at once, for a client that answers account by account.\<close>

definition answers_each :: "('c, 'z) client_scheme \<Rightarrow> 'c \<Rightarrow> (pubkey \<Rightarrow> (stake_state option \<times> u64) option) \<Rightarrow> bool" where
  "answers_each C c acct \<longleftrightarrow> (\<forall>ks. length ks \<le> BATCH_SIZE \<longrightarrow> cl_accounts C ks c = Some (map acct ks))"

definition all_at_once :: "(pubkey \<Rightarrow> (stake_state option \<times> u64) option) \<Rightarrow> stake_record list \<Rightarrow> rpc_error + stake_info list" where
  "all_at_once acct recs =
     collect (map (stake_info_of recs 0) (enumerate 0 (map (acct \<circ> stake_account) recs)))"

lemma stakes_loop_all:
  assumes ans: "answers_each C c acct"
  shows "stakes_loop C c recs processed result_vec
    = bindR (collect (map (stake_info_of recs 0)
        (enumerate processed (map (acct \<circ> stake_account) (drop processed recs))))) (\<lambda>xs. Inr (result_vec @ xs))"
  using assms
proof (induction C c recs processed result_vec rule: stakes_loop.induct)
  case (1 C c recs processed result_vec)
  let ?f = "acct \<circ> stake_account" and ?info = "stake_info_of recs 0"
  let ?chunk = "take BATCH_SIZE (drop processed recs)" and ?rest = "drop (processed + BATCH_SIZE) recs"
  show ?case
  proof (cases "processed < length recs")
    case True
    have split: "map ?f (drop processed recs) = map ?f ?chunk @ map ?f ?rest"
      by (simp only: map_append [symmetric] drop_drop [symmetric, of BATCH_SIZE processed]
          add.commute [of processed BATCH_SIZE] append_take_drop_id)
    have rest: "enumerate (processed + length ?chunk) (map ?f ?rest) = enumerate (processed + BATCH_SIZE) (map ?f ?rest)"
      by (cases "?rest = []") (simp_all add: min_def)
    have ans: "cl_accounts C (map stake_account ?chunk) c = Some (map ?f ?chunk)"
      using 1(2) unfolding answers_each_def by simp
    have "stakes_loop C c recs processed result_vec
      = bindR (collect (map ?info (enumerate processed (map ?f ?chunk)))) (\<lambda>infos.
          stakes_loop C c recs (processed + BATCH_SIZE) (result_vec @ infos))"
      using True by (subst stakes_loop.simps) (simp add: ans ok_or_def stake_info_of_shift)
    also have "\<dots> = bindR (collect (map ?info (enumerate processed (map ?f ?chunk)))) (\<lambda>infos.
          bindR (collect (map ?info (enumerate (processed + BATCH_SIZE) (map ?f ?rest)))) (\<lambda>xs.
            Inr ((result_vec @ infos) @ xs)))"
    proof -
      have "stakes_loop C c recs (processed + BATCH_SIZE) (result_vec @ infos)
          = bindR (collect (map ?info (enumerate (processed + BATCH_SIZE) (map ?f ?rest)))) (\<lambda>xs.
              Inr ((result_vec @ infos) @ xs))" for infos
        by (rule 1(1) [OF True 1(2)])
      then show ?thesis by (simp only:)
    qed
    also have "\<dots> = bindR (collect (map ?info (enumerate processed (map ?f (drop processed recs))))) (\<lambda>xs.
            Inr (result_vec @ xs))"
      using rest unfolding split enumerate_split by (simp add: collect_append bindR_assoc)
    finally show ?thesis .
  next
    case False
    then show ?thesis by (subst stakes_loop.simps) simp
  qed
qed

text \<open>What a chain answers whose state is \<open>st\<close> and \<open>w\<close>.\<close>

definition reads_chain :: "('c, 'z) client_scheme \<Rightarrow> 'c \<Rightarrow> world \<Rightarrow> bool" where
  "reads_chain C c w \<longleftrightarrow> (\<forall>k. cl_data C k c = Some (acc_data w k))
     \<and> answers_each C c (\<lambda>k. map_option (\<lambda>s. (Some s, acc_lamports w k)) (acc_stake w k))"

definition info_at :: "world \<Rightarrow> stake_record list \<Rightarrow> nat \<Rightarrow> stake_info" where
  "info_at w ys i = \<lparr>si_index = word_of_nat i, si_record = ys ! i,
     si_stake = the (acc_stake w (stake_account (ys ! i))),
     si_balance = acc_lamports w (stake_account (ys ! i))\<rparr>"

lemma lists_read:
  assumes "marinade_runtime rt" and "reads_chain C c w"
    and "validators_held rt st w xs" and "stakes_held rt st w ys"
  shows "\<exists>cap. rpc_validator_list C rt st c = Inr (xs, cap) \<and> length xs \<le> unat cap"
    and "\<exists>cap. rpc_stake_list C rt st c = Inr (ys, cap) \<and> length ys \<le> unat cap"
proof -
  note codecs = marinade_runtime.axioms(1,2) [OF assms(1)]
  have "list_rep (rt_de_validator rt) (validator_record_len rt) (validator_list (validator_system st))
      (acc_data w (account (validator_list (validator_system st)))) xs"
    using assms(3) by (simp add: validators_held_def Let_def validators_rep_def)
  then show "\<exists>cap. rpc_validator_list C rt st c = Inr (xs, cap) \<and> length xs \<le> unat cap"
    using read_held [OF codecs(2)] assms(2)
    unfolding rpc_validator_list_def reads_chain_def Let_def ok_or_def by fastforce
  have "list_rep (rt_de_stake rt) (stake_record_len rt) (stake_list (stake_system st))
      (acc_data w (account (stake_list (stake_system st)))) ys"
    using assms(4) by (simp add: stakes_held_def Let_def)
  then show "\<exists>cap. rpc_stake_list C rt st c = Inr (ys, cap) \<and> length ys \<le> unat cap"
    using read_held [OF codecs(1)] assms(2)
    unfolding rpc_stake_list_def reads_chain_def Let_def ok_or_def by fastforce
qed

section \<open>Properties\<close>

text \<open>
  The tools see the lists as they are: reading the validator list and the stake list of an instance
  that holds well-formed lists yields exactly the listed records, in order, and capacities that
  are not below their number.
\<close>
lemma rpc_sees_lists:
  assumes "marinade_runtime rt" and "reads_chain C c w"
    and "validators_held rt st w xs" and "stakes_held rt st w ys"
  shows "\<exists>vcap scap. rpc_validator_list C rt st c = Inr (xs, vcap) \<and> length xs \<le> unat vcap
    \<and> rpc_stake_list C rt st c = Inr (ys, scap) \<and> length ys \<le> unat scap"
  using lists_read [OF assms] by blast

text \<open>All listed stake accounts exist: their information is read completely.\<close>

lemma stakes_info_chain:
  assumes "marinade_runtime rt" and "reads_chain C c w" and "validators_held rt st w xs"
    and "stakes_held rt st w ys" and "\<forall>r \<in> set ys. acc_stake w (stake_account r) \<noteq> None"
  shows "\<exists>cap. stakes_info C rt st c = Inr (map (info_at w ys) [0..<length ys], cap)"
proof -
  let ?acct = "\<lambda>k. map_option (\<lambda>s. (Some s, acc_lamports w k)) (acc_stake w k)"
  have ans: "answers_each C c ?acct" using assms(2) by (simp add: reads_chain_def)
  obtain cap where l: "rpc_stake_list C rt st c = Inr (ys, cap)"
    using lists_read(2) [OF assms(1-4)] by blast
  have "stake_info_of ys 0 (i, ?acct (stake_account (ys ! i))) = Inr (info_at w ys i)" if "i < length ys" for i
  proof -
    have "acc_stake w (stake_account (ys ! i)) \<noteq> None" using assms(5) nth_mem [OF that] by blast
    then obtain s where "acc_stake w (stake_account (ys ! i)) = Some s" by blast
    then show ?thesis using that by (simp add: stake_info_of_def info_at_def ok_or_def)
  qed
  then have "map (stake_info_of ys 0) (enumerate 0 (map (?acct \<circ> stake_account) ys))
      = map Inr (map (info_at w ys) [0..<length ys])"
    by (intro nth_equalityI) (simp_all only: length_map length_enumerate length_upt nth_map
        nth_enumerate_eq nth_upt add_0 diff_zero comp_apply)
  then have "all_at_once ?acct ys = Inr (map (info_at w ys) [0..<length ys])"
    unfolding all_at_once_def collect_Inr .
  then show ?thesis using l stakes_loop_all [OF ans]
    by (intro exI [of _ cap]) (simp add: stakes_info_def all_at_once_def bindR_Inr_right)
qed

text \<open>
  C36. Fetching the stakes in batches of 100 is fetching them one by one: for a client that answers account by
  account, the loop ends with the information of every listed stake under its own index,
  or with the first error that reading them in order would meet.
\<close>
theorem stakes_info_batches:
  assumes "answers_each C c acct"
  shows "stakes_info C rt st c = bindR (rpc_stake_list C rt st c) (\<lambda>(recs, cap).
    bindR (all_at_once acct recs) (\<lambda>xs. Inr (xs, cap)))"
  using stakes_loop_all [OF assms] by (simp add: stakes_info_def all_at_once_def bindR_Inr_right)

section \<open>An example\<close>

text \<open>A client of the example's world: what is outside is the world itself.\<close>

definition ex_client :: "world client" where
  "ex_client = \<lparr>cl_data = (\<lambda>k w. Some (acc_data w k)), cl_accounts = (\<lambda>ks w.
     Some (map (\<lambda>k. map_option (\<lambda>s. (Some s, acc_lamports w k)) (acc_stake w k)) ks))\<rparr>"

lemma ex_client_reads: "reads_chain ex_client w w"
  by (simp add: reads_chain_def answers_each_def ex_client_def)

lemma rpc_sees_lists_witness:
  "\<exists>vcap scap. rpc_validator_list ex_client ref_rt ex_state ex_world = Inr (ex_validators, vcap)
    \<and> length ex_validators \<le> unat vcap
    \<and> rpc_stake_list ex_client ref_rt ex_state ex_world = Inr (ex_stakes, scap) \<and> length ex_stakes \<le> unat scap"
  by (rule rpc_sees_lists [OF ref.marinade_runtime_axioms ex_client_reads ex_held])

lemma stakes_info_batches_witness:
  "stakes_info ex_client ref_rt ex_state ex_world
    = bindR (rpc_stake_list ex_client ref_rt ex_state ex_world) (\<lambda>(recs, cap).
      bindR (all_at_once (\<lambda>k. map_option (\<lambda>s. (Some s, acc_lamports ex_world k)) (acc_stake ex_world k)) recs)
        (\<lambda>xs. Inr (xs, cap)))"
  by (rule stakes_info_batches [OF conjunct2 [OF ex_client_reads [of ex_world, unfolded reads_chain_def]]])

end
