(* ===== verification/Bot.thy ===== *)
theory Bot
  imports RpcView
begin

text \<open>
  The bot (\<open>cli/bot-cli/src\<close>): it cranks the instance by sending one transaction per stake or
  validator. Its state is the transaction builder, the last state of the instance that it has read,
  the world outside and its counters of transactions; a run returns an error or a value and a new state.
  Log output is left out, with what is only computed for it (the \<open>f64\<close> progress and the dates of
  \<open>do_work\<close>, and the numbers of processed accounts of \<open>update_price\<close> and \<open>merge_stakes\<close>).
\<close>

section \<open>The client, the options and the state\<close>

text \<open>
  \<open>cl_owner\<close> is the owner of an account, if there is one (the call retries until it is answered).
  \<open>cl_activation\<close> is the stake history, applied by \<open>stake_activating_and_deactivating\<close>: effective,
  activating and deactivating stake. \<open>cl_credits\<close> are the credits observed in a stake account.
  \<open>cl_slots\<close> is the epoch schedule: first and last slot of an epoch. \<open>cl_now\<close> is the system's time
  in nanoseconds, and \<open>cl_process\<close> is \<open>process_transaction\<close>: whether it returned \<open>Ok\<close>.
\<close>

record ('s, 'c) bot_client = "'c client" +
  cl_state :: "pubkey \<Rightarrow> 'c \<Rightarrow> state option"
  cl_clock :: "'c \<Rightarrow> clock option"
  cl_balance :: "pubkey \<Rightarrow> 'c \<Rightarrow> u64 option"
  cl_owner :: "pubkey \<Rightarrow> 'c \<Rightarrow> pubkey option"
  cl_rent :: "'c \<Rightarrow> (nat \<Rightarrow> u64) option"
  cl_activation :: "'c \<Rightarrow> (delegation \<Rightarrow> u64 \<Rightarrow> u64 \<times> u64 \<times> u64) option"
  cl_credits :: "'c \<Rightarrow> pubkey \<Rightarrow> u64"
  cl_slots :: "'c \<Rightarrow> ((u64 \<Rightarrow> u64) \<times> (u64 \<Rightarrow> u64)) option"
  cl_new_keypair :: "'c \<Rightarrow> 's \<times> 'c"
  cl_now :: "'c \<Rightarrow> nat \<times> 'c"
  cl_process :: "bool \<Rightarrow> 's prepared_transaction \<Rightarrow> 'c \<Rightarrow> bool \<times> 'c"

text \<open>
  The options common to all commands, with the libraries: \<open>be_describe\<close> and \<open>be_describe_new\<close> format
  the descriptions of instructions, \<open>be_stake_size\<close> is \<open>size_of::<StakeState>()\<close>.
\<close>

record ('s, 'c) bot_env =
  be_client :: "('s, 'c) bot_client"
  be_lib :: "'s tx_lib"
  be_enc :: encoder
  be_rt :: runtime
  be_key :: pubkey
  be_simulate :: bool
  be_limit :: u32
  be_fee_payer :: 's
  be_stake_size :: nat
  be_describe :: "'s helper_call \<Rightarrow> string"
  be_describe_new :: "'s \<Rightarrow> string \<Rightarrow> string"

record ('s, 'c) bot =
  bt_state :: state
  bt_builder :: "'s tx_builder"
  bt_world :: 'c
  bt_ok :: u32
  bt_err :: u32

type_synonym ('s, 'c, 'a) bot_run = "('s, 'c) bot \<Rightarrow> (rpc_error + 'a) \<times> ('s, 'c) bot"

section \<open>Steps\<close>

definition returnB :: "'a \<Rightarrow> ('s, 'c, 'a) bot_run" where
  "returnB x s = (Inr x, s)"

definition failB :: "rpc_error \<Rightarrow> ('s, 'c, 'a) bot_run" where
  "failB e s = (Inl e, s)"

definition reads :: "(state \<Rightarrow> 'c \<Rightarrow> rpc_error + 'a) \<Rightarrow> ('s, 'c, 'a) bot_run" where
  "reads f s = (f (bt_state s) (bt_world s), s)"

definition from_outside :: "('c \<Rightarrow> 'a \<times> 'c) \<Rightarrow> ('s, 'c, 'a) bot_run" where
  "from_outside f s = (case f (bt_world s) of (x, c) \<Rightarrow> (Inr x, s\<lparr>bt_world := c\<rparr>))"

text \<open>\<open>err\<close> says what an error of the builder becomes: a panic if the code \<open>unwrap\<close>s it.\<close>

definition on_builder ::
  "('e \<Rightarrow> rpc_error) \<Rightarrow> ('s tx_builder \<Rightarrow> ('e + 'a) \<times> 's tx_builder) \<Rightarrow> ('s, 'c, 'a) bot_run" where
  "on_builder err m s = (case m (bt_builder s) of (r, b) \<Rightarrow> (map_error err r, s\<lparr>bt_builder := b\<rparr>))"

fun build_failed :: "build_error \<Rightarrow> rpc_error" where
  "build_failed BuilderPanic = RpcPanic"
| "build_failed (UnknownSigner k) = RpcRefused"
| "build_failed TooBigTransaction = RpcRefused"

fun helper_failed :: "helper_error \<Rightarrow> rpc_error" where
  "helper_failed HelperPanic = RpcPanic"
| "helper_failed (InvalidValidatorManagerAuthority e k) = RpcRefused"
| "helper_failed (InvalidAdminAuthority e k) = RpcRefused"

text \<open>Arithmetic of the tools panics out of range (they are built with \<open>overflow-checks\<close>).\<close>

definition add_or_panic :: "'w::len word \<Rightarrow> 'w word \<Rightarrow> rpc_error + 'w word" where
  "add_or_panic a b = ok_or (checked_add a b) RpcPanic"

fun sum_or_panic :: "u64 list \<Rightarrow> rpc_error + u64" where
  "sum_or_panic [] = Inr 0"
| "sum_or_panic (x # xs) = bindR (sum_or_panic xs) (\<lambda>s. add_or_panic x s)"

definition addB :: "'w::len word \<Rightarrow> 'w word \<Rightarrow> ('s, 'c, 'w word) bot_run" where
  "addB a b = reads (\<lambda>_ _. add_or_panic a b)"

definition subB :: "u64 \<Rightarrow> u64 \<Rightarrow> ('s, 'c, u64) bot_run" where
  "subB a b = reads (\<lambda>_ _. ok_or (checked_sub a b) RpcPanic)"

definition count_tx :: "bool \<Rightarrow> ('s, 'c, bool) bot_run" where
  "count_tx ok s =
     (if ok then map_result (\<lambda>_. ok) (add_or_panic (bt_ok s) 1) else map_result (\<lambda>_. ok) (add_or_panic (bt_err s) 1),
      if ok then s\<lparr>bt_ok := bt_ok s + 1\<rparr> else s\<lparr>bt_err := bt_err s + 1\<rparr>)"

definition reset_counts :: "('s, 'c, unit) bot_run" where
  "reset_counts s = (Inr (), s\<lparr>bt_ok := 0, bt_err := 0\<rparr>)"

text \<open>\<open>begin\<close>, some instructions, \<open>commit\<close>, then the only transaction is processed and counted.\<close>

definition send :: "('s, 'c) bot_env \<Rightarrow> ('s, 'c, unit) bot_run \<Rightarrow> ('s, 'c, bool) bot_run" where
  "send E body =
     thenB (on_builder (\<lambda>_. RpcPanic) begin_pack) (\<lambda>_.
     thenB body (\<lambda>_.
     thenB (on_builder (\<lambda>_. RpcPanic) commit_pack) (\<lambda>_.
     thenB (on_builder (\<lambda>_. RpcPanic) (build_one (be_lib E))) (\<lambda>t.
     thenB (from_outside (cl_process (be_client E) (be_simulate E) t)) count_tx))))"

definition call_helper :: "('s, 'c) bot_env \<Rightarrow> 's helper_call \<Rightarrow> ('s, 'c, unit) bot_run" where
  "call_helper E h s =
     on_builder helper_failed (run_helper (be_lib E) (be_enc E) (be_rt E) (be_key E) (bt_state s) h (be_describe E h)) s"

definition send_call :: "('s, 'c) bot_env \<Rightarrow> 's helper_call \<Rightarrow> ('s, 'c, bool) bot_run" where
  "send_call E h = send E (call_helper E h)"

definition refresh :: "('s, 'c) bot_env \<Rightarrow> ('s, 'c, unit) bot_run" where
  "refresh E s = (case cl_state (be_client E) (be_key E) (bt_world s) of
       None \<Rightarrow> (Inl RpcFailed, s) | Some st \<Rightarrow> (Inr (), s\<lparr>bt_state := st\<rparr>))"

definition read_clock :: "('s, 'c) bot_env \<Rightarrow> ('s, 'c, clock) bot_run" where
  "read_clock E = reads (\<lambda>_ c. ok_or (cl_clock (be_client E) c) RpcFailed)"

definition read_stake_history ::
  "('s, 'c) bot_env \<Rightarrow> ('s, 'c, delegation \<Rightarrow> u64 \<Rightarrow> u64 \<times> u64 \<times> u64) bot_run" where
  "read_stake_history E = reads (\<lambda>_ c. ok_or (cl_activation (be_client E) c) RpcFailed)"

definition read_validators :: "('s, 'c) bot_env \<Rightarrow> ('s, 'c, validator_record list) bot_run" where
  "read_validators E = reads (\<lambda>st c. map_result fst (rpc_validator_list (be_client E) (be_rt E) st c))"

definition read_stakes :: "('s, 'c) bot_env \<Rightarrow> ('s, 'c, stake_info list) bot_run" where
  "read_stakes E = reads (\<lambda>st c. map_result fst (stakes_info (be_client E) (be_rt E) st c))"

definition read_stakes_reversed :: "('s, 'c) bot_env \<Rightarrow> ('s, 'c, stake_info list) bot_run" where
  "read_stakes_reversed E = reads (\<lambda>st c. map_result fst (stakes_info_reversed (be_client E) (be_rt E) st c))"

text \<open>\<open>get_balance(reserve)\<close>, then \<open>stake_delta\<close> of the state read last.\<close>

definition read_delta :: "('s, 'c) bot_env \<Rightarrow> ('s, 'c, int) bot_run" where
  "read_delta E = reads (\<lambda>st c.
     bindR (map_error (\<lambda>_. RpcPanic) (reserve_address (be_rt E) (be_key E) st)) (\<lambda>k.
     bindR (ok_or (cl_balance (be_client E) k c) RpcFailed) (\<lambda>balance.
     map_error (\<lambda>_. RpcPanic) (stake_delta st balance))))"

text \<open>\<open>start.elapsed().unwrap().as_secs()\<close>.\<close>

definition elapsed_secs :: "('s, 'c) bot_env \<Rightarrow> nat \<Rightarrow> ('s, 'c, nat) bot_run" where
  "elapsed_secs E start = thenB (from_outside (cl_now (be_client E))) (\<lambda>now.
     if now < start then failB RpcPanic else returnB ((now - start) div 10 ^ 9))"

section \<open>Updating the price\<close>

definition validator_indices :: "validator_record list \<Rightarrow> pubkey \<Rightarrow> u32 option" where
  "validator_indices vs = map_of (rev (map (\<lambda>(i, v). (validator_account v, word_of_nat i)) (enumerate 0 vs)))"

text \<open>\<open>continue\<close> goes on with the next stake; \<open>expect\<close> panics.\<close>

fun update_loop ::
  "('s, 'c) bot_env \<Rightarrow> u64 \<Rightarrow> (delegation \<Rightarrow> u64 \<Rightarrow> u64 \<times> u64 \<times> u64) \<Rightarrow> (pubkey \<Rightarrow> u32 option) \<Rightarrow> stake_info list
    \<Rightarrow> ('s, 'c, unit) bot_run" where
  "update_loop E now history indices [] = returnB ()"
| "update_loop E now history indices (info # infos) =
     (if last_update_epoch (si_record info) = now then update_loop E now history indices infos
      else case stake_delegation (si_stake info) of
        None \<Rightarrow> failB RpcPanic
      | Some d \<Rightarrow>
          if deactivation_epoch d = -1
          then if delegated_stake d = last_update_delegated_lamports (si_record info)
               then update_loop E now history indices infos
               else (case indices (voter_pubkey d) of
                 None \<Rightarrow> failB RpcPanic
               | Some j \<Rightarrow>
                   thenB (send_call E (HUpdateActive (stake_account (si_record info)) (si_index info) j))
                     (\<lambda>_. update_loop E now history indices infos))
          else if fst (history d now) = 0
          then thenB (send_call E (HUpdateDeactivated (stake_account (si_record info)) (si_index info)))
                 (\<lambda>_. update_loop E now history indices infos)
          else update_loop E now history indices infos)"

text \<open>\<open>Ok(count_tx_err == 0)\<close>.\<close>

definition all_went_ok :: "('s, 'c, bool) bot_run" where
  "all_went_ok s = (Inr (bt_err s = 0), s)"

definition update_price :: "('s, 'c) bot_env \<Rightarrow> ('s, 'c, bool) bot_run" where
  "update_price E =
     thenB (read_stakes_reversed E) (\<lambda>infos.
     thenB (read_clock E) (\<lambda>clk.
     if \<not> list_ex (\<lambda>info. last_update_epoch (si_record info) < epoch clk) infos then returnB True
     else
       thenB (read_validators E) (\<lambda>vs.
       thenB (read_stake_history E) (\<lambda>history.
       thenB reset_counts (\<lambda>_.
       thenB (update_loop E (epoch clk) history (validator_indices vs) infos) (\<lambda>_.
       all_went_ok))))))"

section \<open>Merging stakes\<close>

datatype mergeable_kind = ActivationEpoch | FullyActive

record mergeable =
  mg_index :: u32
  mg_kind :: mergeable_kind
  mg_credits :: u64
  mg_address :: pubkey
  mg_validator :: u32

definition validator_position :: "validator_record list \<Rightarrow> pubkey \<Rightarrow> u32 option" where
  "validator_position vs k =
     map_option (\<lambda>i. word_of_nat i) (find (\<lambda>i. validator_account (vs ! i) = k) [0..<length vs])"

text \<open>The closure of \<open>filter_map\<close>, which may panic.\<close>

definition mergeable_of ::
  "u64 \<Rightarrow> (delegation \<Rightarrow> u64 \<Rightarrow> u64 \<times> u64 \<times> u64) \<Rightarrow> validator_record list \<Rightarrow> (pubkey \<Rightarrow> u64) \<Rightarrow> stake_info
    \<Rightarrow> rpc_error + mergeable option" where
  "mergeable_of now history vs credits info =
     (case stake_delegation (si_stake info) of
        None \<Rightarrow> Inr None
      | Some d \<Rightarrow>
          if deactivation_epoch d = -1
          then (case history d now of (effective, activating, deactivating) \<Rightarrow>
            bindR (ok_or (validator_position vs (voter_pubkey d)) RpcPanic) (\<lambda>j.
            let m = (\<lambda>kind. \<lparr>mg_index = si_index info, mg_kind = kind,
              mg_credits = credits (stake_account (si_record info)),
              mg_address = stake_account (si_record info), mg_validator = j\<rparr>) in
            if effective = 0 then Inr (Some (m ActivationEpoch))
            else if activating = 0 \<and> deactivating = 0 then Inr (Some (m FullyActive))
            else Inr None))
          else Inr None)"

definition mergeable_stakes ::
  "u64 \<Rightarrow> (delegation \<Rightarrow> u64 \<Rightarrow> u64 \<times> u64 \<times> u64) \<Rightarrow> validator_record list \<Rightarrow> (pubkey \<Rightarrow> u64) \<Rightarrow> stake_info list
    \<Rightarrow> rpc_error + mergeable list" where
  "mergeable_stakes now history vs credits infos =
     map_result (List.map_filter id) (collect (map (mergeable_of now history vs credits) infos))"

definition can_merge :: "mergeable \<Rightarrow> mergeable \<Rightarrow> bool" where
  "can_merge d s \<longleftrightarrow> mg_validator d = mg_validator s \<and> mg_credits d = mg_credits s \<and> mg_kind d = mg_kind s"

definition merge_call :: "mergeable \<Rightarrow> mergeable \<Rightarrow> 's helper_call" where
  "merge_call d s = HMergeStakes (mg_address d) (mg_index d) (mg_address s) (mg_index s) (mg_validator d)"

text \<open>The inner loop, over the destinations; the result says whether the time is over (\<open>exit_for\<close>).\<close>

fun merge_destinations ::
  "('s, 'c) bot_env \<Rightarrow> nat \<Rightarrow> nat \<Rightarrow> mergeable \<Rightarrow> mergeable list \<Rightarrow> ('s, 'c, bool) bot_run" where
  "merge_destinations E max_seconds start s [] = returnB False"
| "merge_destinations E max_seconds start s (d # ds) =
     (if can_merge d s then thenB (send_call E (merge_call d s)) (\<lambda>_. returnB False)
      else if max_seconds > 0
      then thenB (elapsed_secs E start) (\<lambda>secs.
        if secs > max_seconds then returnB True else merge_destinations E max_seconds start s ds)
      else merge_destinations E max_seconds start s ds)"

fun merge_sources ::
  "('s, 'c) bot_env \<Rightarrow> nat \<Rightarrow> nat \<Rightarrow> mergeable list \<Rightarrow> nat list \<Rightarrow> ('s, 'c, unit) bot_run" where
  "merge_sources E max_seconds start ms [] = returnB ()"
| "merge_sources E max_seconds start ms (i # is) =
     thenB (merge_destinations E max_seconds start (ms ! i) (take i ms)) (\<lambda>exit_for.
     if exit_for then returnB () else merge_sources E max_seconds start ms is)"

definition merge_bot :: "('s, 'c) bot_env \<Rightarrow> nat \<Rightarrow> ('s, 'c, unit) bot_run" where
  "merge_bot E max_seconds =
     thenB (read_validators E) (\<lambda>vs.
     thenB (read_stakes E) (\<lambda>infos.
     thenB (reads (\<lambda>_ c. Inr (cl_credits (be_client E) c))) (\<lambda>credits.
     thenB (read_stake_history E) (\<lambda>history.
     thenB (from_outside (cl_now (be_client E))) (\<lambda>start.
     thenB (read_clock E) (\<lambda>clk.
     thenB (reads (\<lambda>_ _. mergeable_stakes (epoch clk) history vs credits infos)) (\<lambda>ms.
     thenB reset_counts (\<lambda>_.
     merge_sources E max_seconds start ms (rev [1..<length ms])))))))))"

section \<open>An example\<close>

text \<open>The world outside is the example's world and a counter of processed transactions, all of which fail.\<close>

definition ex_bot_client :: "(pubkey, world \<times> nat) bot_client" where
  "ex_bot_client = \<lparr>cl_data = (\<lambda>k c. Some (acc_data (fst c) k)),
     cl_accounts = (\<lambda>ks c. Some (map (\<lambda>k. map_option (\<lambda>s. (Some s, acc_lamports (fst c) k)) (acc_stake (fst c) k)) ks)),
     cl_state = (\<lambda>k c. Some ex_state), cl_clock = (\<lambda>c. Some ex_clock),
     cl_balance = (\<lambda>k c. Some (acc_lamports (fst c) k)), cl_owner = (\<lambda>k c. Some (acc_owner (fst c) k)),
     cl_rent = (\<lambda>c. Some (\<lambda>n. 2282880)), cl_activation = (\<lambda>c. Some (\<lambda>d e. if deactivation_epoch d = - 1
       then (delegated_stake d, 0, 0) else (0, 0, 0))),
     cl_credits = (\<lambda>c k. 0), cl_slots = (\<lambda>c. Some (\<lambda>e. e * 432000, \<lambda>e. e * 432000 + 431999)),
     cl_new_keypair = (\<lambda>c. (70, c)), cl_now = (\<lambda>c. (0, c)),
     cl_process = (\<lambda>sim t c. (False, (fst c, Suc (snd c))))\<rparr>"

definition ex_bot_env :: "(pubkey, world \<times> nat) bot_env" where
  "ex_bot_env = \<lparr>be_client = ex_bot_client, be_lib = ex_lib, be_enc = ex_enc, be_rt = ref_rt, be_key = ex_key,
     be_simulate = False, be_limit = 1, be_fee_payer = 1, be_stake_size = 200, be_describe = (\<lambda>h. []),
     be_describe_new = (\<lambda>k d. d)\<rparr>"

definition ex_bot :: "(pubkey, world \<times> nat) bot" where
  "ex_bot = \<lparr>bt_state = ex_state, bt_builder = builder_limited ex_lib 1, bt_world = (ex_world, 0), bt_ok = 0, bt_err = 0\<rparr>"

lemma ex_bot_reads: "reads_chain ex_bot_client (w, n) w"
  by (simp add: reads_chain_def answers_each_def ex_bot_client_def)

lemma ex_bot_sel [simp]:
  "be_client ex_bot_env = ex_bot_client" "be_lib ex_bot_env = ex_lib" "be_enc ex_bot_env = ex_enc"
  "be_rt ex_bot_env = ref_rt" "be_key ex_bot_env = ex_key" "be_limit ex_bot_env = 1"
  "bt_state ex_bot = ex_state" "bt_world ex_bot = (ex_world, 0)" "bt_builder ex_bot = builder_limited ex_lib 1"
  by (simp_all add: ex_bot_env_def ex_bot_def)

lemma ex_bot_stakes:
  "\<exists>cap. stakes_info ex_bot_client ref_rt ex_state (ex_world, n)
    = Inr (map (info_at ex_world ex_stakes) [0, 1, 2], cap)"
proof -
  have "\<forall>r \<in> set ex_stakes. acc_stake ex_world (stake_account r) \<noteq> None"
    by (simp add: ex_stakes_def ex_world_def)
  note i = stakes_info_chain [OF ref.marinade_runtime_axioms ex_bot_reads ex_held this]
  have "[0..<length ex_stakes] = [0, 1, 2]" by (simp add: ex_stakes_def upt_rec)
  then show ?thesis using i [of n] by (simp only:)
qed

definition ex_infos :: "stake_info list" where
  "ex_infos = [
     \<lparr>si_index = 0, si_record = \<lparr>stake_account = 60, last_update_delegated_lamports = 600000,
        last_update_epoch = 99, is_emergency_unstaking = 0\<rparr>,
      si_stake = StakeDelegated ex_meta (ex_delegation 50 610000 (- 1)), si_balance = 2893880\<rparr>,
     \<lparr>si_index = 1, si_record = \<lparr>stake_account = 61, last_update_delegated_lamports = 400000,
        last_update_epoch = 100, is_emergency_unstaking = 0\<rparr>,
      si_stake = StakeDelegated ex_meta (ex_delegation 50 400000 (- 1)), si_balance = 2682880\<rparr>,
     \<lparr>si_index = 2, si_record = \<lparr>stake_account = 62, last_update_delegated_lamports = 200000,
        last_update_epoch = 99, is_emergency_unstaking = 0\<rparr>,
      si_stake = StakeDelegated ex_meta (ex_delegation 50 200000 98), si_balance = 2482880\<rparr>]"

lemma ex_bot_infos: "\<exists>cap. stakes_info ex_bot_client ref_rt ex_state (ex_world, n) = Inr (ex_infos, cap)"
proof -
  have "map (info_at ex_world ex_stakes) [0, 1, 2] = ex_infos"
    by (simp add: ex_infos_def info_at_def ex_stakes_def ex_world_def)
  then show ?thesis using ex_bot_stakes [of n] by (simp only:)
qed

lemma ex_client_sel [simp]:
  "cl_clock ex_bot_client c = Some ex_clock" "cl_credits ex_bot_client c k = 0" "cl_now ex_bot_client c = (0, c)"
  "cl_activation ex_bot_client c
    = Some (\<lambda>d e. if deactivation_epoch d = - 1 then (delegated_stake d, 0, 0) else (0, 0, 0))"
  by (simp_all add: ex_bot_client_def)

end
