(* ===== verification/BotAims.thy ===== *)
theory BotAims
  imports Bot
begin

text \<open>
  Why the bot works through the stakes from the last to the first (the comment at
  \<open>stakes_info_reversed\<close> in \<open>rpc_marinade.rs\<close>): removing a record moves the last one into its place,
  so the indices that were read at the start could point at other records later. The theory shows that
  none of the transactions of a run is sent with an index that has become wrong, whichever of the
  earlier ones succeeded, and that what is assumed of the earlier ones is what the program does.
\<close>

section \<open>Transactions and the stake list\<close>

text \<open>What a transaction of the bot does to the list of stakes when it succeeds, or fails.\<close>

inductive list_step :: "'s helper_call \<Rightarrow> stake_record list \<Rightarrow> stake_record list \<Rightarrow> bool" where
  step_failed: "list_step h ys ys"
| step_updated: "unat i < length ys \<Longrightarrow> stake_account r = stake_account (ys ! unat i) \<Longrightarrow>
    list_step (HUpdateActive k i j) ys (ys[unat i := r])"
| step_removed: "unat i < length ys \<Longrightarrow> list_step (HUpdateDeactivated k i) ys (swap_remove ys (unat i))"
| step_merged: "unat i < length ys \<Longrightarrow> unat j < length ys \<Longrightarrow> stake_account r = stake_account (ys ! unat i) \<Longrightarrow>
    list_step (HMergeStakes d i s j v) ys (swap_remove (ys[unat i := r]) (unat j))"

inductive_cases list_step_cases: "list_step h ys ys'"

inductive list_steps :: "'s helper_call list \<Rightarrow> stake_record list \<Rightarrow> stake_record list \<Rightarrow> bool" where
  steps_nil: "list_steps [] ys ys"
| steps_cons: "list_step h ys ys1 \<Longrightarrow> list_steps hs ys1 ys2 \<Longrightarrow> list_steps (h # hs) ys ys2"

inductive_cases list_steps_cases: "list_steps [] ys ys'" "list_steps (h # hs) ys ys'"

text \<open>The records that a transaction names are the ones that its indices point at.\<close>

fun aims :: "'s helper_call \<Rightarrow> stake_record list \<Rightarrow> bool" where
  "aims (HUpdateActive k i j) ys \<longleftrightarrow> unat i < length ys \<and> stake_account (ys ! unat i) = k"
| "aims (HUpdateDeactivated k i) ys \<longleftrightarrow> unat i < length ys \<and> stake_account (ys ! unat i) = k"
| "aims (HMergeStakes d i s j v) ys \<longleftrightarrow> unat i < unat j \<and> unat j < length ys
     \<and> stake_account (ys ! unat i) = d \<and> stake_account (ys ! unat j) = s"
| "aims h ys \<longleftrightarrow> False"

text \<open>The highest index that it changes.\<close>

fun top_index :: "'s helper_call \<Rightarrow> nat" where
  "top_index (HUpdateActive k i j) = unat i"
| "top_index (HUpdateDeactivated k i) = unat i"
| "top_index (HMergeStakes d i s j v) = unat j"
| "top_index h = 0"

definition same_below :: "nat \<Rightarrow> stake_record list \<Rightarrow> stake_record list \<Rightarrow> bool" where
  "same_below m ys ys' \<longleftrightarrow> m \<le> length ys' \<and> (\<forall>i < m. stake_account (ys' ! i) = stake_account (ys ! i))"

lemma swap_remove_below:
  assumes "m \<le> k" and "k < length ys" and "same_below m ys0 ys"
  shows "same_below m ys0 (swap_remove ys k)"
  using assms by (auto simp: same_below_def swap_remove_nth)

lemma update_below:
  assumes "stake_account r = stake_account (ys ! i)" and "same_below m ys0 ys"
  shows "same_below m ys0 (ys[i := r])"
  unfolding same_below_def
proof (intro conjI allI impI)
  fix j assume "j < m"
  then show "stake_account (ys[i := r] ! j) = stake_account (ys0 ! j)"
    using assms by (cases "i = j") (simp_all add: same_below_def)
qed (use assms(2) in \<open>simp add: same_below_def\<close>)

lemma list_step_below:
  assumes "list_step h ys ys'" and "m \<le> top_index h" and "same_below m ys0 ys"
  shows "same_below m ys0 ys'"
  using assms
proof (cases rule: list_step.cases)
  case (step_merged i j r d s v)
  have "same_below m ys0 (ys[unat i := r])" by (rule update_below [OF step_merged(5) assms(3)])
  then show ?thesis using step_merged assms(2) by (simp add: swap_remove_below)
qed (auto simp: swap_remove_below update_below)

lemma list_steps_below:
  assumes "list_steps hs ys ys'" and "\<forall>h \<in> set hs. m \<le> top_index h" and "same_below m ys0 ys"
  shows "same_below m ys0 ys'"
  using assms by (induction rule: list_steps.induct) (auto intro: list_step_below)

definition descending :: "'s helper_call list \<Rightarrow> bool" where
  "descending hs \<longleftrightarrow> sorted_wrt (\<lambda>h h'. top_index h' < top_index h) hs"

lemma aims_below:
  assumes "aims h ys" and "same_below (Suc (top_index h)) ys ys'"
  shows "aims h ys'"
  using assms by (cases h) (auto simp: same_below_def)

text \<open>In a descending sequence every transaction keeps its aim.\<close>

definition keeps_aim :: "'s helper_call list \<Rightarrow> stake_record list \<Rightarrow> bool" where
  "keeps_aim hs ys \<longleftrightarrow> (\<forall>before h after ys'. hs = before @ h # after \<longrightarrow> list_steps before ys ys' \<longrightarrow> aims h ys')"

lemma descending_keeps_aim:
  assumes "descending hs" and "\<forall>h \<in> set hs. aims h ys"
  shows "keeps_aim hs ys"
  unfolding keeps_aim_def
proof (intro allI impI)
  fix before h after ys' assume hs: "hs = before @ h # after" and run: "list_steps before ys ys'"
  have a: "aims h ys" using assms(2) hs by simp
  have m: "\<forall>g \<in> set before. Suc (top_index h) \<le> top_index g"
    using assms(1) by (simp add: hs descending_def sorted_wrt_append Suc_le_eq)
  have "Suc (top_index h) \<le> length ys" using a by (cases h) auto
  then have "same_below (Suc (top_index h)) ys ys'"
    by (intro list_steps_below [OF run m]) (simp add: same_below_def)
  then show "aims h ys'" by (rule aims_below [OF a])
qed

section \<open>What the program does\<close>

text \<open>The instruction that the client builds for a call.\<close>

fun list_instruction :: "runtime \<Rightarrow> pubkey \<Rightarrow> state \<Rightarrow> 's helper_call \<Rightarrow> instruction result" where
  "list_instruction rt key st (HUpdateActive k i j) = sdk_update_active rt key st k i j"
| "list_instruction rt key st (HUpdateDeactivated k i) = sdk_update_deactivated rt key st k i"
| "list_instruction rt key st (HMergeStakes d i s j v) = sdk_merge_stakes rt key st d i s j v"
| "list_instruction rt key st h = Inl Panic"

context marinade_runtime
begin

lemma update_active_list:
  assumes run: "update_active rt cx key ac si vi st w = Inr (st', w')" and sh: "stakes_held rt st w ys"
    and kv: "ua_validator_list ac \<noteq> account (stake_list (stake_system st))"
  shows "\<exists>r. unat si < length ys \<and> stake_account r = stake_account (ys ! unat si)
    \<and> stake_account (ys ! unat si) = uc_stake_account (ua_common ac)
    \<and> stakes_held rt st' w' (ys[unat si := r])"
proof -
  let ?c = "ua_common ac" and ?kv = "ua_validator_list ac"
  from run obtain stake and msol :: mint where
    "update_active_run rt key (cx_clock cx) ac stake msol si vi st w = Inr (st', w')"
    by (auto simp: update_active_def update_active_process_def bindR_Inr Let_def)
  then show ?thesis
  proof (rule update_active_run_trace, goal_cases)
    case (1 r ready st1 v d sm bal st2 w2 st3 w3 v' st4 w4 vdata price sdata)
    note b = update_begin_kept [OF 1(1)] withdraw_to_reserve_kept [OF 1(7)]
      update_treasury_kept [OF 1(8)] update_rewards_kept [OF 1(9)]
    have kept: "program_data_kept w w4" using b by (blast intro: kept_trans)
    have bk: "books st4 = books st" using b by simp
    have l4: "stake_list (stake_system st4) = stake_list (stake_system st)"
      using bk by (simp add: books_def)
    have k: "uc_stake_list ?c = account (stake_list (stake_system st))" using b by simp
    have get: "stake_get rt (stake_system st) (acc_data w (uc_stake_list ?c)) si = Inr r"
      and adr: "stake_account r = uc_stake_account ?c"
      using 1(1) by (auto simp: update_begin_def bindR_Inr Let_def check_defs stake_get_def)
    have r: "unat si < length ys" "r = ys ! unat si" using get stake_get_Inr [OF sh k] by simp_all
    have "stakes_held rt st4 w4 ys"
      using sh by (rule stakes_held_cong) (use l4 kept in \<open>auto simp: program_data_kept_def\<close>)
    then have "stakes_held rt (st4\<lparr>msol_price := price\<rparr>) (put_data ?kv vdata w4) ys"
      using kv l4 by (simp add: put_data_stakes_held)
    from stake_set_held(1) [OF this _ 1(12)] have
      "stakes_held rt st' w' (ys[unat si := r\<lparr>last_update_epoch := epoch (cx_clock cx),
        last_update_delegated_lamports := delegated_stake d\<rparr>])"
      using k l4 by (simp add: 1(13,14) [symmetric])
    then show ?case using r adr by (intro exI conjI) simp_all
  qed
qed

end


section \<open>What a run sends\<close>

text \<open>\<open>sends E s hs s'\<close>: from \<open>s\<close> to \<open>s'\<close> the transactions of the calls \<open>hs\<close>, in order, and no other.\<close>

inductive sends :: "('s, 'c) bot_env \<Rightarrow> ('s, 'c) bot \<Rightarrow> 's helper_call list \<Rightarrow> ('s, 'c) bot \<Rightarrow> bool" for E where
  sends_nothing: "sends E s [] s"
| sends_time: "cl_now (be_client E) (bt_world s) = (t, c) \<Longrightarrow> sends E (s\<lparr>bt_world := c\<rparr>) hs s' \<Longrightarrow> sends E s hs s'"
| sends_reset: "sends E (s\<lparr>bt_ok := 0, bt_err := 0\<rparr>) hs s' \<Longrightarrow> sends E s hs s'"
| sends_one: "send_call E h s = (r, s1) \<Longrightarrow> sends E s1 hs s' \<Longrightarrow> sends E s (h # hs) s'"

lemma sends_append:
  assumes "sends E s hs s1" and "sends E s1 hs' s'"
  shows "sends E s (hs @ hs') s'"
  using assms by (induction rule: sends.induct) (auto intro: sends.intros)

lemma thenB_cases:
  assumes "thenB m g s = (r, s')"
  obtains e where "m s = (Inl e, s')" and "r = Inl e" | x s1 where "m s = (Inr x, s1)" and "g x s1 = (r, s')"
proof -
  obtain q s1 where m: "m s = (q, s1)" by (cases "m s")
  show thesis
  proof (cases q)
    case (Inl e)
    show thesis by (rule that(1) [of e]) (use assms in \<open>simp_all add: thenB_def m Inl\<close>)
  next
    case (Inr x)
    show thesis by (rule that(2) [of x s1]) (use assms in \<open>simp_all add: thenB_def m Inr\<close>)
  qed
qed

lemma sends_then:
  assumes "thenB (send_call E h) (\<lambda>_. m) s = (r, s')"
    and "\<And>s1. m s1 = (r, s') \<Longrightarrow> \<exists>hs. sends E s1 hs s' \<and> P hs"
    and "P []"
  shows "\<exists>hs. sends E s (h # hs) s' \<and> P hs"
proof (rule thenB_cases [OF assms(1)])
  fix e assume "send_call E h s = (Inl e, s')"
  then show ?thesis using assms(3) by (blast intro: sends.intros)
next
  fix x s1 assume "send_call E h s = (Inr x, s1)" "m s1 = (r, s')"
  then show ?thesis using assms(2) by (blast intro: sends.intros)
qed

text \<open>Stakes that were read from the list \<open>ys\<close>, in the order in which the bot works through them.\<close>

definition reads_from :: "stake_record list \<Rightarrow> stake_info \<Rightarrow> bool" where
  "reads_from ys info \<longleftrightarrow> unat (si_index info) < length ys \<and> si_record info = ys ! unat (si_index info)"

definition last_to_first :: "stake_info list \<Rightarrow> bool" where
  "last_to_first infos \<longleftrightarrow> sorted_wrt (\<lambda>a b. unat (si_index b) < unat (si_index a)) infos"

definition calls_for :: "stake_record list \<Rightarrow> stake_info list \<Rightarrow> 's helper_call list \<Rightarrow> bool" where
  "calls_for ys infos hs \<longleftrightarrow> descending hs
     \<and> (\<forall>h \<in> set hs. aims h ys \<and> (\<exists>info \<in> set infos. top_index h = unat (si_index info)))"

lemma calls_for_Nil: "calls_for ys infos []"
  by (simp add: calls_for_def descending_def)

lemma calls_for_skip: "calls_for ys infos hs \<Longrightarrow> calls_for ys (info # infos) hs"
  by (auto simp: calls_for_def)

lemma calls_for_Cons:
  assumes "calls_for ys infos hs" and "aims h ys" and "top_index h = unat (si_index info)"
    and "last_to_first (info # infos)"
  shows "calls_for ys (info # infos) (h # hs)"
proof -
  have "top_index g < top_index h" if "g \<in> set hs" for g
    using that assms(1,3,4) by (force simp: calls_for_def last_to_first_def)
  then show ?thesis using assms by (auto simp: calls_for_def descending_def)
qed

lemma update_loop_sends:
  assumes "update_loop E now history indices infos s = (r, s')"
    and "last_to_first infos" and "\<forall>info \<in> set infos. reads_from ys info"
  shows "\<exists>hs. sends E s hs s' \<and> calls_for ys infos hs"
  using assms
proof (induction infos arbitrary: s)
  case Nil
  then show ?case by (auto simp: returnB_def intro: sends_nothing calls_for_Nil)
next
  case (Cons info infos)
  have rest: "last_to_first infos" "\<forall>info \<in> set infos. reads_from ys info"
    and info: "reads_from ys info" using Cons.prems by (simp_all add: last_to_first_def)
  have skip: "\<exists>hs. sends E s hs s' \<and> calls_for ys (info # infos) hs"
    if "update_loop E now history indices infos s = (r, s')"
    using Cons.IH [OF that rest] by (blast intro: calls_for_skip)
  have one: "\<exists>hs. sends E s hs s' \<and> calls_for ys (info # infos) hs"
    if "thenB (send_call E h) (\<lambda>_. update_loop E now history indices infos) s = (r, s')"
      and "aims h ys" "top_index h = unat (si_index info)" for h
  proof -
    have "\<exists>hs. sends E s (h # hs) s' \<and> calls_for ys infos hs"
      by (rule sends_then [OF that(1) Cons.IH [OF _ rest] calls_for_Nil])
    then show ?thesis using calls_for_Cons [OF _ that(2,3) Cons.prems(2)] by blast
  qed
  have stop: "\<exists>hs. sends E s hs s' \<and> calls_for ys (info # infos) hs" if "s' = s"
    using that by (auto intro: sends_nothing calls_for_Nil)
  have a: "aims (HUpdateActive (stake_account (si_record info)) (si_index info) j) ys"
    "aims (HUpdateDeactivated (stake_account (si_record info)) (si_index info)) ys" for j
    using info by (simp_all add: reads_from_def)
  show ?case
    using Cons.prems(1) skip one [OF _ a(1)] one [OF _ a(2)] stop
    by (auto simp: failB_def split: if_splits option.splits)
qed

text \<open>What is read is in order, with its index.\<close>

lemma stakes_info_reads_from:
  assumes "marinade_runtime rt" and "reads_chain C c w" and "validators_held rt st w xs"
    and ys: "stakes_held rt st w ys" and run: "stakes_info C rt st c = Inr (infos, cap)"
  shows "length infos = length ys" and "length ys < 2 ^ 32"
    and "\<And>i. i < length ys \<Longrightarrow> unat (si_index (infos ! i)) = i \<and> si_record (infos ! i) = ys ! i"
proof -
  obtain acct where ans: "answers_each C c acct" using assms(2) by (auto simp: reads_chain_def)
  obtain cap' where l: "rpc_stake_list C rt st c = Inr (ys, cap')"
    using lists_read(2) [OF assms(1-4)] by blast
  have "unat (count (stake_list (stake_system st))) = length ys"
    using list_rep_count [OF stakes_held_D(2) [OF ys refl]] .
  then show len: "length ys < 2 ^ 32" using unsigned_less [of "count (stake_list (stake_system st))", where 'a = nat]
    by simp
  have "all_at_once acct ys = Inr infos"
    using run l stakes_loop_all [OF ans, of ys 0 "[]"]
    by (auto simp: stakes_info_def all_at_once_def bindR_Inr bindR_Inr_right)
  then have m: "map (stake_info_of ys 0) (enumerate 0 (map (acct \<circ> stake_account) ys)) = map Inr infos"
    by (simp add: all_at_once_def collect_Inr)
  from arg_cong [OF m, of length] show n: "length infos = length ys" by simp
  fix i assume i: "i < length ys"
  have "stake_info_of ys 0 (i, acct (stake_account (ys ! i))) = Inr (infos ! i)"
    using arg_cong [OF m, of "\<lambda>l. l ! i"] i n by (simp add: nth_enumerate_eq)
  then have "\<exists>sk b. \<lparr>si_index = word_of_nat i, si_record = ys ! i, si_stake = sk, si_balance = b\<rparr> = infos ! i"
    by (auto simp: stake_info_of_def bindR_Inr Let_def)
  then obtain sk b where
    "infos ! i = \<lparr>si_index = word_of_nat i, si_record = ys ! i, si_stake = sk, si_balance = b\<rparr>" by metis
  moreover have "unat (word_of_nat i :: u32) = i" using i len by (simp add: unat_of_nat)
  ultimately show "unat (si_index (infos ! i)) = i \<and> si_record (infos ! i) = ys ! i" by simp
qed

lemma reversed_reads_from:
  assumes "length infos = length ys"
    and "\<And>i. i < length ys \<Longrightarrow> unat (si_index (infos ! i)) = i \<and> si_record (infos ! i) = ys ! i"
  shows "last_to_first (rev infos)" and "\<forall>info \<in> set (rev infos). reads_from ys info"
proof -
  have "sorted_wrt (\<lambda>a b. unat (si_index a) < unat (si_index b)) infos"
    unfolding sorted_wrt_iff_nth_less using assms by simp
  then show "last_to_first (rev infos)" by (simp add: last_to_first_def sorted_wrt_rev)
  show "\<forall>info \<in> set (rev infos). reads_from ys info"
    using assms by (auto simp: reads_from_def in_set_conv_nth)
qed

text \<open>Merging: one transaction at most for each source, with an earlier destination.\<close>

lemma elapsed_secs_time:
  "elapsed_secs E start s = (r, s') \<Longrightarrow> \<exists>t c. cl_now (be_client E) (bt_world s) = (t, c) \<and> s' = s\<lparr>bt_world := c\<rparr>"
  by (auto simp: elapsed_secs_def thenB_def from_outside_def failB_def returnB_def split: prod.splits if_splits)

lemma merge_destinations_sends:
  assumes "merge_destinations E max_seconds start src ds s = (r, s')"
  shows "\<exists>hs. sends E s hs s' \<and> (hs = [] \<or> (\<exists>d \<in> set ds. can_merge d src \<and> hs = [merge_call d src]))"
  using assms
proof (induction ds arbitrary: s)
  case Nil
  then show ?case by (auto simp: returnB_def intro: sends_nothing)
next
  case (Cons d ds)
  show ?case
  proof (cases "can_merge d src")
    case True
    have run: "thenB (send_call E (merge_call d src)) (\<lambda>_. returnB False) s = (r, s')"
      using Cons.prems True by simp
    have "\<exists>hs. sends E s (merge_call d src # hs) s' \<and> hs = []"
      by (rule sends_then [OF run]) (auto simp: returnB_def intro: sends_nothing)
    then show ?thesis using True by auto
  next
    case False
    have rest: "\<exists>hs. sends E s1 hs s' \<and> (hs = [] \<or> (\<exists>d' \<in> set (d # ds). can_merge d' src \<and> hs = [merge_call d' src]))"
      if "merge_destinations E max_seconds start src ds s1 = (r, s')" for s1
      using Cons.IH [OF that] by auto
    show ?thesis
    proof (cases "max_seconds > 0")
      case True
      have "thenB (elapsed_secs E start) (\<lambda>secs.
          if secs > max_seconds then returnB True else merge_destinations E max_seconds start src ds) s = (r, s')"
        using Cons.prems True \<open>\<not> can_merge d src\<close> by simp
      then show ?thesis
      proof (rule thenB_cases)
        fix e assume "elapsed_secs E start s = (Inl e, s')"
        then show ?thesis by (metis elapsed_secs_time sends_nothing sends_time)
      next
        fix secs s1 assume t: "elapsed_secs E start s = (Inr secs, s1)"
          and m: "(if secs > max_seconds then returnB True else merge_destinations E max_seconds start src ds) s1 = (r, s')"
        have "\<exists>hs. sends E s1 hs s' \<and> (hs = [] \<or> (\<exists>d' \<in> set (d # ds). can_merge d' src \<and> hs = [merge_call d' src]))"
          using m rest by (auto simp: returnB_def intro: sends_nothing split: if_splits)
        then show ?thesis by (metis elapsed_secs_time [OF t] sends_time)
      qed
    next
      case False
      then show ?thesis using Cons.prems \<open>\<not> can_merge d src\<close> rest by simp
    qed
  qed
qed

definition mergeables_from :: "stake_record list \<Rightarrow> mergeable list \<Rightarrow> bool" where
  "mergeables_from ys ms \<longleftrightarrow> sorted_wrt (\<lambda>a b. unat (mg_index a) < unat (mg_index b)) ms
     \<and> (\<forall>m \<in> set ms. unat (mg_index m) < length ys \<and> mg_address m = stake_account (ys ! unat (mg_index m)))"

lemma merge_call_aims:
  assumes "mergeables_from ys ms" and "i < length ms" and "d \<in> set (take i ms)"
  shows "aims (merge_call d (ms ! i)) ys" and "top_index (merge_call d (ms ! i)) = unat (mg_index (ms ! i))"
proof -
  obtain j where j: "j < i" "d = ms ! j" using assms(2,3) by (auto simp: in_set_conv_nth)
  then have "unat (mg_index d) < unat (mg_index (ms ! i))"
    using assms(1,2) by (simp add: mergeables_from_def sorted_wrt_iff_nth_less)
  moreover have "d \<in> set ms" "ms ! i \<in> set ms" using assms(2,3) by (auto dest: in_set_takeD)
  ultimately show "aims (merge_call d (ms ! i)) ys" "top_index (merge_call d (ms ! i)) = unat (mg_index (ms ! i))"
    using assms(1) by (simp_all add: mergeables_from_def merge_call_def)
qed

lemma merge_sources_sends:
  assumes "merge_sources E max_seconds start ms is s = (r, s')" and "mergeables_from ys ms"
    and "sorted_wrt (\<lambda>i j. j < i) is" and "\<forall>i \<in> set is. i < length ms"
  shows "\<exists>hs. sends E s hs s' \<and> descending hs
    \<and> (\<forall>h \<in> set hs. aims h ys \<and> (\<exists>i \<in> set is. top_index h = unat (mg_index (ms ! i))))"
  using assms
proof (induction "is" arbitrary: s)
  case Nil
  then show ?case by (auto simp: returnB_def descending_def intro: sends_nothing)
next
  case (Cons i "is")
  let ?ok = "\<lambda>is hs. descending hs \<and> (\<forall>h \<in> set hs. aims h ys \<and> (\<exists>i \<in> set is. top_index h = unat (mg_index (ms ! i))))"
  have i: "i < length ms" using Cons.prems(4) by simp
  have first: "\<exists>hs. sends E s hs s1 \<and> (hs = [] \<or> (\<exists>h. hs = [h] \<and> aims h ys \<and> top_index h = unat (mg_index (ms ! i))))"
    if "merge_destinations E max_seconds start (ms ! i) (take i ms) s = (q, s1)" for q s1
    using merge_destinations_sends [OF that] merge_call_aims [OF Cons.prems(2) i] by blast
  have one: "?ok (i # is) hs" if "hs = [] \<or> (\<exists>h. hs = [h] \<and> aims h ys \<and> top_index h = unat (mg_index (ms ! i)))" for hs
    using that by (auto simp: descending_def)
  have two: "?ok (i # is) (hs @ hs')"
    if "hs = [] \<or> (\<exists>h. hs = [h] \<and> aims h ys \<and> top_index h = unat (mg_index (ms ! i)))" "?ok is hs'" for hs hs'
  proof -
    have "unat (mg_index (ms ! j)) < unat (mg_index (ms ! i))" if "j \<in> set is" for j
      using that Cons.prems(3) i sorted_wrt_nth_less [OF conjunct1 [OF Cons.prems(2) [unfolded mergeables_from_def]]]
      by simp
    then show ?thesis using that by (fastforce simp: descending_def)
  qed
  from Cons.prems(1) have "thenB (merge_destinations E max_seconds start (ms ! i) (take i ms)) (\<lambda>exit_for.
      if exit_for then returnB () else merge_sources E max_seconds start ms is) s = (r, s')" by simp
  then show ?case
  proof (rule thenB_cases)
    fix e assume "merge_destinations E max_seconds start (ms ! i) (take i ms) s = (Inl e, s')"
    from first [OF this] show ?thesis using one by blast
  next
    fix x s1 assume d: "merge_destinations E max_seconds start (ms ! i) (take i ms) s = (Inr x, s1)"
      and m: "(if x then returnB () else merge_sources E max_seconds start ms is) s1 = (r, s')"
    have "\<exists>hs'. sends E s1 hs' s' \<and> ?ok is hs'"
    proof (cases x)
      case True
      then show ?thesis using m by (auto simp: returnB_def descending_def intro: sends_nothing)
    next
      case False
      then show ?thesis using m Cons.IH [of s1] Cons.prems by simp
    qed
    then obtain hs' where hs': "sends E s1 hs' s'" "?ok is hs'" by blast
    obtain hs where "sends E s hs s1"
      "hs = [] \<or> (\<exists>h. hs = [h] \<and> aims h ys \<and> top_index h = unat (mg_index (ms ! i)))"
      using first [OF d] by blast
    then show ?thesis using sends_append [OF _ hs'(1)] two [OF _ hs'(2)] by blast
  qed
qed

section \<open>Properties\<close>

lemma reads_next:
  "thenB (reads f) g s = (r, s') \<Longrightarrow> s' \<noteq> s \<Longrightarrow>
   \<exists>x. f (bt_state s) (bt_world s) = Inr x \<and> g x s = (r, s')"
  by (auto simp: thenB_def reads_def split: sum.splits)

lemma update_price_loop:
  assumes run: "update_price E s = (r, s')" and changed: "s' \<noteq> s"
  shows "\<exists>infos now history indices q cap. update_loop E now history indices (rev infos)
      (s\<lparr>bt_ok := 0, bt_err := 0\<rparr>) = (q, s')
    \<and> stakes_info (be_client E) (be_rt E) (bt_state s) (bt_world s) = Inr (infos, cap)"
proof -
  note next_step = reads_next [OF _ changed]
  define go where "go = (\<lambda>infos (clk::clock) vs history. thenB reset_counts (\<lambda>_.
    thenB (update_loop E (epoch clk) history (validator_indices vs) infos) (\<lambda>_. all_went_ok)))"
  obtain infos where
    i: "map_result fst (stakes_info_reversed (be_client E) (be_rt E) (bt_state s) (bt_world s)) = Inr infos"
    and s1: "thenB (read_clock E) (\<lambda>clk.
      if \<not> list_ex (\<lambda>info. last_update_epoch (si_record info) < epoch clk) infos then returnB True
      else thenB (read_validators E) (\<lambda>vs. thenB (read_stake_history E) (go infos clk vs))) s = (r, s')"
    using next_step [OF run [unfolded update_price_def read_stakes_reversed_def]] unfolding go_def by blast
  have "\<exists>clk. thenB (read_validators E) (\<lambda>vs. thenB (read_stake_history E) (go infos clk vs)) s = (r, s')"
    using next_step [OF s1 [unfolded read_clock_def]] changed
    by (auto simp: returnB_def split: if_splits)
  then obtain clk where "thenB (read_validators E) (\<lambda>vs. thenB (read_stake_history E) (go infos clk vs)) s = (r, s')"
    by blast
  from next_step [OF this [unfolded read_validators_def]] obtain vs where
    "thenB (read_stake_history E) (go infos clk vs) s = (r, s')" by blast
  from next_step [OF this [unfolded read_stake_history_def]] obtain history where
    "go infos clk vs history s = (r, s')" by blast
  then have "\<exists>q. update_loop E (epoch clk) history (validator_indices vs) infos (s\<lparr>bt_ok := 0, bt_err := 0\<rparr>) = (q, s')"
    by (auto simp: go_def thenB_def reset_counts_def all_went_ok_def split: prod.splits sum.splits)
  moreover have "\<exists>infos' cap. stakes_info (be_client E) (be_rt E) (bt_state s) (bt_world s) = Inr (infos', cap)
      \<and> infos = rev infos'"
    using i by (auto simp: map_result_def stakes_info_reversed_def bindR_Inr split: sum.splits)
  ultimately show ?thesis by blast
qed

text \<open>
  C37. The price updates keep their aim: whatever a run of \<open>update_price\<close> sends, each transaction names
  the record that its index points at in the list as it then is, whichever of the earlier
  transactions succeeded and removed records. This holds however the run ends.
\<close>
theorem update_price_keeps_aim:
  assumes "marinade_runtime (be_rt E)" and "reads_chain (be_client E) (bt_world s) w"
    and "validators_held (be_rt E) (bt_state s) w xs" and "stakes_held (be_rt E) (bt_state s) w ys"
    and "update_price E s = (r, s')"
  shows "\<exists>hs. sends E s hs s' \<and> keeps_aim hs ys"
proof (cases "s' = s")
  case True
  then show ?thesis by (intro exI [of _ "[]"]) (simp add: keeps_aim_def sends_nothing)
next
  case False
  obtain infos now history indices q cap where
    loop: "update_loop E now history indices (rev infos) (s\<lparr>bt_ok := 0, bt_err := 0\<rparr>) = (q, s')"
    and i: "stakes_info (be_client E) (be_rt E) (bt_state s) (bt_world s) = Inr (infos, cap)"
    using update_price_loop [OF assms(5) False] by blast
  note rd = stakes_info_reads_from [OF assms(1-4) i]
  obtain hs where "sends E (s\<lparr>bt_ok := 0, bt_err := 0\<rparr>) hs s'" and c: "calls_for ys (rev infos) hs"
    using update_loop_sends [OF loop reversed_reads_from [OF rd(1,3)]] by blast
  then have "sends E s hs s'" by (blast intro: sends_reset)
  moreover have "keeps_aim hs ys"
    using c by (intro descending_keeps_aim) (simp_all add: calls_for_def)
  ultimately show ?thesis by blast
qed

lemma mergeable_of_Inr:
  assumes "mergeable_of now history vs credits info = Inr (Some m)"
  shows "mg_index m = si_index info" and "mg_address m = stake_account (si_record info)"
  using assms by (auto simp: mergeable_of_def bindR_Inr Let_def split: option.splits if_splits prod.splits)

lemma mergeable_stakes_from:
  assumes "mergeable_stakes now history vs credits infos = Inr ms"
    and "sorted_wrt (\<lambda>a b. unat (si_index a) < unat (si_index b)) infos"
    and "\<forall>info \<in> set infos. reads_from ys info"
  shows "mergeables_from ys ms \<and> (\<forall>m \<in> set ms. \<exists>info \<in> set infos. mg_index m = si_index info)"
  using assms
proof (induction infos arbitrary: ms)
  case Nil
  then show ?case by (simp add: mergeable_stakes_def map_result_def mergeables_from_def)
next
  case (Cons info infos)
  from Cons.prems(1) obtain om ms' where o: "mergeable_of now history vs credits info = Inr om"
    and ms': "mergeable_stakes now history vs credits infos = Inr ms'"
    and ms: "ms = (case om of None \<Rightarrow> ms' | Some m \<Rightarrow> m # ms')"
    by (auto simp: mergeable_stakes_def map_result_def List.map_filter_simps bindR_Inr split: sum.splits option.splits)
  have ih: "mergeables_from ys ms'" "\<forall>m \<in> set ms'. \<exists>info \<in> set infos. mg_index m = si_index info"
    using Cons.IH [OF ms'] Cons.prems(2,3) by simp_all
  show ?case
  proof (cases om)
    case None
    then show ?thesis using ih by (simp add: ms)
  next
    case (Some m)
    note m = mergeable_of_Inr [OF o [unfolded Some]]
    have "unat (mg_index m) < unat (mg_index m')" if "m' \<in> set ms'" for m'
      using that ih(2) Cons.prems(2) by (auto simp: m)
    then show ?thesis using ih m Cons.prems(3) by (auto simp: ms Some mergeables_from_def reads_from_def)
  qed
qed

lemma merge_bot_loop:
  assumes run: "merge_bot E max_seconds s = (r, s')"
  shows "sends E s [] s' \<or> (\<exists>infos cap now history vs credits ms q start t c.
      stakes_info (be_client E) (be_rt E) (bt_state s) (bt_world s) = Inr (infos, cap)
    \<and> cl_now (be_client E) (bt_world s) = (t, c)
    \<and> mergeable_stakes now history vs credits infos = Inr ms
    \<and> merge_sources E max_seconds start ms (rev [1..<length ms]) (s\<lparr>bt_world := c, bt_ok := 0, bt_err := 0\<rparr>) = (q, s'))"
proof (cases "s' = s")
  case True
  then show ?thesis by (simp add: sends_nothing)
next
  case False
  note step1 = reads_next [OF _ False]
  define go where "go = (\<lambda>vs infos credits history start (clk::clock).
    thenB (reads (\<lambda>_ _. mergeable_stakes (epoch clk) history vs credits infos)) (\<lambda>ms.
    thenB reset_counts (\<lambda>_. merge_sources E max_seconds start ms (rev [1..<length ms]))))"
  obtain vs where "thenB (read_stakes E) (\<lambda>infos. thenB (reads (\<lambda>_ c. Inr (cl_credits (be_client E) c))) (\<lambda>credits.
      thenB (read_stake_history E) (\<lambda>history. thenB (from_outside (cl_now (be_client E))) (\<lambda>start.
      thenB (read_clock E) (go vs infos credits history start))))) s = (r, s')"
    using step1 [OF run [unfolded merge_bot_def read_validators_def]] unfolding go_def by blast
  from step1 [OF this [unfolded read_stakes_def]] obtain infos where
    i: "map_result fst (stakes_info (be_client E) (be_rt E) (bt_state s) (bt_world s)) = Inr infos"
    and s1: "thenB (reads (\<lambda>_ c. Inr (cl_credits (be_client E) c))) (\<lambda>credits.
      thenB (read_stake_history E) (\<lambda>history. thenB (from_outside (cl_now (be_client E))) (\<lambda>start.
      thenB (read_clock E) (go vs infos credits history start)))) s = (r, s')" by blast
  from step1 [OF s1] obtain credits where
    "thenB (read_stake_history E) (\<lambda>history. thenB (from_outside (cl_now (be_client E))) (\<lambda>start.
      thenB (read_clock E) (go vs infos credits history start))) s = (r, s')" by blast
  from step1 [OF this [unfolded read_stake_history_def]] obtain history where
    s2: "thenB (from_outside (cl_now (be_client E))) (\<lambda>start.
      thenB (read_clock E) (go vs infos credits history start)) s = (r, s')" by blast
  obtain t c where now: "cl_now (be_client E) (bt_world s) = (t, c)" by (cases "cl_now (be_client E) (bt_world s)")
  let ?s = "s\<lparr>bt_world := c\<rparr>"
  have s3: "thenB (read_clock E) (go vs infos credits history t) ?s = (r, s')"
    using s2 by (simp add: thenB_def from_outside_def now)
  show ?thesis
  proof (cases "s' = ?s")
    case True
    then show ?thesis using now by (blast intro: sends_nothing sends_time)
  next
    case False
    note step2 = reads_next [OF _ False]
    from step2 [OF s3 [unfolded read_clock_def]] obtain clk where
      "go vs infos credits history t clk ?s = (r, s')" by blast
    from step2 [OF this [unfolded go_def]] obtain ms where
      m: "mergeable_stakes (epoch clk) history vs credits infos = Inr ms"
      and "thenB reset_counts (\<lambda>_. merge_sources E max_seconds t ms (rev [1..<length ms])) ?s = (r, s')" by blast
    then have q: "merge_sources E max_seconds t ms (rev [1..<length ms]) (s\<lparr>bt_world := c, bt_ok := 0, bt_err := 0\<rparr>) = (r, s')"
      by (simp add: thenB_def reset_counts_def)
    have "\<exists>cap. stakes_info (be_client E) (be_rt E) (bt_state s) (bt_world s) = Inr (infos, cap)"
      using i by (auto simp: map_result_def split: sum.splits)
    then show ?thesis using now m q by blast
  qed
qed

text \<open>
  C38. Merging keeps its aim too: each merge of a run names two different records, the source after the
  destination, that its indices point at in the list as it then is, although every
  earlier merge that succeeded removed a record. This holds however and whenever the run ends.
\<close>
theorem merges_keep_aim:
  assumes "marinade_runtime (be_rt E)" and "reads_chain (be_client E) (bt_world s) w"
    and "validators_held (be_rt E) (bt_state s) w xs" and "stakes_held (be_rt E) (bt_state s) w ys"
    and "merge_bot E max_seconds s = (r, s')"
  shows "\<exists>hs. sends E s hs s' \<and> keeps_aim hs ys"
proof (cases "sends E s [] s'")
  case True
  then show ?thesis by (intro exI [of _ "[]"]) (simp add: keeps_aim_def)
next
  case False
  then obtain infos cap now history vs credits ms q start t c where
    i: "stakes_info (be_client E) (be_rt E) (bt_state s) (bt_world s) = Inr (infos, cap)"
    and t: "cl_now (be_client E) (bt_world s) = (t, c)"
    and m: "mergeable_stakes now history vs credits infos = Inr ms"
    and run: "merge_sources E max_seconds start ms (rev [1..<length ms]) (s\<lparr>bt_world := c, bt_ok := 0, bt_err := 0\<rparr>) = (q, s')"
    using merge_bot_loop [OF assms(5)] by blast
  note rd = stakes_info_reads_from [OF assms(1-4) i]
  have "sorted_wrt (\<lambda>a b. unat (si_index a) < unat (si_index b)) infos"
    unfolding sorted_wrt_iff_nth_less using rd by simp
  moreover have "\<forall>info \<in> set infos. reads_from ys info" using reversed_reads_from(2) [OF rd(1,3)] by simp
  ultimately have ms: "mergeables_from ys ms" using mergeable_stakes_from [OF m] by blast
  have o: "sorted_wrt (\<lambda>i j. j < i) (rev [1..<length ms])" "\<forall>i \<in> set (rev [1..<length ms]). i < length ms"
    by (simp_all add: sorted_wrt_rev)
  obtain hs where hs: "sends E (s\<lparr>bt_world := c, bt_ok := 0, bt_err := 0\<rparr>) hs s'" "descending hs" "\<forall>h \<in> set hs. aims h ys"
    using merge_sources_sends [OF run ms o] by blast
  have "sends E s hs s'" using hs(1) t sends_reset [of E "s\<lparr>bt_world := c\<rparr>"] by (auto intro: sends_time)
  then show ?thesis using descending_keeps_aim [OF hs(2,3)] by blast
qed

section \<open>Runs\<close>

text \<open>Sending a call from an empty builder: one transaction, one failure.\<close>

lemma ex_send:
  assumes "list_instruction ref_rt ex_key ex_state h = Inr ix" and "signers_of ix = []"
    and "\<And>d. run_helper ex_lib ex_enc ref_rt ex_key ex_state h d = helper ex_lib ex_enc ex_key (Inr ()) [] (Inr ix) d"
    and "unat e < 1000"
  shows "send_call ex_bot_env h (ex_bot\<lparr>bt_world := (w, n), bt_err := e\<rparr>)
    = (Inr False, ex_bot\<lparr>bt_world := (w, Suc n), bt_err := e + 1\<rparr>)"
  using assms
  by (simp add: send_call_def send_def call_helper_def thenB_def on_builder_def map_error_def helper_def add_sdk_def
      begin_pack_def commit_pack_def build_one_def build_next_def prepare_def prepared_new_def from_outside_def count_tx_def
      ex_bot_client_def add_instruction_cases check_signers_def ex_enc_def ex_sign_def ex_lib_def builder_limited_def
      builder_new_def tx_fits_def no_open_pack_def ex_bot_def ex_bot_env_def sb_add_signer_def
      add_or_panic_def checked_add_def ok_or_def map_result_def)

text \<open>Of the three stakes the deactivated one at 2 and the grown one at 0 are due.\<close>

lemma ex_update_price_run:
  "update_price ex_bot_env ex_bot = (Inr False, ex_bot\<lparr>bt_world := (ex_world, 2), bt_err := 2\<rparr>)"
proof -
  obtain cap where i: "stakes_info ex_bot_client ref_rt ex_state (ex_world, 0) = Inr (ex_infos, cap)"
    using ex_bot_infos by blast
  obtain vcap where v: "rpc_validator_list ex_bot_client ref_rt ex_state (ex_world, 0) = Inr (ex_validators, vcap)"
    using lists_read(1) [OF ref.marinade_runtime_axioms ex_bot_reads ex_held] by blast
  have vi: "validator_indices ex_validators 50 = Some 0"
    by (simp add: validator_indices_def ex_validators_def)
  obtain ix where x: "sdk_update_deactivated ref_rt ex_key ex_state 62 2 = Inr ix" "signers_of ix = []"
    by (simp add: sdk_update_deactivated_def sdk_update_common_def)
  obtain iy where y: "sdk_update_active ref_rt ex_key ex_state 60 0 0 = Inr iy" "signers_of iy = []"
    by (simp add: sdk_update_active_def sdk_update_common_def)
  have one: "send_call ex_bot_env (HUpdateDeactivated 62 2) (ex_bot\<lparr>bt_world := (ex_world, 0), bt_err := 0\<rparr>)
      = (Inr False, ex_bot\<lparr>bt_world := (ex_world, 1), bt_err := 1\<rparr>)"
    using ex_send [where h = "HUpdateDeactivated 62 2" and ix = ix and w = ex_world and n = 0 and e = 0] x by (simp add: helper_update_deactivated_def)
  have two: "send_call ex_bot_env (HUpdateActive 60 0 0) (ex_bot\<lparr>bt_world := (ex_world, 1), bt_err := 1\<rparr>)
      = (Inr False, ex_bot\<lparr>bt_world := (ex_world, 2), bt_err := 2\<rparr>)"
    using ex_send [where h = "HUpdateActive 60 0 0" and ix = iy and w = ex_world and n = 1 and e = 1] y
    by (simp add: helper_update_active_def numeral_2_eq_2)
  have same: "ex_bot\<lparr>bt_ok := 0, bt_err := 0\<rparr> = ex_bot\<lparr>bt_world := (ex_world, 0), bt_err := 0\<rparr>"
    by (simp add: ex_bot_def)
  show ?thesis
    using i v vi one two
    by (simp add: update_price_def thenB_def reads_def read_stakes_reversed_def stakes_info_reversed_def
        read_clock_def read_validators_def read_stake_history_def reset_counts_def all_went_ok_def returnB_def
        map_result_def ok_or_def ex_infos_def ex_delegation_def same)
qed

lemma update_price_keeps_aim_witness:
  "\<exists>hs. sends ex_bot_env ex_bot hs (ex_bot\<lparr>bt_world := (ex_world, 2), bt_err := 2\<rparr>) \<and> keeps_aim hs ex_stakes"
  by (rule update_price_keeps_aim [OF _ _ _ _ ex_update_price_run, where w = ex_world and xs = ex_validators])
    (simp_all add: ref.marinade_runtime_axioms ex_bot_reads ex_held)

text \<open>The two active stakes of validator 50 can be merged.\<close>

lemma ex_merge_bot_run:
  "merge_bot ex_bot_env 0 ex_bot = (Inr (), ex_bot\<lparr>bt_world := (ex_world, 1), bt_err := 1\<rparr>)"
proof -
  obtain cap where i: "stakes_info ex_bot_client ref_rt ex_state (ex_world, 0) = Inr (ex_infos, cap)"
    using ex_bot_infos by blast
  obtain vcap where v: "rpc_validator_list ex_bot_client ref_rt ex_state (ex_world, 0) = Inr (ex_validators, vcap)"
    using lists_read(1) [OF ref.marinade_runtime_axioms ex_bot_reads ex_held] by blast
  have vp: "validator_position ex_validators 50 = Some 0"
    by (simp add: validator_position_def ex_validators_def upt_rec)
  obtain ix where x: "sdk_merge_stakes ref_rt ex_key ex_state 60 0 61 1 0 = Inr ix" "signers_of ix = []"
    by (simp add: sdk_merge_stakes_def)
  have one: "send_call ex_bot_env (HMergeStakes 60 0 61 1 0) (ex_bot\<lparr>bt_world := (ex_world, 0), bt_err := 0\<rparr>)
      = (Inr False, ex_bot\<lparr>bt_world := (ex_world, 1), bt_err := 1\<rparr>)"
    using ex_send [where h = "HMergeStakes 60 0 61 1 0" and ix = ix and w = ex_world and n = 0 and e = 0] x
    by (simp add: helper_merge_stakes_def)
  have same: "ex_bot\<lparr>bt_world := (ex_world, 0), bt_ok := 0, bt_err := 0\<rparr> = ex_bot\<lparr>bt_world := (ex_world, 0), bt_err := 0\<rparr>"
    "ex_bot\<lparr>bt_ok := 0, bt_err := 0\<rparr> = ex_bot\<lparr>bt_world := (ex_world, 0), bt_err := 0\<rparr>"
    by (simp_all add: ex_bot_def)
  show ?thesis
    using i v vp one
    by (simp add: merge_bot_def thenB_def reads_def read_stakes_def read_clock_def read_validators_def
        read_stake_history_def reset_counts_def returnB_def from_outside_def map_result_def ok_or_def ex_infos_def
        ex_delegation_def same mergeable_stakes_def mergeable_of_def List.map_filter_simps upt_rec can_merge_def
        merge_call_def)
qed

lemma merges_keep_aim_witness:
  "\<exists>hs. sends ex_bot_env ex_bot hs (ex_bot\<lparr>bt_world := (ex_world, 1), bt_err := 1\<rparr>) \<and> keeps_aim hs ex_stakes"
  by (rule merges_keep_aim [OF _ _ _ _ ex_merge_bot_run, where w = ex_world and xs = ex_validators])
    (simp_all add: ref.marinade_runtime_axioms ex_bot_reads ex_held)


end
