(* ===== verification/BotDelta.thy ===== *)
theory BotDelta
  imports Bot
begin

text \<open>
  The bot's staking and unstaking (\<open>cli/bot-cli/src/stake_delta.rs\<close>) and the schedule of its
  work within an epoch (\<open>do_work.rs\<close>), with the bound on the transactions of a run.
\<close>

section \<open>Targets\<close>

record validator_info =
  vi_index :: u32
  vi_record :: validator_record
  vi_delta :: int

definition validator_info_of ::
  "state \<Rightarrow> u64 \<Rightarrow> nat \<times> validator_record \<Rightarrow> rpc_error + validator_info" where
  "validator_info_of st total_stake_target iv =
     bindR (map_error (\<lambda>_. RpcPanic) (validator_stake_target (validator_system st) (snd iv) total_stake_target)) (\<lambda>t.
     Inr \<lparr>vi_index = word_of_nat (fst iv), vi_record = snd iv,
       vi_delta = uint t - uint (active_balance (snd iv))\<rparr>)"

text \<open>\<open>total_active_balance as i128 + delta\<close>, converted by \<open>try_into\<close>.\<close>

definition stake_target :: "state \<Rightarrow> int \<Rightarrow> rpc_error + u64" where
  "stake_target st delta =
     (let t = uint (total_active_balance (validator_system st)) + delta in
      if 0 \<le> t \<and> t < 2 ^ 64 then Inr (word_of_int t) else Inl RpcRefused)"

text \<open>The checks at the end of an iteration: \<open>False\<close> is \<open>break\<close>.\<close>

definition limit_reached :: "('s, 'c) bot_env \<Rightarrow> u32 \<Rightarrow> bool" where
  "limit_reached E count_processed \<longleftrightarrow> be_limit E > 0 \<and> count_processed \<ge> be_limit E"

definition goes_on :: "('s, 'c) bot_env \<Rightarrow> nat \<Rightarrow> u32 \<Rightarrow> u32 \<Rightarrow> ('s, 'c, bool) bot_run" where
  "goes_on E start max_run_seconds count_processed =
     (if limit_reached E count_processed then returnB False
      else thenB (elapsed_secs E start) (\<lambda>secs. returnB (secs \<le> unat max_run_seconds)))"

section \<open>Staking\<close>

text \<open>A new stake account, then the instruction that stakes into it.\<close>

definition stake_into ::
  "('s, 'c) bot_env \<Rightarrow> (nat \<Rightarrow> u64) \<Rightarrow> validator_info \<Rightarrow> ('s, 'c, unit) bot_run" where
  "stake_into E rent v =
     thenB (from_outside (cl_new_keypair (be_client E))) (\<lambda>kp.
     thenB (on_builder build_failed (create_account_tx (be_lib E) kp (be_stake_size E)
       (rt_stake_program (be_rt E)) rent (be_describe_new E kp ''stake_account''))) (\<lambda>_.
     call_helper E (HStakeReserve (vi_index v) (validator_account (vi_record v)) (sig_key (be_lib E) kp))))"

definition wants_stake :: "u64 \<Rightarrow> state \<Rightarrow> validator_info \<Rightarrow> bool" where
  "wants_stake now st v \<longleftrightarrow> 0 \<le> vi_delta v \<and> uint (min_stake (stake_system st)) \<le> vi_delta v
     \<and> \<not> (vr_last_stake_delta_epoch (vi_record v) = now \<and> extra_stake_delta_runs (stake_system st) = 0)"

fun stake_loop ::
  "('s, 'c) bot_env \<Rightarrow> u64 \<Rightarrow> (nat \<Rightarrow> u64) \<Rightarrow> nat \<Rightarrow> u32 \<Rightarrow> u32 \<Rightarrow> validator_info list
    \<Rightarrow> ('s, 'c, unit) bot_run" where
  "stake_loop E now rent start max_secs n [] = returnB ()"
| "stake_loop E now rent start max_secs n (v # vs) =
     thenB (reads (\<lambda>st _. Inr st)) (\<lambda>st.
     if \<not> wants_stake now st v then stake_loop E now rent start max_secs n vs
     else
       thenB (read_delta E) (\<lambda>delta.
       if delta \<le> 0 \<or> delta < uint (min_stake (stake_system st)) then returnB ()
       else
         thenB (send E (stake_into E rent v)) (\<lambda>_.
         thenB (refresh E) (\<lambda>_.
         thenB (addB n 1) (\<lambda>n.
         thenB (goes_on E start max_secs n) (\<lambda>go.
         if go then stake_loop E now rent start max_secs n vs else returnB ()))))))"

section \<open>Unstaking\<close>

definition active_stakes :: "validator_info \<Rightarrow> stake_info list \<Rightarrow> stake_info list" where
  "active_stakes v infos =
     sort_key (\<lambda>info. delegated_stake (the (stake_delegation (si_stake info))))
       (filter (\<lambda>info. case stake_delegation (si_stake info) of None \<Rightarrow> False
          | Some d \<Rightarrow> voter_pubkey d = validator_account (vi_record v) \<and> deactivation_epoch d = -1) infos)"

text \<open>A split account's key is always sent, whether the program will need it or not.\<close>

definition unstake_one ::
  "('s, 'c) bot_env \<Rightarrow> 's \<Rightarrow> validator_info \<Rightarrow> stake_info \<Rightarrow> ('s, 'c, unit) bot_run" where
  "unstake_one E rent_payer v info =
     thenB (from_outside (cl_new_keypair (be_client E))) (\<lambda>kp.
     call_helper E (HDeactivateStake (stake_account (si_record info)) kp rent_payer (si_index info) (vi_index v)))"

text \<open>
  The stakes of one validator; \<open>unstaked\<close> is what may have been deactivated, \<open>left\<close> what is left of
  \<open>target\<close>. The result is the number of processed accounts and the sum.
\<close>

definition estimated_unstaked :: "stake_info \<Rightarrow> u64 \<Rightarrow> u64" where
  "estimated_unstaked info left =
     (if last_update_delegated_lamports (si_record info) < left
      then last_update_delegated_lamports (si_record info) else left)"

fun unstake_stakes ::
  "('s, 'c) bot_env \<Rightarrow> 's \<Rightarrow> validator_info \<Rightarrow> u64 \<Rightarrow> u32 \<Rightarrow> u64 \<Rightarrow> u64 \<Rightarrow> stake_info list
    \<Rightarrow> ('s, 'c, u32 \<times> u64) bot_run" where
  "unstake_stakes E rent_payer v target n unstaked left [] = returnB (n, unstaked)"
| "unstake_stakes E rent_payer v target n unstaked left (info # infos) =
     (if unstaked \<ge> target then returnB (n, unstaked)
      else
        thenB (send E (unstake_one E rent_payer v info)) (\<lambda>ok.
        let est = if ok then estimated_unstaked info left else 0 in
        thenB (addB unstaked est) (\<lambda>unstaked.
        thenB (refresh E) (\<lambda>_.
        thenB (addB n 1) (\<lambda>n.
        if limit_reached E n then returnB (n, unstaked)
        else unstake_stakes E rent_payer v target n unstaked (saturating_sub left est) infos)))))"

fun unstake_loop ::
  "('s, 'c) bot_env \<Rightarrow> u64 \<Rightarrow> 's \<Rightarrow> stake_info list \<Rightarrow> u64 \<Rightarrow> nat \<Rightarrow> u32 \<Rightarrow> u32 \<Rightarrow> u64 \<Rightarrow> validator_info list
    \<Rightarrow> ('s, 'c, unit) bot_run" where
  "unstake_loop E now rent_payer infos total_to start max_secs n unstaked [] = returnB ()"
| "unstake_loop E now rent_payer infos total_to start max_secs n unstaked (v # vs) =
     (if unstaked \<ge> total_to then returnB ()
      else if vi_delta v \<ge> 0 then returnB ()
      else
        thenB (read_delta E) (\<lambda>delta.
        if delta \<ge> 0 then returnB ()
        else
          let total_to_unstake = word_of_int (- delta) :: u64; mine = word_of_int (- vi_delta v) :: u64;
              target = if mine > total_to_unstake then total_to_unstake else mine in
          if vr_last_stake_delta_epoch (vi_record v) = now
          then unstake_loop E now rent_payer infos total_to start max_secs n unstaked vs
          else
            thenB (unstake_stakes E rent_payer v target n 0 target (active_stakes v infos)) (\<lambda>(n', mine_done).
            thenB (addB unstaked mine_done) (\<lambda>unstaked.
            thenB (goes_on E start max_secs n') (\<lambda>go.
            if go then unstake_loop E now rent_payer infos total_to start max_secs n' unstaked vs
            else returnB ())))))"

section \<open>The run\<close>

definition check_rent_payer :: "('s, 'c) bot_env \<Rightarrow> 's \<Rightarrow> ('s, 'c, unit) bot_run" where
  "check_rent_payer E rent_payer = reads (\<lambda>_ c.
     case cl_owner (be_client E) (sig_key (be_lib E) rent_payer) c of
       None \<Rightarrow> Inr ()
     | Some owner \<Rightarrow> require (owner = rt_system_program (be_rt E)) RpcRefused)"

definition stake_delta_loops ::
  "('s, 'c) bot_env \<Rightarrow> u64 \<Rightarrow> 's \<Rightarrow> (nat \<Rightarrow> u64) \<Rightarrow> nat \<Rightarrow> u32 \<Rightarrow> int \<Rightarrow> validator_info list
    \<Rightarrow> ('s, 'c, unit) bot_run" where
  "stake_delta_loops E now rent_payer rent start max_secs delta vs =
     (if delta > 0
      then stake_loop E now rent start max_secs 0 (sort_key (\<lambda>v. - uint (score (vi_record v))) vs)
      else thenB (read_stakes_reversed E) (\<lambda>infos.
        unstake_loop E now rent_payer infos (word_of_int (- delta)) start max_secs 0 0
          (sort_key vi_delta vs)))"

definition stake_delta_bot ::
  "('s, 'c) bot_env \<Rightarrow> 's option \<Rightarrow> nat \<Rightarrow> u32 \<Rightarrow> ('s, 'c, bool) bot_run" where
  "stake_delta_bot E payer_option start max_secs =
     (let rent_payer = (case payer_option of Some p \<Rightarrow> p | None \<Rightarrow> be_fee_payer E) in
      thenB (check_rent_payer E rent_payer) (\<lambda>_.
      thenB (on_builder build_failed (\<lambda>b. (Inr (), add_signer (be_lib E) rent_payer b))) (\<lambda>_.
      thenB (reads (\<lambda>_ c. ok_or (cl_rent (be_client E) c) RpcFailed)) (\<lambda>rent.
      thenB (read_clock E) (\<lambda>clk.
      thenB (read_delta E) (\<lambda>delta.
      thenB (reads (\<lambda>st _. Inr st)) (\<lambda>st.
      if delta = 0 \<or> (delta \<ge> 0 \<and> delta < uint (min_stake (stake_system st))) then returnB True
      else
        thenB (reads (\<lambda>_ _. stake_target st delta)) (\<lambda>total_stake_target.
        thenB (read_validators E) (\<lambda>validators.
        thenB (reads (\<lambda>_ _. collect (map (validator_info_of st total_stake_target) (enumerate 0 validators)))) (\<lambda>vs.
        thenB reset_counts (\<lambda>_.
        thenB (stake_delta_loops E (epoch clk) rent_payer rent start max_secs delta vs) (\<lambda>_.
        all_went_ok))))))))))))"

section \<open>The schedule\<close>

definition LAST_SLOTS_UNSAFE_MARGIN :: u64 where
  "LAST_SLOTS_UNSAFE_MARGIN = 32"

text \<open>
  \<open>process_transaction_sequence(simulate, builder.combined_sequence())\<close>: the transactions are built
  one by one and it stops at the first error. \<open>n\<close> bounds the number of transactions; every one
  takes a pack out of the builder.
\<close>

fun process_sequence :: "nat \<Rightarrow> ('s, 'c) bot_env \<Rightarrow> ('s, 'c, bool) bot_run" where
  "process_sequence 0 E = returnB True"
| "process_sequence (Suc n) E =
     thenB (on_builder (\<lambda>_. RpcPanic) (build_next_combined (be_lib E))) (\<lambda>t.
     case t of
       None \<Rightarrow> returnB True
     | Some p \<Rightarrow> thenB (from_outside (cl_process (be_client E) (be_simulate E) p)) (\<lambda>ok.
         if ok then process_sequence n E else returnB False))"

definition process_all :: "('s, 'c) bot_env \<Rightarrow> ('s, 'c, bool) bot_run" where
  "process_all E s = process_sequence (Suc (length (instruction_packs (bt_builder s)))) E s"

text \<open>A result that is only logged: errors are dropped, a panic still ends the run.\<close>

definition logged :: "('s, 'c, 'a) bot_run \<Rightarrow> ('s, 'c, unit) bot_run" where
  "logged m s = (case m s of
       (Inl RpcPanic, s') \<Rightarrow> (Inl RpcPanic, s') | (_, s') \<Rightarrow> (Inr (), s'))"

definition scored_count :: "validator_record list \<Rightarrow> u32" where
  "scored_count vs = word_of_nat (length (filter (\<lambda>v. score v > 0) vs))"

definition ask_extra_runs ::
  "('s, 'c) bot_env \<Rightarrow> u64 \<Rightarrow> u64 \<Rightarrow> u32 \<Rightarrow> ('s, 'c, unit) bot_run" where
  "ask_extra_runs E now_slot window_start scored =
     thenB (reads (\<lambda>st _. Inr (stake_system st))) (\<lambda>ss.
     if extra_stake_delta_runs ss < scored
     then thenB (addB window_start (slots_for_stake_delta ss div 2)) (\<lambda>half_window.
          if now_slot > half_window
          then thenB (call_helper E (HConfigValidatorSystem (be_fee_payer E) scored)) (\<lambda>_.
               logged (process_all E))
          else returnB ())
     else returnB ())"

definition work_in_window ::
  "('s, 'c) bot_env \<Rightarrow> nat \<Rightarrow> u32 \<Rightarrow> u64 \<Rightarrow> u64 \<Rightarrow> u32 \<Rightarrow> int \<Rightarrow> ('s, 'c, unit) bot_run" where
  "work_in_window E start max_secs now_slot window_start scored delta =
     thenB (reads (\<lambda>st _. Inr (uint (min_stake (stake_system st))))) (\<lambda>least.
     if delta = 0 \<or> (delta > 0 \<and> delta < least) then returnB ()
     else
       thenB (ask_extra_runs E now_slot window_start scored) (\<lambda>_.
       thenB (logged (stake_delta_bot E None start max_secs)) (\<lambda>_.
       refresh E)))"

definition work_before_window ::
  "('s, 'c) bot_env \<Rightarrow> nat \<Rightarrow> nat \<Rightarrow> u64 \<Rightarrow> u64 \<Rightarrow> u64 \<Rightarrow> ('s, 'c, unit) bot_run" where
  "work_before_window E start max_secs now_slot first_slot last_slot =
     thenB (addB last_slot first_slot) (\<lambda>both.
     thenB (if now_slot < both div 2
            then thenB (logged (update_price E)) (\<lambda>_. refresh E) else returnB ()) (\<lambda>_.
     thenB (elapsed_secs E start) (\<lambda>secs.
     let remaining = max_secs - secs in
     if remaining > 10 then logged (merge_bot E remaining) else returnB ())))"

definition do_work :: "('s, 'c) bot_env \<Rightarrow> 16 word \<Rightarrow> ('s, 'c, unit) bot_run" where
  "do_work E max_run_minutes =
     thenB (from_outside (cl_now (be_client E))) (\<lambda>start.
     thenB (read_clock E) (\<lambda>clk.
     thenB (reads (\<lambda>_ c. ok_or (cl_slots (be_client E) c) RpcFailed)) (\<lambda>slots.
     thenB (read_validators E) (\<lambda>validators.
     thenB (read_delta E) (\<lambda>delta.
     thenB (reads (\<lambda>st _. Inr (slots_for_stake_delta (stake_system st)))) (\<lambda>window.
     let first_slot = fst slots (epoch clk); last_slot = snd slots (epoch clk);
         window_start = saturating_sub last_slot window in
     thenB (if slot clk > window_start
            then thenB (subB last_slot LAST_SLOTS_UNSAFE_MARGIN) (\<lambda>window_end.
              if slot clk < window_end
              then work_in_window E start (ucast max_run_minutes * 60) (slot clk) window_start
                (scored_count validators) delta
              else returnB ())
            else returnB ()) (\<lambda>_.
     if slot clk < window_start
     then work_before_window E start (unat max_run_minutes * 60) (slot clk) first_slot last_slot
     else returnB ())))))))"

section \<open>What a run costs\<close>

text \<open>
  \<open>f\<close> counts processed transactions in the world outside: processing one adds at most one, reading
  the time or making a key adds none.
\<close>

definition counts_transactions :: "('s, 'c) bot_env \<Rightarrow> ('c \<Rightarrow> nat) \<Rightarrow> bool" where
  "counts_transactions E f \<longleftrightarrow>
     (\<forall>t c. f (snd (cl_process (be_client E) (be_simulate E) t c)) \<le> Suc (f c))
     \<and> (\<forall>c. f (snd (cl_now (be_client E) c)) \<le> f c)
     \<and> (\<forall>c. f (snd (cl_new_keypair (be_client E) c)) \<le> f c)"

definition costs :: "('c \<Rightarrow> nat) \<Rightarrow> nat \<Rightarrow> ('s, 'c, 'a) bot_run \<Rightarrow> bool" where
  "costs f n m \<longleftrightarrow> (\<forall>s. f (bt_world (snd (m s))) \<le> f (bt_world s) + n)"

lemma costsD: "costs f n m \<Longrightarrow> m s = (r, s') \<Longrightarrow> f (bt_world s') \<le> f (bt_world s) + n"
  unfolding costs_def by (metis snd_conv)

lemma costs_mono: "costs f n m \<Longrightarrow> n \<le> n' \<Longrightarrow> costs f n' m"
  by (auto simp: costs_def intro: le_trans)

lemma costs_thenB:
  assumes "costs f n m" and "\<And>x. costs f n' (g x)"
  shows "costs f (n + n') (thenB m g)"
  unfolding costs_def
proof
  fix s
  obtain r s1 where m: "m s = (r, s1)" by (cases "m s")
  note a = costsD [OF assms(1) m]
  show "f (bt_world (snd (thenB m g s))) \<le> f (bt_world s) + (n + n')"
  proof (cases r)
    case (Inl e)
    then show ?thesis using a by (simp add: thenB_def m)
  next
    case (Inr x)
    have "f (bt_world (snd (g x s1))) \<le> f (bt_world s1) + n'" using assms(2) by (simp add: costs_def)
    then show ?thesis using a by (simp add: thenB_def m Inr)
  qed
qed

lemma costs_free:
  "costs f 0 (returnB x)" "costs f 0 (failB e)" "costs f 0 (reads g)" "costs f 0 (on_builder e' b)"
  "costs f 0 (count_tx ok)" "costs f 0 reset_counts" "costs f 0 (call_helper E h)" "costs f 0 (refresh E)"
  "costs f 0 all_went_ok" "costs f 0 (addB m n)"
  by (auto simp: costs_def returnB_def failB_def reads_def on_builder_def count_tx_def reset_counts_def addB_def
      call_helper_def refresh_def all_went_ok_def split: prod.splits option.splits)

lemma costs_from_outside: "(\<And>c. f (snd (g c)) \<le> f c + n) \<Longrightarrow> costs f n (from_outside g)"
  by (simp add: costs_def from_outside_def split: prod.splits) (metis snd_conv)

lemma costs_then_free:
  "costs f n m \<Longrightarrow> (\<And>x. costs f 0 (g x)) \<Longrightarrow> costs f n (thenB m g)"
  "costs f 0 m \<Longrightarrow> (\<And>x. costs f n (g x)) \<Longrightarrow> costs f n (thenB m g)"
  using costs_thenB [of f n m 0 g] costs_thenB [of f 0 m n g] by simp_all

lemma costs_reads:
  "costs f 0 (read_clock E)" "costs f 0 (read_delta E)" "costs f 0 (read_validators E)"
  "costs f 0 (read_stakes_reversed E)" "costs f 0 (check_rent_payer E p)"
  by (simp_all add: read_clock_def read_delta_def read_validators_def read_stakes_reversed_def
      check_rent_payer_def costs_free)

lemma costs_elapsed:
  assumes "counts_transactions E f"
  shows "costs f 0 (elapsed_secs E start)" "costs f 0 (goes_on E start max_secs n)"
proof -
  show e: "costs f 0 (elapsed_secs E start)"
    unfolding elapsed_secs_def using assms
    by (intro costs_then_free(1) costs_from_outside) (auto simp: counts_transactions_def costs_free)
  show "costs f 0 (goes_on E start max_secs n)"
    unfolding goes_on_def by (simp add: costs_free costs_then_free(1) [OF e])
qed

lemma costs_send:
  assumes "counts_transactions E f" and "costs f 0 m"
  shows "costs f 1 (send E m)"
  unfolding send_def
  by (intro costs_then_free(2) [OF costs_free(4)] costs_then_free(2) [OF assms(2)]
      costs_then_free(1) [OF costs_from_outside] costs_free(5))
    (use assms(1) in \<open>simp add: counts_transactions_def\<close>)

lemma costs_fill:
  assumes "counts_transactions E f"
  shows "costs f 0 (stake_into E rent v)" "costs f 0 (unstake_one E p v info)"
  using assms unfolding stake_into_def unstake_one_def
  by (intro costs_then_free(1) costs_from_outside costs_free; simp add: counts_transactions_def)+

section \<open>The limit\<close>

lemma thenB_returnB [simp]: "thenB (returnB x) g = g x"
  by (simp add: thenB_def returnB_def fun_eq_iff)

lemma limit_next:
  assumes "unat n < unat (be_limit E)"
  shows "unat (n + 1) = Suc (unat n)" and "limit_reached E (n + 1) \<longleftrightarrow> unat (n + 1) = unat (be_limit E)"
    and "addB n 1 = returnB (n + 1)"
proof -
  have "unat (be_limit E) < 2 ^ LENGTH(32)" by (rule unsigned_less)
  then have "unat n + unat (1::u32) < 2 ^ LENGTH(32)" using assms by simp
  from unat_add_le [OF this] show a: "unat (n + 1) = Suc (unat n)" by simp
  show "limit_reached E (n + 1) \<longleftrightarrow> unat (n + 1) = unat (be_limit E)"
    using assms a by (auto simp: limit_reached_def word_le_nat_alt word_less_nat_alt)
  show "addB n 1 = returnB (n + 1)"
    using \<open>unat n + unat (1::u32) < _\<close>
    by (simp add: addB_def reads_def add_or_panic_def checked_add_def ok_or_def returnB_def fun_eq_iff)
qed

lemma stake_loop_costs:
  assumes "counts_transactions E f" and "unat n < unat (be_limit E)"
  shows "costs f (unat (be_limit E) - unat n) (stake_loop E now rent start max_secs n vs)"
  using assms(2)
proof (induction vs arbitrary: n)
  case Nil
  then show ?case using costs_mono [OF costs_free(1)] by simp
next
  case (Cons v vs)
  let ?l = "unat (be_limit E)"
  note next_n = limit_next [OF Cons.prems]
  let ?rest = "\<lambda>go. if go then stake_loop E now rent start max_secs (n + 1) vs else returnB ()"
  have "costs f (?l - unat (n + 1)) (thenB (goes_on E start max_secs (n + 1)) ?rest)"
  proof (cases "limit_reached E (n + 1)")
    case True
    then show ?thesis by (simp add: goes_on_def costs_mono [OF costs_free(1)])
  next
    case False
    then have "unat (n + 1) < ?l" using next_n Cons.prems by linarith
    from Cons.IH [OF this] show ?thesis
      by (intro costs_then_free(2) [OF costs_elapsed(2) [OF assms(1)]])
        (simp add: costs_mono [OF costs_free(1)])
  qed
  then have "costs f (1 + (?l - unat (n + 1))) (thenB (send E (stake_into E rent v)) (\<lambda>_.
      thenB (refresh E) (\<lambda>_. thenB (goes_on E start max_secs (n + 1)) ?rest)))"
    by (intro costs_thenB costs_send [OF assms(1)] costs_fill(1) [OF assms(1)]
        costs_then_free(2) [OF costs_free(8)])
  then have one: "costs f (?l - unat n) (thenB (send E (stake_into E rent v)) (\<lambda>_.
      thenB (refresh E) (\<lambda>_. thenB (goes_on E start max_secs (n + 1)) ?rest)))"
    by (rule costs_mono) (use next_n Cons.prems in linarith)
  show ?case
    unfolding stake_loop.simps
    by (intro costs_then_free(2) [OF costs_free(3)])
      (simp add: next_n(3) Cons.IH [OF Cons.prems] costs_then_free(2) [OF costs_reads(2)]
        costs_mono [OF costs_free(1)] one)
qed

text \<open>The stakes of a validator: the new count says how many transactions there were.\<close>

fun counted_result :: "('c \<Rightarrow> nat) \<Rightarrow> nat \<Rightarrow> nat \<Rightarrow> nat \<Rightarrow> (rpc_error + u32 \<times> u64) \<times> ('s, 'c) bot \<Rightarrow> bool" where
  "counted_result f l n k (Inl e, s) \<longleftrightarrow> f (bt_world s) \<le> k + (l - n)"
| "counted_result f l n k (Inr (n', x), s) \<longleftrightarrow> n \<le> unat n' \<and> unat n' \<le> l \<and> f (bt_world s) + n \<le> k + unat n'"

definition counted :: "('c \<Rightarrow> nat) \<Rightarrow> nat \<Rightarrow> u32 \<Rightarrow> ('s, 'c, u32 \<times> u64) bot_run \<Rightarrow> bool" where
  "counted f l n m \<longleftrightarrow> (\<forall>s. counted_result f l (unat n) (f (bt_world s)) (m s))"

lemma counted_return: "unat n \<le> l \<Longrightarrow> counted f l n (returnB (n, x))"
  by (simp add: counted_def returnB_def)

lemma counted_later:
  assumes "counted_result f l n1 k1 rs" and "k1 \<le> k + j" and "n1 = n + j" and "n1 \<le> l"
  shows "counted_result f l n k rs"
proof -
  obtain r s where rs: "rs = (r, s)" by (cases rs)
  show ?thesis using assms unfolding rs by (cases r) auto
qed

lemma counted_then:
  assumes "costs f j m" and "\<And>x. counted f l n1 (g x)" and "unat n1 = unat n + j" and "unat n1 \<le> l"
  shows "counted f l n (thenB m g)"
  unfolding counted_def
proof
  fix s
  obtain r s1 where m: "m s = (r, s1)" by (cases "m s")
  have a: "f (bt_world s1) \<le> f (bt_world s) + j" by (rule costsD [OF assms(1) m])
  show "counted_result f l (unat n) (f (bt_world s)) (thenB m g s)"
  proof (cases r)
    case (Inl e)
    then show ?thesis using a assms(3,4) by (simp add: thenB_def m)
  next
    case (Inr x)
    have "counted_result f l (unat n1) (f (bt_world s1)) (g x s1)" using assms(2) by (simp add: counted_def)
    from counted_later [OF this a assms(3,4)] show ?thesis by (simp add: thenB_def m Inr)
  qed
qed

lemma unstake_stakes_counted:
  assumes "counts_transactions E f" and "unat n < unat (be_limit E)"
  shows "counted f (unat (be_limit E)) n (unstake_stakes E p v target n unstaked left infos)"
  using assms(2)
proof (induction infos arbitrary: n unstaked left)
  case Nil
  then show ?case by (simp add: counted_return)
next
  case (Cons info infos)
  note next_n = limit_next [OF Cons.prems]
  have last: "counted f (unat (be_limit E)) (n + 1) (thenB (refresh E) (\<lambda>_.
      if limit_reached E (n + 1) then returnB (n + 1, unstaked)
      else unstake_stakes E p v target (n + 1) unstaked left infos))" for unstaked left
    by (rule counted_then [OF costs_free(8)])
      (use Cons.IH [of "n + 1"] Cons.prems next_n(1,2) in \<open>auto simp: counted_return\<close>)
  have rest: "counted f (unat (be_limit E)) (n + 1) (thenB (addB unstaked est) (\<lambda>unstaked. thenB (refresh E) (\<lambda>_.
      if limit_reached E (n + 1) then returnB (n + 1, unstaked)
      else unstake_stakes E p v target (n + 1) unstaked (saturating_sub left est) infos)))" for est
    by (rule counted_then [OF costs_free(10) last]) (use Cons.prems next_n(1) in simp_all)
  show ?case
    using counted_then [OF costs_send [OF assms(1) costs_fill(2) [OF assms(1)]] rest] Cons.prems next_n(1)
    by (simp add: counted_return next_n(3) Let_def)
qed

lemma counted_costs:
  assumes "counted f l n m" and "\<And>n' x. unat n \<le> unat n' \<Longrightarrow> unat n' \<le> l \<Longrightarrow> costs f (l - unat n') (g (n', x))"
  shows "costs f (l - unat n) (thenB m g)"
  unfolding costs_def
proof
  fix s
  obtain r s1 where m: "m s = (r, s1)" by (cases "m s")
  have c: "counted_result f l (unat n) (f (bt_world s)) (r, s1)" using assms(1) m by (metis counted_def)
  show "f (bt_world (snd (thenB m g s))) \<le> f (bt_world s) + (l - unat n)"
  proof (cases r)
    case (Inl e)
    then show ?thesis using c by (simp add: thenB_def m)
  next
    case (Inr nx)
    obtain n' x where nx: "nx = (n', x)" by (cases nx)
    have k: "unat n \<le> unat n'" "unat n' \<le> l" "f (bt_world s1) + unat n \<le> f (bt_world s) + unat n'"
      using c by (simp_all add: Inr nx)
    have "f (bt_world (snd (g (n', x) s1))) \<le> f (bt_world s1) + (l - unat n')"
      using assms(2) [of n' x] k by (simp add: costs_def)
    then have "f (bt_world (snd (g (n', x) s1))) \<le> f (bt_world s) + (l - unat n)" using k by linarith
    then show ?thesis by (simp add: thenB_def m Inr nx)
  qed
qed

lemma unstake_loop_costs:
  assumes "counts_transactions E f" and "unat n < unat (be_limit E)"
  shows "costs f (unat (be_limit E) - unat n)
    (unstake_loop E now p infos total_to start max_secs n unstaked vs)"
  using assms(2)
proof (induction vs arbitrary: n unstaked)
  case Nil
  then show ?case using costs_mono [OF costs_free(1)] by simp
next
  case (Cons v vs)
  let ?l = "unat (be_limit E)"
  let ?rest = "\<lambda>n' un go. if go then unstake_loop E now p infos total_to start max_secs n' un vs
    else returnB ()"
  have rest: "costs f (?l - unat n') (thenB (goes_on E start max_secs n') (?rest n' un))"
    if "unat n' \<le> ?l" for n' un
  proof (cases "limit_reached E n'")
    case True
    then show ?thesis by (simp add: goes_on_def costs_mono [OF costs_free(1)])
  next
    case False
    then have "unat n' < ?l"
      using Cons.prems by (auto simp: limit_reached_def word_le_nat_alt word_less_nat_alt not_le)
    from Cons.IH [OF this] show ?thesis
      by (intro costs_then_free(2) [OF costs_elapsed(2) [OF assms(1)]])
        (simp add: costs_mono [OF costs_free(1)])
  qed
  have one: "costs f (?l - unat n) (thenB
      (unstake_stakes E p v target n 0 target (active_stakes v infos)) (\<lambda>(n', more).
      thenB (addB unstaked more) (\<lambda>un. thenB (goes_on E start max_secs n') (?rest n' un))))" for target
    by (intro counted_costs [OF unstake_stakes_counted [OF assms(1) Cons.prems]])
      (simp add: costs_then_free(2) [OF costs_free(10) rest])
  show ?case
    unfolding unstake_loop.simps
    by (simp add: Let_def Cons.IH [OF Cons.prems] costs_then_free(2) [OF costs_reads(2)]
        costs_mono [OF costs_free(1)] one)
qed

section \<open>Properties\<close>

text \<open>
  C40. The limit holds: with a limit of \<open>n\<close> transactions, one run of the stake delta has at most
  \<open>n\<close> transactions processed, whatever they do, whether they fail and however the run ends
  (done, out of time, with an error or a panic).
\<close>
theorem stake_delta_within_limit:
  assumes "counts_transactions E f" and "be_limit E > 0"
    and "stake_delta_bot E payer_option start max_secs s = (r, s')"
  shows "f (bt_world s') \<le> f (bt_world s) + unat (be_limit E)"
proof -
  have l: "unat (0::u32) < unat (be_limit E)" using assms(2) by (simp add: word_less_nat_alt)
  have loops: "costs f (unat (be_limit E)) (stake_delta_loops E now p rent start max_secs delta vs)" for now p rent delta vs
    using stake_loop_costs [OF assms(1) l] unstake_loop_costs [OF assms(1) l]
    unfolding stake_delta_loops_def by (auto intro: costs_then_free(2) [OF costs_reads(4)])
  have "costs f (unat (be_limit E)) (stake_delta_bot E payer_option start max_secs)"
    unfolding stake_delta_bot_def Let_def
    by (intro costs_then_free(2) [OF costs_reads(5)] costs_then_free(2) [OF costs_free(4)]
        costs_then_free(2) [OF costs_free(3)] costs_then_free(2) [OF costs_reads(1)]
        costs_then_free(2) [OF costs_reads(2)])
      (auto simp: costs_mono [OF costs_free(1)] intro!: costs_then_free(2) [OF costs_free(3)]
        costs_then_free(2) [OF costs_reads(3)] costs_then_free(2) [OF costs_free(6)]
        costs_then_free(1) [OF loops costs_free(9)])
  from costsD [OF this assms(3)] show ?thesis .
qed

text \<open>
  Outside its two windows the bot keeps still: from the start of the stake-delta window until it opens
  and in the last 32 slots of the epoch, where a transaction could be processed in the next
  epoch, a run sends nothing, reads no account again and changes nothing of the bot's state.
\<close>
lemma do_work_keeps_still:
  assumes "cl_now (be_client E) (bt_world s) = (start, c)"
    and "cl_clock (be_client E) c = Some clk" and "cl_slots (be_client E) c = Some (first_slot, last_slot)"
    and "rpc_validator_list (be_client E) (be_rt E) (bt_state s) c = Inr vs"
    and "reserve_address (be_rt E) (be_key E) (bt_state s) = Inr k"
    and "cl_balance (be_client E) k c = Some balance" and "stake_delta (bt_state s) balance = Inr delta"
    and "saturating_sub (last_slot (epoch clk)) (slots_for_stake_delta (stake_system (bt_state s))) \<le> slot clk"
    and "slot clk = saturating_sub (last_slot (epoch clk)) (slots_for_stake_delta (stake_system (bt_state s)))
      \<or> 32 \<le> last_slot (epoch clk) \<and> last_slot (epoch clk) - 32 \<le> slot clk"
  shows "do_work E minutes s = (Inr (), s\<lparr>bt_world := c\<rparr>)"
  using assms by (auto simp: do_work_def thenB_def from_outside_def read_clock_def reads_def read_validators_def
      read_delta_def ok_or_def map_result_def map_error_def returnB_def Let_def LAST_SLOTS_UNSAFE_MARGIN_def
      subB_def checked_sub_def not_less)

text \<open>
  The bound of \<open>process_all\<close> is enough: every transaction takes a pack out of the builder, so with one
  call more than there are packs the sequence ends because it is empty, or at an error.
\<close>

lemma build_next_combined_packs:
  assumes "build_next_combined L b = (Inr (Some t), b')"
  shows "length (instruction_packs b') < length (instruction_packs b)"
proof (cases "instruction_packs b")
  case Nil
  then show ?thesis using assms by (simp add: build_next_combined_def split: if_splits)
next
  case (Cons p ps)
  obtain tx ds rest where c: "combine_loop (tx_size L (fee_payer b)) (max_transaction_size b) (map fst p)
      (map snd p) ps = (tx, ds, rest)" by (metis prod_cases3)
  then have "length rest \<le> length ps" by (rule combine_loop_split) simp
  then show ?thesis using assms Cons c
    by (auto simp: build_next_combined_def prepare_def split: if_splits sum.splits)
qed

lemma process_sequence_more:
  assumes "length (instruction_packs (bt_builder s)) < n"
  shows "process_sequence (n + k) E s = process_sequence n E s"
  using assms
proof (induction n arbitrary: s)
  case (Suc n)
  show ?case
  proof (cases "build_next_combined (be_lib E) (bt_builder s)")
    case (Pair r b)
    show ?thesis
    proof (cases r)
      case (Inr t)
      show ?thesis
      proof (cases t)
        case (Some p)
        have "length (instruction_packs b) < n"
          using build_next_combined_packs Pair Inr Some Suc.prems by fastforce
        then show ?thesis using Pair Inr Some Suc.IH
          by (simp add: thenB_def on_builder_def map_error_def from_outside_def split: prod.splits)
      qed (simp add: Pair Inr thenB_def on_builder_def map_error_def returnB_def)
    qed (simp add: Pair thenB_def on_builder_def map_error_def)
  qed
qed simp

section \<open>Runs\<close>

lemma stake_delta_within_limit_witness:
  "snd (bt_world (snd (stake_delta_bot ex_bot_env None 0 600 ex_bot))) \<le> 1"
proof -
  have c: "counts_transactions ex_bot_env snd"
    by (simp add: counts_transactions_def ex_bot_client_def)
  have l: "be_limit ex_bot_env > 0" by simp
  obtain r s' where "stake_delta_bot ex_bot_env None 0 600 ex_bot = (r, s')"
    by (cases "stake_delta_bot ex_bot_env None 0 600 ex_bot")
  from stake_delta_within_limit [OF c l this] this show ?thesis by simp
qed

text \<open>Ten slots before the end of the epoch.\<close>

lemma do_work_keeps_still_witness:
  "do_work (ex_bot_env\<lparr>be_client := ex_bot_client\<lparr>cl_clock := (\<lambda>c. Some (ex_clock\<lparr>slot := 43631989\<rparr>))\<rparr>\<rparr>) 9 ex_bot
    = (Inr (), ex_bot\<lparr>bt_world := (ex_world, 0)\<rparr>)"
proof -
  let ?E = "ex_bot_env\<lparr>be_client := ex_bot_client\<lparr>cl_clock := (\<lambda>c. Some (ex_clock\<lparr>slot := 43631989\<rparr>))\<rparr>\<rparr>"
  have "reads_chain (be_client ?E) (ex_world, 0) ex_world"
    by (simp add: reads_chain_def answers_each_def ex_bot_client_def)
  from lists_read(1) [OF ref.marinade_runtime_axioms this ex_held] obtain vcap where
    v: "rpc_validator_list (be_client ?E) ref_rt ex_state (ex_world, 0) = Inr (ex_validators, vcap)" by blast
  have n: "cl_now (be_client ?E) (bt_world ex_bot) = (0, (ex_world, 0))" by (simp add: ex_bot_client_def)
  have c: "cl_clock (be_client ?E) (ex_world, 0) = Some (ex_clock\<lparr>slot := 43631989\<rparr>)" by simp
  have e: "cl_slots (be_client ?E) (ex_world, 0) = Some (\<lambda>e. e * 432000, \<lambda>e. e * 432000 + 431999)"
    by (simp add: ex_bot_client_def)
  have k: "reserve_address (be_rt ?E) (be_key ?E) (bt_state ex_bot) = Inr ex_reserve" by simp
  have b: "cl_balance (be_client ?E) ex_reserve (ex_world, 0) = Some 2339280"
    by (simp add: ex_bot_client_def ex_world_def)
  have d: "stake_delta (bt_state ex_bot) 2339280 = Inr 400000" by (simp add: stake_delta_correct delta_spec_def Let_def)
  have v': "rpc_validator_list (be_client ?E) (be_rt ?E) (bt_state ex_bot) (ex_world, 0) = Inr (ex_validators, vcap)"
    using v by simp
  show ?thesis
    by (rule do_work_keeps_still [OF n c e v' k b d]) (simp_all add: saturating_sub_def)
qed

end
