(* ===== verification/Manager.thy ===== *)
theory Manager
  imports BotAims BotDelta
begin

text \<open>
  The validator manager's commands (\<open>cli/validator-manager/src\<close>): adding and removing validators,
  unstaking from one at once, asking for extra runs, and updating the scores from a file. Printing is left
  out. What the theory shows is about the indices again: \<open>remove_validators.rs\<close> removes from the last
  to the first, \<open>update_scores.rs\<close> does not.
\<close>

section \<open>Common steps\<close>

text \<open>\<open>--validator-manager-authority\<close> and \<open>--rent-payer\<close>, each the fee payer if it is not given.\<close>

definition or_fee_payer :: "('s, 'c) bot_env \<Rightarrow> 's option \<Rightarrow> 's" where
  "or_fee_payer E k = (case k of Some s \<Rightarrow> s | None \<Rightarrow> be_fee_payer E)"

text \<open>\<open>process_transaction_sequence(...)?\<close>.\<close>

definition process_or_fail :: "('s, 'c) bot_env \<Rightarrow> ('s, 'c, unit) bot_run" where
  "process_or_fail E = thenB (process_all E) (\<lambda>ok. if ok then returnB () else failB RpcFailed)"

fun call_all :: "('s, 'c) bot_env \<Rightarrow> 's helper_call list \<Rightarrow> ('s, 'c, unit) bot_run" where
  "call_all E [] = returnB ()"
| "call_all E (h # hs) = thenB (call_helper E h) (\<lambda>_. call_all E hs)"

section \<open>Removing validators\<close>

text \<open>The filter with the \<open>HashSet\<close> of the given votes, run from the back by \<open>rev\<close>.\<close>

fun named_validators :: "pubkey set \<Rightarrow> (nat \<times> validator_record) list \<Rightarrow> (nat \<times> validator_record) list" where
  "named_validators to_remove [] = []"
| "named_validators to_remove ((i, v) # ivs) =
     (if validator_account v \<in> to_remove
      then let more = named_validators (to_remove - {validator_account v}) ivs in
           if active_balance v > 0 then more else (i, v) # more
      else named_validators to_remove ivs)"

definition validators_to_remove :: "pubkey list \<Rightarrow> validator_record list \<Rightarrow> (nat \<times> validator_record) list" where
  "validators_to_remove votes vs =
     (if votes = [] then rev (filter (\<lambda>(i, v). active_balance v = 0) (enumerate 0 vs))
      else named_validators (set votes) (rev (enumerate 0 vs)))"

definition removal :: "'s \<Rightarrow> nat \<times> validator_record \<Rightarrow> 's helper_call" where
  "removal manager iv = HRemoveValidator manager (word_of_nat (fst iv)) (validator_account (snd iv))"

definition remove_validators :: "('s, 'c) bot_env \<Rightarrow> 's option \<Rightarrow> pubkey list \<Rightarrow> ('s, 'c, unit) bot_run" where
  "remove_validators E manager votes =
     thenB (read_validators E) (\<lambda>vs.
     thenB (call_all E (map (removal (or_fee_payer E manager)) (validators_to_remove votes vs))) (\<lambda>_.
     process_or_fail E))"

section \<open>Adding validators\<close>

text \<open>One validator: a score for a listed one without, else a new entry if there is room; \<open>n\<close> counts the added.\<close>

definition add_one ::
  "('s, 'c) bot_env \<Rightarrow> 's \<Rightarrow> 's \<Rightarrow> validator_record list \<Rightarrow> u32 \<Rightarrow> nat \<Rightarrow> pubkey \<Rightarrow> ('s, 'c, nat) bot_run" where
  "add_one E manager rent_payer vs max_validators n key =
     (case validator_indices vs key of
        Some i \<Rightarrow>
          if score (vs ! unat i) = 0
          then thenB (call_helper E (HSetValidatorScore manager i key 0x100)) (\<lambda>_. returnB n)
          else returnB n
      | None \<Rightarrow>
          if length vs + n \<ge> unat max_validators then returnB n
          else thenB (call_helper E (HAddValidator manager key 0x100 rent_payer)) (\<lambda>_. returnB (n + 1)))"

fun add_each ::
  "('s, 'c) bot_env \<Rightarrow> 's \<Rightarrow> 's \<Rightarrow> validator_record list \<Rightarrow> u32 \<Rightarrow> nat \<Rightarrow> pubkey option list \<Rightarrow> ('s, 'c, unit) bot_run" where
  "add_each E manager rent_payer vs max_validators n [] = returnB ()"
| "add_each E manager rent_payer vs max_validators n (k # ks) =
     (case k of None \<Rightarrow> failB RpcRefused
      | Some key \<Rightarrow> thenB (add_one E manager rent_payer vs max_validators n key) (\<lambda>n'.
          add_each E manager rent_payer vs max_validators n' ks))"

definition read_validators_max :: "('s, 'c) bot_env \<Rightarrow> ('s, 'c, validator_record list \<times> u32) bot_run" where
  "read_validators_max E = reads (\<lambda>st c. rpc_validator_list (be_client E) (be_rt E) st c)"

text \<open>
  Without votes all current vote accounts of the cluster are added; \<open>vote_accounts\<close> is the client's answer
  with their parsed keys.
\<close>

definition add_validators ::
  "('s, 'c) bot_env \<Rightarrow> 's option \<Rightarrow> 's option \<Rightarrow> ('c \<Rightarrow> pubkey option list option) \<Rightarrow> pubkey list
    \<Rightarrow> ('s, 'c, unit) bot_run" where
  "add_validators E manager rent_payer vote_accounts votes =
     thenB (check_rent_payer E (or_fee_payer E rent_payer)) (\<lambda>_.
     thenB (read_validators_max E) (\<lambda>(vs, max_validators).
     thenB (if votes = [] then reads (\<lambda>_ c. ok_or (vote_accounts c) RpcFailed)
            else returnB (map Some votes)) (\<lambda>keys.
     thenB (add_each E (or_fee_payer E manager) (or_fee_payer E rent_payer) vs max_validators 0 keys) (\<lambda>_.
     process_or_fail E))))"

section \<open>Emergency unstake and extra runs\<close>

text \<open>The active stakes of the validator; one that is not delegated panics.\<close>

fun emergency_calls :: "'s \<Rightarrow> pubkey \<Rightarrow> u32 \<Rightarrow> stake_info list \<Rightarrow> rpc_error + 's helper_call list" where
  "emergency_calls manager vote i [] = Inr []"
| "emergency_calls manager vote i (info # infos) =
     bindR (ok_or (stake_delegation (si_stake info)) RpcPanic) (\<lambda>d.
     bindR (emergency_calls manager vote i infos) (\<lambda>hs.
     Inr (if voter_pubkey d = vote \<and> deactivation_epoch d = -1
          then HEmergencyUnstake manager (stake_account (si_record info)) (si_index info) i # hs else hs)))"

definition emergency_unstake_command ::
  "('s, 'c) bot_env \<Rightarrow> 's option \<Rightarrow> pubkey \<Rightarrow> bool \<Rightarrow> ('s, 'c, unit) bot_run" where
  "emergency_unstake_command E manager vote remove =
     (let m = or_fee_payer E manager in
      thenB (read_validators E) (\<lambda>vs.
      thenB (reads (\<lambda>_ _. ok_or (validator_position vs vote) RpcRefused)) (\<lambda>i.
      thenB (call_helper E (HSetValidatorScore m i vote 0)) (\<lambda>_.
      thenB (process_or_fail E) (\<lambda>_.
      thenB (read_stakes_reversed E) (\<lambda>infos.
      thenB (reads (\<lambda>_ _. emergency_calls m vote i infos)) (\<lambda>hs.
      thenB (call_all E hs) (\<lambda>_.
      thenB (process_or_fail E) (\<lambda>_.
      if remove
      then thenB (call_helper E (HRemoveValidator m i vote)) (\<lambda>_. process_or_fail E)
      else returnB ())))))))))"

definition config_validator_system_command ::
  "('s, 'c) bot_env \<Rightarrow> 's option \<Rightarrow> u32 \<Rightarrow> ('s, 'c, unit) bot_run" where
  "config_validator_system_command E manager extra_runs =
     thenB (check_rent_payer E (be_fee_payer E)) (\<lambda>_.
     thenB (call_helper E (HConfigValidatorSystem (or_fee_payer E manager) extra_runs)) (\<lambda>_.
     process_or_fail E))"

section \<open>Updating the scores\<close>

text \<open>
  A record of the file, as far as it decides what is sent. Two of its fields are \<open>f64\<close>s, of which
  only comparisons count: \<open>vsc_unstaked\<close> is \<open>marinade_staked == 0.0\<close>, \<open>vsc_staked\<close> is
  \<open>marinade_staked > 0.0\<close>, \<open>vsc_small\<close> is \<open>avg_active_stake < 100.0\<close>.
\<close>

record validator_score =
  vsc_score :: u32
  vsc_vote_address :: string
  vsc_remove_level :: u8
  vsc_unstaked :: bool
  vsc_staked :: bool
  vsc_small :: bool

text \<open>\<open>parse\<close> is \<open>Pubkey::from_str\<close>, \<open>show\<close> is \<open>to_string\<close>. The counters are of what was changed.\<close>

record 's score_env =
  sce_manager :: 's
  sce_rent_payer :: 's
  sce_parse :: "string \<Rightarrow> pubkey option"
  sce_show :: "pubkey \<Rightarrow> string"
  sce_one_by_one :: bool
  sce_show_all :: bool
  sce_show_changes :: bool
  sce_no_control_report :: bool

record score_counts =
  scc_added :: nat
  scc_updated :: nat
  scc_removed :: nat

definition after_call :: "('s, 'c) bot_env \<Rightarrow> 's score_env \<Rightarrow> 's helper_call \<Rightarrow> ('s, 'c, unit) bot_run" where
  "after_call E S h = thenB (call_helper E h) (\<lambda>_. if sce_one_by_one S then process_or_fail E else returnB ())"

definition score_changed :: "u32 \<Rightarrow> u32 \<Rightarrow> bool" where
  "score_changed new cur \<longleftrightarrow> new < ucast ((ucast cur :: u64) * 95 div 100) \<or> new > ucast ((ucast cur :: u64) * 105 div 100)"

text \<open>What is printed about a change divides by the total score, which panics if that is 0.\<close>

definition shows_info :: "'s score_env \<Rightarrow> u32 \<Rightarrow> validator_score \<Rightarrow> bool" where
  "shows_info S cur v \<longleftrightarrow> sce_show_all S \<or> (sce_show_changes S \<and> vsc_score v \<noteq> cur)
     \<or> (sce_show_changes S \<and> vsc_remove_level v > 0)"

text \<open>
  A change of less than 5% is ignored: the record then takes the current score, which the control
  report shows later.
\<close>

definition update_listed ::
  "('s, 'c) bot_env \<Rightarrow> 's score_env \<Rightarrow> u64 \<Rightarrow> validator_record list \<Rightarrow> pubkey \<Rightarrow> u32 \<Rightarrow> validator_score \<Rightarrow> score_counts
    \<Rightarrow> ('s, 'c, score_counts \<times> validator_score) bot_run" where
  "update_listed E S total_score vs vote i v k =
     (let cur_score = score (vs ! unat i) in
      thenB (if score_changed (vsc_score v) cur_score
             then if shows_info S cur_score v \<and> total_score = 0 then failB RpcPanic
                  else thenB (after_call E S (HSetValidatorScore (sce_manager S) i vote (vsc_score v)))
                    (\<lambda>_. returnB (k\<lparr>scc_updated := scc_updated k + 1\<rparr>, v))
             else returnB (k, v\<lparr>vsc_score := cur_score\<rparr>)) (\<lambda>(k, v).
      if vsc_remove_level v \<ge> 2 \<and> vsc_unstaked v \<and> (vsc_remove_level v \<ge> 3 \<or> vsc_small v)
      then thenB (after_call E S (HRemoveValidator (sce_manager S) i vote))
             (\<lambda>_. returnB (k\<lparr>scc_removed := scc_removed k + 1\<rparr>, v))
      else returnB (k, v)))"

definition add_unlisted ::
  "('s, 'c) bot_env \<Rightarrow> 's score_env \<Rightarrow> validator_record list \<Rightarrow> u32 \<Rightarrow> pubkey \<Rightarrow> validator_score \<Rightarrow> score_counts
    \<Rightarrow> ('s, 'c, score_counts) bot_run" where
  "add_unlisted E S vs max_validators vote v k =
     (if vsc_remove_level v \<ge> 3 \<or> (vsc_remove_level v > 1 \<and> vsc_small v) then returnB k
      else if length vs + scc_added k \<ge> unat max_validators then returnB k
      else thenB (after_call E S (HAddValidator (sce_manager S) vote (vsc_score v) (sce_rent_payer S)))
             (\<lambda>_. returnB (k\<lparr>scc_added := scc_added k + 1\<rparr>)))"

text \<open>The loop over the records of the file; they come back with the scores they then have.\<close>

fun update_each ::
  "('s, 'c) bot_env \<Rightarrow> 's score_env \<Rightarrow> u64 \<Rightarrow> validator_record list \<Rightarrow> u32 \<Rightarrow> validator_score list \<Rightarrow> score_counts
    \<Rightarrow> ('s, 'c, score_counts \<times> validator_score list) bot_run" where
  "update_each E S total_score vs max_validators [] k = returnB (k, [])"
| "update_each E S total_score vs max_validators (v # scores) k =
     (case sce_parse S (vsc_vote_address v) of
        None \<Rightarrow> failB RpcRefused
      | Some vote \<Rightarrow>
          thenB (case validator_indices vs vote of
              Some i \<Rightarrow> update_listed E S total_score vs vote i v k
            | None \<Rightarrow> thenB (add_unlisted E S vs max_validators vote v k) (\<lambda>k. returnB (k, v))) (\<lambda>(k, v).
          thenB (update_each E S total_score vs max_validators scores k) (\<lambda>(k, scores).
          returnB (k, v # scores))))"

definition active_stake_of :: "validator_record \<Rightarrow> stake_info \<Rightarrow> bool" where
  "active_stake_of v info = (case stake_delegation (si_stake info) of None \<Rightarrow> False
     | Some d \<Rightarrow> deactivation_epoch d = -1 \<and> voter_pubkey d = validator_account v)"

definition stake_with :: "stake_info list \<Rightarrow> validator_record \<Rightarrow> rpc_error + u64" where
  "stake_with stakes v =
     sum_or_panic (map (\<lambda>info. last_update_delegated_lamports (si_record info)) (filter (active_stake_of v) stakes))"

definition in_file :: "(pubkey \<Rightarrow> string) \<Rightarrow> validator_score list \<Rightarrow> validator_record \<Rightarrow> bool" where
  "in_file shw scores v \<longleftrightarrow> list_ex (\<lambda>s. vsc_vote_address s = shw (validator_account v)) scores"

text \<open>The loop over the listed validators: those that are not in the file and have no active stake are removed.\<close>

fun remove_unscored ::
  "('s, 'c) bot_env \<Rightarrow> 's score_env \<Rightarrow> validator_score list \<Rightarrow> stake_info list \<Rightarrow> validator_record list
    \<Rightarrow> validator_record list \<Rightarrow> score_counts \<Rightarrow> ('s, 'c, score_counts) bot_run" where
  "remove_unscored E S scores stakes listed [] k = returnB k"
| "remove_unscored E S scores stakes listed (v # vs) k =
     (if in_file (sce_show S) scores v then remove_unscored E S scores stakes listed vs k
      else thenB (reads (\<lambda>_ _. stake_with stakes v)) (\<lambda>sum_stake.
        if sum_stake = 0
        then thenB (after_call E S (HRemoveValidator (sce_manager S)
               (the (validator_indices listed (validator_account v))) (validator_account v))) (\<lambda>_.
             remove_unscored E S scores stakes listed vs (k\<lparr>scc_removed := scc_removed k + 1\<rparr>))
        else remove_unscored E S scores stakes listed vs k))"

text \<open>The control report reads the stake delta, and divides by the total score for each record it prints.\<close>

definition control_report ::
  "('s, 'c) bot_env \<Rightarrow> 's score_env \<Rightarrow> u64 \<Rightarrow> validator_score list \<Rightarrow> ('s, 'c, unit) bot_run" where
  "control_report E S total_score scores =
     (if sce_no_control_report S then returnB ()
      else thenB (read_delta E) (\<lambda>_.
        if total_score = 0 \<and> list_ex (\<lambda>v. vsc_staked v \<or> vsc_score v > 0) scores then failB RpcPanic
        else returnB ()))"

definition update_scores ::
  "('s, 'c) bot_env \<Rightarrow> 's score_env \<Rightarrow> validator_score list \<Rightarrow> ('s, 'c, unit) bot_run" where
  "update_scores E S file =
     (let scores = sort_key (\<lambda>v. - uint (vsc_score v)) file in
      thenB (reads (\<lambda>_ _. sum_or_panic (map (\<lambda>v. ucast (vsc_score v)) scores))) (\<lambda>total_score.
      thenB (check_rent_payer E (sce_rent_payer S)) (\<lambda>_.
      thenB (read_validators_max E) (\<lambda>(vs, max_validators).
      thenB (read_stakes E) (\<lambda>stakes.
      thenB (update_each E S total_score vs max_validators scores \<lparr>scc_added = 0, scc_updated = 0, scc_removed = 0\<rparr>)
        (\<lambda>(k, scores).
      thenB (remove_unscored E S scores stakes vs vs k) (\<lambda>k.
      thenB (control_report E S total_score scores) (\<lambda>_.
      if \<not> sce_one_by_one S \<and> (scc_added k \<noteq> 0 \<or> scc_updated k \<noteq> 0 \<or> scc_removed k \<noteq> 0)
      then process_or_fail E else returnB ()))))))))"

section \<open>Indices\<close>

definition removed :: "(nat \<times> validator_record) list \<Rightarrow> validator_record list \<Rightarrow> validator_record list" where
  "removed ivs vs = fold (\<lambda>(j, _) l. swap_remove l j) ivs vs"

definition falling :: "(nat \<times> validator_record) list \<Rightarrow> bool" where
  "falling ivs \<longleftrightarrow> sorted_wrt (\<lambda>a b. fst b < fst a) ivs"

lemma removed_below:
  assumes "\<forall>(j, v) \<in> set ivs. m \<le> j" and "falling ivs" and "\<forall>(j, v) \<in> set ivs. j < length vs" and "m \<le> length vs"
  shows "m \<le> length (removed ivs vs) \<and> (\<forall>i < m. removed ivs vs ! i = vs ! i)"
  using assms
proof (induction ivs arbitrary: vs)
  case Nil
  then show ?case by (simp add: removed_def)
next
  case (Cons jv ivs)
  obtain j v where jv: "jv = (j, v)" by (cases jv)
  have j: "m \<le> j" "j < length vs" using Cons.prems by (simp_all add: jv)
  have "m \<le> length (removed ivs (swap_remove vs j)) \<and> (\<forall>i < m. removed ivs (swap_remove vs j) ! i = swap_remove vs j ! i)"
    by (rule Cons.IH) (use Cons.prems j in \<open>auto simp: jv falling_def\<close>)
  moreover have "swap_remove vs j ! i = vs ! i" if "i < m" for i
    using that j by (simp add: swap_remove_nth)
  ultimately show ?case by (simp add: removed_def jv)
qed

lemma named_validators_sub: "set (named_validators S ivs) \<subseteq> {(i, v) \<in> set ivs. active_balance v = 0 \<and> validator_account v \<in> S}"
  by (induction S ivs rule: named_validators.induct) (auto simp: Let_def word_gt_0)

lemma named_validators_falling: "falling ivs \<Longrightarrow> falling (named_validators S ivs)"
proof (induction S ivs rule: named_validators.induct)
  case (2 S i v ivs)
  then show ?case
    using named_validators_sub [of "S - {validator_account v}" ivs]
    by (auto simp: falling_def Let_def)
qed (simp add: falling_def)

lemma validators_to_remove_from:
  "falling (validators_to_remove votes vs)"
  "(i, v) \<in> set (validators_to_remove votes vs) \<Longrightarrow> i < length vs \<and> vs ! i = v \<and> active_balance v = 0
    \<and> (votes = [] \<or> validator_account v \<in> set votes)"
proof -
  have "sorted_wrt (\<lambda>a b. fst a < fst b) (enumerate 0 vs)"
    by (simp add: sorted_wrt_iff_nth_less nth_enumerate_eq)
  then have e: "falling (rev (enumerate 0 vs))" by (simp add: falling_def sorted_wrt_rev)
  show "falling (validators_to_remove votes vs)"
    using e named_validators_falling [OF e] sorted_wrt_filter [OF e [unfolded falling_def], of "\<lambda>(i, v). active_balance v = 0"]
    by (simp add: validators_to_remove_def falling_def rev_filter)
  show "(i, v) \<in> set (validators_to_remove votes vs) \<Longrightarrow> i < length vs \<and> vs ! i = v \<and> active_balance v = 0
    \<and> (votes = [] \<or> validator_account v \<in> set votes)"
    using named_validators_sub [of "set votes" "rev (enumerate 0 vs)"]
    by (auto simp: validators_to_remove_def in_set_enumerate_eq split: if_splits)
qed

text \<open>
  Removing validators keeps its aim: each removal that the command sends has, when all earlier
  ones have been carried out, the validator it names at its index; that validator has no
  stake, and it is one of those named in the command unless all without stake are meant.
\<close>
lemma removals_keep_aim:
  assumes "validators_to_remove votes vs = earlier @ (i, v) # later"
  shows "i < length (removed earlier vs) \<and> removed earlier vs ! i = v \<and> active_balance v = 0
    \<and> (votes = [] \<or> validator_account v \<in> set votes)"
proof -
  have f: "falling (earlier @ (i, v) # later)" using validators_to_remove_from(1) [of votes vs] assms by simp
  have v: "i < length vs" "vs ! i = v" "active_balance v = 0" "votes = [] \<or> validator_account v \<in> set votes"
    using validators_to_remove_from(2) [of i v votes vs] assms by auto
  have "\<forall>(j, u) \<in> set earlier. Suc i \<le> j" using f by (auto simp: falling_def sorted_wrt_append)
  moreover have "falling earlier" using f by (simp add: falling_def sorted_wrt_append)
  moreover have "\<forall>(j, u) \<in> set earlier. j < length vs"
    using validators_to_remove_from(2) [of _ _ votes vs] assms by auto
  ultimately have "Suc i \<le> length (removed earlier vs) \<and> (\<forall>j < Suc i. removed earlier vs ! j = vs ! j)"
    by (rule removed_below) (use v in simp)
  then show ?thesis using v by simp
qed

text \<open>
  \<open>update_scores\<close> removes from the first to the last: if the last validator of the list and any other are to be
  removed, the index of the last is out of range when its turn comes.
\<close>

lemma length_removed: "ivs \<noteq> [] \<Longrightarrow> vs \<noteq> [] \<Longrightarrow> length (removed ivs vs) < length vs"
proof -
  have le: "length (removed ivs vs) \<le> length vs" for ivs vs
  proof (induction ivs arbitrary: vs)
    case (Cons ju ivs)
    have "removed (ju # ivs) vs = removed ivs (swap_remove vs (fst ju))" by (simp add: removed_def split_beta)
    then show ?case using Cons [of "swap_remove vs (fst ju)"] by simp
  qed (simp add: removed_def)
  assume "ivs \<noteq> []" "vs \<noteq> []"
  then obtain j u ivs' where i: "ivs = (j, u) # ivs'" by (cases ivs) auto
  have "length (removed ivs vs) \<le> length (swap_remove vs j)"
    using le [of ivs' "swap_remove vs j"] by (simp add: i removed_def)
  then show ?thesis using \<open>vs \<noteq> []\<close> by (cases vs) simp_all
qed

text \<open>What the loop removes, with the index it uses, when no sum overflows.\<close>

definition unscored ::
  "(pubkey \<Rightarrow> string) \<Rightarrow> validator_score list \<Rightarrow> stake_info list \<Rightarrow> validator_record list \<Rightarrow> validator_record list
    \<Rightarrow> (u32 \<times> pubkey) list" where
  "unscored shw scores stakes listed vs =
     map (\<lambda>v. (the (validator_indices listed (validator_account v)), validator_account v))
       (filter (\<lambda>v. \<not> in_file shw scores v \<and> stake_with stakes v = Inr 0) vs)"

lemma thenB_reads_Inr [simp]: "thenB (reads (\<lambda>_ _. Inr x)) g = g x"
  by (simp add: thenB_def reads_def fun_eq_iff)

lemma remove_unscored_calls:
  assumes "\<forall>v \<in> set vs. \<exists>n. stake_with stakes v = Inr n"
  shows "remove_unscored E S scores stakes listed vs k = foldr (\<lambda>(i, vote) run k.
      thenB (after_call E S (HRemoveValidator (sce_manager S) i vote)) (\<lambda>_. run (k\<lparr>scc_removed := scc_removed k + 1\<rparr>)))
    (unscored (sce_show S) scores stakes listed vs) returnB k"
  using assms
proof (induction vs arbitrary: k)
  case Nil
  then show ?case by (simp add: unscored_def)
next
  case (Cons v vs)
  then obtain n where "stake_with stakes v = Inr n" by auto
  then show ?case using Cons by (simp add: unscored_def)
qed

lemma unscored_index_stale:
  assumes "unscored shw scores stakes vs vs = earlier @ [(i, vote)]" and "earlier \<noteq> []" and "unat i = length vs - 1"
  shows "unat i \<ge> length (removed (map (\<lambda>(j, k). (unat j, vs ! unat j)) earlier) vs)"
proof -
  have "vs \<noteq> []" using assms(1) by (auto simp: unscored_def)
  then show ?thesis using length_removed [of "map (\<lambda>(j, k). (unat j, vs ! unat j)) earlier" vs] assms(2,3) by simp
qed

section \<open>Runs\<close>

lemma removals_keep_aim_witness:
  "validators_to_remove [] (ex_validators @ [(ex_validators ! 0)\<lparr>active_balance := 0\<rparr>])
     = [(2, (ex_validators ! 0)\<lparr>active_balance := 0\<rparr>)] @ (1, ex_validators ! 1) # []
   \<and> removed [(2, (ex_validators ! 0)\<lparr>active_balance := 0\<rparr>)]
      (ex_validators @ [(ex_validators ! 0)\<lparr>active_balance := 0\<rparr>]) ! 1 = ex_validators ! 1"
proof -
  have r: "validators_to_remove [] (ex_validators @ [(ex_validators ! 0)\<lparr>active_balance := 0\<rparr>])
     = [(2, (ex_validators ! 0)\<lparr>active_balance := 0\<rparr>)] @ (1, ex_validators ! 1) # []"
    by (simp add: validators_to_remove_def ex_validators_def)
  from removals_keep_aim [OF r] r show ?thesis by simp
qed

end
