(* ===== verification/Spec2Isabelle.thy ===== *)
theory Spec2Isabelle
  imports Findings System ValidatorCycle InitBuilder Registry Manager
begin

text \<open>
  Verification of the Marinade liquid-staking program, of the client library and the tools that run it,
  and of the registry of the delegation program. Paths are relative to the repository's root; \<open>mf\<close>
  stands for \<open>marinade-anchor/programs/marinade-finance/src\<close>.

  \<^bold>\<open>The program and its parts.\<close> Users deposit SOL for mSOL, trade mSOL back through a liquidity pool or
  through a delayed ticket; permissionless cranks stake the reserve, split, merge and
  deactivate stakes and book rewards; an admin and a validator manager set parameters and the list of validators.
  All instructions share one \<open>State\<close> account, two packed lists of records (validators and stakes) in
  accounts of their own, and the accounts of the token, stake and system programs.

  \<^item> \<open>Prelude\<close>, \<open>Solana\<close>: words with Rust's checked, saturating and panicking operators, results as sums
    (\<open>bindR\<close> is \<open>?\<close>; a panic is the error \<open>Panic\<close>, since either aborts the transaction), accounts, the world,
    the instructions to other programs and the record \<open>runtime\<close> of all outside code.
  \<^item> \<open>Calc\<close>, \<open>RecordList\<close>, \<open>StakeSystem\<close>, \<open>ValidatorSystem\<close>, \<open>LiqPool\<close>, \<open>MarinadeState\<close>: \<open>mf/calc.rs\<close>, \<open>list.rs\<close>,
    \<open>stake_system.rs\<close>, \<open>validator_system.rs\<close>, \<open>liq_pool.rs\<close>, \<open>state.rs\<close>, with \<open>checks.rs\<close> and \<open>error.rs\<close> in \<open>Solana\<close>. The
    list works on bytes; \<open>list_rep\<close> says which records the bytes hold.
  \<^item> \<open>Deposit\<close>, \<open>LiquidUnstake\<close>, \<open>Tickets\<close>, \<open>Liquidity\<close>, \<open>Validators\<close>, \<open>Admin\<close>, \<open>StakeReserve\<close>, \<open>DeactivateStake\<close>,
    \<open>EmergencyMerge\<close>, \<open>DepositStake\<close>, \<open>Update\<close>: the handlers (\<open>mf/state/*.rs\<close>, \<open>stake_system/*.rs\<close>, \<open>validator_system/*.rs\<close>,
    \<open>liq_pool/*.rs\<close>), one function each: the checks of the Anchor attributes, the guards in the code's order, every
    call to another program, every change of the state and of the lists.
  \<^item> \<open>System\<close>: the entry points of \<open>mf/lib.rs\<close> as one \<open>dispatch\<close>, and the reachable situations of an
    instance: steps are instructions of anybody with any accounts and changes by other
    programs between them. \<open>Frame\<close> and \<open>Books\<close> show what each handler leaves alone and that both lists stay well-formed.
  \<^item> \<open>ValidatorCycle\<close>, \<open>Findings\<close>: sequences of instructions; behaviour that cannot be meant.
  \<^item> \<open>TxBuilder\<close>, \<open>Sdk\<close>, \<open>Helpers\<close>, \<open>InitBuilder\<close>: the client side, \<open>sdk/offchain-common/src\<close> (transaction and signature
    builder), \<open>sdk/onchain/src/lib.rs\<close>, \<open>sdk/offchain/src/instruction_helpers.rs\<close> and its \<open>initialize.rs\<close>. The
    SDK's functions yield the very instructions that \<open>dispatch\<close> takes.
  \<^item> \<open>RpcView\<close>, \<open>Bot\<close>, \<open>BotDelta\<close>, \<open>BotAims\<close>, \<open>Manager\<close>: \<open>cli/cli-common/src/rpc_marinade.rs\<close>, \<open>cli/bot-cli/src\<close>
    and \<open>cli/validator-manager/src\<close>: runs that read the instance, build transactions with the helpers
    and send them. A run is a function of the bot's state (its builder, the state it read last, the world
    outside) to an error or a value and the new state.
  \<^item> \<open>Registry\<close>: \<open>stake-o-matic/program/src\<close> on the bytes of its accounts and the registrations of \<open>stake-o-matic/cli\<close>.

  \<^bold>\<open>Interfaces.\<close> \<open>codec\<close> is what the list needs of a record's serialisation; it is a
  \<open>record_store\<close>, the contract that the stake and validator systems use, and Borsh's
  layout of both records is proved to be one (\<open>Borsh\<close>). \<open>marinade_runtime\<close> (\<open>Runtime\<close>) names what the
  program relies on of outside code: token, stake and system instructions move what their documentation
  says, leave the accounts of this program alone and derive addresses. \<open>RefRuntime\<close> interprets it with
  executable programs, on which the witnesses run (\<open>Examples\<close>). \<open>client_library\<close> names what the transaction builder
  relies on: a message is signed by its payer and its signers.

  \<^bold>\<open>What is shown.\<close> Of the exchange: deposits never dilute, unstaking through the pool costs the fee and never
  lowers the pool's value, tickets are covered by the circulating balance, are paid once, not before they
  are due, and can be claimed from the time on that the documentation promises (the code pays earlier). Of the cranks: what is staked, deactivated, merged and updated is booked in the lists
  and balances, the price of mSOL falls only with a loss of stake. Of the whole: settings change only for the admin,
  parameters stay in range in every reachable situation, and both lists stay well-formed as long as \<open>update_active\<close>
  is called with the program's own validator list, which the program does not check. Exact bookings of a stake
  suppose that its recorded amount is part of its validator's active balance, where the code subtracts saturating. Of the client:
  every instruction has its signers, packs are combined into the fewest transactions that fit, in order and
  completely, and the combining ends. Of the tools: what is read is what the chain holds, batches
  change nothing, no transaction of a run is sent with an index that an earlier one made wrong, and
  the limit on transactions holds. Of the registry: nobody is registered or
  approved without their and the admin's consent, and the registration runs through.

  \<^bold>\<open>Bounds and fuel.\<close> Integers keep their width; exact statements are about \<open>unat\<close>. Sums panic on overflow, in the
  program and in the tools (\<open>overflow-checks\<close>); only the registry's wrap, as its workspace has no such profile. No loop needs fuel for
  its result: the list loops and the batches of stakes terminate by measures. \<open>combined_sequence\<close>, an iterator, takes the number of its
  calls as an argument: one more than the number of packs is enough (\<open>combined_sequence_ends\<close>,
  \<open>process_sequence_more\<close>), since each call takes a pack out.

  \<^bold>\<open>Left out.\<close> Anchor's generated (de)serialisation of accounts and arguments, whose results are the records of
  the model (the client's encoder is a parameter); compute limits and rent collection; logging and printing; argument parsing and
  the RPC client, a parameter that answers or fails. What is computed with \<open>f64\<close> (scores, averages, progress) has
  no faithful type in HOL: of such values only the comparisons that decide what is sent are taken as inputs.
  So \<open>score-post-process\<close>, \<open>marstat\<close> and the classification of \<open>stake-o-matic/bot\<close> are not modelled. The
  reflection library and the tests are second models of the program for testing it.
\<close>

end
